(* ===== verification/Prelude.thy ===== *)
theory Prelude
  imports Complex_Main "HOL-Library.Char_ord" "HOL-Library.List_Lexorder" "HOL-Library.Product_Lexorder"
begin

text \<open>
  Shared ground of the development: Python values as they come out of a JSON document,
  the few Python built-ins the sources apply to them, SQLite tables as lists of rows with
  the SELECT, UPDATE and DELETE forms the stores use, and the generic transition-system
  locale in which every invariant of a component is lifted to its runs.
\<close>

named_theorems table_simps \<open>lengths, keys and membership of updated tables\<close>

section \<open>Python values\<close>

text \<open>A Python float: a finite value, an infinity or NaN.\<close>

datatype pyfloat = Fin rat | PosInf | NegInf | NaN

text \<open>
  The values \<open>json.loads\<close> returns.  A \<open>dict\<close> is the list of its items in insertion
  order.  Text is the list of its UTF-8 bytes.
\<close>

datatype json =
    JNull
  | JBool bool
  | JInt int
  | JFloat pyfloat
  | JStr string
  | JList "json list"
  | JObj "(string \<times> json) list"

type_synonym dict = "(string \<times> json) list"

text \<open>\<open>d.get(k)\<close>: a missing key and a stored \<open>None\<close> both give \<open>None\<close>.\<close>

definition dict_get :: "dict \<Rightarrow> string \<Rightarrow> json" where
  "dict_get d k = (case map_of d k of None \<Rightarrow> JNull | Some v \<Rightarrow> v)"

text \<open>\<open>d.get(k, default)\<close>, and \<open>d[k]\<close> where \<open>d\<close> must be a dictionary.\<close>

definition dict_get_default :: "dict \<Rightarrow> string \<Rightarrow> json \<Rightarrow> json" where
  "dict_get_default d k v = (case map_of d k of None \<Rightarrow> v | Some w \<Rightarrow> w)"

text \<open>\<open>d[k] = v\<close>: an existing key keeps its position.\<close>

fun dict_set :: "string \<Rightarrow> json \<Rightarrow> dict \<Rightarrow> dict" where
  "dict_set k v [] = [(k, v)]"
| "dict_set k v ((k', v') # d) = (if k = k' then (k, v) # d else (k', v') # dict_set k v d)"

text \<open>\<open>{**d, **e}\<close>: the later entry wins.\<close>

definition dict_merge :: "dict \<Rightarrow> dict \<Rightarrow> dict" where
  "dict_merge d e = fold (\<lambda>(k, v). dict_set k v) e d"

text \<open>\<open>d.pop(k)\<close>, as the remaining dictionary.\<close>

definition dict_del :: "string \<Rightarrow> dict \<Rightarrow> dict" where
  "dict_del k d = filter (\<lambda>(k', v). k' \<noteq> k) d"

text \<open>Python's truth value of an object.\<close>

fun truthy :: "json \<Rightarrow> bool" where
  "truthy JNull = False"
| "truthy (JBool b) = b"
| "truthy (JInt i) = (i \<noteq> 0)"
| "truthy (JFloat f) = (f \<noteq> Fin 0)"
| "truthy (JStr s) = (s \<noteq> [])"
| "truthy (JList xs) = (xs \<noteq> [])"
| "truthy (JObj d) = (d \<noteq> [])"

text \<open>\<open>x or y\<close>.\<close>

definition py_or :: "json \<Rightarrow> json \<Rightarrow> json" where
  "py_or x y = (if truthy x then x else y)"

text \<open>The empty string is false, so \<open>s or None\<close> and \<open>s or t\<close> on optional text.\<close>

definition text_or :: "string option \<Rightarrow> string \<Rightarrow> string" where
  "text_or s t = (case s of None \<Rightarrow> t | Some x \<Rightarrow> (if x = [] then t else x))"

definition opt_json :: "string option \<Rightarrow> json" where
  "opt_json s = (case s of None \<Rightarrow> JNull | Some x \<Rightarrow> JStr x)"

text \<open>
  The length of a text in code points and its slice \<open>s[:n]\<close>: UTF-8 continuation bytes
  (128 to 191) belong to the code point before them.
\<close>

definition is_cont :: "char \<Rightarrow> bool" where
  "is_cont c \<longleftrightarrow> 128 \<le> (of_char c :: nat) \<and> (of_char c :: nat) < 192"

definition py_len :: "string \<Rightarrow> nat" where
  "py_len s = length (filter (\<lambda>c. \<not> is_cont c) s)"

fun py_take :: "nat \<Rightarrow> string \<Rightarrow> string" where
  "py_take n [] = []"
| "py_take n (c # cs) =
     (if is_cont c then c # py_take n cs
      else (case n of 0 \<Rightarrow> [] | Suc m \<Rightarrow> c # py_take m cs))"

text \<open>The decimal digits \<open>str(n)\<close> prints for a natural number.\<close>

fun nat_str :: "nat \<Rightarrow> string" where
  "nat_str n = (if n < 10 then [char_of (48 + n)] else nat_str (n div 10) @ [char_of (48 + n mod 10)])"

declare nat_str.simps [simp del]

definition int_str :: "int \<Rightarrow> string" where
  "int_str i = (if i < 0 then CHR ''-'' # nat_str (nat (- i)) else nat_str (nat i))"

text \<open>ASCII white space, \<open>str.strip()\<close> on it, and \<open>int(text)\<close>: sign, digits, single underscores between digits.\<close>

definition is_space :: "char \<Rightarrow> bool" where
  "is_space c \<longleftrightarrow> (of_char c :: nat) \<in> {9, 10, 11, 12, 13, 28, 29, 30, 31, 32}"

definition py_strip :: "string \<Rightarrow> string" where
  "py_strip s = rev (dropWhile is_space (rev (dropWhile is_space s)))"

definition is_digit :: "char \<Rightarrow> bool" where
  "is_digit c \<longleftrightarrow> 48 \<le> (of_char c :: nat) \<and> (of_char c :: nat) \<le> 57"

text \<open>\<open>[A-Za-z0-9_.:-]{1,255}\<close>, the references on the wire between the Worker and the centre.\<close>

definition is_alnum :: "char \<Rightarrow> bool" where
  "is_alnum c \<longleftrightarrow> is_digit c \<or> 65 \<le> (of_char c :: nat) \<and> (of_char c :: nat) \<le> 90 \<or>
     97 \<le> (of_char c :: nat) \<and> (of_char c :: nat) \<le> 122"

definition ref_char :: "char \<Rightarrow> bool" where
  "ref_char c \<longleftrightarrow> is_alnum c \<or> c \<in> {CHR ''_'', CHR ''.'', CHR '':'', CHR ''-''}"

definition safe_ref :: "string \<Rightarrow> bool" where
  "safe_ref s \<longleftrightarrow> 1 \<le> length s \<and> length s \<le> 255 \<and> list_all ref_char s"

fun parse_digits :: "nat \<Rightarrow> bool \<Rightarrow> string \<Rightarrow> nat option" where
  "parse_digits acc prev [] = (if prev then Some acc else None)"
| "parse_digits acc prev (c # cs) =
     (if is_digit c then parse_digits (10 * acc + (of_char c - 48)) True cs
      else if c = CHR ''_'' \<and> prev then parse_digits acc False cs
      else None)"

definition parse_int :: "string \<Rightarrow> int option" where
  "parse_int s = (case py_strip s of
       [] \<Rightarrow> None
     | c # cs \<Rightarrow>
         (if c = CHR ''-'' then map_option (\<lambda>n. - int n) (parse_digits 0 False cs)
          else if c = CHR ''+'' then map_option int (parse_digits 0 False cs)
          else map_option int (parse_digits 0 False (c # cs))))"

text \<open>\<open>s.split(c)\<close> on one character, and \<open>s.rsplit(c, 1)[0]\<close>: the text before the last occurrence.\<close>

fun split_on :: "char \<Rightarrow> string \<Rightarrow> string list" where
  "split_on x [] = [[]]"
| "split_on x (c # cs) =
     (case split_on x cs of
        [] \<Rightarrow> []
      | w # ws \<Rightarrow> (if c = x then [] # w # ws else (c # w) # ws))"

definition before_last :: "char \<Rightarrow> string \<Rightarrow> string" where
  "before_last x s = (if x \<in> set s then rev (drop 1 (dropWhile (\<lambda>c. c \<noteq> x) (rev s))) else s)"

section \<open>POSIX paths\<close>

text \<open>
  \<open>pathlib.PurePosixPath\<close>: a root (none, one slash, or exactly two) and the parts between
  slashes without the empty ones and the dots; a parent drops the last part and the parent
  of a path without parts is the path itself.
\<close>

type_synonym ppath = "string \<times> string list"

definition path_root :: "string \<Rightarrow> string" where
  "path_root s =
     (if take 1 s \<noteq> ''/'' then ''''
      else if take 1 (drop 1 s) \<noteq> ''/'' \<or> take 1 (drop 2 s) = ''/'' then ''/'' else ''//'')"

definition parse_path :: "string \<Rightarrow> ppath" where
  "parse_path s =
     (path_root s, filter (\<lambda>x. x \<noteq> [] \<and> x \<noteq> ''.'') (split_on CHR ''/'' (drop (length (path_root s)) s)))"

fun join_with :: "string \<Rightarrow> string list \<Rightarrow> string" where
  "join_with sep [] = []"
| "join_with sep [x] = x"
| "join_with sep (x # xs) = x @ sep @ join_with sep xs"

definition path_str :: "ppath \<Rightarrow> string" where
  "path_str p = (if fst p = [] \<and> snd p = [] then ''.'' else fst p @ join_with ''/'' (snd p))"

definition path_parent :: "ppath \<Rightarrow> ppath" where
  "path_parent p = (fst p, butlast (snd p))"

definition path_name :: "ppath \<Rightarrow> string" where
  "path_name p = (if snd p = [] then '''' else last (snd p))"

definition path_is_absolute :: "ppath \<Rightarrow> bool" where
  "path_is_absolute p \<longleftrightarrow> fst p \<noteq> []"

definition rstrip_char :: "char \<Rightarrow> string \<Rightarrow> string" where
  "rstrip_char c s = rev (dropWhile (\<lambda>x. x = c) (rev s))"

section \<open>Results\<close>

text \<open>
  The exceptions the modelled code raises: the API-facing training errors by their code
  (their human-readable message and the read-only \<open>current\<close> projection are left out), the
  Worker's command errors by their code and its cancellation, and Python's own exceptions.
\<close>

datatype py_error =
    Forbidden string
  | NotFound string
  | Conflict string
  | Validation string
  | ExecutionError string
  | ValueError string
  | KeyError string
  | TypeError
  | AttributeError
  | IntegrityError
  | AssertionError
  | PermissionError string
  | RuntimeError string
  | CommandError string
  | TransferCancelled
  | ClientError string
  | OSError

type_synonym 'a res = "py_error + 'a"

definition is_ok :: "'a res \<Rightarrow> bool" where
  "is_ok r = (case r of Inl _ \<Rightarrow> False | Inr _ \<Rightarrow> True)"

definition rbind :: "'a res \<Rightarrow> ('a \<Rightarrow> 'b res) \<Rightarrow> 'b res" where
  "rbind m f = (case m of Inl e \<Rightarrow> Inl e | Inr a \<Rightarrow> f a)"

lemma rbind_simps [simp]:
  "rbind (Inl e) f = Inl e"
  "rbind (Inr a) f = f a"
  by (simp_all add: rbind_def)

lemma rbind_eq_Inr: "rbind m f = Inr b \<longleftrightarrow> (\<exists>a. m = Inr a \<and> f a = Inr b)"
  by (cases m) simp_all

text \<open>
  Code that changes a state and may raise on the way: an exception keeps what was done before
  it, unlike in a transaction.
\<close>

type_synonym ('a, 's) stateful = "'s \<Rightarrow> 'a res \<times> 's"

definition sret :: "'a \<Rightarrow> ('a, 's) stateful" where
  "sret x s = (Inr x, s)"

definition sfail :: "py_error \<Rightarrow> ('a, 's) stateful" where
  "sfail e s = (Inl e, s)"

definition sbind :: "('a, 's) stateful \<Rightarrow> ('a \<Rightarrow> ('b, 's) stateful) \<Rightarrow> ('b, 's) stateful" where
  "sbind m f s = (case m s of (Inl e, s') \<Rightarrow> (Inl e, s') | (Inr x, s') \<Rightarrow> f x s')"

definition slift :: "'a res \<Rightarrow> ('a, 's) stateful" where
  "slift r s = (r, s)"

text \<open>\<open>if b: raise e\<close>.\<close>

definition refuse :: "bool \<Rightarrow> py_error \<Rightarrow> (unit, 's) stateful" where
  "refuse b e = (if b then sfail e else sret ())"

text \<open>\<open>d[k]\<close>, attribute access that needs a dictionary, and \<open>list(x)\<close>.\<close>

definition dict_item :: "dict \<Rightarrow> string \<Rightarrow> json res" where
  "dict_item d k = (case map_of d k of None \<Rightarrow> Inl (KeyError k) | Some v \<Rightarrow> Inr v)"

fun as_dict :: "json \<Rightarrow> dict res" where
  "as_dict (JObj d) = Inr d"
| "as_dict _ = Inl AttributeError"

fun py_list :: "json \<Rightarrow> json list res" where
  "py_list (JList xs) = Inr xs"
| "py_list (JObj d) = Inr (map (\<lambda>(k, v). JStr k) d)"
| "py_list (JStr s) = Inr (map (\<lambda>c. JStr [c]) s)"
| "py_list _ = Inl TypeError"

text \<open>The loop \<open>for x in xs\<close> over a fallible body that threads a state.\<close>

fun rfold :: "('a \<Rightarrow> 's \<Rightarrow> 's res) \<Rightarrow> 'a list \<Rightarrow> 's \<Rightarrow> 's res" where
  "rfold f [] s = Inr s"
| "rfold f (x # xs) s = rbind (f x s) (rfold f xs)"

fun rmap :: "('a \<Rightarrow> 'b res) \<Rightarrow> 'a list \<Rightarrow> 'b list res" where
  "rmap f [] = Inr []"
| "rmap f (x # xs) = rbind (f x) (\<lambda>y. rbind (rmap f xs) (\<lambda>ys. Inr (y # ys)))"

text \<open>\<open>int(x)\<close>: floats are truncated towards zero.\<close>

fun py_int :: "json \<Rightarrow> int res" where
  "py_int (JInt i) = Inr i"
| "py_int (JBool b) = Inr (if b then 1 else 0)"
| "py_int (JFloat (Fin q)) = Inr (if 0 \<le> q then \<lfloor>q\<rfloor> else \<lceil>q\<rceil>)"
| "py_int (JFloat _) = Inl (ValueError ''cannot convert float to integer'')"
| "py_int (JStr s) = (case parse_int s of None \<Rightarrow> Inl (ValueError ''invalid literal for int()'') | Some i \<Rightarrow> Inr i)"
| "py_int _ = Inl TypeError"

section \<open>SQL tables\<close>

text \<open>
  A table is the list of its rows in \<open>rowid\<close> order.  \<open>UPDATE ... WHERE\<close> rewrites the
  matching rows in place, \<open>DELETE\<close> drops them, \<open>fetchone\<close> takes the first row of a
  result.  \<open>ORDER BY\<close> is a stable sort.
\<close>

definition sql_update :: "('r \<Rightarrow> bool) \<Rightarrow> ('r \<Rightarrow> 'r) \<Rightarrow> 'r list \<Rightarrow> 'r list" where
  "sql_update P f t = map (\<lambda>r. if P r then f r else r) t"

definition sql_delete :: "('r \<Rightarrow> bool) \<Rightarrow> 'r list \<Rightarrow> 'r list" where
  "sql_delete P t = filter (\<lambda>r. \<not> P r) t"

definition fetchone :: "'r list \<Rightarrow> 'r option" where
  "fetchone rs = (case rs of [] \<Rightarrow> None | r # _ \<Rightarrow> Some r)"

definition rowcount :: "('r \<Rightarrow> bool) \<Rightarrow> 'r list \<Rightarrow> nat" where
  "rowcount P t = length (filter P t)"

definition order_by :: "('r \<Rightarrow> 'k::linorder) \<Rightarrow> 'r list \<Rightarrow> 'r list" where
  "order_by k t = sort_key k t"

text \<open>\<open>COALESCE(MAX(col),0)+1\<close>, and the next key of an AUTOINCREMENT table without deletions.\<close>

fun max0 :: "nat list \<Rightarrow> nat" where
  "max0 [] = 0"
| "max0 (n # ns) = max n (max0 ns)"

definition next_id :: "nat list \<Rightarrow> nat" where
  "next_id ns = Suc (max0 ns)"

text \<open>\<open>COALESCE(a,b)\<close>.\<close>

definition coalesce :: "'a option \<Rightarrow> 'a option \<Rightarrow> 'a option" where
  "coalesce a b = (case a of None \<Rightarrow> b | Some x \<Rightarrow> Some x)"

lemma coalesce_simps [simp]:
  "coalesce None b = b"
  "coalesce (Some x) b = Some x"
  by (simp_all add: coalesce_def)

subsection \<open>Lemmas on tables\<close>

lemma sql_update_Nil [simp]: "sql_update P f [] = []"
  by (simp add: sql_update_def)

lemma sql_update_Cons [simp]:
  "sql_update P f (r # t) = (if P r then f r else r) # sql_update P f t"
  by (simp add: sql_update_def)

lemma sql_update_append [simp]: "sql_update P f (s @ t) = sql_update P f s @ sql_update P f t"
  by (simp add: sql_update_def)

lemma length_sql_update [simp]: "length (sql_update P f t) = length t"
  by (simp add: sql_update_def)

lemma sql_update_eq_Nil [simp]: "sql_update P f t = [] \<longleftrightarrow> t = []"
  by (simp add: sql_update_def)

lemma set_sql_update: "set (sql_update P f t) = (\<lambda>r. if P r then f r else r) ` set t"
  by (simp add: sql_update_def)

lemma sql_update_mem:
  "r \<in> set (sql_update P f t) \<longleftrightarrow> (\<exists>q \<in> set t. r = (if P q then f q else q))"
  by (auto simp: set_sql_update)

lemma map_sql_update [table_simps]:
  assumes "\<And>r. P r \<Longrightarrow> k (f r) = k r"
  shows "map k (sql_update P f t) = map k t"
  using assms by (induction t) auto

lemma filter_sql_update:
  assumes "\<And>r. P r \<Longrightarrow> Q (f r) = Q r"
  shows "filter Q (sql_update P f t) = sql_update P f (filter Q t)"
  using assms by (induction t) auto

lemma sql_update_cong:
  assumes "\<And>r. r \<in> set t \<Longrightarrow> P r = Q r" and "\<And>r. r \<in> set t \<Longrightarrow> Q r \<Longrightarrow> f r = g r"
  shows "sql_update P f t = sql_update Q g t"
  using assms by (simp add: sql_update_def)

lemma sql_update_hit: "r \<in> set t \<Longrightarrow> P r \<Longrightarrow> f r \<in> set (sql_update P f t)"
  by (auto simp: sql_update_def)

lemma sql_update_all:
  "(\<And>r. r \<in> set t \<Longrightarrow> P r \<Longrightarrow> Q (f r)) \<Longrightarrow> (\<And>r. r \<in> set t \<Longrightarrow> Q r) \<Longrightarrow>
   r \<in> set (sql_update P f t) \<Longrightarrow> Q r"
  by (auto simp: sql_update_mem)

lemma sql_update_none: "(\<And>r. r \<in> set t \<Longrightarrow> \<not> P r) \<Longrightarrow> sql_update P f t = t"
  by (induction t) auto

lemma filter_sql_update_empty:
  "filter Q (sql_update P f t) = [] \<longleftrightarrow> (\<forall>r \<in> set t. \<not> Q (if P r then f r else r))"
  by (auto simp: filter_empty_conv set_sql_update)

lemma filter_sql_update_other:
  assumes "\<And>r. P r \<Longrightarrow> \<not> Q r" and "\<And>r. P r \<Longrightarrow> \<not> Q (f r)"
  shows "filter Q (sql_update P f t) = filter Q t"
  using assms by (induction t) auto

lemma set_sql_delete [simp]: "set (sql_delete P t) = {r \<in> set t. \<not> P r}"
  by (auto simp: sql_delete_def)

lemma distinct_map_sql_delete [table_simps]:
  "distinct (map k t) \<Longrightarrow> distinct (map k (sql_delete P t))"
  by (simp add: sql_delete_def distinct_map_filter)

lemma fetchone_eq_None [simp]: "fetchone rs = None \<longleftrightarrow> rs = []"
  by (cases rs) (simp_all add: fetchone_def)

lemma fetchone_Cons [simp]: "fetchone (r # rs) = Some r"
  by (simp add: fetchone_def)

lemma fetchone_Nil [simp]: "fetchone [] = None"
  by (simp add: fetchone_def)

lemma fetchone_mem: "fetchone rs = Some r \<Longrightarrow> r \<in> set rs"
  by (cases rs) (simp_all add: fetchone_def)

lemma fetchone_filterD: "fetchone (filter P t) = Some r \<Longrightarrow> r \<in> set t \<and> P r"
  using fetchone_mem by fastforce

lemma fetchone_filter_None: "fetchone (filter P t) = None \<longleftrightarrow> (\<forall>r \<in> set t. \<not> P r)"
  by (simp add: filter_empty_conv)

lemma set_order_by [simp]: "set (order_by k t) = set t"
  by (simp add: order_by_def)

lemma length_order_by [simp]: "length (order_by k t) = length t"
  by (simp add: order_by_def)

lemma sorted_order_by: "sorted (map k (order_by k t))"
  by (simp add: order_by_def)

lemma max0_ge: "n \<in> set ns \<Longrightarrow> n \<le> max0 ns"
  by (induction ns) auto

lemma max0_append [simp]: "max0 (xs @ ys) = max (max0 xs) (max0 ys)"
  by (induction xs) auto

lemma next_id_fresh: "next_id ns \<notin> set ns"
  using max0_ge by (fastforce simp: next_id_def)

lemma next_id_gt: "n \<in> set ns \<Longrightarrow> n < next_id ns"
  using max0_ge by (fastforce simp: next_id_def)

text \<open>A lookup by a unique key finds exactly the row that has it.\<close>

lemma fetchone_unique_key:
  assumes "distinct (map k t)" and "r \<in> set t"
  shows "fetchone (filter (\<lambda>q. k q = k r) t) = Some r"
  using assms
proof (induction t)
  case Nil
  then show ?case by simp
next
  case (Cons q t)
  show ?case
  proof (cases "k q = k r")
    case True
    with Cons.prems have "q = r" by (auto simp: image_iff)
    with True show ?thesis by simp
  next
    case False
    with Cons show ?thesis by auto
  qed
qed

lemma fetchone_key_update:
  assumes "\<And>r. P r \<Longrightarrow> k (f r) = k r"
  shows "fetchone (filter (\<lambda>q. k q = x) (sql_update P f t)) =
    map_option (\<lambda>r. if P r then f r else r) (fetchone (filter (\<lambda>q. k q = x) t))"
  using assms by (induction t) auto

section \<open>Dictionaries\<close>

lemma dict_get_set: "dict_get (dict_set k v d) k' = (if k' = k then v else dict_get d k')"
  by (induction d) (auto simp: dict_get_def)

lemma dict_get_del: "dict_get (dict_del k d) k' = (if k' = k then JNull else dict_get d k')"
  by (induction d) (auto simp: dict_get_def dict_del_def)

section \<open>Transition systems and their invariants\<close>

text \<open>
  A component is a state type with a step relation; what every step keeps holds in every
  state a run reaches.
\<close>

locale transition_system =
  fixes step :: "'s \<Rightarrow> 's \<Rightarrow> bool" and inv :: "'s \<Rightarrow> bool"
  assumes step_inv: "inv s \<Longrightarrow> step s t \<Longrightarrow> inv t"
begin

lemma run_inv: "step\<^sup>*\<^sup>* s t \<Longrightarrow> inv s \<Longrightarrow> inv t"
  by (induction rule: rtranclp_induct) (auto intro: step_inv)

end

text \<open>
  Two systems side by side: if every step of the concrete one is matched by the abstract
  one under the abstraction function, every concrete run is an abstract run.
\<close>

locale functional_refinement =
  fixes cstep :: "'c \<Rightarrow> 'c \<Rightarrow> bool" and astep :: "'a \<Rightarrow> 'a \<Rightarrow> bool"
    and abs :: "'c \<Rightarrow> 'a" and cinv :: "'c \<Rightarrow> bool"
  assumes sim: "cinv s \<Longrightarrow> cstep s t \<Longrightarrow> astep (abs s) (abs t) \<or> abs s = abs t"
    and cinv_step: "cinv s \<Longrightarrow> cstep s t \<Longrightarrow> cinv t"
begin

lemma run_refines: "cstep\<^sup>*\<^sup>* s t \<Longrightarrow> cinv s \<Longrightarrow> astep\<^sup>*\<^sup>* (abs s) (abs t) \<and> cinv t"
proof (induction rule: rtranclp_induct)
  case base
  then show ?case by simp
next
  case (step t u)
  then have run: "astep\<^sup>*\<^sup>* (abs s) (abs t)" and inv: "cinv t" by auto
  from sim [OF inv step.hyps(2)] run have "astep\<^sup>*\<^sup>* (abs s) (abs u)"
    by (metis rtranclp.rtrancl_into_rtrancl)
  with cinv_step [OF inv step.hyps(2)] show ?case by simp
qed

end

section \<open>Code that keeps its state when it raises\<close>

text \<open>
  A step started in a state with \<open>P\<close> ends in one with \<open>Q\<close> when it returns, and in one with
  \<open>R\<close> when it raises.
\<close>

definition triple :: "('s \<Rightarrow> bool) \<Rightarrow> ('a, 's) stateful \<Rightarrow> ('a \<Rightarrow> 's \<Rightarrow> bool) \<Rightarrow> ('s \<Rightarrow> bool) \<Rightarrow> bool" where
  "triple P m Q R \<longleftrightarrow> (\<forall>s. P s \<longrightarrow> (case m s of (Inl e, s') \<Rightarrow> R s' | (Inr x, s') \<Rightarrow> Q x s'))"

lemma triple_seq: "triple P m Q R \<Longrightarrow> (\<And>x. triple (Q x) (f x) Q' R) \<Longrightarrow> triple P (sbind m f) Q' R"
  by (fastforce simp: triple_def sbind_def split: prod.splits sum.splits)

lemma triple_apply: "triple P m Q R \<Longrightarrow> P s \<Longrightarrow> m s = (r, s') \<Longrightarrow> (case r of Inl e \<Rightarrow> R s' | Inr x \<Rightarrow> Q x s')"
  unfolding triple_def by (cases r) fastforce+

lemma triple_ret: "triple (Q x) (sret x) Q R"
  by (simp add: triple_def sret_def)

lemma triple_fail: "triple R (sfail e) Q R"
  by (simp add: triple_def sfail_def)

lemma triple_given: "triple (\<lambda>s. R s \<and> (\<forall>x. r = Inr x \<longrightarrow> Q x s)) (slift r) Q R"
  by (auto simp: triple_def slift_def split: sum.splits)

lemma triple_weaken:
  "triple P m Q R \<Longrightarrow> (\<And>s. P' s \<Longrightarrow> P s) \<Longrightarrow> (\<And>x s. Q x s \<Longrightarrow> Q' x s) \<Longrightarrow> (\<And>s. R s \<Longrightarrow> R' s) \<Longrightarrow> triple P' m Q' R'"
  by (fastforce simp: triple_def split: prod.splits sum.splits)

lemma triple_if: "(b \<Longrightarrow> triple P m Q R) \<Longrightarrow> (\<not> b \<Longrightarrow> triple P n Q R) \<Longrightarrow> triple P (if b then m else n) Q R"
  by simp

end
