(* ===== verification/Training_Db.thy ===== *)
theory Training_Db
  imports Prelude
begin

text \<open>
  The tables of the training database (\<open>training/migrations.py\<close>) and the helpers of
  \<open>TrainingStore\<close> that every operation uses: fresh references, the idempotency digest,
  transactions, logs with their central storage limit, events and audit entries
  (\<open>training/store.py\<close>).  A JSON column holds the JSON value itself, a timestamp the
  number of milliseconds, a status column the constructor of its CHECK constraint.  Rows
  are kept in \<open>rowid\<close> order.  An \<open>AUTOINCREMENT\<close> key is one more than the largest key of a
  table that is never deleted from; for the tables with deletions, \<open>t_seq\<close> is SQLite's
  \<open>sqlite_sequence\<close>, so that a deleted key is not handed out again.
\<close>

section \<open>What the code takes from outside\<close>

text \<open>
  Randomness is a supply indexed by a counter that the database state carries; the hash,
  the JSON printer and parser, \<open>str\<close> of a value that is neither text, null, boolean nor integer, and
  \<open>float\<close> are parameters.
\<close>

record env =
  uuid4_hex :: "nat \<Rightarrow> string"
  token_urlsafe :: "nat \<Rightarrow> string"
  sha256_hex :: "string \<Rightarrow> string"
  json_dumps :: "json \<Rightarrow> string"
  json_text :: "json \<Rightarrow> string"
  json_loads :: "string \<Rightarrow> json res"
  str_of :: "json \<Rightarrow> string"
  float_of :: "json \<Rightarrow> json res"

fun py_str :: "env \<Rightarrow> json \<Rightarrow> string" where
  "py_str E (JStr s) = s"
| "py_str E JNull = ''None''"
| "py_str E (JBool b) = (if b then ''True'' else ''False'')"
| "py_str E (JInt i) = int_str i"
| "py_str E j = str_of E j"

text \<open>A value bound to a TEXT column: SQLite's TEXT affinity, and no binding for containers.\<close>

fun bind_text :: "env \<Rightarrow> json \<Rightarrow> string option res" where
  "bind_text E JNull = Inr None"
| "bind_text E (JStr s) = Inr (Some s)"
| "bind_text E (JBool b) = Inr (Some (if b then ''1'' else ''0''))"
| "bind_text E (JInt i) = Inr (Some (int_str i))"
| "bind_text E (JFloat f) = Inr (Some (str_of E (JFloat f)))"
| "bind_text E _ = Inl (RuntimeError ''binding'')"

section \<open>Statuses\<close>

datatype run_status = Queued | Preparing | Running | StopRequested | Succeeded | Failed | Cancelled | Lost

definition TERMINAL_RUN_STATUSES :: "run_status list" where
  "TERMINAL_RUN_STATUSES = [Succeeded, Failed, Cancelled, Lost]"

definition terminal :: "run_status \<Rightarrow> bool" where
  "terminal s \<longleftrightarrow> s \<in> set TERMINAL_RUN_STATUSES"

datatype stage_status = SPending | SPreparing | SRunning | SSucceeded | SFailed | SCancelled | SSkipped | SLost

datatype action_kind = StartStage | StopRun

datatype action_status = AQueued | ARunning | ASucceeded | AFailed | ACancelled

datatype control_status = Connected | Unreachable | Unresolved

datatype exec_mode = Simulation | Real

datatype artifact_kind = StageOutput | VersionModel

datatype model_status = Draft | Verified | Disabled

datatype node_status = PendingEnrollment | Online | Degraded | Offline | RepairRequired | NodeDisabled

datatype deployment_status = NotStarted | Deploying | DeploySucceeded | DeployFailed

datatype verification_status = VQueued | VRunning | VSucceeded | VFailed

datatype manifest_status = MPreparing | MBuilding | MReady | MFailed

datatype transfer_status = TPreparing | TQueued | TRunning | TPauseRequested | TPaused
  | TCancelRequested | TSucceeded | TFailed | TCancelled

datatype replica_status = RReady | RRemoving | RFailed

datatype command_kind = ListDirectories | TransferDataset | CancelDatasetTransfer
  | RemoveDatasetReplica | InspectTrainingArtifact

datatype inspection_status = IQueued | IRunning | ISucceeded | IFailed

datatype availability = Unchecked | Available | MissingArtifact | Unreadable | Unsafe | CheckFailed

text \<open>A run status written to a stage's status column: the CHECK constraint refuses the others.\<close>

fun stage_status_of :: "run_status \<Rightarrow> stage_status option" where
  "stage_status_of Preparing = Some SPreparing"
| "stage_status_of Running = Some SRunning"
| "stage_status_of Succeeded = Some SSucceeded"
| "stage_status_of Failed = Some SFailed"
| "stage_status_of Cancelled = Some SCancelled"
| "stage_status_of Lost = Some SLost"
| "stage_status_of Queued = None"
| "stage_status_of StopRequested = None"

definition status_name :: "run_status \<Rightarrow> string" where
  "status_name s = (case s of Queued \<Rightarrow> ''queued'' | Preparing \<Rightarrow> ''preparing'' | Running \<Rightarrow> ''running''
     | StopRequested \<Rightarrow> ''stop_requested'' | Succeeded \<Rightarrow> ''succeeded'' | Failed \<Rightarrow> ''failed''
     | Cancelled \<Rightarrow> ''cancelled'' | Lost \<Rightarrow> ''lost'')"

section \<open>Rows\<close>

record run_row =
  r_id :: nat
  r_run_ref :: string
  r_model_id :: nat
  r_revision_id :: nat
  r_server_ref :: string
  r_gpu_uuids :: "string list"
  r_parameters :: json
  r_run_spec :: json
  r_command_preview :: string
  r_status :: run_status
  r_state_revision :: nat
  r_seed :: nat
  r_total_steps :: int
  r_current_step :: int
  r_owner_id :: "string option"
  r_owner_epoch :: nat
  r_lease_expires_at :: "int option"
  r_heartbeat_at :: "int option"
  r_failure_code :: "string option"
  r_failure_message :: "string option"
  r_created_at :: int
  r_updated_at :: int
  r_started_at :: "int option"
  r_finished_at :: "int option"
  r_execution_mode :: exec_mode
  r_control_status :: "control_status option"
  r_exec_worker :: "string option"
  r_exec_owner_epoch :: int
  r_exec_update_seq :: int
  r_exec_last_heartbeat :: "int option"

record stage_row =
  s_id :: nat
  s_stage_ref :: string
  s_run_id :: nat
  s_stage_number :: nat
  s_stage_name :: string
  s_input_source :: string
  s_parameters :: json
  s_run_spec :: json
  s_command_preview :: string
  s_output_directory :: string
  s_status :: stage_status
  s_current_step :: int
  s_total_steps :: int
  s_failure_code :: "string option"
  s_failure_message :: "string option"
  s_created_at :: int
  s_updated_at :: int
  s_started_at :: "int option"
  s_finished_at :: "int option"

record action_row =
  a_id :: nat
  a_action_ref :: string
  a_run_id :: nat
  a_stage_id :: "nat option"
  a_node_ref :: string
  a_kind :: action_kind
  a_status :: action_status
  a_request :: json
  a_result :: "json option"
  a_worker :: "string option"
  a_claim_sha256 :: "string option"
  a_lease_expires_at :: "int option"
  a_created_at :: int
  a_updated_at :: int
  a_started_at :: "int option"
  a_finished_at :: "int option"

record version_row =
  v_id :: nat
  v_version_ref :: string
  v_family_id :: nat
  v_run_id :: nat
  v_number :: nat
  v_date :: string
  v_label :: string
  v_created_at :: int
  v_description :: "string option"

record artifact_row =
  f_id :: nat
  f_artifact_ref :: string
  f_version_id :: nat
  f_stage_id :: nat
  f_kind :: artifact_kind
  f_path :: string
  f_simulated :: bool
  f_created_at :: int

record checkpoint_row =
  c_id :: nat
  c_checkpoint_ref :: string
  c_version_id :: nat
  c_stage_id :: nat
  c_relative_path :: string
  c_step :: json
  c_created_at :: int

record metric_row =
  m_run_id :: nat
  m_seq :: nat
  m_step :: int
  m_total_steps :: int
  m_epoch :: json
  m_loss :: json
  m_learning_rate :: json
  m_grad_norm :: json
  m_elapsed_seconds :: json
  m_gpus :: json
  m_created_at :: int
  m_stage_id :: nat
  m_payload :: "json option"

record log_row =
  l_run_id :: nat
  l_seq :: nat
  l_level :: string
  l_message :: string
  l_created_at :: int
  l_stage_id :: "nat option"

record log_storage_row =
  ls_run_id :: nat
  ls_lines :: nat
  ls_bytes :: nat
  ls_truncated :: bool
  ls_updated_at :: int

record event_row =
  e_type :: string
  e_run_ref :: "string option"
  e_payload :: json
  e_created_at :: int

record audit_row =
  au_actor :: string
  au_action :: string
  au_target :: string
  au_payload :: json
  au_created_at :: int

record idem_row =
  i_scope :: string
  i_key :: string
  i_digest :: string
  i_response :: string
  i_created_at :: int

record gpu_lease =
  g_uuid :: string
  g_run_id :: nat
  g_acquired_at :: int

record port_lease =
  p_server_ref :: string
  p_port :: nat
  p_run_id :: nat
  p_acquired_at :: int

record node_row =
  n_id :: nat
  n_node_ref :: string
  n_name :: string
  n_description :: string
  n_address :: string
  n_ssh_port :: int
  n_ssh_username :: string
  n_status :: node_status
  n_state_revision :: nat
  n_heartbeat_revision :: nat
  n_enrolled_at :: "int option"
  n_last_heartbeat_at :: "int option"
  n_worker_instance :: "string option"
  n_worker_version :: "string option"
  n_protocol_version :: "int option"
  n_worker_token_sha256 :: "string option"
  n_health_message :: "string option"
  n_capabilities :: json
  n_host_key_algorithm :: "string option"
  n_host_public_key :: "string option"
  n_host_key_fingerprint :: "string option"
  n_deployment_status :: deployment_status
  n_deployment_message :: "string option"
  n_deployment_started_at :: "int option"
  n_deployment_finished_at :: "int option"
  n_installed_version :: "string option"
  n_created_at :: int
  n_updated_at :: int

record token_row =
  k_id :: nat
  k_token_ref :: string
  k_node_id :: nat
  k_sha256 :: string
  k_expires_at :: int
  k_created_by :: string
  k_created_at :: int
  k_consumed_at :: "int option"

record snapshot_row =
  ns_id :: nat
  ns_node_id :: nat
  ns_captured_at :: int
  ns_resources :: json

record family_row =
  fam_id :: nat
  fam_ref :: string
  fam_name :: string
  fam_created_at :: int
  fam_updated_at :: int
  fam_current_model :: "nat option"

record model_row =
  md_id :: nat
  md_model_ref :: string
  md_name :: string
  md_description :: string
  md_status :: model_status
  md_current_revision :: nat
  md_created_at :: int
  md_updated_at :: int
  md_family_id :: nat
  md_version_number :: nat
  md_version_description :: "string option"

record revision_row =
  rv_id :: nat
  rv_revision_ref :: string
  rv_model_id :: nat
  rv_number :: nat
  rv_working_directory :: string
  rv_entrypoint :: string
  rv_fixed_argv :: json
  rv_output_template :: string
  rv_parameters :: json
  rv_template :: json
  rv_created_at :: int
  rv_data_access_mode :: string

record verification_row =
  mv_id :: nat
  mv_ref :: string
  mv_model_id :: nat
  mv_revision_id :: nat
  mv_node_id :: "nat option"
  mv_node_ref :: string
  mv_status :: verification_status
  mv_request :: json
  mv_result :: "json option"
  mv_worker :: "string option"
  mv_lease_expires_at :: "int option"
  mv_created_at :: int
  mv_started_at :: "int option"
  mv_finished_at :: "int option"
  mv_updated_at :: int

record manifest_row =
  mf_id :: nat
  mf_manifest_ref :: string
  mf_release_ref :: string
  mf_domain :: string
  mf_dataset_date :: string
  mf_status :: manifest_status
  mf_source_root :: "string option"
  mf_inventory_sha256 :: "string option"
  mf_file_count :: int
  mf_total_bytes :: int
  mf_error_code :: "string option"
  mf_error_message :: "string option"
  mf_lease_expires_at :: "int option"
  mf_created_at :: int
  mf_updated_at :: int

record source_file_row =
  sf_manifest_id :: nat
  sf_file_ref :: string
  sf_ordinal :: nat
  sf_relative_path :: string
  sf_size_bytes :: int
  sf_sha256 :: string

record transfer_row =
  tr_id :: nat
  tr_ref :: string
  tr_node_id :: "nat option"
  tr_node_ref :: string
  tr_manifest_id :: nat
  tr_status :: transfer_status
  tr_target_parent :: string
  tr_final_directory :: string
  tr_bytes :: int
  tr_files :: int
  tr_error_code :: "string option"
  tr_error_message :: "string option"
  tr_created_at :: int
  tr_updated_at :: int
  tr_started_at :: "int option"
  tr_finished_at :: "int option"
  tr_recovery_replica :: "nat option"

record replica_row =
  rp_id :: nat
  rp_replica_ref :: string
  rp_node_id :: "nat option"
  rp_node_ref :: string
  rp_manifest_id :: nat
  rp_status :: replica_status
  rp_local_root :: string
  rp_inventory_sha256 :: string
  rp_file_count :: int
  rp_total_bytes :: int
  rp_created_at :: int
  rp_updated_at :: int
  rp_fingerprint :: "string option"

record command_row =
  nc_id :: nat
  nc_ref :: string
  nc_node_id :: "nat option"
  nc_node_ref :: string
  nc_kind :: command_kind
  nc_status :: action_status
  nc_request :: dict
  nc_result :: "json option"
  nc_worker :: "string option"
  nc_lease_expires_at :: "int option"
  nc_created_at :: int
  nc_started_at :: "int option"
  nc_finished_at :: "int option"
  nc_updated_at :: int
  nc_claim_sha256 :: "string option"

record inspection_row =
  in_id :: nat
  in_ref :: string
  in_artifact_id :: nat
  in_node_id :: "nat option"
  in_command_ref :: string
  in_status :: inspection_status
  in_availability :: availability
  in_file_count :: "int option"
  in_total_bytes :: "int option"
  in_error_code :: "string option"
  in_error_message :: "string option"
  in_requested_by :: string
  in_created_at :: int
  in_updated_at :: int
  in_started_at :: "int option"
  in_finished_at :: "int option"

record dataset_snapshot_row =
  ds_snapshot_ref :: string
  ds_run_id :: nat
  ds_manifest :: json
  ds_manifest_sha256 :: string
  ds_created_at :: int

record tdb =
  t_runs :: "run_row list"
  t_stages :: "stage_row list"
  t_actions :: "action_row list"
  t_versions :: "version_row list"
  t_artifacts :: "artifact_row list"
  t_checkpoints :: "checkpoint_row list"
  t_metrics :: "metric_row list"
  t_logs :: "log_row list"
  t_log_storage :: "log_storage_row list"
  t_events :: "event_row list"
  t_audits :: "audit_row list"
  t_idempotency :: "idem_row list"
  t_gpu_leases :: "gpu_lease list"
  t_port_leases :: "port_lease list"
  t_nodes :: "node_row list"
  t_tokens :: "token_row list"
  t_node_snapshots :: "snapshot_row list"
  t_families :: "family_row list"
  t_models :: "model_row list"
  t_revisions :: "revision_row list"
  t_verifications :: "verification_row list"
  t_manifests :: "manifest_row list"
  t_source_files :: "source_file_row list"
  t_transfers :: "transfer_row list"
  t_replicas :: "replica_row list"
  t_commands :: "command_row list"
  t_inspections :: "inspection_row list"
  t_snapshots :: "dataset_snapshot_row list"
  t_seq :: "string \<Rightarrow> nat"
  t_entropy :: nat

definition empty_tdb :: tdb where
  "empty_tdb = \<lparr>t_runs = [], t_stages = [], t_actions = [], t_versions = [], t_artifacts = [],
     t_checkpoints = [], t_metrics = [], t_logs = [], t_log_storage = [], t_events = [],
     t_audits = [], t_idempotency = [], t_gpu_leases = [], t_port_leases = [], t_nodes = [],
     t_tokens = [], t_node_snapshots = [], t_families = [], t_models = [], t_revisions = [],
     t_verifications = [], t_manifests = [], t_source_files = [], t_transfers = [], t_replicas = [],
     t_commands = [], t_inspections = [], t_snapshots = [], t_seq = (\<lambda>_. 0), t_entropy = 0\<rparr>"

section \<open>Helpers of the store\<close>

definition new_ref :: "env \<Rightarrow> string \<Rightarrow> tdb \<Rightarrow> string \<times> tdb" where
  "new_ref E prefix db = (prefix @ ''_'' @ uuid4_hex E (t_entropy db), db\<lparr>t_entropy := Suc (t_entropy db)\<rparr>)"

definition new_token :: "env \<Rightarrow> string \<Rightarrow> tdb \<Rightarrow> string \<times> tdb" where
  "new_token E prefix db = (prefix @ token_urlsafe E (t_entropy db), db\<lparr>t_entropy := Suc (t_entropy db)\<rparr>)"

text \<open>The key of an \<open>AUTOINCREMENT\<close> insert into a table with deletions.\<close>

definition autoincrement :: "string \<Rightarrow> tdb \<Rightarrow> nat \<times> tdb" where
  "autoincrement table db = (Suc (t_seq db table), db\<lparr>t_seq := (t_seq db)(table := Suc (t_seq db table))\<rparr>)"

definition payload_hash :: "env \<Rightarrow> json \<Rightarrow> string" where
  "payload_hash E v = sha256_hex E (json_dumps E v)"

definition token_digest :: "env \<Rightarrow> string \<Rightarrow> string" where
  "token_digest E t = sha256_hex E t"

text \<open>
  \<open>transaction()\<close>: the body's state is committed when it returns; any exception rolls it
  back.  The operations below are the bodies.
\<close>

definition transaction :: "(tdb \<Rightarrow> ('a \<times> tdb) res) \<Rightarrow> tdb \<Rightarrow> 'a res \<times> tdb" where
  "transaction body db = (case body db of Inl e \<Rightarrow> (Inl e, db) | Inr (a, db') \<Rightarrow> (Inr a, db'))"

definition add_event :: "string \<Rightarrow> string \<Rightarrow> dict \<Rightarrow> int \<Rightarrow> tdb \<Rightarrow> tdb" where
  "add_event ty run_ref payload now db =
     db\<lparr>t_events := t_events db @
        [\<lparr>e_type = ty, e_run_ref = Some run_ref, e_payload = JObj payload, e_created_at = now\<rparr>]\<rparr>"

text \<open>An event about something other than a run: the run reference is null.\<close>

definition add_other_event :: "string \<Rightarrow> dict \<Rightarrow> int \<Rightarrow> tdb \<Rightarrow> tdb" where
  "add_other_event ty payload now db =
     db\<lparr>t_events := t_events db @
        [\<lparr>e_type = ty, e_run_ref = None, e_payload = JObj payload, e_created_at = now\<rparr>]\<rparr>"

definition add_audit :: "string \<Rightarrow> string \<Rightarrow> string \<Rightarrow> dict \<Rightarrow> int \<Rightarrow> tdb \<Rightarrow> tdb" where
  "add_audit actor action target payload now db =
     db\<lparr>t_audits := t_audits db @
        [\<lparr>au_actor = actor, au_action = action, au_target = target, au_payload = JObj payload,
          au_created_at = now\<rparr>]\<rparr>"

section \<open>Central log storage\<close>

definition RUN_LOG_MAX_LINES :: nat where
  "RUN_LOG_MAX_LINES = 100000"

definition RUN_LOG_MAX_BYTES :: nat where
  "RUN_LOG_MAX_BYTES = 64 * 1024 * 1024"

definition RUN_LOG_TRUNCATED_MESSAGE :: string where
  "RUN_LOG_TRUNCATED_MESSAGE =
     ''Central log storage limit reached. The complete training log remains '' @
     ''available on the Training Worker node.''"

text \<open>\<open>INSERT OR IGNORE ... SELECT\<close>: the counter of a run, initialised from its stored lines.\<close>

definition ensure_log_storage :: "nat \<Rightarrow> int \<Rightarrow> tdb \<Rightarrow> tdb" where
  "ensure_log_storage rid now db =
     (if \<exists>s \<in> set (t_log_storage db). ls_run_id s = rid then db
      else
        let ls = filter (\<lambda>l. l_run_id l = rid) (t_logs db) in
        db\<lparr>t_log_storage := t_log_storage db @
           [\<lparr>ls_run_id = rid, ls_lines = length ls,
             ls_bytes = sum_list (map (\<lambda>l. length (l_message l)) ls),
             ls_truncated = False, ls_updated_at = now\<rparr>]\<rparr>)"

definition log_storage :: "nat \<Rightarrow> tdb \<Rightarrow> log_storage_row option" where
  "log_storage rid db = fetchone (filter (\<lambda>s. ls_run_id s = rid) (t_log_storage db))"

definition next_log_seq :: "nat \<Rightarrow> tdb \<Rightarrow> nat" where
  "next_log_seq rid db = next_id (map l_seq (filter (\<lambda>l. l_run_id l = rid) (t_logs db)))"

text \<open>The counters and the line that a stored message adds.\<close>

definition store_log_line ::
  "nat \<Rightarrow> string \<Rightarrow> string \<Rightarrow> bool \<Rightarrow> int \<Rightarrow> nat option \<Rightarrow> tdb \<Rightarrow> nat option \<times> tdb" where
  "store_log_line rid level message trunc now stage db =
     (let seq = next_log_seq rid db in
      (Some seq, db\<lparr>
        t_log_storage := sql_update (\<lambda>s. ls_run_id s = rid)
          (\<lambda>s. s\<lparr>ls_truncated := ls_truncated s \<or> trunc, ls_lines := ls_lines s + 1,
                 ls_bytes := ls_bytes s + length message, ls_updated_at := now\<rparr>) (t_log_storage db),
        t_logs := t_logs db @
          [\<lparr>l_run_id = rid, l_seq = seq, l_level = level, l_message = message,
            l_created_at = now, l_stage_id = stage\<rparr>]\<rparr>))"

definition log_over_limit :: "log_storage_row \<Rightarrow> string \<Rightarrow> bool" where
  "log_over_limit s message \<longleftrightarrow>
     RUN_LOG_MAX_LINES \<le> ls_lines s \<or> RUN_LOG_MAX_BYTES < ls_bytes s + length message"

text \<open>
  \<open>_log\<close>: within the limit the line is stored; the first line over it is replaced by a
  single warning; a later line over it is dropped and no sequence number is returned.
\<close>

definition add_log ::
  "nat \<Rightarrow> string \<Rightarrow> string \<Rightarrow> int \<Rightarrow> nat option \<Rightarrow> tdb \<Rightarrow> nat option \<times> tdb" where
  "add_log rid level message now stage db0 =
     (let db = ensure_log_storage rid now db0 in
      case log_storage rid db of
        None \<Rightarrow> (None, db)
      | Some s \<Rightarrow>
          (if log_over_limit s message then
             (if ls_truncated s then (None, db)
              else store_log_line rid ''warning'' RUN_LOG_TRUNCATED_MESSAGE True now stage db)
           else store_log_line rid level message False now stage db))"

section \<open>Reading runs\<close>

text \<open>
  \<open>_RUN_SELECT\<close> joins the run with its model, family and version; a run missing one of
  them is not found.  The projection for the API is not modelled: the row stands for it.
\<close>

definition run_joined :: "tdb \<Rightarrow> run_row \<Rightarrow> bool" where
  "run_joined db r \<longleftrightarrow>
     (\<exists>m \<in> set (t_models db). md_id m = r_model_id r \<and>
        (\<exists>f \<in> set (t_families db). fam_id f = md_family_id m)) \<and>
     (\<exists>v \<in> set (t_versions db). v_run_id v = r_id r)"

definition get_run_in :: "tdb \<Rightarrow> string \<Rightarrow> run_row res" where
  "get_run_in db ref =
     (case fetchone (filter (\<lambda>r. r_run_ref r = ref \<and> run_joined db r) (t_runs db)) of
        None \<Rightarrow> Inl (NotFound ''run_not_found'')
      | Some r \<Rightarrow> Inr r)"

definition run_by_id :: "tdb \<Rightarrow> nat \<Rightarrow> run_row option" where
  "run_by_id db i = fetchone (filter (\<lambda>r. r_id r = i) (t_runs db))"

definition upd_run :: "nat \<Rightarrow> (run_row \<Rightarrow> bool) \<Rightarrow> (run_row \<Rightarrow> run_row) \<Rightarrow> tdb \<Rightarrow> tdb" where
  "upd_run i P f db = db\<lparr>t_runs := sql_update (\<lambda>r. r_id r = i \<and> P r) f (t_runs db)\<rparr>"

definition upd_stages :: "(stage_row \<Rightarrow> bool) \<Rightarrow> (stage_row \<Rightarrow> stage_row) \<Rightarrow> tdb \<Rightarrow> tdb" where
  "upd_stages P f db = db\<lparr>t_stages := sql_update P f (t_stages db)\<rparr>"

definition upd_actions :: "(action_row \<Rightarrow> bool) \<Rightarrow> (action_row \<Rightarrow> action_row) \<Rightarrow> tdb \<Rightarrow> tdb" where
  "upd_actions P f db = db\<lparr>t_actions := sql_update P f (t_actions db)\<rparr>"

text \<open>\<open>SELECT * FROM training_stages WHERE run_id=? AND ... ORDER BY stage_number LIMIT 1\<close>.\<close>

definition first_stage :: "tdb \<Rightarrow> nat \<Rightarrow> (stage_row \<Rightarrow> bool) \<Rightarrow> stage_row option" where
  "first_stage db rid P =
     fetchone (order_by s_stage_number (filter (\<lambda>s. s_run_id s = rid \<and> P s) (t_stages db)))"

text \<open>\<open>... ORDER BY stage_number DESC LIMIT 1\<close>; stage numbers are unique within a run.\<close>

definition last_stage :: "tdb \<Rightarrow> nat \<Rightarrow> (stage_row \<Rightarrow> bool) \<Rightarrow> stage_row option" where
  "last_stage db rid P =
     fetchone (rev (order_by s_stage_number (filter (\<lambda>s. s_run_id s = rid \<and> P s) (t_stages db))))"

definition version_of_run :: "tdb \<Rightarrow> nat \<Rightarrow> version_row option" where
  "version_of_run db rid = fetchone (filter (\<lambda>v. v_run_id v = rid) (t_versions db))"

end
