(* ===== verification/Run_Engine.thy ===== *)
theory Run_Engine
  imports Training_Db
begin

text \<open>
  The life of a training run in the centre (\<open>training/store.py\<close>): finishing a run, the
  simulation worker's operations (claim, start, step, finish a stage, recover stale
  leases), stopping a run, and the queue of real-execution actions.
\<close>

section \<open>Finishing a run\<close>

definition active_stage :: "stage_status \<Rightarrow> bool" where
  "active_stage s \<longleftrightarrow> s = SPreparing \<or> s = SRunning"

definition open_stage :: "stage_status \<Rightarrow> bool" where
  "open_stage s \<longleftrightarrow> s = SPending \<or> s = SPreparing \<or> s = SRunning"

text \<open>What finishing does to the stages of the run.\<close>

definition close_stages ::
  "nat \<Rightarrow> run_status \<Rightarrow> int \<Rightarrow> string option \<Rightarrow> string option \<Rightarrow> tdb \<Rightarrow> tdb" where
  "close_stages rid status now code msg db =
     (if status = Cancelled then
        upd_stages (\<lambda>s. s_run_id s = rid \<and> open_stage (s_status s))
          (\<lambda>s. s\<lparr>s_status := SCancelled, s_finished_at := Some now, s_updated_at := now\<rparr>) db
      else if status = Failed \<or> status = Lost then
        upd_stages (\<lambda>s. s_run_id s = rid \<and> s_status s = SPending)
          (\<lambda>s. s\<lparr>s_status := SSkipped, s_finished_at := Some now, s_updated_at := now\<rparr>)
          (upd_stages (\<lambda>s. s_run_id s = rid \<and> active_stage (s_status s))
            (\<lambda>s. s\<lparr>s_status := (if status = Lost then SLost else SFailed),
                   s_failure_code := coalesce (s_failure_code s) code,
                   s_failure_message := coalesce (s_failure_message s) msg,
                   s_finished_at := Some now, s_updated_at := now\<rparr>) db)
      else db)"

text \<open>The run row, its leases and its queued actions.\<close>

definition close_run ::
  "nat \<Rightarrow> run_status \<Rightarrow> int \<Rightarrow> string option \<Rightarrow> string option \<Rightarrow> tdb \<Rightarrow> tdb" where
  "close_run rid status now code msg db =
     upd_actions (\<lambda>a. a_run_id a = rid \<and> a_status a = AQueued)
       (\<lambda>a. a\<lparr>a_status := ACancelled, a_finished_at := Some now, a_updated_at := now\<rparr>)
     ((upd_run rid (\<lambda>_. True)
       (\<lambda>r. r\<lparr>r_status := status,
              r_current_step := (if status = Succeeded then r_total_steps r else r_current_step r),
              r_state_revision := r_state_revision r + 1, r_owner_id := None,
              r_lease_expires_at := None,
              r_control_status := (if r_execution_mode r = Real then Some Connected else r_control_status r),
              r_finished_at := Some now, r_updated_at := now,
              r_failure_code := code, r_failure_message := msg\<rparr>) db)
      \<lparr>t_gpu_leases := sql_delete (\<lambda>g. g_run_id g = rid) (t_gpu_leases db),
       t_port_leases := sql_delete (\<lambda>p. p_run_id p = rid) (t_port_leases db)\<rparr>)"

definition stage_payload :: "stage_row \<Rightarrow> dict" where
  "stage_payload s = [(''stage_ref'', JStr (s_stage_ref s)), (''stage_number'', JInt (int (s_stage_number s)))]"

text \<open>The stage the closing event names.\<close>

definition closing_stage :: "nat \<Rightarrow> run_status \<Rightarrow> tdb \<Rightarrow> stage_row option" where
  "closing_stage rid status db =
     (if status = Succeeded then last_stage db rid (\<lambda>s. s_status s = SSucceeded)
      else first_stage db rid (\<lambda>s. Some (s_status s) = stage_status_of status))"

text \<open>A log line followed, when it was stored, by its event.\<close>

definition log_and_event ::
  "nat \<Rightarrow> string \<Rightarrow> string \<Rightarrow> string \<Rightarrow> dict \<Rightarrow> nat option \<Rightarrow> int \<Rightarrow> tdb \<Rightarrow> tdb" where
  "log_and_event rid run_ref level message payload stage now db =
     (case add_log rid level message now stage db of
        (None, db') \<Rightarrow> db'
      | (Some seq, db') \<Rightarrow>
          add_event ''run.log.appended'' run_ref (dict_set ''item_seq'' (JInt (int seq)) payload) now db')"

definition closing_log :: "run_row \<Rightarrow> run_status \<Rightarrow> int \<Rightarrow> tdb \<Rightarrow> tdb" where
  "closing_log row status now db =
     (let stage = closing_stage (r_id row) status db;
          payload = (case stage of None \<Rightarrow> [] | Some s \<Rightarrow> stage_payload s) in
      add_event ''run.updated'' (r_run_ref row) payload now
        (log_and_event (r_id row) (r_run_ref row)
          (if status = Succeeded \<or> status = Cancelled then ''info'' else ''error'')
          ((if r_execution_mode row = Real then ''Real training'' else ''Simulation'')
             @ '' run '' @ status_name status @ ''.'')
          payload (map_option s_id stage) now db))"

definition finish_db ::
  "run_row \<Rightarrow> run_status \<Rightarrow> int \<Rightarrow> string option \<Rightarrow> string option \<Rightarrow> tdb \<Rightarrow> tdb" where
  "finish_db row status now code msg db =
     closing_log row status now
       (close_run (r_id row) status now code msg (close_stages (r_id row) status now code msg db))"

definition returning :: "string \<Rightarrow> tdb \<Rightarrow> (run_row \<times> tdb) res" where
  "returning ref db = rbind (get_run_in db ref) (\<lambda>r. Inr (r, db))"

definition finish_in ::
  "run_row \<Rightarrow> run_status \<Rightarrow> int \<Rightarrow> string option \<Rightarrow> string option \<Rightarrow> tdb \<Rightarrow> (run_row \<times> tdb) res" where
  "finish_in row status now code msg db =
     returning (r_run_ref row) (finish_db row status now code msg db)"

section \<open>The simulation worker\<close>

definition claim_next_run :: "string \<Rightarrow> int \<Rightarrow> int \<Rightarrow> tdb \<Rightarrow> (run_row option \<times> tdb) res" where
  "claim_next_run worker lease_ms now db =
     (case fetchone (order_by r_id
        (filter (\<lambda>r. r_execution_mode r = Simulation \<and> r_status r = Queued) (t_runs db))) of
        None \<Rightarrow> Inr (None, db)
      | Some row \<Rightarrow>
          (let db1 = upd_run (r_id row) (\<lambda>_. True)
                 (\<lambda>r. r\<lparr>r_status := Preparing, r_state_revision := r_state_revision r + 1,
                        r_owner_id := Some worker, r_owner_epoch := r_owner_epoch r + 1,
                        r_lease_expires_at := Some (now + lease_ms), r_heartbeat_at := Some now,
                        r_updated_at := now\<rparr>) db in
           case first_stage db1 (r_id row) (\<lambda>s. s_status s = SPending) of
             None \<Rightarrow>
               rbind (finish_in row Failed now (Some ''training_stages_missing'')
                        (Some ''The training workflow has no pending stage.'') db1)
                 (\<lambda>(r, db'). Inr (Some r, db'))
           | Some stage \<Rightarrow>
               rbind (returning (r_run_ref row)
                  (add_event ''run.updated'' (r_run_ref row) (stage_payload stage) now
                    (upd_stages (\<lambda>s. s_id s = s_id stage)
                      (\<lambda>s. s\<lparr>s_status := SPreparing, s_updated_at := now\<rparr>) db1)))
                 (\<lambda>(r, db'). Inr (Some r, db'))))"

text \<open>\<open>SELECT * FROM training_runs WHERE run_ref=? AND owner_id=?\<close>.\<close>

definition owned_run :: "tdb \<Rightarrow> string \<Rightarrow> string \<Rightarrow> run_row option" where
  "owned_run db ref worker =
     fetchone (filter (\<lambda>r. r_run_ref r = ref \<and> r_owner_id r = Some worker) (t_runs db))"

definition transition_running :: "string \<Rightarrow> string \<Rightarrow> int \<Rightarrow> tdb \<Rightarrow> (run_row \<times> tdb) res" where
  "transition_running ref worker now db =
     (case owned_run db ref worker of
        None \<Rightarrow> Inl (Conflict ''worker_lease_lost'')
      | Some row \<Rightarrow>
          (if r_status row = StopRequested then finish_in row Cancelled now None None db
           else if r_status row \<notin> {Preparing, Running} then Inl (Conflict ''invalid_run_transition'')
           else case first_stage db (r_id row) (\<lambda>s. s_status s = SPreparing) of
             None \<Rightarrow> Inl (Conflict ''invalid_stage_transition'')
           | Some stage \<Rightarrow>
               (let db1 = upd_run (r_id row) (\<lambda>_. True)
                      (\<lambda>r. r\<lparr>r_status := Running, r_state_revision := r_state_revision r + 1,
                             r_started_at := coalesce (r_started_at r) (Some now), r_updated_at := now\<rparr>) db;
                    db2 = upd_stages (\<lambda>s. s_id s = s_id stage)
                      (\<lambda>s. s\<lparr>s_status := SRunning, s_started_at := Some now, s_updated_at := now\<rparr>) db1 in
                case add_log (r_id row) ''info'' (s_stage_name stage @ '' simulation started.'') now
                       (Some (s_id stage)) db2 of
                  (seq, db3) \<Rightarrow>
                    (let db4 = add_event ''run.updated'' ref (stage_payload stage) now db3 in
                     returning ref
                       (case seq of
                          None \<Rightarrow> db4
                        | Some n \<Rightarrow> add_event ''run.log.appended'' ref
                            (dict_set ''item_seq'' (JInt (int n)) (stage_payload stage)) now db4)))))"

text \<open>A metric sample of the simulation worker.\<close>

record sim_metric =
  sm_step :: int
  sm_total_steps :: int
  sm_epoch :: json
  sm_loss :: json
  sm_learning_rate :: json
  sm_grad_norm :: json
  sm_elapsed_seconds :: json
  sm_gpus :: json

definition next_metric_seq :: "nat \<Rightarrow> tdb \<Rightarrow> nat" where
  "next_metric_seq rid db = next_id (map m_seq (filter (\<lambda>m. m_run_id m = rid) (t_metrics db)))"

text \<open>\<open>SELECT COALESCE(SUM(total_steps),0) ... WHERE run_id=? AND status='succeeded'\<close>.\<close>

definition completed_steps :: "nat \<Rightarrow> tdb \<Rightarrow> int" where
  "completed_steps rid db =
     sum_list (map s_total_steps (filter (\<lambda>s. s_run_id s = rid \<and> s_status s = SSucceeded) (t_stages db)))"

text \<open>The stage a simulation step or result is about: the given one, or the first in a suitable state.\<close>

definition sim_stage :: "tdb \<Rightarrow> nat \<Rightarrow> string option \<Rightarrow> (stage_status \<Rightarrow> bool) \<Rightarrow> stage_row option" where
  "sim_stage db rid stage_ref P =
     (case stage_ref of
        None \<Rightarrow> first_stage db rid (\<lambda>s. P (s_status s))
      | Some ref \<Rightarrow> fetchone (filter (\<lambda>s. s_run_id s = rid \<and> s_stage_ref s = ref \<and> P (s_status s)) (t_stages db)))"

definition append_step ::
  "string \<Rightarrow> string \<Rightarrow> sim_metric \<Rightarrow> string \<Rightarrow> string option \<Rightarrow> int \<Rightarrow> tdb \<Rightarrow> (run_row \<times> tdb) res" where
  "append_step ref worker metric message stage_ref now db =
     (case owned_run db ref worker of
        None \<Rightarrow> Inl (Conflict ''worker_lease_lost'')
      | Some row \<Rightarrow>
          (if r_status row = StopRequested then finish_in row Cancelled now None None db
           else if r_status row \<noteq> Running then returning ref db
           else case sim_stage db (r_id row) stage_ref (\<lambda>s. s = SRunning) of
             None \<Rightarrow> Inl (Conflict ''worker_stage_lease_lost'')
           | Some stage \<Rightarrow>
               (let seq = next_metric_seq (r_id row) db;
                    db1 = db\<lparr>t_metrics := t_metrics db @
                      [\<lparr>m_run_id = r_id row, m_seq = seq, m_step = sm_step metric,
                        m_total_steps = sm_total_steps metric, m_epoch = sm_epoch metric,
                        m_loss = sm_loss metric, m_learning_rate = sm_learning_rate metric,
                        m_grad_norm = sm_grad_norm metric, m_elapsed_seconds = sm_elapsed_seconds metric,
                        m_gpus = sm_gpus metric, m_created_at = now, m_stage_id = s_id stage,
                        m_payload = None\<rparr>]\<rparr>;
                    overall = min (r_total_steps row) (completed_steps (r_id row) db1 + sm_step metric);
                    db2 = upd_stages (\<lambda>s. s_id s = s_id stage)
                      (\<lambda>s. s\<lparr>s_current_step := sm_step metric, s_updated_at := now\<rparr>) db1;
                    db3 = upd_run (r_id row) (\<lambda>_. True)
                      (\<lambda>r. r\<lparr>r_current_step := overall, r_heartbeat_at := Some now,
                             r_lease_expires_at := Some (now + 10000), r_updated_at := now\<rparr>) db2 in
                case add_log (r_id row) ''info'' message now (Some (s_id stage)) db3 of
                  (log_seq, db4) \<Rightarrow>
                    (let db5 = add_event ''run.metric.appended'' ref
                           (dict_set ''item_seq'' (JInt (int seq)) (stage_payload stage)) now db4 in
                     returning ref
                       (case log_seq of
                          None \<Rightarrow> db5
                        | Some n \<Rightarrow> add_event ''run.log.appended'' ref
                            (dict_set ''item_seq'' (JInt (int n)) (stage_payload stage)) now db5)))))"

definition add_artifact ::
  "env \<Rightarrow> nat \<Rightarrow> nat \<Rightarrow> artifact_kind \<Rightarrow> string \<Rightarrow> bool \<Rightarrow> int \<Rightarrow> tdb \<Rightarrow> tdb" where
  "add_artifact E version stage kind path simulated now db0 =
     (case new_ref E ''artifact'' db0 of
        (ref, db) \<Rightarrow> db\<lparr>t_artifacts := t_artifacts db @
          [\<lparr>f_id = next_id (map f_id (t_artifacts db)), f_artifact_ref = ref, f_version_id = version,
            f_stage_id = stage, f_kind = kind, f_path = path, f_simulated = simulated,
            f_created_at = now\<rparr>]\<rparr>)"

text \<open>The successful end of a simulated stage: hand over to the next one, or finish the run.\<close>

definition finish_stage_succeeded ::
  "env \<Rightarrow> run_row \<Rightarrow> stage_row \<Rightarrow> int \<Rightarrow> tdb \<Rightarrow> (run_row \<times> tdb) res" where
  "finish_stage_succeeded E row stage now db =
     (let ref = r_run_ref row;
          db1 = upd_stages (\<lambda>s. s_id s = s_id stage)
            (\<lambda>s. s\<lparr>s_status := SSucceeded, s_current_step := s_total_steps s,
                   s_finished_at := Some now, s_updated_at := now\<rparr>) db in
      case version_of_run db1 (r_id row) of
        None \<Rightarrow> Inl TypeError
      | Some version \<Rightarrow>
          (let db2 = add_artifact E (v_id version) (s_id stage) StageOutput (s_output_directory stage) True now db1;
               completed = completed_steps (r_id row) db2;
               next_stage = first_stage db2 (r_id row) (\<lambda>s. s_status s = SPending);
               db3 = log_and_event (r_id row) ref ''info'' (s_stage_name stage @ '' simulation succeeded.'')
                 (stage_payload stage) (Some (s_id stage)) now db2 in
           case next_stage of
             Some nxt \<Rightarrow>
               returning ref
                 (add_event ''run.updated'' ref (stage_payload nxt) now
                   (upd_run (r_id row) (\<lambda>_. True)
                     (\<lambda>r. r\<lparr>r_current_step := completed, r_state_revision := r_state_revision r + 1,
                            r_heartbeat_at := Some now, r_lease_expires_at := Some (now + 10000),
                            r_updated_at := now\<rparr>)
                     (upd_stages (\<lambda>s. s_id s = s_id nxt)
                       (\<lambda>s. s\<lparr>s_status := SPreparing, s_updated_at := now\<rparr>) db3)))
           | None \<Rightarrow>
               finish_in row Succeeded now None None
                 (add_artifact E (v_id version) (s_id stage) VersionModel (s_output_directory stage) True now db3)))"

definition finish_stage ::
  "env \<Rightarrow> string \<Rightarrow> string \<Rightarrow> string option \<Rightarrow> run_status \<Rightarrow> string option \<Rightarrow> string option \<Rightarrow> int \<Rightarrow>
   tdb \<Rightarrow> (run_row \<times> tdb) res" where
  "finish_stage E ref worker stage_ref status code msg now db =
     (case owned_run db ref worker of
        None \<Rightarrow> Inl (Conflict ''worker_lease_lost'')
      | Some row \<Rightarrow>
          (if r_status row = StopRequested then finish_in row Cancelled now None None db
           else case sim_stage db (r_id row) stage_ref active_stage of
             None \<Rightarrow> Inl (Conflict ''invalid_stage_transition'')
           | Some stage \<Rightarrow>
               (if status \<noteq> Succeeded then
                  (case stage_status_of status of
                     None \<Rightarrow> Inl IntegrityError
                   | Some st \<Rightarrow>
                       finish_in row status now code msg
                         (upd_stages (\<lambda>s. s_id s = s_id stage)
                           (\<lambda>s. s\<lparr>s_status := st, s_failure_code := code, s_failure_message := msg,
                                  s_finished_at := Some now, s_updated_at := now\<rparr>) db))
                else finish_stage_succeeded E row stage now db)))"

definition finish_run ::
  "env \<Rightarrow> string \<Rightarrow> string \<Rightarrow> run_status \<Rightarrow> string option \<Rightarrow> string option \<Rightarrow> int \<Rightarrow> tdb \<Rightarrow> (run_row \<times> tdb) res" where
  "finish_run E ref worker status code msg now db =
     finish_stage E ref worker None status code msg now db"

text \<open>Runs whose simulation worker stopped renewing its lease are lost.\<close>

definition stale_runs :: "int \<Rightarrow> tdb \<Rightarrow> run_row list" where
  "stale_runs now db =
     filter (\<lambda>r. r_execution_mode r = Simulation \<and> r_status r \<in> {Preparing, Running, StopRequested} \<and>
       (case r_lease_expires_at r of None \<Rightarrow> False | Some t \<Rightarrow> t < now)) (t_runs db)"

fun recover_rows :: "int \<Rightarrow> run_row list \<Rightarrow> tdb \<Rightarrow> tdb res" where
  "recover_rows now [] db = Inr db"
| "recover_rows now (r # rs) db =
     rbind (finish_in r Lost now (Some ''worker_lease_expired'')
              (Some ''The simulation worker lease expired.'') db)
       (\<lambda>(_, db'). recover_rows now rs db')"

definition recover_stale_runs :: "int \<Rightarrow> tdb \<Rightarrow> (nat \<times> tdb) res" where
  "recover_stale_runs now db =
     rbind (recover_rows now (stale_runs now db) db) (\<lambda>db'. Inr (length (stale_runs now db), db'))"

section \<open>Stopping a run\<close>

definition queue_training_action_in ::
  "env \<Rightarrow> nat \<Rightarrow> nat option \<Rightarrow> string \<Rightarrow> action_kind \<Rightarrow> json \<Rightarrow> int \<Rightarrow> tdb \<Rightarrow> string \<times> tdb" where
  "queue_training_action_in E run_id stage_id node_ref kind payload now db0 =
     (case new_ref E ''training_action'' db0 of
        (ref, db) \<Rightarrow> (ref, db\<lparr>t_actions := t_actions db @
          [\<lparr>a_id = next_id (map a_id (t_actions db)), a_action_ref = ref, a_run_id = run_id,
            a_stage_id = stage_id, a_node_ref = node_ref, a_kind = kind, a_status = AQueued,
            a_request = payload, a_result = None, a_worker = None, a_claim_sha256 = None,
            a_lease_expires_at = None, a_created_at = now, a_updated_at = now,
            a_started_at = None, a_finished_at = None\<rparr>]\<rparr>))"

definition open_action :: "action_row \<Rightarrow> bool" where
  "open_action a \<longleftrightarrow> a_status a = AQueued \<or> a_status a = ARunning"

definition find_idempotency :: "string \<Rightarrow> string \<Rightarrow> tdb \<Rightarrow> idem_row option" where
  "find_idempotency scope key db =
     fetchone (filter (\<lambda>i. i_scope i = scope \<and> i_key i = key) (t_idempotency db))"

definition add_idempotency :: "string \<Rightarrow> string \<Rightarrow> string \<Rightarrow> string \<Rightarrow> int \<Rightarrow> tdb \<Rightarrow> tdb" where
  "add_idempotency scope key digest response now db =
     db\<lparr>t_idempotency := t_idempotency db @
        [\<lparr>i_scope = scope, i_key = key, i_digest = digest, i_response = response, i_created_at = now\<rparr>]\<rparr>"

text \<open>The two ways a stop takes effect: at once for a queued run, through the Worker otherwise.\<close>

definition stop_queued :: "run_row \<Rightarrow> int \<Rightarrow> tdb \<Rightarrow> (run_row \<times> tdb) res" where
  "stop_queued row now db =
     finish_in row Cancelled now None None
       (upd_actions (\<lambda>a. a_run_id a = r_id row \<and> a_status a = AQueued)
         (\<lambda>a. a\<lparr>a_status := ACancelled, a_finished_at := Some now, a_updated_at := now\<rparr>) db)"

definition stop_active :: "env \<Rightarrow> run_row \<Rightarrow> int \<Rightarrow> tdb \<Rightarrow> (run_row \<times> tdb) res" where
  "stop_active E row now db =
     (let ref = r_run_ref row;
          db1 = upd_run (r_id row) (\<lambda>_. True)
            (\<lambda>r. r\<lparr>r_status := StopRequested, r_state_revision := r_state_revision r + 1,
                   r_updated_at := now\<rparr>) db;
          db2 = (if r_execution_mode row = Real \<and>
                    \<not> (\<exists>a \<in> set (t_actions db1). a_run_id a = r_id row \<and> a_kind a = StopRun \<and> open_action a)
                 then snd (queue_training_action_in E (r_id row) None (r_server_ref row) StopRun
                        (JObj [(''run_ref'', JStr ref)]) now db1)
                 else db1) in
      returning ref (add_event ''run.updated'' ref [] now db2))"

definition stop_digest :: "env \<Rightarrow> string \<Rightarrow> nat \<Rightarrow> string" where
  "stop_digest E ref expected =
     payload_hash E (JObj [(''run_ref'', JStr ref), (''expected_revision'', JInt (int expected))])"

definition stop_run ::
  "env \<Rightarrow> string \<Rightarrow> nat \<Rightarrow> string \<Rightarrow> string \<Rightarrow> int \<Rightarrow> tdb \<Rightarrow> (run_row \<times> tdb) res" where
  "stop_run E ref expected key actor now db =
     (let digest = stop_digest E ref expected in
      case find_idempotency ''stop_run'' key db of
        Some idem \<Rightarrow>
          (if i_digest idem \<noteq> digest \<or> i_response idem \<noteq> ref then Inl (Conflict ''idempotency_conflict'')
           else returning (i_response idem) db)
      | None \<Rightarrow>
          rbind (get_run_in db ref) (\<lambda>row.
            if r_state_revision row \<noteq> expected then Inl (Conflict ''run_revision_conflict'')
            else if terminal (r_status row) then Inl (Conflict ''run_already_finished'')
            else rbind (if r_status row = Queued then stop_queued row now db else stop_active E row now db)
              (\<lambda>(result, db').
                Inr (result, add_audit actor ''run.stop_requested'' ref []  now
                  (add_idempotency ''stop_run'' key digest ref now db')))))"

end
