(* ===== verification/Real_Engine.thy ===== *)
theory Real_Engine
  imports Run_Engine
begin

text \<open>
  Real execution as the centre drives it (\<open>training/store.py\<close>): authenticating the
  Worker, handing out start and stop actions under a lease, taking their results, and
  applying the Worker's numbered run updates.
\<close>

section \<open>Authentication\<close>

definition node_by_ref :: "tdb \<Rightarrow> string \<Rightarrow> node_row option" where
  "node_by_ref db ref = fetchone (filter (\<lambda>n. n_node_ref n = ref) (t_nodes db))"

definition authenticate_worker :: "env \<Rightarrow> string \<Rightarrow> string \<Rightarrow> string option \<Rightarrow> tdb \<Rightarrow> node_row res" where
  "authenticate_worker E node_ref token instance_id db =
     (case node_by_ref db node_ref of
        None \<Rightarrow> Inl (Forbidden ''worker_authentication_failed'')
      | Some n \<Rightarrow>
          (if n_worker_token_sha256 n \<noteq> Some (token_digest E token) \<or>
              (instance_id \<noteq> None \<and> n_worker_instance n \<noteq> instance_id)
           then Inl (Forbidden ''worker_authentication_failed'')
           else Inr n))"

definition assert_node_has_no_active_real_runs :: "string \<Rightarrow> tdb \<Rightarrow> unit res" where
  "assert_node_has_no_active_real_runs node_ref db =
     (case fetchone (order_by r_id (filter (\<lambda>r. r_server_ref r = node_ref \<and>
             r_execution_mode r = Real \<and> \<not> terminal (r_status r)) (t_runs db))) of
        None \<Rightarrow> Inr ()
      | Some _ \<Rightarrow> Inl (Conflict ''training_node_has_active_real_run''))"

text \<open>Which run holds each leased GPU.\<close>

definition active_gpu_leases :: "tdb \<Rightarrow> (string \<times> string) list" where
  "active_gpu_leases db =
     concat (map (\<lambda>g. map (\<lambda>r. (g_uuid g, r_run_ref r))
       (filter (\<lambda>r. r_id r = g_run_id g) (t_runs db))) (t_gpu_leases db))"

section \<open>Handing out actions\<close>

text \<open>Actions whose lease ran out go back to the queue.\<close>

definition requeue_expired :: "string \<Rightarrow> int \<Rightarrow> tdb \<Rightarrow> tdb" where
  "requeue_expired node_ref now db =
     upd_actions (\<lambda>a. a_node_ref a = node_ref \<and> a_status a = ARunning \<and>
         (case a_lease_expires_at a of None \<Rightarrow> False | Some t \<Rightarrow> t < now))
       (\<lambda>a. a\<lparr>a_status := AQueued, a_worker := None, a_claim_sha256 := None,
              a_lease_expires_at := None, a_started_at := None, a_updated_at := now\<rparr>) db"

definition kind_rank :: "action_kind \<Rightarrow> nat" where
  "kind_rank k = (case k of StopRun \<Rightarrow> 0 | StartStage \<Rightarrow> 1)"

definition claimable :: "action_row \<Rightarrow> run_row \<Rightarrow> bool" where
  "claimable a r \<longleftrightarrow> r_id r = a_run_id a \<and> a_status a = AQueued \<and>
     (a_kind a = StopRun \<and> r_status r = StopRequested \<or>
      a_kind a = StartStage \<and> (r_status r = Queued \<or> r_status r = Preparing))"

text \<open>The joined rows of the SELECT, stop actions first, then by key, limited.\<close>

definition claim_candidates :: "string \<Rightarrow> nat \<Rightarrow> tdb \<Rightarrow> (action_row \<times> run_row) list" where
  "claim_candidates node_ref limit db =
     take (max 1 (min limit 10))
       (order_by (\<lambda>(a, r). (kind_rank (a_kind a), a_id a))
         (concat (map (\<lambda>a. map (Pair a) (filter (claimable a) (t_runs db)))
           (filter (\<lambda>a. a_node_ref a = node_ref) (t_actions db)))))"

record claimed_action =
  ca_action_ref :: string
  ca_claim_token :: string
  ca_kind :: action_kind
  ca_run_ref :: string
  ca_owner_epoch :: int
  ca_payload :: json

definition claim_one ::
  "env \<Rightarrow> string \<Rightarrow> int \<Rightarrow> action_row \<times> run_row \<Rightarrow> claimed_action list \<times> tdb \<Rightarrow> claimed_action list \<times> tdb" where
  "claim_one E worker now = (\<lambda>(a, r) (acc, db0).
     case new_token E ''claim_'' db0 of
       (token, db) \<Rightarrow>
         (let P = (\<lambda>x. a_id x = a_id a \<and> a_status x = AQueued) in
          if rowcount P (t_actions db) \<noteq> 1 then (acc, db)
          else
            let db1 = upd_actions P
                  (\<lambda>x. x\<lparr>a_status := ARunning, a_worker := Some worker,
                         a_claim_sha256 := Some (token_digest E token),
                         a_lease_expires_at := Some (now + 45000),
                         a_started_at := coalesce (a_started_at x) (Some now), a_updated_at := now\<rparr>) db;
                db2 = (if a_kind a = StartStage then
                    (let db' = upd_run (a_run_id a) (\<lambda>q. r_status q = Queued)
                       (\<lambda>q. q\<lparr>r_status := Preparing, r_control_status := Some Connected,
                              r_exec_worker := Some worker, r_exec_last_heartbeat := Some now,
                              r_updated_at := now\<rparr>) db1 in
                     case a_stage_id a of
                       None \<Rightarrow> db'
                     | Some sid \<Rightarrow> upd_stages (\<lambda>s. s_id s = sid \<and> s_status s = SPending)
                         (\<lambda>s. s\<lparr>s_status := SPreparing, s_updated_at := now\<rparr>) db')
                  else db1) in
            (acc @ [\<lparr>ca_action_ref = a_action_ref a, ca_claim_token = token, ca_kind = a_kind a,
                      ca_run_ref = r_run_ref r, ca_owner_epoch = r_exec_owner_epoch r,
                      ca_payload = a_request a\<rparr>], db2)))"

definition poll_training_actions ::
  "env \<Rightarrow> string \<Rightarrow> string \<Rightarrow> string \<Rightarrow> nat \<Rightarrow> int \<Rightarrow> tdb \<Rightarrow> (claimed_action list \<times> tdb) res" where
  "poll_training_actions E node_ref token worker limit now db0 =
     rbind (authenticate_worker E node_ref token (Some worker) db0) (\<lambda>_.
       let db = requeue_expired node_ref now db0 in
       Inr (fold (claim_one E worker now) (claim_candidates node_ref limit db) ([], db)))"

section \<open>Results of actions\<close>

definition settle_stop_actions :: "nat \<Rightarrow> int \<Rightarrow> tdb \<Rightarrow> tdb" where
  "settle_stop_actions rid now db =
     upd_actions (\<lambda>a. a_run_id a = rid \<and> a_kind a = StopRun \<and> open_action a)
       (\<lambda>a. a\<lparr>a_status := ASucceeded, a_result := Some (JObj []), a_claim_sha256 := None,
              a_lease_expires_at := None, a_finished_at := Some now, a_updated_at := now\<rparr>) db"

text \<open>A start action failed: the launch may be unresolved, cancelled by a stop, or simply failed.\<close>

definition start_action_failed :: "env \<Rightarrow> run_row \<Rightarrow> dict \<Rightarrow> int \<Rightarrow> tdb \<Rightarrow> tdb res" where
  "start_action_failed E run error now db =
     (let code = py_str E (py_or (dict_get error ''code'') (JStr ''training_action_failed''));
          message = py_str E (py_or (dict_get error ''message'')
            (JStr ''Worker could not start the training stage.'')) in
      if code = ''training_launch_unresolved'' then
        Inr (add_event ''run.updated'' (r_run_ref run) [] now
          (upd_run (r_id run) (\<lambda>q. r_status q \<in> {Preparing, Running, StopRequested})
            (\<lambda>q. q\<lparr>r_control_status := Some Unresolved, r_state_revision := r_state_revision q + 1,
                   r_updated_at := now\<rparr>) db))
      else if r_status run = StopRequested then
        rbind (finish_in run Cancelled now None None (settle_stop_actions (r_id run) now db))
          (\<lambda>(_, db'). Inr db')
      else rbind (finish_in run Failed now (Some code) (Some message) db) (\<lambda>(_, db'). Inr db'))"

definition finish_training_action ::
  "env \<Rightarrow> string \<Rightarrow> string \<Rightarrow> string \<Rightarrow> string \<Rightarrow> string \<Rightarrow> bool \<Rightarrow> json \<Rightarrow> dict \<Rightarrow> int \<Rightarrow> tdb \<Rightarrow>
   (action_status \<times> tdb) res" where
  "finish_training_action E node_ref token action_ref worker claim_token succeeded result error now db =
     rbind (authenticate_worker E node_ref token (Some worker) db) (\<lambda>_.
       case fetchone (filter (\<lambda>a. a_action_ref a = action_ref \<and> a_node_ref a = node_ref \<and>
              run_by_id db (a_run_id a) \<noteq> None) (t_actions db)) of
         None \<Rightarrow> Inl (NotFound ''training_action_not_found'')
       | Some row \<Rightarrow>
           (if a_status row \<in> {ASucceeded, AFailed} then Inr (a_status row, db)
            else if a_status row \<noteq> ARunning \<or> a_worker row \<noteq> Some worker \<or>
                a_claim_sha256 row \<noteq> Some (token_digest E claim_token)
              then Inl (Conflict ''training_action_claim_lost'')
            else
              let final = (if succeeded then ASucceeded else AFailed);
                  payload = (if succeeded then result else JObj error);
                  db1 = upd_actions (\<lambda>a. a_id a = a_id row)
                    (\<lambda>a. a\<lparr>a_status := final, a_result := Some payload, a_claim_sha256 := None,
                           a_lease_expires_at := None, a_finished_at := Some now, a_updated_at := now\<rparr>) db in
              if \<not> succeeded \<and> a_kind row = StartStage then
                (case run_by_id db1 (a_run_id row) of
                   None \<Rightarrow> Inl AssertionError
                 | Some run \<Rightarrow> rbind (start_action_failed E run error now db1) (\<lambda>db2. Inr (final, db2)))
              else if \<not> succeeded \<and> a_kind row = StopRun then
                (case run_by_id db (a_run_id row) of
                   None \<Rightarrow> Inl AssertionError
                 | Some run \<Rightarrow>
                     Inr (final, add_event ''run.updated'' (r_run_ref run) [] now
                       (upd_run (a_run_id row) (\<lambda>q. r_status q = StopRequested)
                         (\<lambda>q. q\<lparr>r_control_status := Some Unresolved,
                                r_state_revision := r_state_revision q + 1, r_updated_at := now\<rparr>) db1)))
              else Inr (final, db1)))"

section \<open>The request of a start action\<close>

definition sensitive_values :: "env \<Rightarrow> dict \<Rightarrow> json list \<Rightarrow> json list res" where
  "sensitive_values E params names =
     rbind (rmap (\<lambda>n. case n of
         JStr k \<Rightarrow>
           (case map_of params k of
              None \<Rightarrow> Inr []
            | Some v \<Rightarrow> Inr (if py_str E v = [] then [] else [JStr (py_str E v)]))
       | JList _ \<Rightarrow> Inl TypeError
       | JObj _ \<Rightarrow> Inl TypeError
       | _ \<Rightarrow> Inr []) names) (\<lambda>xss. Inr (concat xss))"

definition split_entries :: "dict \<Rightarrow> string \<Rightarrow> json list res" where
  "split_entries manifest split =
     rbind (as_dict (dict_get_default manifest ''splits'' (JObj []))) (\<lambda>splits.
       py_list (py_or (dict_get splits split) (JList [])))"

definition start_action_payload :: "env \<Rightarrow> nat \<Rightarrow> nat \<Rightarrow> tdb \<Rightarrow> json res" where
  "start_action_payload E rid sid db =
     (case (run_by_id db rid, version_of_run db rid, fetchone (filter (\<lambda>s. s_id s = sid) (t_stages db))) of
        (Some run, Some version, Some stage) \<Rightarrow>
          (case fetchone (filter (\<lambda>f. fam_id f = v_family_id version) (t_families db)) of
             None \<Rightarrow> Inl AssertionError
           | Some family \<Rightarrow>
               rbind (as_dict (s_run_spec stage)) (\<lambda>spec.
               rbind (as_dict (py_or (dict_get spec ''public_spec'') (JObj []))) (\<lambda>public_spec.
               let output = s_output_directory stage;
                   version_root = before_last (CHR ''/'') output;
                   manifest = (case fetchone (filter (\<lambda>d. ds_run_id d = rid) (t_snapshots db)) of
                     None \<Rightarrow> JNull | Some d \<Rightarrow> ds_manifest d) in
               rbind (if manifest = JNull then Inr []
                      else rbind (as_dict manifest) (\<lambda>m.
                        rbind (split_entries m ''train'') (\<lambda>xs.
                        rbind (split_entries m ''test'') (\<lambda>ys. Inr (xs @ ys))))) (\<lambda>replicas.
               rbind (py_list (py_or (dict_get spec ''sensitive_parameters'') (JList []))) (\<lambda>names.
               rbind (as_dict (py_or (dict_get spec ''parameters'') (JObj []))) (\<lambda>params.
               rbind (sensitive_values E params (take 64 names)) (\<lambda>redactions.
               rbind (dict_item spec ''working_directory'') (\<lambda>wd.
               rbind (dict_item spec ''argv'') (\<lambda>argv.
               rbind (dict_item spec ''entrypoint'') (\<lambda>entry.
               Inr (JObj [
                 (''stage_ref'', JStr (s_stage_ref stage)),
                 (''stage_number'', JInt (int (s_stage_number stage))),
                 (''version_label'', JStr (v_label version)),
                 (''family_ref'', JStr (fam_ref family)),
                 (''working_directory'', wd),
                 (''output_root'', py_or (dict_get spec ''output_root'')
                    (JStr (before_last (CHR ''/'') (before_last (CHR ''/'') version_root)))),
                 (''output_directory'', JStr output),
                 (''argv'', argv),
                 (''entrypoint'', entry),
                 (''gpu_uuids'', JList (map JStr (r_gpu_uuids run))),
                 (''runtime_environment'', dict_get_default spec ''runtime_environment''
                    (dict_get_default public_spec ''runtime_environment'' (JObj [(''kind'', JStr ''system'')]))),
                 (''monitoring'', dict_get_default spec ''monitoring''
                    (dict_get_default public_spec ''monitoring''
                      (JObj [(''source'', JStr ''stdout''), (''format'', JStr ''plain'')]))),
                 (''dataset_manifest_path'', dict_get spec ''dataset_manifest''),
                 (''dataset_manifest'', manifest),
                 (''dataset_replicas'', JList replicas),
                 (''redactions'', JList redactions)])))))))))))
      | _ \<Rightarrow> Inl AssertionError)"

section \<open>Applying one Worker update\<close>

definition update_payload :: "dict \<Rightarrow> stage_row \<Rightarrow> dict" where
  "update_payload u stage =
     [(''stage_ref'', dict_get u ''stage_ref''), (''stage_number'', JInt (int (s_stage_number stage)))]"

definition apply_started :: "run_row \<Rightarrow> stage_row \<Rightarrow> dict \<Rightarrow> int \<Rightarrow> tdb \<Rightarrow> tdb" where
  "apply_started run stage u now db =
     add_event ''run.updated'' (r_run_ref run) (update_payload u stage) now
       (upd_actions (\<lambda>a. a_run_id a = r_id run \<and> a_stage_id a = Some (s_id stage) \<and>
           a_kind a = StartStage \<and> a_status a = ARunning)
         (\<lambda>a. a\<lparr>a_status := ASucceeded, a_result := Some (JObj []), a_claim_sha256 := None,
                a_lease_expires_at := None, a_finished_at := Some now, a_updated_at := now\<rparr>)
         (upd_run (r_id run) (\<lambda>r. r_status r \<in> {Queued, Preparing, Running})
           (\<lambda>r. r\<lparr>r_status := Running, r_started_at := coalesce (r_started_at r) (Some now),
                  r_state_revision := r_state_revision r + 1, r_updated_at := now\<rparr>)
           (upd_stages (\<lambda>s. s_id s = s_id stage \<and> open_stage (s_status s))
             (\<lambda>s. s\<lparr>s_status := SRunning, s_started_at := coalesce (s_started_at s) (Some now),
                    s_updated_at := now\<rparr>) db)))"

definition log_lines :: "dict \<Rightarrow> dict list" where
  "log_lines u =
     map (\<lambda>l. case l of JObj d \<Rightarrow> d | _ \<Rightarrow> [(''message'', l)])
       (take 200 (case dict_get u ''lines'' of JList ls \<Rightarrow> ls | _ \<Rightarrow> [JObj u]))"

definition log_level :: "env \<Rightarrow> dict \<Rightarrow> dict \<Rightarrow> string" where
  "log_level E u line =
     (let level = py_str E (py_or (dict_get line ''level'') (py_or (dict_get u ''level'') (JStr ''info''))) in
      if level \<in> {''debug'', ''info'', ''warning'', ''error''} then level else ''info'')"

definition apply_log_line :: "env \<Rightarrow> run_row \<Rightarrow> stage_row \<Rightarrow> dict \<Rightarrow> int \<Rightarrow> dict \<Rightarrow> tdb \<Rightarrow> tdb" where
  "apply_log_line E run stage u now line db =
     log_and_event (r_id run) (r_run_ref run) (log_level E u line)
       (py_take 16384 (py_str E (py_or (dict_get line ''message'') (JStr ''''))))
       (update_payload u stage) (Some (s_id stage)) now db"

definition apply_log :: "env \<Rightarrow> run_row \<Rightarrow> stage_row \<Rightarrow> dict \<Rightarrow> int \<Rightarrow> tdb \<Rightarrow> tdb" where
  "apply_log E run stage u now db = fold (apply_log_line E run stage u now) (log_lines u) db"

definition metric_payload :: "dict \<Rightarrow> dict" where
  "metric_payload u =
     concat (map (\<lambda>k. if dict_get u k = JNull then [] else [(k, dict_get u k)])
       [''step'', ''total_steps'', ''epoch'', ''loss'', ''learning_rate'', ''grad_norm'', ''elapsed_seconds''])"

text \<open>\<open>SUM(CASE WHEN status='succeeded' THEN total_steps ELSE current_step END)\<close>.\<close>

definition progress_steps :: "nat \<Rightarrow> tdb \<Rightarrow> int" where
  "progress_steps rid db =
     sum_list (map (\<lambda>s. if s_status s = SSucceeded then s_total_steps s else s_current_step s)
       (filter (\<lambda>s. s_run_id s = rid) (t_stages db)))"

definition apply_metric :: "env \<Rightarrow> run_row \<Rightarrow> stage_row \<Rightarrow> dict \<Rightarrow> int \<Rightarrow> tdb \<Rightarrow> tdb res" where
  "apply_metric E run stage u now db =
     rbind (py_int (py_or (dict_get u ''step'') (JInt 0))) (\<lambda>step0.
     rbind (py_int (py_or (dict_get u ''total_steps'') (JInt (s_total_steps stage)))) (\<lambda>total0.
     rbind (float_of E (py_or (dict_get u ''epoch'') (JInt 0))) (\<lambda>epoch.
     rbind (float_of E (py_or (dict_get u ''loss'') (JInt 0))) (\<lambda>loss.
     rbind (float_of E (py_or (dict_get u ''learning_rate'') (JInt 0))) (\<lambda>lr.
     rbind (float_of E (py_or (dict_get u ''grad_norm'') (JInt 0))) (\<lambda>gn.
     rbind (float_of E (py_or (dict_get u ''elapsed_seconds'') (JInt 0))) (\<lambda>el.
       let seq = next_metric_seq (r_id run) db;
           step = max 0 step0;
           db1 = db\<lparr>t_metrics := t_metrics db @
             [\<lparr>m_run_id = r_id run, m_seq = seq, m_step = step, m_total_steps = max 0 total0,
               m_epoch = epoch, m_loss = loss, m_learning_rate = lr, m_grad_norm = gn,
               m_elapsed_seconds = el, m_gpus = py_or (dict_get u ''gpus'') (JList []),
               m_created_at = now, m_stage_id = s_id stage,
               m_payload = Some (JObj (metric_payload u))\<rparr>]\<rparr>;
           db2 = upd_stages (\<lambda>s. s_id s = s_id stage)
             (\<lambda>s. s\<lparr>s_current_step := max (s_current_step s) step, s_updated_at := now\<rparr>) db1;
           db3 = upd_run (r_id run) (\<lambda>_. True)
             (\<lambda>r. r\<lparr>r_current_step := progress_steps (r_id run) db2, r_updated_at := now\<rparr>) db2 in
       Inr (add_event ''run.metric.appended'' (r_run_ref run)
         (update_payload u stage @ [(''item_seq'', JInt (int seq))]) now db3))))))))"

definition safe_checkpoint_path :: "string \<Rightarrow> bool" where
  "safe_checkpoint_path p \<longleftrightarrow>
     \<not> (p = [] \<or> take 1 p = ''/'' \<or>
        (\<exists>part \<in> set (split_on (CHR ''/'') p). part \<in> {'''', ''.'', ''..''}) \<or>
        (\<exists>c \<in> set p. c \<in> {CHR 0x00, CHR 0x0D, CHR 0x0A}))"

fun bindable :: "json \<Rightarrow> bool" where
  "bindable (JList _) = False"
| "bindable (JObj _) = False"
| "bindable _ = True"

definition apply_checkpoint :: "env \<Rightarrow> run_row \<Rightarrow> stage_row \<Rightarrow> dict \<Rightarrow> int \<Rightarrow> tdb \<Rightarrow> tdb res" where
  "apply_checkpoint E run stage u now db =
     (let path = py_str E (py_or (dict_get u ''relative_path'') (JStr '''')) in
      if \<not> safe_checkpoint_path path then Inl (Conflict ''invalid_checkpoint_path'')
      else case version_of_run db (r_id run) of
        None \<Rightarrow> Inl AssertionError
      | Some version \<Rightarrow>
          (if \<not> bindable (dict_get u ''step'') then Inl (RuntimeError ''binding'')
           else case new_ref E ''checkpoint'' db of
             (ref, db1) \<Rightarrow>
               (let db2 = (if \<exists>c \<in> set (t_checkpoints db1).
                        c_stage_id c = s_id stage \<and> c_relative_path c = path then db1
                      else db1\<lparr>t_checkpoints := t_checkpoints db1 @
                        [\<lparr>c_id = next_id (map c_id (t_checkpoints db1)), c_checkpoint_ref = ref,
                          c_version_id = v_id version, c_stage_id = s_id stage, c_relative_path = path,
                          c_step = dict_get u ''step'', c_created_at = now\<rparr>]\<rparr>) in
                Inr (add_event ''run.updated'' (r_run_ref run)
                  (update_payload u stage @ [(''artifact_kind'', JStr ''checkpoint'')]) now db2))))"

subsection \<open>A stage exits\<close>

definition settle_start_actions :: "nat \<Rightarrow> nat \<Rightarrow> int \<Rightarrow> tdb \<Rightarrow> tdb" where
  "settle_start_actions rid sid now db =
     upd_actions (\<lambda>a. a_run_id a = rid \<and> a_stage_id a = Some sid \<and> a_kind a = StartStage \<and> open_action a)
       (\<lambda>a. a\<lparr>a_status := ASucceeded, a_result := coalesce (a_result a) (Some (JObj [])),
              a_claim_sha256 := None, a_lease_expires_at := None,
              a_finished_at := coalesce (a_finished_at a) (Some now), a_updated_at := now\<rparr>) db"

definition exited_stopped :: "run_row \<Rightarrow> stage_row \<Rightarrow> int \<Rightarrow> tdb \<Rightarrow> tdb res" where
  "exited_stopped run stage now db =
     rbind (finish_in run Cancelled now None None
       (upd_stages (\<lambda>s. s_id s = s_id stage \<and> open_stage (s_status s))
         (\<lambda>s. s\<lparr>s_status := SCancelled, s_failure_code := None, s_failure_message := None,
                s_finished_at := Some now, s_updated_at := now\<rparr>)
         (settle_stop_actions (r_id run) now db)))
       (\<lambda>(_, db'). Inr db')"

definition terminal_of :: "string \<Rightarrow> run_status" where
  "terminal_of s = (if s = ''cancelled'' then Cancelled else if s = ''lost'' then Lost else Failed)"

definition exited_unsuccessful ::
  "run_row \<Rightarrow> stage_row \<Rightarrow> run_status \<Rightarrow> string option \<Rightarrow> string option \<Rightarrow> int \<Rightarrow> tdb \<Rightarrow> tdb res" where
  "exited_unsuccessful run stage term code msg now db =
     rbind (finish_in run term now code msg
       (upd_stages (\<lambda>s. s_id s = s_id stage)
         (\<lambda>s. s\<lparr>s_status := the (stage_status_of term), s_failure_code := code,
                s_failure_message := msg, s_finished_at := Some now, s_updated_at := now\<rparr>) db))
       (\<lambda>(_, db'). Inr (if term = Cancelled then settle_stop_actions (r_id run) now db' else db'))"

definition exited_succeeded :: "env \<Rightarrow> run_row \<Rightarrow> stage_row \<Rightarrow> int \<Rightarrow> tdb \<Rightarrow> tdb res" where
  "exited_succeeded E run stage now db =
     (let db1 = upd_stages (\<lambda>s. s_id s = s_id stage)
            (\<lambda>s. s\<lparr>s_status := SSucceeded, s_current_step := s_total_steps s,
                   s_finished_at := Some now, s_updated_at := now\<rparr>) db in
      case version_of_run db1 (r_id run) of
        None \<Rightarrow> Inl AssertionError
      | Some version \<Rightarrow>
          (let db2 = add_artifact E (v_id version) (s_id stage) StageOutput (s_output_directory stage) False now db1 in
           case first_stage db2 (r_id run) (\<lambda>s. s_status s = SPending) of
             Some nxt \<Rightarrow>
               (let db3 = upd_stages (\<lambda>s. s_id s = s_id nxt)
                      (\<lambda>s. s\<lparr>s_status := SPreparing, s_updated_at := now\<rparr>) db2 in
                rbind (start_action_payload E (r_id run) (s_id nxt) db3) (\<lambda>payload.
                  Inr (upd_run (r_id run) (\<lambda>_. True)
                    (\<lambda>r. r\<lparr>r_status := Preparing, r_state_revision := r_state_revision r + 1,
                           r_updated_at := now\<rparr>)
                    (snd (queue_training_action_in E (r_id run) (Some (s_id nxt)) (r_server_ref run)
                      StartStage payload now db3)))))
           | None \<Rightarrow>
               (let db3 = add_artifact E (v_id version) (s_id stage) VersionModel
                      (s_output_directory stage) False now db2 in
                case run_by_id db3 (r_id run) of
                  None \<Rightarrow> Inl AssertionError
                | Some refreshed \<Rightarrow>
                    rbind (finish_in refreshed Succeeded now None None db3) (\<lambda>(_, db'). Inr db'))))"

definition apply_exited :: "env \<Rightarrow> run_row \<Rightarrow> stage_row option \<Rightarrow> dict \<Rightarrow> int \<Rightarrow> tdb \<Rightarrow> tdb res" where
  "apply_exited E run stage_opt u now db =
     (case stage_opt of
        None \<Rightarrow> Inl (Conflict ''training_stage_required'')
      | Some stage \<Rightarrow>
          (let status = py_str E (py_or (dict_get u ''status'') (JStr ''failed''));
               db1 = settle_start_actions (r_id run) (s_id stage) now db in
           if r_status run = StopRequested then exited_stopped run stage now db1
           else if status \<noteq> ''succeeded'' then
             rbind (bind_text E (dict_get u ''failure_code'')) (\<lambda>code.
             rbind (bind_text E (dict_get u ''failure_message'')) (\<lambda>msg.
               exited_unsuccessful run stage (terminal_of status) code msg now db1))
           else exited_succeeded E run stage now db1))"

text \<open>What the Worker found out about a run after its own restart.\<close>

definition apply_reconciliation :: "env \<Rightarrow> run_row \<Rightarrow> stage_row option \<Rightarrow> dict \<Rightarrow> int \<Rightarrow> tdb \<Rightarrow> tdb res" where
  "apply_reconciliation E run stage_opt u now db =
     (let outcome = py_str E (py_or (dict_get u ''status'') (JStr ''unresolved'')) in
      if outcome = ''unresolved'' then
        Inr (upd_run (r_id run) (\<lambda>_. True)
          (\<lambda>r. r\<lparr>r_control_status := Some Unresolved, r_state_revision := r_state_revision r + 1,
                 r_updated_at := now\<rparr>) db)
      else if outcome = ''running'' then
        Inr (upd_run (r_id run) (\<lambda>_. True)
          (\<lambda>r. r\<lparr>r_status := Running, r_control_status := Some Connected, r_updated_at := now\<rparr>)
          (case stage_opt of
             None \<Rightarrow> db
           | Some stage \<Rightarrow> upd_stages (\<lambda>s. s_id s = s_id stage)
               (\<lambda>s. s\<lparr>s_status := SRunning, s_updated_at := now\<rparr>) db))
      else apply_exited E run stage_opt
        (dict_merge u [(''kind'', JStr ''exited''), (''status'', JStr outcome)]) now db)"

definition with_stage :: "stage_row option \<Rightarrow> (stage_row \<Rightarrow> 'a res) \<Rightarrow> 'a res" where
  "with_stage s f = (case s of None \<Rightarrow> Inl (Conflict ''training_stage_required'') | Some x \<Rightarrow> f x)"

definition update_stage :: "env \<Rightarrow> run_row \<Rightarrow> dict \<Rightarrow> tdb \<Rightarrow> stage_row option res" where
  "update_stage E run u db =
     (if dict_get u ''stage_ref'' = JNull then Inr None
      else rbind (bind_text E (dict_get u ''stage_ref'')) (\<lambda>ref.
        case fetchone (filter (\<lambda>s. s_run_id s = r_id run \<and> Some (s_stage_ref s) = ref) (t_stages db)) of
          None \<Rightarrow> Inl (Conflict ''training_stage_not_found'')
        | Some s \<Rightarrow> Inr (Some s)))"

definition apply_training_update_in :: "env \<Rightarrow> run_row \<Rightarrow> dict \<Rightarrow> int \<Rightarrow> tdb \<Rightarrow> tdb res" where
  "apply_training_update_in E run u now db =
     rbind (update_stage E run u db) (\<lambda>stage.
       let kind = py_str E (dict_get u ''kind'') in
       if kind \<in> {''accepted'', ''heartbeat''} then Inr db
       else if kind = ''started'' then with_stage stage (\<lambda>s. Inr (apply_started run s u now db))
       else if kind = ''log'' then with_stage stage (\<lambda>s. Inr (apply_log E run s u now db))
       else if kind = ''metric'' then with_stage stage (\<lambda>s. apply_metric E run s u now db)
       else if kind = ''checkpoint'' then with_stage stage (\<lambda>s. apply_checkpoint E run s u now db)
       else if kind = ''reconciliation'' then apply_reconciliation E run stage u now db
       else if kind = ''exited'' then apply_exited E run stage u now db
       else Inl (Conflict ''unsupported_training_update''))"

section \<open>Applying a numbered batch\<close>

text \<open>The loop rereads the run before each update.\<close>

definition apply_batch :: "env \<Rightarrow> nat \<Rightarrow> int \<Rightarrow> dict list \<Rightarrow> tdb \<Rightarrow> tdb res" where
  "apply_batch E rid now us db =
     rfold (\<lambda>u db. case run_by_id db rid of
        None \<Rightarrow> Inl AssertionError
      | Some run \<Rightarrow> apply_training_update_in E run u now db) us db"

definition real_run :: "tdb \<Rightarrow> string \<Rightarrow> string \<Rightarrow> run_row option" where
  "real_run db ref node_ref =
     fetchone (filter (\<lambda>r. r_run_ref r = ref \<and> r_server_ref r = node_ref \<and> r_execution_mode r = Real) (t_runs db))"

definition record_update_seq :: "nat \<Rightarrow> int \<Rightarrow> string \<Rightarrow> int \<Rightarrow> tdb \<Rightarrow> tdb" where
  "record_update_seq rid seq worker now db =
     upd_run rid (\<lambda>_. True)
       (\<lambda>r. r\<lparr>r_exec_update_seq := seq, r_exec_worker := Some worker, r_exec_last_heartbeat := Some now,
              r_control_status := (if r_control_status r = Some Unresolved then r_control_status r else Some Connected),
              r_updated_at := now\<rparr>) db"

definition apply_training_run_updates ::
  "env \<Rightarrow> string \<Rightarrow> string \<Rightarrow> string \<Rightarrow> string \<Rightarrow> int \<Rightarrow> int \<Rightarrow> dict list \<Rightarrow> int \<Rightarrow> tdb \<Rightarrow> (run_row \<times> tdb) res" where
  "apply_training_run_updates E node_ref token ref worker owner_epoch worker_seq us now db =
     rbind (authenticate_worker E node_ref token (Some worker) db) (\<lambda>_.
       case real_run db ref node_ref of
         None \<Rightarrow> Inl (NotFound ''run_not_found'')
       | Some run \<Rightarrow>
           (if r_exec_owner_epoch run \<noteq> owner_epoch then Inl (Conflict ''training_run_owner_epoch_conflict'')
            else if worker_seq = r_exec_update_seq run then returning ref db
            else if worker_seq < r_exec_update_seq run then Inl (Conflict ''training_run_update_out_of_order'')
            else if worker_seq \<noteq> r_exec_update_seq run + 1 then Inl (Conflict ''training_run_update_gap'')
            else rbind (apply_batch E (r_id run) now us db) (\<lambda>db'.
              returning ref (record_update_seq (r_id run) worker_seq worker now db'))))"

end
