(* ===== verification/Run_Creation.thy ===== *)
theory Run_Creation
  imports Real_Engine
begin

text \<open>
  Creating a run (\<open>TrainingStore.create_run\<close>): idempotent replay, GPU and port leases, the
  checks on the model, the node and the selected data, the numbered model version, the
  stages, and the first start action of a real run.
\<close>

section \<open>The request and what the run builder returns\<close>

record split_entry =
  se_replica_ref :: string
  se_release_ref :: string
  se_dataset_date :: string
  se_local_root :: string
  se_inventory_sha256 :: string

record run_request =
  q_execution_mode :: string
  q_gpu_uuids :: "string list"
  q_model_ref :: string
  q_revision_ref :: string
  q_server_ref :: string
  q_dataset_splits :: "(split_entry list \<times> split_entry list) option"
  q_requires_master_port :: bool
  q_version_description :: "string option"

record version_meta =
  vm_version_ref :: string
  vm_number :: nat
  vm_date :: string
  vm_label :: string
  vm_snapshot_ref :: "string option"

record stage_spec =
  sp_stage_ref :: "string option"
  sp_stage_name :: "string option"
  sp_input_source :: string
  sp_parameters :: json
  sp_private_spec :: json
  sp_command_preview :: string
  sp_output_directory :: "string option"
  sp_total_steps :: int

record run_spec =
  rs_stages :: "stage_spec list"
  rs_dataset_manifest :: json

type_synonym run_spec_builder = "string \<Rightarrow> nat option \<Rightarrow> version_meta \<Rightarrow> run_spec res"

section \<open>Looking up an earlier request\<close>

definition find_create_run_by_idempotency :: "env \<Rightarrow> string \<Rightarrow> json \<Rightarrow> tdb \<Rightarrow> run_row option res" where
  "find_create_run_by_idempotency E key payload db =
     (case find_idempotency ''create_run'' key db of
        None \<Rightarrow> Inr None
      | Some idem \<Rightarrow>
          (if i_digest idem \<noteq> payload_hash E payload then Inl (Conflict ''idempotency_conflict'')
           else rbind (get_run_in db (i_response idem)) (\<lambda>r. Inr (Some r))))"

section \<open>Checks\<close>

text \<open>The first port of the range that no lease of the server holds.\<close>

definition find_available_port :: "string \<Rightarrow> nat \<Rightarrow> nat \<Rightarrow> tdb \<Rightarrow> nat res" where
  "find_available_port server start stop db =
     (let leased = map p_port (filter (\<lambda>p. p_server_ref p = server) (t_port_leases db)) in
      case filter (\<lambda>p. p \<notin> set leased) [start..<Suc stop] of
        [] \<Rightarrow> Inl (Conflict ''master_port_exhausted'')
      | p # _ \<Rightarrow> Inr p)"

text \<open>A node that reported health recently enough keeps its status; otherwise it is offline.\<close>

definition effective_node_status :: "node_row \<Rightarrow> int \<Rightarrow> int \<Rightarrow> node_status" where
  "effective_node_status n offline_after now =
     (if n_status n \<notin> {Online, Degraded} then n_status n
      else case n_last_heartbeat_at n of
        None \<Rightarrow> Offline
      | Some t \<Rightarrow> (if offline_after < now - t then Offline else n_status n))"

definition has_feature :: "json \<Rightarrow> string \<Rightarrow> bool res" where
  "has_feature capabilities feature =
     rbind (as_dict (if capabilities = JNull then JObj [] else capabilities)) (\<lambda>caps.
     rbind (py_list (py_or (dict_get caps ''worker_features'') (JList []))) (\<lambda>features.
       Inr (dict_get caps feature = JBool True \<or> JStr feature \<in> set features)))"

definition check_real_target :: "model_row \<Rightarrow> string \<Rightarrow> int \<Rightarrow> tdb \<Rightarrow> unit res" where
  "check_real_target model server_ref now db =
     (if md_status model \<noteq> Verified then Inl (Conflict ''real_training_model_not_verified'')
      else case node_by_ref db server_ref of
        None \<Rightarrow> Inl (Conflict ''real_training_node_unavailable'')
      | Some node \<Rightarrow>
          (if effective_node_status node 45000 now \<noteq> Online
           then Inl (Conflict ''real_training_node_unavailable'')
           else rbind (has_feature (n_capabilities node) ''training_execution_v1'') (\<lambda>ok.
             if ok then Inr () else Inl (Conflict ''real_training_worker_upgrade_required''))))"

text \<open>\<open>_REPLICA_SELECT\<close>: a replica joined with its source manifest.\<close>

definition replica_by_ref :: "tdb \<Rightarrow> string \<Rightarrow> (replica_row \<times> manifest_row) option" where
  "replica_by_ref db ref =
     fetchone (concat (map (\<lambda>r. map (Pair r) (filter (\<lambda>m. mf_id m = rp_manifest_id r) (t_manifests db)))
       (filter (\<lambda>r. rp_replica_ref r = ref) (t_replicas db))))"

definition replica_matches :: "string \<Rightarrow> split_entry \<Rightarrow> replica_row \<times> manifest_row \<Rightarrow> bool" where
  "replica_matches node_ref e = (\<lambda>(r, m).
     rp_status r = RReady \<and> rp_node_ref r = node_ref \<and> mf_release_ref m = se_release_ref e \<and>
     mf_dataset_date m = se_dataset_date e \<and> rp_local_root r = se_local_root e \<and>
     rp_inventory_sha256 r = se_inventory_sha256 e)"

definition validate_dataset_splits_in ::
  "string \<Rightarrow> split_entry list \<times> split_entry list \<Rightarrow> tdb \<Rightarrow> unit res" where
  "validate_dataset_splits_in node_ref splits db =
     (let entries = fst splits @ snd splits in
      if entries = [] then Inl (Conflict ''managed_dataset_training_set_required'')
      else if \<exists>e \<in> set entries. replica_by_ref db (se_replica_ref e) = None
        then Inl (Conflict ''dataset_replica_changed'')
      else if \<exists>e \<in> set entries. \<not> replica_matches node_ref e (the (replica_by_ref db (se_replica_ref e)))
        then Inl (Conflict ''dataset_replica_changed'')
      else Inr ())"

text \<open>The model with its family, and the revision that must be the model's current one.\<close>

definition current_model :: "run_request \<Rightarrow> tdb \<Rightarrow> (model_row \<times> family_row \<times> revision_row) res" where
  "current_model q db =
     (case fetchone (concat (map (\<lambda>m. map (Pair m) (filter (\<lambda>f. fam_id f = md_family_id m) (t_families db)))
             (filter (\<lambda>m. md_model_ref m = q_model_ref q) (t_models db)))) of
        None \<Rightarrow> Inl (Conflict ''model_configuration_changed'')
      | Some (m, f) \<Rightarrow>
          (case fetchone (filter (\<lambda>r. rv_revision_ref r = q_revision_ref q) (t_revisions db)) of
             None \<Rightarrow> Inl (Conflict ''model_configuration_changed'')
           | Some rv \<Rightarrow>
               (if rv_model_id rv \<noteq> md_id m \<or> rv_number rv \<noteq> md_current_revision m
                then Inl (Conflict ''model_configuration_changed'')
                else Inr (m, f, rv))))"

section \<open>Inserting the rows\<close>

definition utf8 :: "nat list \<Rightarrow> string" where
  "utf8 bs = map char_of bs"

definition stage_numeral :: "nat \<Rightarrow> string" where
  "stage_numeral n = utf8 ([[0xE4,0xB8,0x80], [0xE4,0xBA,0x8C], [0xE4,0xB8,0x89], [0xE5,0x9B,0x9B],
     [0xE4,0xBA,0x94], [0xE5,0x85,0xAD], [0xE4,0xB8,0x83], [0xE5,0x85,0xAB], [0xE4,0xB9,0x9D],
     [0xE5,0x8D,0x81]] ! (n - 1))"

definition stage_name :: "nat \<Rightarrow> string" where
  "stage_name n = utf8 [0xE7,0xAC,0xAC] @ stage_numeral n @ utf8 [0xE9,0x98,0xB6,0xE6,0xAE,0xB5]"

definition stage_steps :: "stage_spec \<Rightarrow> int" where
  "stage_steps s = max 1 (sp_total_steps s)"

text \<open>The output directory: the stage's own, or the one of its private specification.\<close>

definition stage_output :: "env \<Rightarrow> stage_spec \<Rightarrow> string res" where
  "stage_output E s =
     (if text_or (sp_output_directory s) '''' \<noteq> [] then Inr (text_or (sp_output_directory s) '''')
      else rbind (as_dict (py_or (sp_private_spec s) (JObj []))) (\<lambda>private.
        rbind (bind_text E (dict_get_default private ''output_directory'' (JStr ''''))) (\<lambda>t.
          case t of None \<Rightarrow> Inl IntegrityError | Some d \<Rightarrow> Inr d)))"

definition insert_stage :: "env \<Rightarrow> nat \<Rightarrow> int \<Rightarrow> nat \<times> stage_spec \<Rightarrow> tdb \<Rightarrow> tdb res" where
  "insert_stage E run_id now = (\<lambda>(index, s) db0.
     let private = py_or (sp_private_spec s) (JObj []);
         (ref, db) = (if text_or (sp_stage_ref s) '''' \<noteq> [] then (text_or (sp_stage_ref s) '''', db0)
                      else new_ref E ''stage'' db0) in
     rbind (stage_output E s) (\<lambda>output.
       if sp_input_source s \<notin> {''manual'', ''previous_stage_output''} \<or>
          (\<exists>x \<in> set (t_stages db). s_stage_ref x = ref)
       then Inl IntegrityError
       else Inr (db\<lparr>t_stages := t_stages db @
         [\<lparr>s_id = next_id (map s_id (t_stages db)), s_stage_ref = ref, s_run_id = run_id,
           s_stage_number = index, s_stage_name = text_or (sp_stage_name s) (stage_name index),
           s_input_source = sp_input_source s, s_parameters = sp_parameters s, s_run_spec = private,
           s_command_preview = sp_command_preview s, s_output_directory = output,
           s_status = SPending, s_current_step = 0, s_total_steps = stage_steps s,
           s_failure_code = None, s_failure_message = None, s_created_at = now, s_updated_at = now,
           s_started_at = None, s_finished_at = None\<rparr>]\<rparr>)))"

definition hex_digit :: "char \<Rightarrow> nat" where
  "hex_digit c = (let n = of_char c :: nat in if n < 58 then n - 48 else if n < 71 then n - 55 else n - 87)"

definition run_seed :: "env \<Rightarrow> string \<Rightarrow> nat" where
  "run_seed E ref = foldl (\<lambda>n c. 16 * n + hex_digit c) 0 (take 8 (sha256_hex E ref))"

definition parent_spec :: "model_row \<Rightarrow> family_row \<Rightarrow> version_meta \<Rightarrow> json" where
  "parent_spec m f vm = JObj [(''model_ref'', JStr (md_model_ref m)), (''family_ref'', JStr (fam_ref f)),
     (''family_name'', JStr (fam_name f)), (''version_ref'', JStr (vm_version_ref vm)),
     (''version_number'', JInt (int (vm_number vm))), (''version_date'', JStr (vm_date vm)),
     (''version_label'', JStr (vm_label vm))]"

definition insert_run ::
  "env \<Rightarrow> run_request \<Rightarrow> string \<Rightarrow> model_row \<Rightarrow> family_row \<Rightarrow> revision_row \<Rightarrow> version_meta \<Rightarrow>
   stage_spec list \<Rightarrow> int \<Rightarrow> tdb \<Rightarrow> tdb" where
  "insert_run E q ref m f rv vm specs now db =
     (let real = q_execution_mode q = ''real''; rid = next_id (map r_id (t_runs db)) in
      db\<lparr>t_runs := t_runs db @
           [\<lparr>r_id = rid, r_run_ref = ref, r_model_id = md_id m, r_revision_id = rv_id rv,
             r_server_ref = q_server_ref q, r_gpu_uuids = q_gpu_uuids q,
             r_parameters = sp_parameters (hd specs), r_run_spec = parent_spec m f vm,
             r_command_preview = sp_command_preview (hd specs), r_status = Queued,
             r_state_revision = 1, r_seed = run_seed E ref,
             r_total_steps = sum_list (map stage_steps specs), r_current_step = 0,
             r_owner_id = None, r_owner_epoch = 0, r_lease_expires_at = None, r_heartbeat_at = None,
             r_failure_code = None, r_failure_message = None, r_created_at = now, r_updated_at = now,
             r_started_at = None, r_finished_at = None,
             r_execution_mode = (if real then Real else Simulation),
             r_control_status = (if real then Some Unreachable else None),
             r_exec_worker = None, r_exec_owner_epoch = (if real then 1 else 0),
             r_exec_update_seq = 0, r_exec_last_heartbeat = None\<rparr>],
         t_versions := t_versions db @
           [\<lparr>v_id = next_id (map v_id (t_versions db)), v_version_ref = vm_version_ref vm,
             v_family_id = fam_id f, v_run_id = rid, v_number = vm_number vm, v_date = vm_date vm,
             v_label = vm_label vm, v_created_at = now,
             v_description = (case q_version_description q of None \<Rightarrow> None
                | Some d \<Rightarrow> (if d = [] then None else Some d))\<rparr>]\<rparr>)"

definition insert_snapshot :: "env \<Rightarrow> nat \<Rightarrow> version_meta \<Rightarrow> json \<Rightarrow> int \<Rightarrow> tdb \<Rightarrow> tdb res" where
  "insert_snapshot E rid vm manifest now db =
     (case vm_snapshot_ref vm of
        None \<Rightarrow> Inr db
      | Some ref \<Rightarrow>
          (case manifest of
             JObj d \<Rightarrow> Inr (db\<lparr>t_snapshots := t_snapshots db @
               [\<lparr>ds_snapshot_ref = ref, ds_run_id = rid, ds_manifest = manifest,
                 ds_manifest_sha256 = payload_hash E manifest, ds_created_at = now\<rparr>]\<rparr>)
           | _ \<Rightarrow> Inl (Conflict ''dataset_manifest_missing'')))"

definition insert_leases :: "run_request \<Rightarrow> nat \<Rightarrow> nat option \<Rightarrow> int \<Rightarrow> tdb \<Rightarrow> tdb res" where
  "insert_leases q rid port now db =
     (if \<not> distinct (q_gpu_uuids q) then Inl IntegrityError
      else Inr (db\<lparr>
        t_gpu_leases := t_gpu_leases db @
          map (\<lambda>g. \<lparr>g_uuid = g, g_run_id = rid, g_acquired_at = now\<rparr>) (q_gpu_uuids q),
        t_port_leases := t_port_leases db @ (case port of None \<Rightarrow> []
          | Some p \<Rightarrow> [\<lparr>p_server_ref = q_server_ref q, p_port = p, p_run_id = rid, p_acquired_at = now\<rparr>])\<rparr>))"

text \<open>The first stage of the run: the first of the rows just inserted.\<close>

definition queue_first_stage :: "env \<Rightarrow> run_request \<Rightarrow> nat \<Rightarrow> int \<Rightarrow> tdb \<Rightarrow> tdb res" where
  "queue_first_stage E q rid now db =
     (if q_execution_mode q \<noteq> ''real'' then Inr db
      else case fetchone (filter (\<lambda>s. s_run_id s = rid) (t_stages db)) of
        None \<Rightarrow> Inl (KeyError ''0'')
      | Some s \<Rightarrow>
          rbind (start_action_payload E rid (s_id s) db) (\<lambda>payload.
            Inr (snd (queue_training_action_in E rid (Some (s_id s)) (q_server_ref q) StartStage payload now db))))"

definition version_number_for :: "family_row \<Rightarrow> tdb \<Rightarrow> nat" where
  "version_number_for f db =
     next_id (map v_number (filter (\<lambda>v. v_family_id v = fam_id f) (t_versions db)))"

definition make_version_meta ::
  "env \<Rightarrow> run_request \<Rightarrow> family_row \<Rightarrow> string \<Rightarrow> tdb \<Rightarrow> version_meta \<times> tdb" where
  "make_version_meta E q f today db0 =
     (let number = version_number_for f db0;
          (version_ref, db1) = new_ref E ''version'' db0;
          (snapshot_ref, db2) = (if q_dataset_splits q = None then (None, db1)
             else (let (s, d) = new_ref E ''dataset_snapshot'' db1 in (Some s, d))) in
      (\<lparr>vm_version_ref = version_ref, vm_number = number, vm_date = today,
        vm_label = ''v'' @ nat_str number @ ''-'' @ today, vm_snapshot_ref = snapshot_ref\<rparr>, db2))"

text \<open>Everything after the checks: references, the built specification, and the inserts in the code's order.\<close>

definition create_checked_run ::
  "env \<Rightarrow> run_request \<Rightarrow> run_spec_builder \<Rightarrow> string \<Rightarrow> string \<Rightarrow> string \<Rightarrow> string \<Rightarrow> int \<Rightarrow>
   model_row \<times> family_row \<times> revision_row \<Rightarrow> nat option \<Rightarrow> tdb \<Rightarrow> (run_row \<times> tdb) res" where
  "create_checked_run E q builder key digest actor today now = (\<lambda>(m, f, rv) port db0.
     let (ref, db1) = new_ref E ''run'' db0;
         (vm, db2) = make_version_meta E q f today db1 in
     rbind (builder ref port vm) (\<lambda>spec.
       let specs = rs_stages spec; rid = next_id (map r_id (t_runs db2)) in
       if \<not> (1 \<le> length specs \<and> length specs \<le> 10) then Inl (Conflict ''invalid_training_stage_count'')
       else
         rbind (insert_snapshot E rid vm (rs_dataset_manifest spec) now
                  (insert_run E q ref m f rv vm specs now db2)) (\<lambda>db3.
         rbind (rfold (insert_stage E rid now) (zip [1..<Suc (length specs)] specs) db3) (\<lambda>db4.
         rbind (insert_leases q rid port now db4) (\<lambda>db5.
         rbind (queue_first_stage E q rid now (add_idempotency ''create_run'' key digest ref now db5)) (\<lambda>db6.
           returning ref
             (add_audit actor ''run.created'' ref
               [(''mode'', JStr (q_execution_mode q)), (''stage_count'', JInt (int (length specs))),
                (''version_label'', JStr (vm_label vm))] now
               (add_event ''run.updated'' ref [(''stage_count'', JInt (int (length specs)))] now
                 (snd (add_log rid ''info''
                   (if q_execution_mode q = ''real'' then ''Real training workflow queued.''
                    else ''Simulation workflow queued.'') now None db6))))))))))"

definition create_run ::
  "env \<Rightarrow> run_request \<Rightarrow> run_spec_builder \<Rightarrow> string \<Rightarrow> string \<Rightarrow> json \<Rightarrow> string \<Rightarrow> int \<Rightarrow> tdb \<Rightarrow>
   (run_row \<times> tdb) res" where
  "create_run E q builder key actor payload today now db =
     (let digest = payload_hash E payload in
      if q_execution_mode q \<notin> {''simulation'', ''real''} then Inl (Conflict ''unsupported_execution_mode'')
      else case find_idempotency ''create_run'' key db of
        Some idem \<Rightarrow>
          (if i_digest idem \<noteq> digest then Inl (Conflict ''idempotency_conflict'')
           else returning (i_response idem) db)
      | None \<Rightarrow>
          (if \<exists>g \<in> set (t_gpu_leases db). g_uuid g \<in> set (q_gpu_uuids q)
           then Inl (Conflict ''gpu_lease_conflict'')
           else
             rbind (current_model q db) (\<lambda>(m, f, rv).
             rbind (if q_execution_mode q = ''real'' then check_real_target m (q_server_ref q) now db else Inr ()) (\<lambda>_.
             rbind (case q_dataset_splits q of None \<Rightarrow> Inr ()
                    | Some splits \<Rightarrow> validate_dataset_splits_in (q_server_ref q) splits db) (\<lambda>_.
             rbind (if q_requires_master_port q
                    then rbind (find_available_port (q_server_ref q) 29500 29600 db) (\<lambda>p. Inr (Some p))
                    else Inr None) (\<lambda>port.
               create_checked_run E q builder key digest actor today now (m, f, rv) port db))))))"

end
