(* ===== verification/Run_Allocation.thy ===== *)
theory Run_Allocation
  imports Run_Creation
begin

text \<open>
  What the training centre promises about GPUs and ports, as an abstract machine: runs
  acquire leases when they are created, move between live statuses, and release everything
  when they finish.  Every operation of \<open>TrainingStore\<close> that touches runs is shown to be a
  sequence of steps of this machine, so its invariant (no GPU and no port is held twice,
  only live runs hold leases, and a live run holds every GPU it was given) carries over to
  the database.
\<close>

section \<open>The abstract machine\<close>

record alloc =
  al_runs :: "(nat \<times> run_status \<times> string list) list"
  al_gpus :: "(string \<times> nat) list"
  al_ports :: "((string \<times> nat) \<times> nat) list"
  al_pending :: "nat set"

definition set_status :: "nat \<Rightarrow> run_status \<Rightarrow> (nat \<times> run_status \<times> string list) list \<Rightarrow>
    (nat \<times> run_status \<times> string list) list" where
  "set_status rid s rs = map (\<lambda>(i, t, g). if i = rid then (i, s, g) else (i, t, g)) rs"

definition drop_leases :: "nat \<Rightarrow> ('k \<times> nat) list \<Rightarrow> ('k \<times> nat) list" where
  "drop_leases rid ls = filter (\<lambda>(k, i). i \<noteq> rid) ls"

inductive alloc_step :: "alloc \<Rightarrow> alloc \<Rightarrow> bool" where
  quiet: "P \<subseteq> al_pending a \<Longrightarrow> alloc_step a (a\<lparr>al_pending := P\<rparr>)"
| move: "(\<And>t g. (rid, t, g) \<in> set (al_runs a) \<Longrightarrow> \<not> terminal t) \<Longrightarrow> \<not> terminal s \<Longrightarrow>
    alloc_step a (a\<lparr>al_runs := set_status rid s (al_runs a)\<rparr>)"
| release: "terminal s \<Longrightarrow> P \<subseteq> al_pending a - {rid} \<Longrightarrow>
    alloc_step a \<lparr>al_runs = set_status rid s (al_runs a), al_gpus = drop_leases rid (al_gpus a),
      al_ports = drop_leases rid (al_ports a), al_pending = P\<rparr>"
| acquire: "rid \<notin> fst ` set (al_runs a) \<Longrightarrow> \<not> terminal s \<Longrightarrow> distinct gs \<Longrightarrow>
    set gs \<inter> fst ` set (al_gpus a) = {} \<Longrightarrow> distinct ps \<Longrightarrow>
    set ps \<inter> fst ` set (al_ports a) = {} \<Longrightarrow> P \<subseteq> insert rid (al_pending a) \<Longrightarrow>
    alloc_step a \<lparr>al_runs = al_runs a @ [(rid, s, gs)],
      al_gpus = al_gpus a @ map (\<lambda>g. (g, rid)) gs,
      al_ports = al_ports a @ map (\<lambda>p. (p, rid)) ps, al_pending = P\<rparr>"

text \<open>Leases belong to live runs, live runs hold their GPUs, and finished runs have no pending stage.\<close>

definition held_by_live :: "(nat \<times> run_status \<times> string list) list \<Rightarrow> ('k \<times> nat) list \<Rightarrow> bool" where
  "held_by_live rs ls \<longleftrightarrow> (\<forall>(k, i) \<in> set ls. \<exists>t g. (i, t, g) \<in> set rs \<and> \<not> terminal t)"

definition live_holds :: "alloc \<Rightarrow> bool" where
  "live_holds a \<longleftrightarrow>
     (\<forall>(i, t, g) \<in> set (al_runs a). \<not> terminal t \<longrightarrow> (\<forall>u \<in> set g. (u, i) \<in> set (al_gpus a)))"

definition finished_idle :: "alloc \<Rightarrow> bool" where
  "finished_idle a \<longleftrightarrow> (\<forall>(i, t, g) \<in> set (al_runs a). terminal t \<longrightarrow> i \<notin> al_pending a)"

definition alloc_ok :: "alloc \<Rightarrow> bool" where
  "alloc_ok a \<longleftrightarrow> distinct (map fst (al_runs a)) \<and> distinct (map fst (al_gpus a)) \<and>
     distinct (map fst (al_ports a)) \<and> held_by_live (al_runs a) (al_gpus a) \<and>
     held_by_live (al_runs a) (al_ports a) \<and> live_holds a \<and> finished_idle a \<and>
     al_pending a \<subseteq> fst ` set (al_runs a)"

lemma set_status_ids [simp]: "map fst (set_status rid s rs) = map fst rs"
  by (auto simp: set_status_def)

lemma set_status_fst [simp]: "fst ` set (set_status rid s rs) = fst ` set rs"
  by (metis set_status_ids list.set_map)

lemma set_status_mem:
  "(i, t, g) \<in> set (set_status rid s rs) \<longleftrightarrow>
     (if i = rid then t = s \<and> (\<exists>t'. (i, t', g) \<in> set rs) else (i, t, g) \<in> set rs)"
  by (induction rs) (auto simp: set_status_def split: if_splits)

lemma drop_leases_mem [simp]: "(k, i) \<in> set (drop_leases rid ls) \<longleftrightarrow> (k, i) \<in> set ls \<and> i \<noteq> rid"
  by (auto simp: drop_leases_def)

lemma drop_leases_distinct: "distinct (map fst ls) \<Longrightarrow> distinct (map fst (drop_leases rid ls))"
  by (simp add: drop_leases_def distinct_map_filter)

lemma held_by_live_set_status:
  assumes "held_by_live rs ls" and "\<not> terminal s"
  shows "held_by_live (set_status rid s rs) ls"
  unfolding held_by_live_def
proof (clarify)
  fix k i assume "(k, i) \<in> set ls"
  with assms(1) obtain t g where "(i, t, g) \<in> set rs" "\<not> terminal t"
    by (auto simp: held_by_live_def)
  then show "\<exists>t g. (i, t, g) \<in> set (set_status rid s rs) \<and> \<not> terminal t"
    using assms(2) by (cases "i = rid") (auto simp: set_status_mem)
qed

lemma held_by_live_release:
  assumes "held_by_live rs ls"
  shows "held_by_live (set_status rid s rs) (drop_leases rid ls)"
  unfolding held_by_live_def
proof (clarify)
  fix k i assume "(k, i) \<in> set (drop_leases rid ls)"
  then have "(k, i) \<in> set ls" "i \<noteq> rid" by auto
  moreover from this assms obtain t g where "(i, t, g) \<in> set rs" "\<not> terminal t"
    by (auto simp: held_by_live_def)
  ultimately show "\<exists>t g. (i, t, g) \<in> set (set_status rid s rs) \<and> \<not> terminal t"
    by (auto simp: set_status_mem)
qed

lemma held_by_live_acquire:
  assumes "held_by_live rs ls" and "\<not> terminal s"
  shows "held_by_live (rs @ [(rid, s, gs)]) (ls @ map (\<lambda>k. (k, rid)) ks)"
  using assms by (fastforce simp: held_by_live_def)

lemma alloc_step_ok: "alloc_step a b \<Longrightarrow> alloc_ok a \<Longrightarrow> alloc_ok b"
proof (induction rule: alloc_step.induct)
  case (quiet P a)
  then show ?case by (auto simp: alloc_ok_def live_holds_def finished_idle_def)
next
  case (move rid a s)
  have "live_holds (a\<lparr>al_runs := set_status rid s (al_runs a)\<rparr>)"
    using move by (fastforce simp: alloc_ok_def live_holds_def set_status_mem split: if_splits)
  moreover have "finished_idle (a\<lparr>al_runs := set_status rid s (al_runs a)\<rparr>)"
    using move by (fastforce simp: alloc_ok_def finished_idle_def set_status_mem split: if_splits)
  ultimately show ?case
    using move by (simp add: alloc_ok_def held_by_live_set_status)
next
  case (release s P a rid)
  let ?b = "\<lparr>al_runs = set_status rid s (al_runs a), al_gpus = drop_leases rid (al_gpus a),
      al_ports = drop_leases rid (al_ports a), al_pending = P\<rparr>"
  have "live_holds ?b"
    using release by (fastforce simp: alloc_ok_def live_holds_def set_status_mem split: if_splits)
  moreover have "finished_idle ?b"
    using release by (fastforce simp: alloc_ok_def finished_idle_def set_status_mem split: if_splits)
  moreover have "P \<subseteq> fst ` set (al_runs a)"
    using release by (auto simp: alloc_ok_def)
  ultimately show ?case
    using release by (simp add: alloc_ok_def held_by_live_release drop_leases_distinct)
next
  case (acquire rid a s gs ps P)
  let ?b = "\<lparr>al_runs = al_runs a @ [(rid, s, gs)], al_gpus = al_gpus a @ map (\<lambda>g. (g, rid)) gs,
      al_ports = al_ports a @ map (\<lambda>p. (p, rid)) ps, al_pending = P\<rparr>"
  have "live_holds a" "finished_idle a" "al_pending a \<subseteq> fst ` set (al_runs a)"
    using acquire.prems by (simp_all add: alloc_ok_def)
  then have "live_holds ?b"
    by (auto simp: live_holds_def)
  moreover have "finished_idle ?b"
    using \<open>finished_idle a\<close> acquire.hyps(1,2,7) by (force simp: finished_idle_def)
  moreover have "P \<subseteq> fst ` set (al_runs ?b)"
    using \<open>al_pending a \<subseteq> fst ` set (al_runs a)\<close> acquire.hyps(7) by auto
  moreover have "distinct (map fst (al_gpus ?b))" "distinct (map fst (al_ports ?b))"
    using acquire by (auto simp: alloc_ok_def comp_def)
  ultimately show ?case
    using acquire by (simp add: alloc_ok_def held_by_live_acquire)
qed

interpretation alloc_ts: transition_system alloc_step alloc_ok
  by unfold_locales (rule alloc_step_ok)

text \<open>In a well-formed allocation no two live runs share a GPU.\<close>

lemma alloc_ok_exclusive:
  assumes "alloc_ok a" and "(i, s, g) \<in> set (al_runs a)" and "(j, t, h) \<in> set (al_runs a)"
    and "\<not> terminal s" and "\<not> terminal t" and "u \<in> set g" and "u \<in> set h"
  shows "i = j"
proof -
  have "(u, i) \<in> set (al_gpus a)" "(u, j) \<in> set (al_gpus a)"
    using assms by (auto simp: alloc_ok_def live_holds_def)
  then show ?thesis
    using assms(1) by (auto simp: alloc_ok_def dest: eq_key_imp_eq_value)
qed

section \<open>The database as an allocation\<close>

definition alloc_of :: "tdb \<Rightarrow> alloc" where
  "alloc_of db = \<lparr>
     al_runs = map (\<lambda>r. (r_id r, r_status r, r_gpu_uuids r)) (t_runs db),
     al_gpus = map (\<lambda>g. (g_uuid g, g_run_id g)) (t_gpu_leases db),
     al_ports = map (\<lambda>p. ((p_server_ref p, p_port p), p_run_id p)) (t_port_leases db),
     al_pending = s_run_id ` {s \<in> set (t_stages db). s_status s = SPending}\<rparr>"

lemma mem_al_runs:
  "(i, t, g) \<in> set (al_runs (alloc_of db)) \<longleftrightarrow>
     (\<exists>r \<in> set (t_runs db). r_id r = i \<and> r_status r = t \<and> r_gpu_uuids r = g)"
  unfolding alloc_of_def by (simp add: image_iff) metis

abbreviation reaches :: "tdb \<Rightarrow> tdb \<Rightarrow> bool" where
  "reaches db db' \<equiv> alloc_step\<^sup>*\<^sup>* (alloc_of db) (alloc_of db')"

definition db_ok :: "tdb \<Rightarrow> bool" where
  "db_ok db \<longleftrightarrow> alloc_ok (alloc_of db)"

lemma reaches_ok: "db_ok db \<Longrightarrow> reaches db db' \<Longrightarrow> db_ok db'"
  unfolding db_ok_def by (rule alloc_ts.run_inv)

lemma reaches_trans: "reaches a b \<Longrightarrow> reaches b c \<Longrightarrow> reaches a c"
  by (rule rtranclp_trans)

text \<open>Operations on the other tables do not move the machine.\<close>

named_theorems frame \<open>operations that leave the allocation as it is\<close>

lemma alloc_of_cong:
  assumes "t_runs db' = t_runs db" and "t_gpu_leases db' = t_gpu_leases db"
    and "t_port_leases db' = t_port_leases db" and "t_stages db' = t_stages db"
  shows "alloc_of db' = alloc_of db"
  using assms by (simp add: alloc_of_def)

lemma frame_simple [frame, simp]:
  "alloc_of (add_event ty ref p now db) = alloc_of db"
  "alloc_of (add_audit a b c p now db) = alloc_of db"
  "alloc_of (upd_actions P f db) = alloc_of db"
  "alloc_of (add_idempotency s k d r now db) = alloc_of db"
  "alloc_of (ensure_log_storage rid now db) = alloc_of db"
  by (simp_all add: alloc_of_def add_event_def add_audit_def upd_actions_def add_idempotency_def
      ensure_log_storage_def Let_def)

lemma frame_log [frame, simp]:
  "alloc_of (snd (add_log rid level msg now stage db)) = alloc_of db"
proof -
  have "alloc_of (snd (store_log_line rid l m t now stage d)) = alloc_of d" for l m t d
    by (simp add: store_log_line_def Let_def alloc_of_def)
  then show ?thesis
    by (simp add: add_log_def Let_def split: option.splits)
qed

lemma frame_log_event [frame, simp]:
  "alloc_of (log_and_event rid ref level msg p stage now db) = alloc_of db"
proof -
  obtain seq db' where "add_log rid level msg now stage db = (seq, db')" by force
  then show ?thesis
    using frame_log [of rid level msg now stage db] by (cases seq) (simp_all add: log_and_event_def)
qed

lemma frame_closing_log [frame, simp]: "alloc_of (closing_log row status now db) = alloc_of db"
  by (simp add: closing_log_def Let_def)

lemma frame_refs [frame, simp]:
  "alloc_of (snd (new_ref E p db)) = alloc_of db"
  "alloc_of (snd (new_token E p db)) = alloc_of db"
  "alloc_of (add_artifact E v s k path sim now db) = alloc_of db"
  "alloc_of (snd (queue_training_action_in E r sid n ak pl now db)) = alloc_of db"
  by (simp_all add: new_ref_def new_token_def add_artifact_def queue_training_action_in_def alloc_of_def)

lemma frame_settle [frame, simp]:
  "alloc_of (settle_stop_actions rid now db) = alloc_of db"
  "alloc_of (settle_start_actions rid sid now db) = alloc_of db"
  "alloc_of (requeue_expired n now db) = alloc_of db"
  by (simp_all add: settle_stop_actions_def settle_start_actions_def requeue_expired_def)

section \<open>Elementary moves\<close>

text \<open>A stage never becomes pending again.\<close>

definition keeps_pending :: "(stage_row \<Rightarrow> bool) \<Rightarrow> (stage_row \<Rightarrow> stage_row) \<Rightarrow> bool" where
  "keeps_pending P f \<longleftrightarrow>
     (\<forall>s. P s \<longrightarrow> s_run_id (f s) = s_run_id s \<and> (s_status (f s) = SPending \<longrightarrow> s_status s = SPending))"

lemma reaches_stages:
  assumes "keeps_pending P f"
  shows "reaches db (upd_stages P f db)"
proof -
  let ?Q = "al_pending (alloc_of (upd_stages P f db))"
  have "?Q \<subseteq> al_pending (alloc_of db)"
    using assms by (fastforce simp: alloc_of_def upd_stages_def keeps_pending_def sql_update_mem split: if_splits)
  then have "alloc_step (alloc_of db) ((alloc_of db)\<lparr>al_pending := ?Q\<rparr>)" by (rule alloc_step.quiet)
  moreover have "(alloc_of db)\<lparr>al_pending := ?Q\<rparr> = alloc_of (upd_stages P f db)"
    by (simp add: alloc_of_def upd_stages_def)
  ultimately show ?thesis by auto
qed

text \<open>Updates of a run that leave its identity, status and GPUs alone.\<close>

definition keeps_run :: "(run_row \<Rightarrow> run_row) \<Rightarrow> bool" where
  "keeps_run f \<longleftrightarrow> (\<forall>r. r_id (f r) = r_id r \<and> r_status (f r) = r_status r \<and> r_gpu_uuids (f r) = r_gpu_uuids r)"

lemma frame_upd_run:
  assumes "keeps_run f"
  shows "alloc_of (upd_run rid P f db) = alloc_of db"
proof -
  have "map (\<lambda>r. (r_id r, r_status r, r_gpu_uuids r)) (sql_update (\<lambda>r. r_id r = rid \<and> P r) f (t_runs db)) =
    map (\<lambda>r. (r_id r, r_status r, r_gpu_uuids r)) (t_runs db)"
    using assms by (intro map_sql_update) (simp add: keeps_run_def)
  then show ?thesis by (simp add: alloc_of_def upd_run_def)
qed

text \<open>Updates that move the run to a live status.\<close>

definition sets_status :: "run_status \<Rightarrow> (run_row \<Rightarrow> run_row) \<Rightarrow> bool" where
  "sets_status s f \<longleftrightarrow> (\<forall>r. r_id (f r) = r_id r \<and> r_status (f r) = s \<and> r_gpu_uuids (f r) = r_gpu_uuids r)"

lemma alloc_set_status:
  assumes "sets_status s f"
  shows "alloc_of (upd_run rid (\<lambda>_. True) f db) =
    (alloc_of db)\<lparr>al_runs := set_status rid s (al_runs (alloc_of db))\<rparr>"
  using assms by (auto simp: alloc_of_def upd_run_def set_status_def sets_status_def sql_update_def)

lemma reaches_move:
  assumes "sets_status s f" and "\<not> terminal s"
    and live: "\<And>r. r \<in> set (t_runs db) \<Longrightarrow> r_id r = rid \<Longrightarrow> \<not> terminal (r_status r)"
  shows "reaches db (upd_run rid (\<lambda>_. True) f db)"
proof -
  have "alloc_step (alloc_of db) ((alloc_of db)\<lparr>al_runs := set_status rid s (al_runs (alloc_of db))\<rparr>)"
    using assms(2) live by (intro alloc_step.move) (auto simp: alloc_of_def)
  then show ?thesis
    using alloc_set_status [OF assms(1)] by (metis r_into_rtranclp)
qed

lemma db_ok_ids: "db_ok db \<Longrightarrow> distinct (map r_id (t_runs db))"
  by (simp add: db_ok_def alloc_ok_def alloc_of_def comp_def)

lemma same_id_same_row:
  assumes "db_ok db" and "r \<in> set (t_runs db)" and "q \<in> set (t_runs db)" and "r_id r = r_id q"
  shows "r = q"
  using db_ok_ids [OF assms(1)] assms(2-4) by (auto simp: distinct_map inj_on_def)

lemma reaches_move_row:
  assumes "db_ok db" and "r \<in> set (t_runs db)" and "\<not> terminal (r_status r)"
    and "sets_status s f" and "\<not> terminal s"
  shows "reaches db (upd_run (r_id r) (\<lambda>_. True) f db)"
  using assms same_id_same_row by (intro reaches_move) fastforce+

text \<open>Conditional updates touch nothing or the whole run.\<close>

lemma upd_run_where:
  assumes "db_ok db"
  shows "upd_run rid P f db = db \<or>
    (\<exists>r \<in> set (t_runs db). r_id r = rid \<and> P r \<and> upd_run rid P f db = upd_run rid (\<lambda>_. True) f db)"
proof (cases "\<exists>r \<in> set (t_runs db). r_id r = rid \<and> P r")
  case True
  then obtain r where r: "r \<in> set (t_runs db)" "r_id r = rid" "P r" by auto
  have same: "q = r" if "q \<in> set (t_runs db)" "r_id q = rid" for q
    using same_id_same_row [OF assms that(1) r(1)] that(2) r(2) by simp
  have "sql_update (\<lambda>q. r_id q = rid \<and> P q) f (t_runs db) = sql_update (\<lambda>q. r_id q = rid \<and> True) f (t_runs db)"
    using r(3) same by (intro sql_update_cong) auto
  with r show ?thesis by (auto simp: upd_run_def)
next
  case False
  then have "upd_run rid P f db = db"
    by (simp add: upd_run_def) (subst sql_update_none; auto)
  then show ?thesis by simp
qed

lemma reaches_move_where:
  assumes "db_ok db" and "sets_status s f" and "\<not> terminal s" and "\<And>r. P r \<Longrightarrow> \<not> terminal (r_status r)"
  shows "reaches db (upd_run rid P f db)"
  using upd_run_where [OF assms(1), of rid P f] assms reaches_move_row [OF assms(1)]
  by auto

lemma terminal_simps [simp]:
  "terminal Succeeded" "terminal Failed" "terminal Cancelled" "terminal Lost"
  "\<not> terminal Queued" "\<not> terminal Preparing" "\<not> terminal Running" "\<not> terminal StopRequested"
  by (simp_all add: terminal_def TERMINAL_RUN_STATUSES_def)

end
