(* ===== verification/Run_Refinement.thy ===== *)
theory Run_Refinement
  imports Run_Allocation
begin

text \<open>
  Every operation of \<open>TrainingStore\<close> on runs refines the allocation machine: when it
  returns, the database it leaves is reached by steps of \<open>alloc_step\<close>.
\<close>

section \<open>Reading rows\<close>

lemma returning_eq_Inr: "returning ref db = Inr (r, db') \<longleftrightarrow> get_run_in db ref = Inr r \<and> db' = db"
  by (auto simp: returning_def rbind_eq_Inr)

lemma get_run_in_row: "get_run_in db ref = Inr r \<Longrightarrow> r \<in> set (t_runs db) \<and> r_run_ref r = ref"
  by (auto simp: get_run_in_def split: option.splits dest: fetchone_filterD)

lemma run_by_id_row: "run_by_id db i = Some r \<Longrightarrow> r \<in> set (t_runs db) \<and> r_id r = i"
  by (auto simp: run_by_id_def dest: fetchone_filterD)

lemma owned_run_row: "owned_run db ref w = Some r \<Longrightarrow> r \<in> set (t_runs db) \<and> r_run_ref r = ref"
  by (auto simp: owned_run_def dest: fetchone_filterD)

lemma first_stage_row: "first_stage db rid P = Some s \<Longrightarrow> s \<in> set (t_stages db) \<and> s_run_id s = rid \<and> P s"
  by (auto simp: first_stage_def dest!: fetchone_mem)

lemma first_stage_None: "first_stage db rid P = None \<longleftrightarrow> (\<forall>s \<in> set (t_stages db). s_run_id s = rid \<longrightarrow> \<not> P s)"
proof -
  have "first_stage db rid P = None \<longleftrightarrow>
      set (order_by s_stage_number (filter (\<lambda>s. s_run_id s = rid \<and> P s) (t_stages db))) = {}"
    by (simp only: first_stage_def fetchone_eq_None set_empty)
  then show ?thesis by auto
qed

lemma no_pending_stage:
  "first_stage db rid (\<lambda>s. s_status s = SPending) = None \<longleftrightarrow> rid \<notin> al_pending (alloc_of db)"
  by (auto simp: first_stage_None alloc_of_def)

lemma pending_run_live:
  assumes "db_ok db" and "s \<in> set (t_stages db)" and "s_status s = SPending"
    and "r \<in> set (t_runs db)" and "r_id r = s_run_id s"
  shows "\<not> terminal (r_status r)"
  using assms by (auto simp: db_ok_def alloc_ok_def finished_idle_def alloc_of_def)

section \<open>Finishing\<close>

lemma mem_pending:
  "i \<in> al_pending (alloc_of db) \<longleftrightarrow> (\<exists>s \<in> set (t_stages db). s_run_id s = i \<and> s_status s = SPending)"
  by (simp add: alloc_of_def image_iff) metis

lemma mem_pending_upd:
  assumes "\<And>s. s_run_id (f s) = s_run_id s" and "\<And>s. s_status (f s) \<noteq> SPending"
  shows "i \<in> al_pending (alloc_of (upd_stages P f db)) \<longleftrightarrow>
    (\<exists>s \<in> set (t_stages db). \<not> P s \<and> s_run_id s = i \<and> s_status s = SPending)"
proof -
  have "i \<in> al_pending (alloc_of (upd_stages P f db)) \<longleftrightarrow>
    (\<exists>s \<in> set (t_stages db). s_run_id (if P s then f s else s) = i \<and>
       s_status (if P s then f s else s) = SPending)"
  proof -
    have "set (t_stages (upd_stages P f db)) = (\<lambda>s. if P s then f s else s) ` set (t_stages db)"
      by (simp add: upd_stages_def set_sql_update)
    then show ?thesis unfolding mem_pending by (simp only: bex_simps(7))
  qed
  also have "\<dots> \<longleftrightarrow> (\<exists>s \<in> set (t_stages db). \<not> P s \<and> s_run_id s = i \<and> s_status s = SPending)"
    using assms by (intro bex_cong) simp_all
  finally show ?thesis .
qed

lemma pending_close_stages:
  assumes "terminal st" and "st = Succeeded \<Longrightarrow> rid \<notin> al_pending (alloc_of db)"
  shows "al_pending (alloc_of (close_stages rid st now code msg db)) \<subseteq> al_pending (alloc_of db) - {rid}"
proof
  fix i assume i: "i \<in> al_pending (alloc_of (close_stages rid st now code msg db))"
  have sub: "i \<in> al_pending (alloc_of db)"
    if "i \<in> al_pending (alloc_of (upd_stages P f db))" and "\<And>s. s_run_id (f s) = s_run_id s"
      and "\<And>s. s_status (f s) \<noteq> SPending" for P f
  proof -
    from that(1) have "\<exists>s \<in> set (t_stages db). \<not> P s \<and> s_run_id s = i \<and> s_status s = SPending"
      by (simp only: mem_pending_upd [OF that(2,3)])
    then show ?thesis unfolding mem_pending by metis
  qed
  show "i \<in> al_pending (alloc_of db) - {rid}"
  proof (cases "st = Succeeded")
    case True
    then show ?thesis using i assms(2) by (auto simp: close_stages_def)
  next
    case False
    then consider "st = Cancelled" | "st = Failed \<or> st = Lost"
      using assms(1) by (cases st) simp_all
    then show ?thesis
    proof cases
      case 1
      with i have "\<exists>s \<in> set (t_stages db). \<not> (s_run_id s = rid \<and> open_stage (s_status s)) \<and>
          s_run_id s = i \<and> s_status s = SPending"
        by (simp add: close_stages_def mem_pending_upd)
      then show ?thesis by (simp add: mem_pending open_stage_def) metis
    next
      case 2
      let ?d = "upd_stages (\<lambda>s. s_run_id s = rid \<and> active_stage (s_status s))
            (\<lambda>s. s\<lparr>s_status := (if st = Lost then SLost else SFailed),
                   s_failure_code := coalesce (s_failure_code s) code,
                   s_failure_message := coalesce (s_failure_message s) msg,
                   s_finished_at := Some now, s_updated_at := now\<rparr>) db"
      from 2 i have "\<exists>s \<in> set (t_stages ?d). \<not> (s_run_id s = rid \<and> s_status s = SPending) \<and>
          s_run_id s = i \<and> s_status s = SPending"
        by (simp add: close_stages_def mem_pending_upd split: if_splits)
      then have "i \<in> al_pending (alloc_of ?d)" "i \<noteq> rid"
        unfolding mem_pending by blast+
      then show ?thesis using sub by simp
    qed
  qed
qed

lemma close_stages_tables [simp]:
  "t_runs (close_stages rid st now code msg db) = t_runs db"
  "t_gpu_leases (close_stages rid st now code msg db) = t_gpu_leases db"
  "t_port_leases (close_stages rid st now code msg db) = t_port_leases db"
  by (simp_all add: close_stages_def upd_stages_def)

lemma alloc_close_run:
  "alloc_of (close_run rid st now code msg db) =
     \<lparr>al_runs = set_status rid st (al_runs (alloc_of db)),
      al_gpus = drop_leases rid (al_gpus (alloc_of db)),
      al_ports = drop_leases rid (al_ports (alloc_of db)),
      al_pending = al_pending (alloc_of db)\<rparr>"
  by (simp add: alloc_of_def close_run_def upd_actions_def upd_run_def set_status_def drop_leases_def
      sql_update_def sql_delete_def filter_map comp_def split: if_splits)

lemma finish_db_reaches:
  assumes "terminal st" and "st = Succeeded \<Longrightarrow> r_id row \<notin> al_pending (alloc_of db)"
  shows "reaches db (finish_db row st now code msg db)"
proof -
  let ?c = "close_stages (r_id row) st now code msg db"
  have "alloc_step (alloc_of db) \<lparr>al_runs = set_status (r_id row) st (al_runs (alloc_of db)),
      al_gpus = drop_leases (r_id row) (al_gpus (alloc_of db)),
      al_ports = drop_leases (r_id row) (al_ports (alloc_of db)), al_pending = al_pending (alloc_of ?c)\<rparr>"
    by (intro alloc_step.release pending_close_stages assms)
  moreover have "al_runs (alloc_of ?c) = al_runs (alloc_of db)" "al_gpus (alloc_of ?c) = al_gpus (alloc_of db)"
    "al_ports (alloc_of ?c) = al_ports (alloc_of db)"
    by (simp_all add: alloc_of_def)
  ultimately show ?thesis
    by (simp add: finish_db_def alloc_close_run)
qed

lemma finish_in_eq:
  "finish_in row st now code msg db = Inr (r, db') \<Longrightarrow> db' = finish_db row st now code msg db"
  by (simp add: finish_in_def returning_eq_Inr)

lemma finish_in_reaches:
  assumes "finish_in row st now code msg db = Inr (r, db')" and "terminal st"
    and "st = Succeeded \<Longrightarrow> r_id row \<notin> al_pending (alloc_of db)"
  shows "reaches db db'"
  using finish_in_eq [OF assms(1)] finish_db_reaches [OF assms(2,3)] by simp

lemma finish_db_not_succeeded:
  "st \<in> {Failed, Cancelled, Lost} \<Longrightarrow> reaches db (finish_db row st now code msg db)"
  by (rule finish_db_reaches) auto

lemma finish_in_not_succeeded:
  "finish_in row st now code msg db = Inr (r, db') \<Longrightarrow> st \<in> {Failed, Cancelled, Lost} \<Longrightarrow> reaches db db'"
  by (rule finish_in_reaches) auto

section \<open>The simulation worker\<close>

lemma claim_next_run_reaches:
  assumes ok: "db_ok db" and ret: "claim_next_run w lease now db = Inr (x, db')"
  shows "reaches db db'"
proof (cases "fetchone (order_by r_id
        (filter (\<lambda>r. r_execution_mode r = Simulation \<and> r_status r = Queued) (t_runs db)))")
  case None
  with ret show ?thesis by (simp add: claim_next_run_def)
next
  case (Some row)
  have row: "row \<in> set (t_runs db)" "r_status row = Queued"
    using fetchone_mem [OF Some] by auto
  let ?f = "\<lambda>r. r\<lparr>r_status := Preparing, r_state_revision := r_state_revision r + 1,
     r_owner_id := Some w, r_owner_epoch := r_owner_epoch r + 1,
     r_lease_expires_at := Some (now + lease), r_heartbeat_at := Some now, r_updated_at := now\<rparr>"
  let ?db1 = "upd_run (r_id row) (\<lambda>_. True) ?f db"
  have move: "reaches db ?db1"
    using row by (intro reaches_move_row [OF ok row(1)]) (auto simp: sets_status_def)
  show ?thesis
  proof (cases "first_stage ?db1 (r_id row) (\<lambda>s. s_status s = SPending)")
    case None
    with ret \<open>fetchone _ = Some row\<close> have
      "db' = finish_db row Failed now (Some ''training_stages_missing'')
         (Some ''The training workflow has no pending stage.'') ?db1"
      by (simp add: claim_next_run_def rbind_eq_Inr finish_in_def returning_eq_Inr) blast
    then show ?thesis using reaches_trans [OF move finish_db_not_succeeded] by simp
  next
    case (Some stage)
    let ?g = "\<lambda>s::stage_row. s\<lparr>s_status := SPreparing, s_updated_at := now\<rparr>"
    have "alloc_of db' = alloc_of (upd_stages (\<lambda>s. s_id s = s_id stage) ?g ?db1)"
      using ret Some \<open>fetchone _ = Some row\<close>
      by (simp add: claim_next_run_def rbind_eq_Inr returning_eq_Inr) (elim exE conjE, hypsubst, simp)
    moreover have "reaches ?db1 (upd_stages (\<lambda>s. s_id s = s_id stage) ?g ?db1)"
      by (intro reaches_stages) (simp add: keeps_pending_def)
    ultimately show ?thesis using reaches_trans [OF move] by simp
  qed
qed

lemma alloc_snd_log: "add_log rid level msg now stage db = (seq, db') \<Longrightarrow> alloc_of db' = alloc_of db"
  using frame_log [of rid level msg now stage db] by simp

lemma transition_running_reaches:
  assumes ok: "db_ok db" and ret: "transition_running ref w now db = Inr (r, db')"
  shows "reaches db db'"
proof -
  from ret obtain row where own: "owned_run db ref w = Some row"
    by (auto simp: transition_running_def split: option.splits)
  have mem: "row \<in> set (t_runs db)" using owned_run_row [OF own] by simp
  show ?thesis
  proof (cases "r_status row = StopRequested")
    case True
    with ret own have "finish_in row Cancelled now None None db = Inr (r, db')"
      by (simp add: transition_running_def)
    then show ?thesis by (rule finish_in_not_succeeded) simp
  next
    case False
    with ret own have st: "(r_status row \<notin> {Preparing, Running}) = False"
      by (auto simp: transition_running_def split: if_splits)
    let ?f = "\<lambda>r. r\<lparr>r_status := Running, r_state_revision := r_state_revision r + 1,
      r_started_at := coalesce (r_started_at r) (Some now), r_updated_at := now\<rparr>"
    let ?db1 = "upd_run (r_id row) (\<lambda>_. True) ?f db"
    from ret own st False obtain stage where
      stage: "first_stage db (r_id row) (\<lambda>s. s_status s = SPreparing) = Some stage"
      by (auto simp: transition_running_def split: option.splits)
    let ?db2 = "upd_stages (\<lambda>s. s_id s = s_id stage)
      (\<lambda>s. s\<lparr>s_status := SRunning, s_started_at := Some now, s_updated_at := now\<rparr>) ?db1"
    have "reaches db ?db1"
      using st by (intro reaches_move_row [OF ok mem]) (auto simp: sets_status_def)
    moreover have "reaches ?db1 ?db2"
      by (intro reaches_stages) (simp add: keeps_pending_def)
    ultimately have "reaches db ?db2" by (rule reaches_trans)
    moreover have "alloc_of db' = alloc_of ?db2"
    proof -
      obtain seq d where log: "add_log (r_id row) ''info'' (s_stage_name stage @ '' simulation started.'')
          now (Some (s_id stage)) ?db2 = (seq, d)" by force
      show ?thesis
        using ret own st False stage log alloc_snd_log [OF log]
        by (cases seq) (simp_all add: transition_running_def Let_def returning_eq_Inr del: insert_iff)
    qed
    ultimately show ?thesis by simp
  qed
qed

lemma append_step_reaches:
  assumes ok: "db_ok db" and ret: "append_step ref w m msg sref now db = Inr (r, db')"
  shows "reaches db db'"
proof -
  from ret obtain row where own: "owned_run db ref w = Some row"
    by (auto simp: append_step_def split: option.splits)
  consider "r_status row = StopRequested" | "r_status row \<notin> {StopRequested, Running}" | "r_status row = Running"
    by auto
  then show ?thesis
  proof cases
    case 1
    with ret own have "finish_in row Cancelled now None None db = Inr (r, db')"
      by (simp add: append_step_def)
    then show ?thesis by (rule finish_in_not_succeeded) simp
  next
    case 2
    with ret own show ?thesis by (auto simp: append_step_def returning_eq_Inr)
  next
    case 3
    with ret own obtain stage where stage: "sim_stage db (r_id row) sref (\<lambda>s. s = SRunning) = Some stage"
      by (auto simp: append_step_def split: option.splits)
    let ?P = "\<lambda>s. s_id s = s_id stage"
    let ?g = "\<lambda>s::stage_row. s\<lparr>s_current_step := sm_step m, s_updated_at := now\<rparr>"
    have met: "alloc_of (upd_stages P g (d\<lparr>t_metrics := x\<rparr>)) = alloc_of (upd_stages P g d)" for P g d x
      by (simp add: alloc_of_def upd_stages_def)
    have run: "alloc_of (upd_run (r_id row) (\<lambda>_. True)
        (\<lambda>r. r\<lparr>r_current_step := n, r_heartbeat_at := Some now,
             r_lease_expires_at := Some (now + 10000), r_updated_at := now\<rparr>) d) = alloc_of d" for n d
      by (intro frame_upd_run) (simp add: keeps_run_def)
    have "alloc_of db' = alloc_of (upd_stages ?P ?g db)"
      using ret own 3 stage
      by (simp add: append_step_def Let_def returning_eq_Inr met run split: prod.splits)
        (simp add: alloc_snd_log met run split: option.splits)
    moreover have "reaches db (upd_stages ?P ?g db)"
      by (intro reaches_stages) (simp add: keeps_pending_def)
    ultimately show ?thesis by simp
  qed
qed

lemma rbind_finish_in:
  "rbind (finish_in row st now code msg db) (\<lambda>(_, d). f d) = Inr y \<Longrightarrow>
     f (finish_db row st now code msg db) = Inr y"
  by (auto simp: rbind_eq_Inr finish_in_def returning_eq_Inr)

lemma finish_stage_succeeded_reaches:
  assumes ret: "finish_stage_succeeded E row stage now db = Inr (r, db')"
  shows "reaches db db'"
proof -
  let ?db1 = "upd_stages (\<lambda>s. s_id s = s_id stage)
      (\<lambda>s. s\<lparr>s_status := SSucceeded, s_current_step := s_total_steps s,
             s_finished_at := Some now, s_updated_at := now\<rparr>) db"
  have one: "reaches db ?db1"
    by (intro reaches_stages) (simp add: keeps_pending_def)
  from ret obtain version where v: "version_of_run ?db1 (r_id row) = Some version"
    by (simp add: finish_stage_succeeded_def Let_def split: option.splits)
  let ?db2 = "add_artifact E (v_id version) (s_id stage) StageOutput (s_output_directory stage) True now ?db1"
  let ?db3 = "log_and_event (r_id row) (r_run_ref row) ''info'' (s_stage_name stage @ '' simulation succeeded.'')
      (stage_payload stage) (Some (s_id stage)) now ?db2"
  show ?thesis
  proof (cases "first_stage ?db2 (r_id row) (\<lambda>s. s_status s = SPending)")
    case None
    let ?db4 = "add_artifact E (v_id version) (s_id stage) VersionModel (s_output_directory stage) True now ?db3"
    have "db' = finish_db row Succeeded now None None ?db4"
      using ret v None by (simp add: finish_stage_succeeded_def Let_def finish_in_def returning_eq_Inr)
    moreover have "r_id row \<notin> al_pending (alloc_of ?db4)"
      using None by (simp add: no_pending_stage)
    then have "reaches ?db4 (finish_db row Succeeded now None None ?db4)"
      by (intro finish_db_reaches) simp_all
    ultimately show ?thesis using reaches_trans [OF one] by simp
  next
    case (Some nxt)
    let ?g = "\<lambda>s::stage_row. s\<lparr>s_status := SPreparing, s_updated_at := now\<rparr>"
    let ?db4 = "upd_stages (\<lambda>s. s_id s = s_id nxt) ?g ?db3"
    have run: "alloc_of (upd_run (r_id row) (\<lambda>_. True)
        (\<lambda>r. r\<lparr>r_current_step := n, r_state_revision := r_state_revision r + 1,
               r_heartbeat_at := Some now, r_lease_expires_at := Some (now + 10000),
               r_updated_at := now\<rparr>) d) = alloc_of d" for n d
      by (intro frame_upd_run) (simp add: keeps_run_def)
    have "alloc_of db' = alloc_of ?db4"
      using ret v Some run by (simp add: finish_stage_succeeded_def Let_def returning_eq_Inr)
    moreover have "reaches ?db3 ?db4"
      by (intro reaches_stages) (simp add: keeps_pending_def)
    ultimately show ?thesis using reaches_trans [OF one] by simp
  qed
qed

lemma finish_stage_reaches:
  assumes "terminal st" and ret: "finish_stage E ref w sref st code msg now db = Inr (r, db')"
  shows "reaches db db'"
proof -
  from ret obtain row where own: "owned_run db ref w = Some row"
    by (auto simp: finish_stage_def split: option.splits)
  show ?thesis
  proof (cases "r_status row = StopRequested")
    case True
    with ret own have "finish_in row Cancelled now None None db = Inr (r, db')"
      by (simp add: finish_stage_def)
    then show ?thesis by (rule finish_in_not_succeeded) simp
  next
    case run: False
    with ret own obtain stage where stage: "sim_stage db (r_id row) sref active_stage = Some stage"
      by (auto simp: finish_stage_def split: option.splits)
    show ?thesis
    proof (cases "st = Succeeded")
      case True
      with ret own run stage have "finish_stage_succeeded E row stage now db = Inr (r, db')"
        by (simp add: finish_stage_def)
      then show ?thesis by (rule finish_stage_succeeded_reaches)
    next
      case False
      with ret own run stage obtain s where s: "stage_status_of st = Some s"
        by (auto simp: finish_stage_def split: option.splits)
      let ?db1 = "upd_stages (\<lambda>x. s_id x = s_id stage)
          (\<lambda>x. x\<lparr>s_status := s, s_failure_code := code, s_failure_message := msg,
                 s_finished_at := Some now, s_updated_at := now\<rparr>) db"
      have "s \<noteq> SPending" using s by (cases st) auto
      then have "reaches db ?db1" by (intro reaches_stages) (simp add: keeps_pending_def)
      moreover from False ret own run stage s have "finish_in row st now code msg ?db1 = Inr (r, db')"
        by (simp add: finish_stage_def)
      then have "reaches ?db1 db'" using False assms(1) by (intro finish_in_reaches) auto
      ultimately show ?thesis by (rule reaches_trans)
    qed
  qed
qed

lemma recover_rows_reaches: "recover_rows now rs db = Inr db' \<Longrightarrow> reaches db db'"
proof (induction rs arbitrary: db)
  case Nil
  then show ?case by simp
next
  case (Cons r rs)
  let ?d = "finish_db r Lost now (Some ''worker_lease_expired'')
      (Some ''The simulation worker lease expired.'') db"
  from Cons.prems have "recover_rows now rs ?d = Inr db'"
    by (auto dest: rbind_finish_in)
  from reaches_trans [OF finish_db_not_succeeded Cons.IH [OF this]] show ?case by simp
qed

lemma recover_stale_runs_reaches: "recover_stale_runs now db = Inr (n, db') \<Longrightarrow> reaches db db'"
  by (auto simp: recover_stale_runs_def rbind_eq_Inr dest: recover_rows_reaches)

section \<open>Stopping\<close>

lemma stop_active_reaches:
  assumes ok: "db_ok db" and mem: "row \<in> set (t_runs db)" and live: "\<not> terminal (r_status row)"
    and ret: "stop_active E row now db = Inr (r, db')"
  shows "reaches db db'"
proof -
  let ?db1 = "upd_run (r_id row) (\<lambda>_. True)
      (\<lambda>r. r\<lparr>r_status := StopRequested, r_state_revision := r_state_revision r + 1, r_updated_at := now\<rparr>) db"
  have "alloc_of db' = alloc_of ?db1"
    using ret by (simp add: stop_active_def Let_def returning_eq_Inr split: if_splits)
  moreover have "reaches db ?db1"
    using reaches_move_row [OF ok mem live, of StopRequested] by (simp add: sets_status_def)
  ultimately show ?thesis by simp
qed

lemma stop_run_reaches:
  assumes ok: "db_ok db" and ret: "stop_run E ref expected key actor now db = Inr (r, db')"
  shows "reaches db db'"
proof (cases "find_idempotency ''stop_run'' key db")
  case (Some idem)
  with ret show ?thesis by (simp add: stop_run_def Let_def returning_eq_Inr split: if_splits)
next
  case None
  with ret obtain row where row: "get_run_in db ref = Inr row"
    by (auto simp: stop_run_def Let_def rbind_eq_Inr)
  let ?stop = "if r_status row = Queued then stop_queued row now db else stop_active E row now db"
  from ret None row have live: "\<not> terminal (r_status row)"
    by (simp add: stop_run_def Let_def split: if_splits)
  from ret None row live obtain q d where stop: "?stop = Inr (q, d)" and "alloc_of db' = alloc_of d"
    by (auto simp: stop_run_def Let_def rbind_eq_Inr split: if_splits)
  moreover have "reaches db d"
  proof (cases "r_status row = Queued")
    case True
    let ?c = "upd_actions (\<lambda>a. a_run_id a = r_id row \<and> a_status a = AQueued)
         (\<lambda>a. a\<lparr>a_status := ACancelled, a_finished_at := Some now, a_updated_at := now\<rparr>) db"
    from True stop have "finish_in row Cancelled now None None ?c = Inr (q, d)"
      by (simp add: stop_queued_def)
    then have "reaches ?c d" by (rule finish_in_not_succeeded) simp
    then show ?thesis by simp
  next
    case False
    with stop have "stop_active E row now db = Inr (q, d)" by simp
    with ok live get_run_in_row [OF row] show ?thesis by (intro stop_active_reaches) auto
  qed
  ultimately show ?thesis by simp
qed

end
