(* ===== verification/Real_Refinement.thy ===== *)
theory Real_Refinement
  imports Run_Refinement
begin

text \<open>
  The refinement of the allocation machine by real execution: polling and finishing
  actions, the numbered updates of a Worker, and the creation of a run.  One update needs a
  condition: a \<open>reconciliation\<close> that reports \<open>running\<close> moves the run to running whatever its
  status, so it must not meet a finished run.
\<close>

section \<open>Polling\<close>

lemma claim_one_reaches:
  assumes ok: "db_ok db"
  shows "reaches db (snd (claim_one E w now ar (acc, db)))"
proof -
  obtain a r where ar: "ar = (a, r)" by force
  obtain token d where tok: "new_token E ''claim_'' db = (token, d)" by force
  have d: "alloc_of d = alloc_of db" using tok frame_refs(2) [of E "''claim_''" db] by simp
  let ?P = "\<lambda>x. a_id x = a_id a \<and> a_status x = AQueued"
  let ?db1 = "upd_actions ?P (\<lambda>x. x\<lparr>a_status := ARunning, a_worker := Some w,
      a_claim_sha256 := Some (token_digest E token), a_lease_expires_at := Some (now + 45000),
      a_started_at := coalesce (a_started_at x) (Some now), a_updated_at := now\<rparr>) d"
  let ?db2 = "upd_run (a_run_id a) (\<lambda>q. r_status q = Queued)
      (\<lambda>q. q\<lparr>r_status := Preparing, r_control_status := Some Connected, r_exec_worker := Some w,
             r_exec_last_heartbeat := Some now, r_updated_at := now\<rparr>) ?db1"
  let ?db3 = "\<lambda>sid. upd_stages (\<lambda>s. s_id s = sid \<and> s_status s = SPending)
      (\<lambda>s. s\<lparr>s_status := SPreparing, s_updated_at := now\<rparr>) ?db2"
  have "db_ok ?db1" using ok d by (simp add: db_ok_def)
  then have "reaches ?db1 ?db2"
    by (rule reaches_move_where [where s = Preparing]) (simp_all add: sets_status_def)
  then have two: "reaches db ?db2" using d by simp
  have three: "reaches db (?db3 sid)" for sid
    by (rule reaches_trans [OF two reaches_stages]) (simp add: keeps_pending_def)
  show ?thesis
    using two three d
    by (cases "a_stage_id a") (simp_all add: claim_one_def ar tok Let_def)
qed

lemma fold_reaches:
  assumes "\<And>x acc d. db_ok d \<Longrightarrow> reaches d (snd (f x (acc, d)))" and "db_ok db"
  shows "reaches db (snd (fold f xs (acc, db)))"
  using assms(2)
proof (induction xs arbitrary: acc db)
  case Nil
  then show ?case by simp
next
  case (Cons x xs)
  obtain acc' d where d: "f x (acc, db) = (acc', d)" by force
  have "reaches db d" using assms(1) [OF Cons.prems, of x acc] d by simp
  then have "reaches db d" "db_ok d" using reaches_ok [OF Cons.prems] by auto
  from reaches_trans [OF this(1) Cons.IH [OF this(2)]] d show ?case by simp
qed

lemma poll_training_actions_reaches:
  assumes "db_ok db" and "poll_training_actions E n tok w limit now db = Inr (as, db')"
  shows "reaches db db'"
proof -
  let ?d = "requeue_expired n now db"
  have "db_ok ?d" using assms(1) by (simp add: db_ok_def)
  from fold_reaches [OF claim_one_reaches this]
  have "reaches ?d (snd (fold (claim_one E w now) (claim_candidates n limit ?d) ([], ?d)))" .
  with assms(2) show ?thesis
    by (auto simp: poll_training_actions_def rbind_eq_Inr Let_def)
qed

section \<open>Results of actions\<close>

lemma start_action_failed_reaches:
  assumes "start_action_failed E run err now db = Inr db'"
  shows "reaches db db'"
proof -
  let ?code = "py_str E (py_or (dict_get err ''code'') (JStr ''training_action_failed''))"
  let ?msg = "py_str E (py_or (dict_get err ''message'')
            (JStr ''Worker could not start the training stage.''))"
  consider (unresolved) "?code = ''training_launch_unresolved''"
    | (stop) "?code \<noteq> ''training_launch_unresolved''" "r_status run = StopRequested"
    | (fail) "?code \<noteq> ''training_launch_unresolved''" "r_status run \<noteq> StopRequested"
    by auto
  then show ?thesis
  proof cases
    case unresolved
    have "keeps_run (\<lambda>q. q\<lparr>r_control_status := Some Unresolved,
        r_state_revision := r_state_revision q + 1, r_updated_at := now\<rparr>)"
      by (simp add: keeps_run_def)
    from frame_upd_run [OF this] unresolved assms show ?thesis
      by (auto simp: start_action_failed_def Let_def)
  next
    case stop
    with assms have "db' = finish_db run Cancelled now None None (settle_stop_actions (r_id run) now db)"
      by (auto simp: start_action_failed_def Let_def dest: rbind_finish_in)
    then show ?thesis using finish_db_not_succeeded [of Cancelled "settle_stop_actions (r_id run) now db"] by simp
  next
    case fail
    with assms have "db' = finish_db run Failed now (Some ?code) (Some ?msg) db"
      by (auto simp: start_action_failed_def Let_def dest: rbind_finish_in)
    then show ?thesis using finish_db_not_succeeded by simp
  qed
qed

lemma finish_training_action_reaches:
  assumes "finish_training_action E n tok aref w ct ok result err now db = Inr (st, db')"
  shows "reaches db db'"
proof -
  from assms obtain row where row: "fetchone (filter (\<lambda>a. a_action_ref a = aref \<and> a_node_ref a = n \<and>
      run_by_id db (a_run_id a) \<noteq> None) (t_actions db)) = Some row"
    by (cases "fetchone (filter (\<lambda>a. a_action_ref a = aref \<and> a_node_ref a = n \<and>
      run_by_id db (a_run_id a) \<noteq> None) (t_actions db))") (auto simp: finish_training_action_def rbind_eq_Inr)
  let ?db1 = "upd_actions (\<lambda>a. a_id a = a_id row)
      (\<lambda>a. a\<lparr>a_status := (if ok then ASucceeded else AFailed), a_result := Some (if ok then result else JObj err),
             a_claim_sha256 := None, a_lease_expires_at := None, a_finished_at := Some now, a_updated_at := now\<rparr>) db"
  have keep: "keeps_run (\<lambda>q. q\<lparr>r_control_status := Some Unresolved,
      r_state_revision := r_state_revision q + 1, r_updated_at := now\<rparr>)"
    by (simp add: keeps_run_def)
  consider "db' = db" | "alloc_of db' = alloc_of ?db1" | run where "start_action_failed E run err now ?db1 = Inr db'"
    using assms row frame_upd_run [OF keep]
    by (auto simp: finish_training_action_def rbind_eq_Inr Let_def split: if_splits option.splits)
  then show ?thesis
    by cases (simp_all, metis frame_simple(3) start_action_failed_reaches)
qed

section \<open>Worker updates\<close>

text \<open>The one update that can bring a finished run back.\<close>

definition revives :: "env \<Rightarrow> run_row \<Rightarrow> dict \<Rightarrow> bool" where
  "revives E run u \<longleftrightarrow> terminal (r_status run) \<and> py_str E (dict_get u ''kind'') = ''reconciliation'' \<and>
     py_str E (py_or (dict_get u ''status'') (JStr ''unresolved'')) = ''running''"

lemma apply_started_reaches:
  assumes ok: "db_ok db"
  shows "reaches db (apply_started run stage u now db)"
proof -
  let ?d1 = "upd_stages (\<lambda>s. s_id s = s_id stage \<and> open_stage (s_status s))
      (\<lambda>s. s\<lparr>s_status := SRunning, s_started_at := coalesce (s_started_at s) (Some now), s_updated_at := now\<rparr>) db"
  let ?d2 = "upd_run (r_id run) (\<lambda>r. r_status r \<in> {Queued, Preparing, Running})
      (\<lambda>r. r\<lparr>r_status := Running, r_started_at := coalesce (r_started_at r) (Some now),
             r_state_revision := r_state_revision r + 1, r_updated_at := now\<rparr>) ?d1"
  have one: "reaches db ?d1" by (intro reaches_stages) (simp add: keeps_pending_def)
  have "reaches ?d1 ?d2"
    by (rule reaches_move_where [OF reaches_ok [OF ok one], where s = Running]) (auto simp: sets_status_def)
  with one have "reaches db ?d2" by (rule reaches_trans)
  then show ?thesis by (simp add: apply_started_def)
qed

lemma apply_log_frame [frame, simp]: "alloc_of (apply_log E run stage u now db) = alloc_of db"
proof -
  have "alloc_of (fold (apply_log_line E run stage u now) ls db) = alloc_of db" for ls
    by (induction ls arbitrary: db) (simp_all add: apply_log_line_def)
  then show ?thesis by (simp add: apply_log_def)
qed

lemma apply_metric_reaches:
  assumes "apply_metric E run stage u now db = Inr db'"
  shows "reaches db db'"
proof -
  let ?upd = "\<lambda>step. upd_stages (\<lambda>s. s_id s = s_id stage)
      (\<lambda>s. s\<lparr>s_current_step := max (s_current_step s) step, s_updated_at := now\<rparr>)"
  have met: "alloc_of (upd_stages P g (d\<lparr>t_metrics := x\<rparr>)) = alloc_of (upd_stages P g d)" for P g d x
    by (simp add: alloc_of_def upd_stages_def)
  have run: "alloc_of (upd_run (r_id run) (\<lambda>_. True)
      (\<lambda>r. r\<lparr>r_current_step := n, r_updated_at := now\<rparr>) d) = alloc_of d" for n d
    by (intro frame_upd_run) (simp add: keeps_run_def)
  have "\<exists>step. alloc_of db' = alloc_of (?upd step db)"
    using assms by (simp add: apply_metric_def rbind_eq_Inr Let_def) (elim exE conjE, hypsubst, simp add: met run, blast)
  moreover have "reaches db (?upd step db)" for step
    by (intro reaches_stages) (simp add: keeps_pending_def)
  ultimately show ?thesis by fastforce
qed

lemma apply_checkpoint_frame:
  "apply_checkpoint E run stage u now db = Inr db' \<Longrightarrow> alloc_of db' = alloc_of db"
  by (auto simp: apply_checkpoint_def Let_def new_ref_def alloc_of_def add_event_def
      split: if_splits option.splits)

lemma exited_stopped_reaches:
  assumes "exited_stopped run stage now db = Inr db'"
  shows "reaches db db'"
proof -
  let ?d = "upd_stages (\<lambda>s. s_id s = s_id stage \<and> open_stage (s_status s))
      (\<lambda>s. s\<lparr>s_status := SCancelled, s_failure_code := None, s_failure_message := None,
             s_finished_at := Some now, s_updated_at := now\<rparr>) (settle_stop_actions (r_id run) now db)"
  have "reaches (settle_stop_actions (r_id run) now db) ?d"
    by (intro reaches_stages) (simp add: keeps_pending_def)
  then have "reaches db ?d" by simp
  moreover have "db' = finish_db run Cancelled now None None ?d"
    using assms by (auto simp: exited_stopped_def dest: rbind_finish_in)
  ultimately show ?thesis
    using reaches_trans [OF _ finish_db_not_succeeded [of Cancelled ?d]] by simp
qed

lemma exited_unsuccessful_reaches:
  assumes "exited_unsuccessful run stage st code msg now db = Inr db'" and "st \<in> {Failed, Cancelled, Lost}"
  shows "reaches db db'"
proof -
  let ?d = "upd_stages (\<lambda>s. s_id s = s_id stage)
      (\<lambda>s. s\<lparr>s_status := the (stage_status_of st), s_failure_code := code,
             s_failure_message := msg, s_finished_at := Some now, s_updated_at := now\<rparr>) db"
  have "reaches db ?d"
    using assms(2) by (intro reaches_stages) (auto simp: keeps_pending_def)
  moreover have "alloc_of db' = alloc_of (finish_db run st now code msg ?d)"
    using assms(1) by (auto simp: exited_unsuccessful_def dest!: rbind_finish_in split: if_splits)
  ultimately show ?thesis
    using reaches_trans [OF _ finish_db_not_succeeded [OF assms(2), of ?d]] by simp
qed

lemma exited_succeeded_reaches:
  assumes ok: "db_ok db" and mem: "run \<in> set (t_runs db)"
    and ret: "exited_succeeded E run stage now db = Inr db'"
  shows "reaches db db'"
proof -
  let ?db1 = "upd_stages (\<lambda>s. s_id s = s_id stage)
      (\<lambda>s. s\<lparr>s_status := SSucceeded, s_current_step := s_total_steps s,
             s_finished_at := Some now, s_updated_at := now\<rparr>) db"
  have one: "reaches db ?db1"
    by (intro reaches_stages) (simp add: keeps_pending_def)
  from ret obtain version where v: "version_of_run ?db1 (r_id run) = Some version"
    by (simp add: exited_succeeded_def Let_def split: option.splits)
  let ?db2 = "add_artifact E (v_id version) (s_id stage) StageOutput (s_output_directory stage) False now ?db1"
  have two: "reaches db ?db2" using one by simp
  have runs2: "t_runs ?db2 = t_runs db"
    by (simp add: add_artifact_def new_ref_def upd_stages_def)
  show ?thesis
  proof (cases "first_stage ?db2 (r_id run) (\<lambda>s. s_status s = SPending)")
    case None
    let ?db3 = "add_artifact E (v_id version) (s_id stage) VersionModel (s_output_directory stage) False now ?db2"
    from ret v None obtain q where q: "run_by_id ?db3 (r_id run) = Some q"
      and "db' = finish_db q Succeeded now None None ?db3"
      by (auto simp: exited_succeeded_def Let_def split: option.splits dest!: rbind_finish_in)
    moreover have "r_id q \<notin> al_pending (alloc_of ?db3)"
      using None run_by_id_row [OF q] by (simp add: no_pending_stage)
    then have "reaches ?db3 (finish_db q Succeeded now None None ?db3)"
      by (intro finish_db_reaches) simp_all
    ultimately show ?thesis using reaches_trans [OF one] by simp
  next
    case (Some nxt)
    let ?db3 = "upd_stages (\<lambda>s. s_id s = s_id nxt) (\<lambda>s. s\<lparr>s_status := SPreparing, s_updated_at := now\<rparr>) ?db2"
    let ?q = "\<lambda>payload. snd (queue_training_action_in E (r_id run) (Some (s_id nxt)) (r_server_ref run)
        StartStage payload now ?db3)"
    let ?f = "\<lambda>r::run_row. r\<lparr>r_status := Preparing, r_state_revision := r_state_revision r + 1, r_updated_at := now\<rparr>"
    have live: "\<not> terminal (r_status run)"
      using first_stage_row [OF Some] mem runs2 by (intro pending_run_live [OF reaches_ok [OF ok two]]) auto
    have three: "reaches db ?db3"
      by (rule reaches_trans [OF two reaches_stages]) (simp add: keeps_pending_def)
    have "run \<in> set (t_runs (?q payload))" for payload
      using mem runs2 by (simp add: queue_training_action_in_def new_ref_def upd_stages_def)
    moreover have "db_ok (?q payload)" for payload
      using reaches_ok [OF ok three] by (simp add: db_ok_def)
    ultimately have "reaches (?q payload) (upd_run (r_id run) (\<lambda>_. True) ?f (?q payload))" for payload
      using live by (intro reaches_move_row [where s = Preparing]) (auto simp: sets_status_def)
    then have "reaches db (upd_run (r_id run) (\<lambda>_. True) ?f (?q payload))" for payload
      using reaches_trans [OF three] by simp
    moreover obtain payload where "db' = upd_run (r_id run) (\<lambda>_. True) ?f (?q payload)"
      using ret v Some by (simp add: exited_succeeded_def Let_def rbind_eq_Inr) blast
    ultimately show ?thesis by simp
  qed
qed

lemma apply_exited_reaches:
  assumes ok: "db_ok db" and mem: "run \<in> set (t_runs db)"
    and ret: "apply_exited E run stage_opt u now db = Inr db'"
  shows "reaches db db'"
proof -
  from ret obtain stage where stage: "stage_opt = Some stage"
    by (cases stage_opt) (simp_all add: apply_exited_def)
  let ?st = "py_str E (py_or (dict_get u ''status'') (JStr ''failed''))"
  let ?d = "settle_start_actions (r_id run) (s_id stage) now db"
  have d: "db_ok ?d" "run \<in> set (t_runs ?d)"
    using ok mem by (simp add: db_ok_def) (simp add: mem settle_start_actions_def upd_actions_def)
  consider "exited_stopped run stage now ?d = Inr db'"
    | code msg where "exited_unsuccessful run stage (terminal_of ?st) code msg now ?d = Inr db'"
    | "exited_succeeded E run stage now ?d = Inr db'"
    using ret stage by (auto simp: apply_exited_def Let_def rbind_eq_Inr split: if_splits)
  then have "reaches ?d db'"
  proof cases
    case 2
    have "terminal_of ?st \<in> {Failed, Cancelled, Lost}" by (simp add: terminal_of_def)
    with 2 show ?thesis by (rule exited_unsuccessful_reaches)
  qed (erule exited_stopped_reaches, erule exited_succeeded_reaches [OF d])
  then show ?thesis by simp
qed

lemma apply_reconciliation_reaches:
  assumes ok: "db_ok db" and mem: "run \<in> set (t_runs db)"
    and live: "py_str E (py_or (dict_get u ''status'') (JStr ''unresolved'')) = ''running'' \<Longrightarrow> \<not> terminal (r_status run)"
    and ret: "apply_reconciliation E run stage_opt u now db = Inr db'"
  shows "reaches db db'"
proof -
  let ?o = "py_str E (py_or (dict_get u ''status'') (JStr ''unresolved''))"
  consider "?o = ''unresolved''" | "?o = ''running''" | "?o \<noteq> ''unresolved''" "?o \<noteq> ''running''" by auto
  then show ?thesis
  proof cases
    case 1
    have "keeps_run (\<lambda>r. r\<lparr>r_control_status := Some Unresolved,
        r_state_revision := r_state_revision r + 1, r_updated_at := now\<rparr>)"
      by (simp add: keeps_run_def)
    from frame_upd_run [OF this] 1 ret show ?thesis
      by (auto simp: apply_reconciliation_def Let_def)
  next
    case 2
    let ?d = "case stage_opt of None \<Rightarrow> db
      | Some stage \<Rightarrow> upd_stages (\<lambda>s. s_id s = s_id stage) (\<lambda>s. s\<lparr>s_status := SRunning, s_updated_at := now\<rparr>) db"
    let ?f = "\<lambda>r. r\<lparr>r_status := Running, r_control_status := Some Connected, r_updated_at := now\<rparr>"
    have "reaches db (upd_stages (\<lambda>s. s_id s = s_id stage) (\<lambda>s. s\<lparr>s_status := SRunning, s_updated_at := now\<rparr>) db)"
      for stage :: stage_row by (intro reaches_stages) (simp add: keeps_pending_def)
    then have d: "reaches db ?d" "run \<in> set (t_runs ?d)"
      using mem by (cases stage_opt; simp add: upd_stages_def)+
    have "reaches ?d (upd_run (r_id run) (\<lambda>_. True) ?f ?d)"
      using live [OF 2] by (intro reaches_move_row [where s = Running, OF reaches_ok [OF ok d(1)] d(2)])
        (auto simp: sets_status_def)
    moreover have "db' = upd_run (r_id run) (\<lambda>_. True) ?f ?d"
      using ret 2 by (simp add: apply_reconciliation_def Let_def)
    ultimately show ?thesis using reaches_trans [OF d(1)] by simp
  next
    case 3
    with ret show ?thesis
      by (intro apply_exited_reaches [OF ok mem]) (auto simp: apply_reconciliation_def Let_def)
  qed
qed

lemma apply_training_update_in_reaches:
  assumes ok: "db_ok db" and mem: "run \<in> set (t_runs db)" and live: "\<not> revives E run u"
    and ret: "apply_training_update_in E run u now db = Inr db'"
  shows "reaches db db'"
proof -
  let ?k = "py_str E (dict_get u ''kind'')"
  from ret obtain stage where stage: "update_stage E run u db = Inr stage"
    by (cases "update_stage E run u db") (simp_all add: apply_training_update_in_def)
  then have "db' = db \<or> (\<exists>s. db' = apply_started run s u now db) \<or>
    (\<exists>s. db' = apply_log E run s u now db) \<or> (\<exists>s. apply_metric E run s u now db = Inr db') \<or>
    (\<exists>s. apply_checkpoint E run s u now db = Inr db') \<or>
    (?k = ''reconciliation'' \<and> apply_reconciliation E run stage u now db = Inr db') \<or>
    apply_exited E run stage u now db = Inr db'"
    using ret by (cases stage) (simp_all add: apply_training_update_in_def Let_def with_stage_def
        split: if_splits, blast+)
  then consider "db' = db" | s where "db' = apply_started run s u now db"
    | s where "db' = apply_log E run s u now db"
    | s where "apply_metric E run s u now db = Inr db'"
    | s where "apply_checkpoint E run s u now db = Inr db'"
    | "?k = ''reconciliation''" "apply_reconciliation E run stage u now db = Inr db'"
    | "apply_exited E run stage u now db = Inr db'"
    by blast
  then show ?thesis
  proof cases
    case 6
    with live show ?thesis
      by (intro apply_reconciliation_reaches [OF ok mem _ 6(2)]) (auto simp: revives_def)
  qed (auto simp: apply_checkpoint_frame
      intro: apply_started_reaches [OF ok] apply_metric_reaches apply_exited_reaches [OF ok mem])
qed

section \<open>Batches\<close>

fun batch_revives :: "env \<Rightarrow> nat \<Rightarrow> int \<Rightarrow> dict list \<Rightarrow> tdb \<Rightarrow> bool" where
  "batch_revives E rid now [] db = False"
| "batch_revives E rid now (u # us) db =
     (case run_by_id db rid of
        None \<Rightarrow> False
      | Some run \<Rightarrow> revives E run u \<or>
          (case apply_training_update_in E run u now db of
             Inl _ \<Rightarrow> False
           | Inr db' \<Rightarrow> batch_revives E rid now us db'))"

lemma apply_batch_Nil [simp]: "apply_batch E rid now [] db = Inr db"
  by (simp add: apply_batch_def)

lemma apply_batch_Cons [simp]:
  "apply_batch E rid now (u # us) db =
     (case run_by_id db rid of
        None \<Rightarrow> Inl AssertionError
      | Some run \<Rightarrow> rbind (apply_training_update_in E run u now db) (apply_batch E rid now us))"
  by (simp add: apply_batch_def [abs_def] split: option.splits)

lemma apply_batch_reaches:
  "db_ok db \<Longrightarrow> \<not> batch_revives E rid now us db \<Longrightarrow> apply_batch E rid now us db = Inr db' \<Longrightarrow> reaches db db'"
proof (induction us arbitrary: db)
  case Nil
  then show ?case by simp
next
  case (Cons u us)
  from Cons.prems(3) obtain run where run: "run_by_id db rid = Some run"
    by (cases "run_by_id db rid") simp_all
  with Cons.prems(3) obtain d where d: "apply_training_update_in E run u now db = Inr d"
    and rest: "apply_batch E rid now us d = Inr db'"
    by (auto simp: rbind_eq_Inr)
  from Cons.prems(2) run d have "\<not> revives E run u" "\<not> batch_revives E rid now us d" by auto
  then have "reaches db d"
    using run_by_id_row [OF run] d Cons.prems(1) by (intro apply_training_update_in_reaches) auto
  moreover from this have "reaches d db'"
    using reaches_ok [OF Cons.prems(1)] \<open>\<not> batch_revives E rid now us d\<close> rest by (intro Cons.IH) auto
  ultimately show ?case by (rule reaches_trans)
qed

lemma record_update_seq_frame [frame, simp]:
  "alloc_of (record_update_seq rid seq w now db) = alloc_of db"
  unfolding record_update_seq_def by (rule frame_upd_run) (simp add: keeps_run_def)

text \<open>An accepted batch was applied or is the repetition of the last one.\<close>

lemma apply_training_run_updates_cases:
  assumes "apply_training_run_updates E n tok ref w epoch seq us now db = Inr (r, db')"
  obtains run where "real_run db ref n = Some run" and "r_exec_owner_epoch run = epoch"
      and "seq = r_exec_update_seq run" and "db' = db"
  | run d where "real_run db ref n = Some run" and "r_exec_owner_epoch run = epoch"
      and "seq = r_exec_update_seq run + 1"
      and "apply_batch E (r_id run) now us db = Inr d"
      and "db' = record_update_seq (r_id run) seq w now d"
proof -
  from assms obtain run where run: "real_run db ref n = Some run"
    by (cases "real_run db ref n") (auto simp: apply_training_run_updates_def rbind_eq_Inr)
  with assms have "r_exec_owner_epoch run = epoch"
    by (auto simp: apply_training_run_updates_def rbind_eq_Inr split: if_splits)
  moreover from run assms have "seq = r_exec_update_seq run \<and> db' = db \<or>
      seq = r_exec_update_seq run + 1 \<and> (\<exists>d. apply_batch E (r_id run) now us db = Inr d \<and>
        db' = record_update_seq (r_id run) seq w now d)"
    by (auto simp: apply_training_run_updates_def rbind_eq_Inr returning_eq_Inr split: if_splits)
  ultimately show thesis using that run by blast
qed

lemma real_run_row: "real_run db ref n = Some r \<Longrightarrow>
    r \<in> set (t_runs db) \<and> r_run_ref r = ref \<and> r_server_ref r = n \<and> r_execution_mode r = Real"
  unfolding real_run_def by (drule fetchone_filterD) simp

lemma apply_training_run_updates_reaches:
  assumes ok: "db_ok db"
    and quiet: "\<And>run. real_run db ref n = Some run \<Longrightarrow> \<not> batch_revives E (r_id run) now us db"
    and ret: "apply_training_run_updates E n tok ref w epoch seq us now db = Inr (r, db')"
  shows "reaches db db'"
  using ret
proof (cases rule: apply_training_run_updates_cases)
  case (1 run)
  then show ?thesis by simp
next
  case (2 run d)
  then show ?thesis using apply_batch_reaches [OF ok quiet] by simp
qed

end
