(* ===== verification/Training_Center.thy ===== *)
theory Training_Center
  imports Real_Refinement
begin

text \<open>
  The training centre as a whole: creating a run acquires its leases, the operations of
  \<open>TrainingStore\<close> form a step relation, and the invariant of the allocation machine holds in
  every database they reach.
\<close>

section \<open>Creating a run acquires its leases\<close>

definition core :: "tdb \<Rightarrow> run_row list \<times> stage_row list \<times> gpu_lease list \<times> port_lease list" where
  "core db = (t_runs db, t_stages db, t_gpu_leases db, t_port_leases db)"

lemma core_frame [simp]:
  "core (add_event ty ref p now db) = core db"
  "core (add_audit a b c p now db) = core db"
  "core (add_idempotency sc k dg rs now db) = core db"
  "core (snd (new_ref E pre db)) = core db"
  "core (snd (queue_training_action_in E rid sid n ak pl now db)) = core db"
  by (simp_all add: core_def add_event_def add_audit_def add_idempotency_def new_ref_def
      queue_training_action_in_def)

lemma core_log [simp]: "core (snd (add_log rid level msg now stage db)) = core db"
proof -
  have "core (snd (store_log_line rid l m t now stage d)) = core d" for l m t d
    by (simp add: store_log_line_def Let_def core_def)
  moreover have "core (ensure_log_storage rid now db) = core db"
    by (simp add: ensure_log_storage_def Let_def core_def)
  ultimately show ?thesis
    by (simp add: add_log_def Let_def split: option.splits)
qed

lemma core_version_meta [simp]: "core (snd (make_version_meta E q f today db)) = core db"
  by (simp add: make_version_meta_def Let_def new_ref_def core_def)

lemma core_snapshot: "insert_snapshot E rid vm mf now db = Inr db' \<Longrightarrow> core db' = core db"
  by (cases "vm_snapshot_ref vm"; cases mf) (auto simp: insert_snapshot_def core_def)

lemma core_queue_first_stage: "queue_first_stage E q rid now db = Inr db' \<Longrightarrow> core db' = core db"
  by (simp add: queue_first_stage_def rbind_eq_Inr split: if_splits option.splits)
    (elim exE conjE, hypsubst, simp)

text \<open>The stage rows a new run gets: numbered from one, pending, in the order of the specification.\<close>

definition fresh_stages :: "nat \<Rightarrow> nat list \<Rightarrow> stage_row list \<Rightarrow> bool" where
  "fresh_stages rid ns new \<longleftrightarrow> map s_stage_number new = ns \<and>
     (\<forall>s \<in> set new. s_run_id s = rid \<and> s_status s = SPending \<and> s_current_step s = 0 \<and> 1 \<le> s_total_steps s)"

lemma insert_stage_effect:
  assumes "insert_stage E rid now (i, sp) db = Inr db'"
  shows "\<exists>new. fresh_stages rid [i] new \<and> core db' = (t_runs db, t_stages db @ new, t_gpu_leases db, t_port_leases db)"
  using assms
  by (simp add: insert_stage_def Let_def rbind_eq_Inr split: prod.splits if_splits)
    (elim exE conjE, hypsubst, auto simp: core_def fresh_stages_def stage_steps_def new_ref_def)

lemma insert_stages_effect:
  "rfold (insert_stage E rid now) (zip ns sps) db = Inr db' \<Longrightarrow> length ns = length sps \<Longrightarrow>
   \<exists>new. fresh_stages rid ns new \<and> core db' = (t_runs db, t_stages db @ new, t_gpu_leases db, t_port_leases db)"
proof (induction ns sps arbitrary: db rule: list_induct2')
  case (4 n ns sp sps)
  from "4.prems" obtain d where d: "insert_stage E rid now (n, sp) db = Inr d"
    and rest: "rfold (insert_stage E rid now) (zip ns sps) d = Inr db'" by (auto simp: rbind_eq_Inr)
  from insert_stage_effect [OF d] obtain a where
    a: "fresh_stages rid [n] a" "core d = (t_runs db, t_stages db @ a, t_gpu_leases db, t_port_leases db)"
    by blast
  from "4.IH" [OF rest] "4.prems"(2) obtain b where
    b: "fresh_stages rid ns b" "core db' = (t_runs d, t_stages d @ b, t_gpu_leases d, t_port_leases d)"
    by auto
  have "fresh_stages rid (n # ns) (a @ b)" using a b by (auto simp: fresh_stages_def)
  moreover have "core db' = (t_runs db, t_stages db @ a @ b, t_gpu_leases db, t_port_leases db)"
    using a b by (simp add: core_def)
  ultimately show ?case by blast
qed (auto simp: fresh_stages_def core_def)

lemma idem_frame [simp]:
  "t_idempotency (add_event ty ref p now db) = t_idempotency db"
  "t_idempotency (add_audit a b c p now db) = t_idempotency db"
  "t_idempotency (snd (add_log rid level msg now stage db)) = t_idempotency db"
  "t_idempotency (snd (queue_training_action_in E rid sid n ak pl now db)) = t_idempotency db"
proof -
  have "t_idempotency (snd (store_log_line rid l m t now stage d)) = t_idempotency d" for l m t d
    by (simp add: store_log_line_def Let_def)
  then show "t_idempotency (snd (add_log rid level msg now stage db)) = t_idempotency db"
    by (simp add: add_log_def ensure_log_storage_def Let_def split: option.splits)
qed (simp_all add: add_event_def add_audit_def queue_training_action_in_def new_ref_def)

text \<open>The intermediate states of a successful creation, in the order of the inserts.\<close>

lemma create_checked_run_steps:
  assumes "create_checked_run E q builder key digest actor today now (m, f, rv) port db = Inr (r, db')"
  obtains ref db1 vm db2 and spec :: run_spec and db3 db4 db5 db6 where
    "new_ref E ''run'' db = (ref, db1)" and "make_version_meta E q f today db1 = (vm, db2)" and
    "1 \<le> length (rs_stages spec)" and "length (rs_stages spec) \<le> 10" and
    "insert_snapshot E (next_id (map r_id (t_runs db2))) vm (rs_dataset_manifest spec) now
       (insert_run E q ref m f rv vm (rs_stages spec) now db2) = Inr db3" and
    "rfold (insert_stage E (next_id (map r_id (t_runs db2))) now)
       (zip [1..<Suc (length (rs_stages spec))] (rs_stages spec)) db3 = Inr db4" and
    "insert_leases q (next_id (map r_id (t_runs db2))) port now db4 = Inr db5" and
    "queue_first_stage E q (next_id (map r_id (t_runs db2))) now
       (add_idempotency ''create_run'' key digest ref now db5) = Inr db6" and
    "core db' = core db6" and "t_idempotency db' = t_idempotency db6" and "get_run_in db' ref = Inr r"
proof -
  obtain ref db1 where ref: "new_ref E ''run'' db = (ref, db1)" by force
  obtain vm db2 where vm: "make_version_meta E q f today db1 = (vm, db2)" by force
  let ?rid = "next_id (map r_id (t_runs db2))"
  from assms ref vm obtain spec where spec: "builder ref port vm = Inr spec"
    by (cases "builder ref port vm") (simp_all add: create_checked_run_def)
  have count: "1 \<le> length (rs_stages spec) \<and> length (rs_stages spec) \<le> 10"
    by (rule ccontr) (use assms ref vm spec in \<open>simp add: create_checked_run_def Let_def\<close>)
  let ?fin = "\<lambda>d. add_audit actor ''run.created'' ref
      [(''mode'', JStr (q_execution_mode q)), (''stage_count'', JInt (int (length (rs_stages spec)))),
       (''version_label'', JStr (vm_label vm))] now
      (add_event ''run.updated'' ref [(''stage_count'', JInt (int (length (rs_stages spec))))] now
        (snd (add_log ?rid ''info'' (if q_execution_mode q = ''real'' then ''Real training workflow queued.''
           else ''Simulation workflow queued.'') now None d)))"
  have "\<exists>db3 db4 db5 db6. insert_snapshot E ?rid vm (rs_dataset_manifest spec) now
      (insert_run E q ref m f rv vm (rs_stages spec) now db2) = Inr db3 \<and>
    rfold (insert_stage E ?rid now) (zip [1..<Suc (length (rs_stages spec))] (rs_stages spec)) db3 = Inr db4 \<and>
    insert_leases q ?rid port now db4 = Inr db5 \<and>
    queue_first_stage E q ?rid now (add_idempotency ''create_run'' key digest ref now db5) = Inr db6 \<and>
    db' = ?fin db6 \<and> get_run_in (?fin db6) ref = Inr r"
    using assms ref vm spec count
    by (simp add: create_checked_run_def Let_def rbind_eq_Inr returning_eq_Inr del: upt_Suc split del: if_split)
      (elim exE conjE, (rule exI conjI | assumption)+)
  then obtain db3 db4 db5 db6 where
    s3: "insert_snapshot E ?rid vm (rs_dataset_manifest spec) now
      (insert_run E q ref m f rv vm (rs_stages spec) now db2) = Inr db3" and
    s4: "rfold (insert_stage E ?rid now) (zip [1..<Suc (length (rs_stages spec))] (rs_stages spec)) db3 = Inr db4" and
    s5: "insert_leases q ?rid port now db4 = Inr db5" and
    s6: "queue_first_stage E q ?rid now (add_idempotency ''create_run'' key digest ref now db5) = Inr db6" and
    fin: "db' = ?fin db6" and got: "get_run_in (?fin db6) ref = Inr r" by blast
  show thesis
    using count got
    by (intro that [of ref db1 vm db2 spec db3 db4 db5 db6, OF ref vm _ _ s3 s4 s5 s6]) (simp_all add: fin)
qed

lemma create_checked_run_effect:
  assumes "create_checked_run E q builder key digest actor today now (m, f, rv) port db = Inr (r, db')"
  shows "\<exists>ref vm specs new. let rid = next_id (map r_id (t_runs db)) in
    1 \<le> length specs \<and> length specs \<le> 10 \<and> fresh_stages rid [1..<Suc (length specs)] new \<and>
    distinct (q_gpu_uuids q) \<and> t_stages db' = t_stages db @ new \<and>
    t_runs db' = t_runs (insert_run E q ref m f rv vm specs now db) \<and>
    t_gpu_leases db' = t_gpu_leases db @
      map (\<lambda>g. \<lparr>g_uuid = g, g_run_id = rid, g_acquired_at = now\<rparr>) (q_gpu_uuids q) \<and>
    t_port_leases db' = t_port_leases db @ (case port of None \<Rightarrow> []
      | Some p \<Rightarrow> [\<lparr>p_server_ref = q_server_ref q, p_port = p, p_run_id = rid, p_acquired_at = now\<rparr>])"
proof -
  from assms obtain ref db1 vm db2 and spec :: run_spec and db3 db4 db5 db6 where
    ref: "new_ref E ''run'' db = (ref, db1)" and vm: "make_version_meta E q f today db1 = (vm, db2)" and
    count: "1 \<le> length (rs_stages spec)" "length (rs_stages spec) \<le> 10" and
    s3: "insert_snapshot E (next_id (map r_id (t_runs db2))) vm (rs_dataset_manifest spec) now
       (insert_run E q ref m f rv vm (rs_stages spec) now db2) = Inr db3" and
    s4: "rfold (insert_stage E (next_id (map r_id (t_runs db2))) now)
       (zip [1..<Suc (length (rs_stages spec))] (rs_stages spec)) db3 = Inr db4" and
    s5: "insert_leases q (next_id (map r_id (t_runs db2))) port now db4 = Inr db5" and
    s6: "queue_first_stage E q (next_id (map r_id (t_runs db2))) now
       (add_idempotency ''create_run'' key digest ref now db5) = Inr db6" and
    s7: "core db' = core db6" and "t_idempotency db' = t_idempotency db6" and "get_run_in db' ref = Inr r"
    by (rule create_checked_run_steps)
  let ?rid = "next_id (map r_id (t_runs db2))"
  have db2: "core db2 = core db"
    using ref vm core_frame(4) [of E "''run''" db] core_version_meta [of E q f today db1] by simp
  have 3: "core db3 = core (insert_run E q ref m f rv vm (rs_stages spec) now db2)"
    by (rule core_snapshot [OF s3])
  have "length [1..<Suc (length (rs_stages spec))] = length (rs_stages spec)" by (simp only: length_upt)
  from insert_stages_effect [OF s4 this] obtain new where
    4: "fresh_stages ?rid [1..<Suc (length (rs_stages spec))] new"
    "core db4 = (t_runs db3, t_stages db3 @ new, t_gpu_leases db3, t_port_leases db3)" by blast
  have 6: "core db6 = core db5" using core_queue_first_stage [OF s6] by simp
  have 5: "distinct (q_gpu_uuids q)" "t_runs db5 = t_runs db4" "t_stages db5 = t_stages db4"
    "t_gpu_leases db5 = t_gpu_leases db4 @
       map (\<lambda>g. \<lparr>g_uuid = g, g_run_id = ?rid, g_acquired_at = now\<rparr>) (q_gpu_uuids q)"
    "t_port_leases db5 = t_port_leases db4 @ (case port of None \<Rightarrow> []
      | Some p \<Rightarrow> [\<lparr>p_server_ref = q_server_ref q, p_port = p, p_run_id = ?rid, p_acquired_at = now\<rparr>])"
    using s5 by (auto simp: insert_leases_def split: if_splits)
  have 2: "t_runs db2 = t_runs db" "t_stages db2 = t_stages db" "t_gpu_leases db2 = t_gpu_leases db"
    "t_port_leases db2 = t_port_leases db" using db2 by (simp_all add: core_def)
  have "t_runs db' = t_runs (insert_run E q ref m f rv vm (rs_stages spec) now db2)"
    "t_stages db' = t_stages db2 @ new" "t_gpu_leases db' = t_gpu_leases db5" "t_port_leases db' = t_port_leases db5"
    "t_gpu_leases db4 = t_gpu_leases db2" "t_port_leases db4 = t_port_leases db2"
    using 3 4(2) 5(2,3) 6 s7 by (simp_all add: core_def insert_run_def Let_def)
  moreover have "t_runs (insert_run E q ref m f rv vm (rs_stages spec) now db2) =
      t_runs (insert_run E q ref m f rv vm (rs_stages spec) now db)"
    by (simp add: insert_run_def Let_def 2)
  ultimately show ?thesis
    using count 4(1) 5(1,4,5) unfolding Let_def 2
    by (intro exI [of _ ref] exI [of _ vm] exI [of _ "rs_stages spec"] exI [of _ new]) simp
qed


text \<open>The idempotency record a creation leaves.\<close>

lemma insert_stages_idem:
  "rfold (insert_stage E rid now) xs db = Inr db' \<Longrightarrow> t_idempotency db' = t_idempotency db"
proof (induction xs arbitrary: db)
  case (Cons x xs)
  obtain i sp where x: "x = (i, sp)" by force
  from Cons.prems obtain d where d: "insert_stage E rid now x db = Inr d"
    and rest: "rfold (insert_stage E rid now) xs d = Inr db'" by (auto simp: rbind_eq_Inr)
  have "t_idempotency d = t_idempotency db"
    using d by (simp add: x insert_stage_def Let_def rbind_eq_Inr split: prod.splits if_splits)
      (elim exE conjE, hypsubst, auto simp: new_ref_def)
  with Cons.IH [OF rest] show ?case by simp
qed simp

lemma create_checked_run_idem:
  assumes "create_checked_run E q builder key digest actor today now (m, f, rv) port db = Inr (r, db')"
  shows "\<exists>ref. t_idempotency db' = t_idempotency db @ [\<lparr>i_scope = ''create_run'', i_key = key, i_digest = digest,
      i_response = ref, i_created_at = now\<rparr>] \<and> get_run_in db' ref = Inr r"
proof -
  from assms obtain ref db1 vm db2 and spec :: run_spec and db3 db4 db5 db6 where
    s1: "new_ref E ''run'' db = (ref, db1)" and s2: "make_version_meta E q f today db1 = (vm, db2)" and
    "1 \<le> length (rs_stages spec)" and "length (rs_stages spec) \<le> 10" and
    s3: "insert_snapshot E (next_id (map r_id (t_runs db2))) vm (rs_dataset_manifest spec) now
       (insert_run E q ref m f rv vm (rs_stages spec) now db2) = Inr db3" and
    s4: "rfold (insert_stage E (next_id (map r_id (t_runs db2))) now)
       (zip [1..<Suc (length (rs_stages spec))] (rs_stages spec)) db3 = Inr db4" and
    s5: "insert_leases q (next_id (map r_id (t_runs db2))) port now db4 = Inr db5" and
    s6: "queue_first_stage E q (next_id (map r_id (t_runs db2))) now
       (add_idempotency ''create_run'' key digest ref now db5) = Inr db6" and
    "core db' = core db6" and s7: "t_idempotency db' = t_idempotency db6" and got: "get_run_in db' ref = Inr r"
    by (rule create_checked_run_steps)
  have "t_idempotency db2 = t_idempotency db"
    using s1 s2 by (auto simp: new_ref_def make_version_meta_def Let_def split: if_splits)
  moreover have "t_idempotency db3 = t_idempotency db2"
    using s3 by (cases "vm_snapshot_ref vm"; cases "rs_dataset_manifest spec")
      (auto simp: insert_snapshot_def insert_run_def Let_def)
  moreover have "t_idempotency db5 = t_idempotency db4"
    using s5 by (auto simp: insert_leases_def split: if_splits)
  moreover have "t_idempotency db6 = t_idempotency (add_idempotency ''create_run'' key digest ref now db5)"
    using s6 by (simp add: queue_first_stage_def rbind_eq_Inr split: if_splits option.splits)
      (elim exE conjE, hypsubst, simp)
  ultimately show ?thesis
    using insert_stages_idem [OF s4] s7 got by (auto simp: add_idempotency_def)
qed

text \<open>A successful request either repeats an earlier one or passes every check and inserts the run.\<close>

lemma create_run_cases:
  assumes "create_run E q builder key actor payload today now db = Inr (r, db')"
  shows "(\<exists>idem. find_idempotency ''create_run'' key db = Some idem \<and> i_digest idem = payload_hash E payload \<and>
        get_run_in db (i_response idem) = Inr r \<and> db' = db) \<or>
    (find_idempotency ''create_run'' key db = None \<and>
     (\<forall>g \<in> set (t_gpu_leases db). g_uuid g \<notin> set (q_gpu_uuids q)) \<and>
     (\<exists>m f rv port. (\<forall>p. port = Some p \<longrightarrow> find_available_port (q_server_ref q) 29500 29600 db = Inr p) \<and>
        create_checked_run E q builder key (payload_hash E payload) actor today now (m, f, rv) port db = Inr (r, db')))"
proof (cases "find_idempotency ''create_run'' key db")
  case (Some idem)
  with assms show ?thesis by (simp add: create_run_def Let_def returning_eq_Inr split: if_splits)
next
  case None
  with assms have free: "\<forall>g \<in> set (t_gpu_leases db). g_uuid g \<notin> set (q_gpu_uuids q)"
    by (simp add: create_run_def Let_def split: if_splits)
  let ?k = "\<lambda>m f rv port. create_checked_run E q builder key (payload_hash E payload) actor today now (m, f, rv) port db"
  let ?port = "if q_requires_master_port q
      then rbind (find_available_port (q_server_ref q) 29500 29600 db) (\<lambda>p. Inr (Some p)) else Inr None"
  from assms None obtain m f rv where "current_model q db = Inr (m, f, rv)"
    by (cases "current_model q db") (auto simp: create_run_def Let_def split: if_splits)
  with assms None have "\<exists>port. ?port = Inr port \<and> ?k m f rv port = Inr (r, db')"
    by (simp add: create_run_def Let_def rbind_eq_Inr [where b = "(r, db')"] split: if_splits)
  moreover have "\<forall>p. port = Some p \<longrightarrow> find_available_port (q_server_ref q) 29500 29600 db = Inr p"
    if "?port = Inr port" for port
    using that by (auto simp: rbind_eq_Inr split: if_splits)
  ultimately show ?thesis using None free by blast
qed

lemma find_available_port_free:
  assumes "find_available_port server a b db = Inr p"
  shows "a \<le> p \<and> p \<le> b \<and> (\<forall>l \<in> set (t_port_leases db). p_server_ref l = server \<longrightarrow> p_port l \<noteq> p)"
proof -
  let ?l = "map p_port (filter (\<lambda>p. p_server_ref p = server) (t_port_leases db))"
  from assms obtain ps where "filter (\<lambda>p. p \<notin> set ?l) [a..<Suc b] = p # ps"
    by (auto simp: find_available_port_def Let_def split: list.splits)
  then have "p \<in> set (filter (\<lambda>p. p \<notin> set ?l) [a..<Suc b])" by simp
  then show ?thesis by auto
qed

lemma create_run_reaches:
  assumes ret: "create_run E q builder key actor payload today now db = Inr (r, db')"
  shows "reaches db db'"
proof (cases "find_idempotency ''create_run'' key db")
  case (Some idem)
  with create_run_cases [OF ret] show ?thesis by auto
next
  case None
  from create_run_cases [OF ret] obtain m f rv port where
    gpus: "\<forall>g \<in> set (t_gpu_leases db). g_uuid g \<notin> set (q_gpu_uuids q)" and
    port: "\<forall>p. port = Some p \<longrightarrow> find_available_port (q_server_ref q) 29500 29600 db = Inr p" and
    mk: "create_checked_run E q builder key (payload_hash E payload) actor today now (m, f, rv) port db = Inr (r, db')"
    using None by (simp only: option.distinct simp_thms ex_simps) blast
  let ?rid = "next_id (map r_id (t_runs db))"
  let ?ps = "case port of None \<Rightarrow> [] | Some p \<Rightarrow> [(q_server_ref q, p)]"
  from create_checked_run_effect [OF mk] obtain ref vm specs new where
    eff: "distinct (q_gpu_uuids q)" "fresh_stages ?rid [1..<Suc (length specs)] new"
    "t_stages db' = t_stages db @ new"
    "t_runs db' = t_runs (insert_run E q ref m f rv vm specs now db)"
    "t_gpu_leases db' = t_gpu_leases db @
      map (\<lambda>g. \<lparr>g_uuid = g, g_run_id = ?rid, g_acquired_at = now\<rparr>) (q_gpu_uuids q)"
    "t_port_leases db' = t_port_leases db @ (case port of None \<Rightarrow> []
      | Some p \<Rightarrow> [\<lparr>p_server_ref = q_server_ref q, p_port = p, p_run_id = ?rid, p_acquired_at = now\<rparr>])"
    unfolding Let_def by blast
  have "al_pending (alloc_of db') \<subseteq> insert ?rid (al_pending (alloc_of db))"
    using eff(2,3) by (auto simp: alloc_of_def fresh_stages_def)
  moreover have "?rid \<notin> fst ` set (al_runs (alloc_of db))"
    using next_id_fresh [of "map r_id (t_runs db)"] by (simp add: alloc_of_def image_image)
  moreover have "set (q_gpu_uuids q) \<inter> fst ` set (al_gpus (alloc_of db)) = {}"
    using gpus by (auto simp: alloc_of_def)
  moreover have "set ?ps \<inter> fst ` set (al_ports (alloc_of db)) = {}"
    using find_available_port_free [of "q_server_ref q" 29500 29600 db] port
    by (cases port) (auto simp: alloc_of_def)
  moreover have "distinct ?ps" by (cases port) simp_all
  ultimately have "alloc_step (alloc_of db) \<lparr>al_runs = al_runs (alloc_of db) @ [(?rid, Queued, q_gpu_uuids q)],
      al_gpus = al_gpus (alloc_of db) @ map (\<lambda>g. (g, ?rid)) (q_gpu_uuids q),
      al_ports = al_ports (alloc_of db) @ map (\<lambda>p. (p, ?rid)) ?ps, al_pending = al_pending (alloc_of db')\<rparr>"
    using eff(1) by (intro alloc_step.acquire) simp_all
  moreover have "\<dots> = alloc_of db'"
    using eff by (cases port) (simp_all add: alloc_of_def insert_run_def Let_def comp_def)
  ultimately show ?thesis by auto
qed

section \<open>What finishing touches\<close>

lemma core_log_event [simp]: "core (log_and_event rid ref level msg p stage now db) = core db"
proof -
  obtain seq d where "add_log rid level msg now stage db = (seq, d)" by force
  then show ?thesis
    using core_log [of rid level msg now stage db] by (cases seq) (simp_all add: log_and_event_def)
qed

lemma core_closing_log [simp]: "core (closing_log row st now db) = core db"
  by (simp add: closing_log_def Let_def)

lemma actions_frame [simp]:
  "t_actions (add_event ty ref p now db) = t_actions db"
  "t_actions (snd (add_log rid level msg now stage db)) = t_actions db"
proof -
  have "t_actions (snd (store_log_line rid l m t now stage d)) = t_actions d" for l m t d
    by (simp add: store_log_line_def Let_def)
  then show "t_actions (snd (add_log rid level msg now stage db)) = t_actions db"
    by (simp add: add_log_def ensure_log_storage_def Let_def split: option.splits)
qed (simp add: add_event_def)

lemma actions_log_event [simp]: "t_actions (log_and_event rid ref level msg p stage now db) = t_actions db"
proof -
  obtain seq d where "add_log rid level msg now stage db = (seq, d)" by force
  then show ?thesis
    using actions_frame(2) [of rid level msg now stage db] by (cases seq) (simp_all add: log_and_event_def)
qed

lemma finish_db_tables:
  fixes row st now code msg db
  defines "d \<equiv> close_run (r_id row) st now code msg (close_stages (r_id row) st now code msg db)"
  shows "t_runs (finish_db row st now code msg db) = t_runs d"
    "t_stages (finish_db row st now code msg db) = t_stages d"
    "t_gpu_leases (finish_db row st now code msg db) = t_gpu_leases d"
    "t_port_leases (finish_db row st now code msg db) = t_port_leases d"
    "t_actions (finish_db row st now code msg db) = t_actions d"
proof -
  have "core (finish_db row st now code msg db) = core d" by (simp add: finish_db_def d_def)
  then show "t_runs (finish_db row st now code msg db) = t_runs d"
    "t_stages (finish_db row st now code msg db) = t_stages d"
    "t_gpu_leases (finish_db row st now code msg db) = t_gpu_leases d"
    "t_port_leases (finish_db row st now code msg db) = t_port_leases d" by (simp_all add: core_def)
qed (simp add: finish_db_def closing_log_def Let_def d_def)

lemma close_run_tables [simp]:
  "t_stages (close_run rid st now code msg db) = t_stages db"
  "t_gpu_leases (close_run rid st now code msg db) = sql_delete (\<lambda>g. g_run_id g = rid) (t_gpu_leases db)"
  "t_port_leases (close_run rid st now code msg db) = sql_delete (\<lambda>p. p_run_id p = rid) (t_port_leases db)"
  by (simp_all add: close_run_def upd_actions_def upd_run_def)

section \<open>The centre as a transition system\<close>

inductive center_step :: "env \<Rightarrow> tdb \<Rightarrow> tdb \<Rightarrow> bool" for E where
  create: "create_run E q builder key actor payload today now db = Inr (r, db') \<Longrightarrow> center_step E db db'"
| stop: "stop_run E ref expected key actor now db = Inr (r, db') \<Longrightarrow> center_step E db db'"
| claim: "claim_next_run w lease now db = Inr (x, db') \<Longrightarrow> center_step E db db'"
| start: "transition_running ref w now db = Inr (r, db') \<Longrightarrow> center_step E db db'"
| sim_step: "append_step ref w m msg sref now db = Inr (r, db') \<Longrightarrow> center_step E db db'"
| finish: "terminal st \<Longrightarrow> finish_stage E ref w sref st code msg now db = Inr (r, db') \<Longrightarrow> center_step E db db'"
| recover: "recover_stale_runs now db = Inr (n, db') \<Longrightarrow> center_step E db db'"
| poll: "poll_training_actions E nref tok w limit now db = Inr (as, db') \<Longrightarrow> center_step E db db'"
| action: "finish_training_action E nref tok aref w ct succ res err now db = Inr (ast, db') \<Longrightarrow> center_step E db db'"
| updates: "(\<And>run. real_run db ref nref = Some run \<Longrightarrow> \<not> batch_revives E (r_id run) now us db) \<Longrightarrow>
    apply_training_run_updates E nref tok ref w epoch seq us now db = Inr (r, db') \<Longrightarrow> center_step E db db'"

lemma center_step_reaches: "center_step E db db' \<Longrightarrow> db_ok db \<Longrightarrow> reaches db db'"
  by (induction rule: center_step.induct)
    (blast intro: create_run_reaches stop_run_reaches claim_next_run_reaches transition_running_reaches
      append_step_reaches finish_stage_reaches recover_stale_runs_reaches poll_training_actions_reaches
      finish_training_action_reaches apply_training_run_updates_reaches)+

interpretation center: functional_refinement "center_step E" "alloc_step\<^sup>*\<^sup>*" alloc_of db_ok for E
  by unfold_locales (auto dest: center_step_reaches intro: reaches_ok)

interpretation center_ts: transition_system "center_step E" db_ok for E
  by unfold_locales (blast intro: reaches_ok center_step_reaches)

text \<open>A database without runs, stages and leases: models, nodes and data may be anything.\<close>

definition no_runs :: "tdb \<Rightarrow> bool" where
  "no_runs db \<longleftrightarrow> t_runs db = [] \<and> t_stages db = [] \<and> t_gpu_leases db = [] \<and> t_port_leases db = []"

lemma no_runs_ok: "no_runs db \<Longrightarrow> db_ok db"
  by (simp add: no_runs_def db_ok_def alloc_ok_def alloc_of_def held_by_live_def live_holds_def finished_idle_def)

lemma center_ok: "no_runs db0 \<Longrightarrow> (center_step E)\<^sup>*\<^sup>* db0 db \<Longrightarrow> db_ok db"
  using center_ts.run_inv [OF _ no_runs_ok] by blast

end
