(* ===== verification/Center_Example.thy ===== *)
theory Center_Example
  imports Training_Center "HOL-Library.Code_Target_Nat"
begin

text \<open>
  A small centre for the theorems to be instantiated on: one node, one verified model, a
  request for a real run on one GPU that is created, and a second database in which such a
  run is already executing.
\<close>

definition ex_env :: env where
  "ex_env = \<lparr>uuid4_hex = nat_str, token_urlsafe = nat_str, sha256_hex = (\<lambda>s. CHR ''0'' # s),
     json_dumps = (\<lambda>j. case j of JStr s \<Rightarrow> s | _ \<Rightarrow> ''json''), json_text = (\<lambda>j. ''json''), json_loads = (\<lambda>s. Inr (JStr s)), str_of = (\<lambda>_. ''value''), float_of = Inr\<rparr>"

definition ex_node :: node_row where
  "ex_node = \<lparr>n_id = 1, n_node_ref = ''node'', n_name = ''node'', n_description = '''', n_address = ''host'',
     n_ssh_port = 22, n_ssh_username = ''user'', n_status = Online, n_state_revision = 1,
     n_heartbeat_revision = 1, n_enrolled_at = Some 0, n_last_heartbeat_at = Some 0,
     n_worker_instance = Some ''w'', n_worker_version = Some ''1'', n_protocol_version = Some 1,
     n_worker_token_sha256 = Some ''0tok'', n_health_message = None,
     n_capabilities = JObj [(''worker_features'', JList [JStr ''training_execution_v1''])],
     n_host_key_algorithm = None, n_host_public_key = None, n_host_key_fingerprint = None,
     n_deployment_status = DeploySucceeded, n_deployment_message = None, n_deployment_started_at = None,
     n_deployment_finished_at = None, n_installed_version = None, n_created_at = 0, n_updated_at = 0\<rparr>"

definition ex_db :: tdb where
  "ex_db = empty_tdb\<lparr>t_nodes := [ex_node],
     t_families := [\<lparr>fam_id = 1, fam_ref = ''family'', fam_name = ''Family'', fam_created_at = 0,
       fam_updated_at = 0, fam_current_model = Some 1\<rparr>],
     t_models := [\<lparr>md_id = 1, md_model_ref = ''model'', md_name = ''Family'', md_description = '''',
       md_status = Verified, md_current_revision = 1, md_created_at = 0, md_updated_at = 0,
       md_family_id = 1, md_version_number = 1, md_version_description = None\<rparr>],
     t_revisions := [\<lparr>rv_id = 1, rv_revision_ref = ''revision'', rv_model_id = 1, rv_number = 1,
       rv_working_directory = ''/w'', rv_entrypoint = ''train.py'', rv_fixed_argv = JList [],
       rv_output_template = ''/out/{run_ref}'', rv_parameters = JList [],
       rv_template = JObj [(''server_ref'', JStr ''node''), (''working_directory'', JStr ''/w''),
         (''executable'', JStr ''python''), (''entrypoint'', JStr ''train.py''), (''output_root'', JStr ''/out'')],
       rv_created_at = 0, rv_data_access_mode = ''self_managed''\<rparr>],
     t_seq := (\<lambda>_. 0)(''training_nodes'' := 1)\<rparr>"

definition ex_request :: run_request where
  "ex_request = \<lparr>q_execution_mode = ''real'', q_gpu_uuids = [''gpu0''], q_model_ref = ''model'',
     q_revision_ref = ''revision'', q_server_ref = ''node'', q_dataset_splits = None,
     q_requires_master_port = False, q_version_description = None\<rparr>"

definition ex_builder :: run_spec_builder where
  "ex_builder ref port vm = Inr \<lparr>rs_stages = [\<lparr>sp_stage_ref = Some ''stage_a'', sp_stage_name = None,
       sp_input_source = ''manual'', sp_parameters = JObj [], sp_private_spec = JObj [
         (''working_directory'', JStr ''/w''), (''argv'', JList []), (''entrypoint'', JStr ''train.py'')],
       sp_command_preview = ''train'', sp_output_directory = Some ''/out/v/stage_01'', sp_total_steps = 10\<rparr>],
     rs_dataset_manifest = JNull\<rparr>"

text \<open>The state after an operation; an operation that fails leaves the state alone.\<close>

definition after :: "('a \<times> tdb) res \<Rightarrow> tdb \<Rightarrow> tdb" where
  "after r db = (case r of Inl _ \<Rightarrow> db | Inr (_, db') \<Rightarrow> db')"

definition ex_create :: "tdb \<Rightarrow> (run_row \<times> tdb) res" where
  "ex_create db = create_run ex_env ex_request ex_builder ''key'' ''admin'' (JStr ''payload'') ''20250101'' 10 db"

definition ex_created :: tdb where
  "ex_created = after (ex_create ex_db) ex_db"

lemma ex_create_ok: "is_ok (ex_create ex_db)"
  by code_simp

lemma ex_created_runs: "map (\<lambda>r. (r_id r, r_run_ref r, r_status r, r_gpu_uuids r)) (t_runs ex_created) = [(1, ''run_0'', Queued, [''gpu0''])]"
  by code_simp

section \<open>A centre with a running run\<close>

definition ex_run :: run_row where
  "ex_run = \<lparr>r_id = 1, r_run_ref = ''run_x'', r_model_id = 1, r_revision_id = 1, r_server_ref = ''node'',
     r_gpu_uuids = [''gpu0''], r_parameters = JObj [], r_run_spec = JObj [], r_command_preview = ''train'',
     r_status = Running, r_state_revision = 4, r_seed = 0, r_total_steps = 10, r_current_step = 3,
     r_owner_id = None, r_owner_epoch = 0, r_lease_expires_at = None, r_heartbeat_at = None,
     r_failure_code = None, r_failure_message = None, r_created_at = 0, r_updated_at = 5,
     r_started_at = Some 5, r_finished_at = None, r_execution_mode = Real,
     r_control_status = Some Connected, r_exec_worker = Some ''w'', r_exec_owner_epoch = 1,
     r_exec_update_seq = 7, r_exec_last_heartbeat = Some 5\<rparr>"

definition ex_stage :: stage_row where
  "ex_stage = \<lparr>s_id = 1, s_stage_ref = ''stage_x'', s_run_id = 1, s_stage_number = 1, s_stage_name = ''first'',
     s_input_source = ''manual'', s_parameters = JObj [], s_run_spec = JObj [], s_command_preview = ''train'',
     s_output_directory = ''/out/v/stage_01'', s_status = SRunning, s_current_step = 3, s_total_steps = 10,
     s_failure_code = None, s_failure_message = None, s_created_at = 0, s_updated_at = 5,
     s_started_at = Some 5, s_finished_at = None\<rparr>"

definition ex_stop_action :: action_row where
  "ex_stop_action = \<lparr>a_id = 1, a_action_ref = ''training_action_x'', a_run_id = 1, a_stage_id = None,
     a_node_ref = ''node'', a_kind = StopRun, a_status = AQueued, a_request = JObj [], a_result = None,
     a_worker = None, a_claim_sha256 = None, a_lease_expires_at = None, a_created_at = 6,
     a_updated_at = 6, a_started_at = None, a_finished_at = None\<rparr>"

definition ex_live :: tdb where
  "ex_live = ex_db\<lparr>t_runs := [ex_run], t_stages := [ex_stage],
     t_versions := [\<lparr>v_id = 1, v_version_ref = ''version_x'', v_family_id = 1, v_run_id = 1, v_number = 1,
       v_date = ''20250101'', v_label = ''v1-20250101'', v_created_at = 0, v_description = None\<rparr>],
     t_gpu_leases := [\<lparr>g_uuid = ''gpu0'', g_run_id = 1, g_acquired_at = 0\<rparr>]\<rparr>"

lemmas ex_defs = ex_live_def ex_db_def empty_tdb_def ex_run_def ex_stage_def ex_node_def ex_env_def ex_stop_action_def

end
