(* ===== verification/Center_Properties.thy ===== *)
theory Center_Properties
  imports Center_Example
begin

text \<open>
  What the training centre guarantees: exclusive GPUs, the effect of finishing and creating
  a run, idempotent requests, numbered Worker updates, and the bounds of the log storage.
\<close>

section \<open>Allocation\<close>

lemma ex_no_runs: "no_runs ex_db"
  by (simp add: no_runs_def ex_db_def empty_tdb_def)

lemma ex_reachable: "(center_step ex_env)\<^sup>*\<^sup>* ex_db ex_created"
proof -
  from ex_create_ok obtain r d where rd: "ex_create ex_db = Inr (r, d)"
    by (auto simp: is_ok_def split: sum.splits)
  then have "center_step ex_env ex_db d"
    unfolding ex_create_def by (rule center_step.create)
  moreover from rd have "ex_created = d" by (simp add: ex_created_def after_def)
  ultimately show ?thesis by blast
qed


lemma ex_created_row:
  "\<exists>r. t_runs ex_created = [r] \<and> r_id r = 1 \<and> r_run_ref r = ''run_0'' \<and> r_status r = Queued \<and> r_gpu_uuids r = [''gpu0'']"
  using ex_created_runs by (cases "t_runs ex_created") auto






section \<open>Finishing a run\<close>

lemma close_stages_closes:
  assumes "st \<in> {Failed, Cancelled, Lost}" and "s \<in> set (t_stages (close_stages rid st now code msg db))"
    and "s_run_id s = rid"
  shows "\<not> open_stage (s_status s)"
proof (cases "st = Cancelled")
  case True
  with assms(2) obtain q where "q \<in> set (t_stages db)" "s = (if s_run_id q = rid \<and> open_stage (s_status q)
      then q\<lparr>s_status := SCancelled, s_finished_at := Some now, s_updated_at := now\<rparr> else q)"
    unfolding close_stages_def upd_stages_def by (simp add: sql_update_mem) blast
  with assms(3) show ?thesis by (simp add: open_stage_def split: if_splits)
next
  case False
  let ?t = "sql_update (\<lambda>s. s_run_id s = rid \<and> active_stage (s_status s))
      (\<lambda>s. s\<lparr>s_status := (if st = Lost then SLost else SFailed),
             s_failure_code := coalesce (s_failure_code s) code,
             s_failure_message := coalesce (s_failure_message s) msg,
             s_finished_at := Some now, s_updated_at := now\<rparr>) (t_stages db)"
  have idle: "\<not> active_stage (s_status q)" if "q \<in> set ?t" "s_run_id q = rid" for q
  proof -
    from that(1) obtain p where "q = (if s_run_id p = rid \<and> active_stage (s_status p)
        then p\<lparr>s_status := (if st = Lost then SLost else SFailed),
             s_failure_code := coalesce (s_failure_code p) code,
             s_failure_message := coalesce (s_failure_message p) msg,
             s_finished_at := Some now, s_updated_at := now\<rparr> else p)"
      unfolding sql_update_mem by blast
    with that(2) show ?thesis by (simp add: active_stage_def split: if_splits)
  qed
  have "t_stages (close_stages rid st now code msg db) =
      sql_update (\<lambda>s. s_run_id s = rid \<and> s_status s = SPending)
        (\<lambda>s. s\<lparr>s_status := SSkipped, s_finished_at := Some now, s_updated_at := now\<rparr>) ?t"
    using False assms(1) by (auto simp: close_stages_def upd_stages_def)
  then obtain q where q: "q \<in> set ?t" and s: "s = (if s_run_id q = rid \<and> s_status q = SPending
      then q\<lparr>s_status := SSkipped, s_finished_at := Some now, s_updated_at := now\<rparr> else q)"
    using assms(2) by (simp only: sql_update_mem [of s]) blast
  have rid: "s_run_id q = rid" using s assms(3) by (simp split: if_splits)
  from idle [OF q rid] s rid show ?thesis
    by (simp add: open_stage_def active_stage_def split: if_splits)
qed

text \<open>
  Finishing a run with a failed, cancelled or lost outcome gives its row that status, without owner and
  with the next revision; no GPU or port lease of the run, no queued action and no open stage remain;
  other runs and their leases are as before.
\<close>

theorem finish_in_effect:
  assumes "finish_in row st now code msg db = Inr (r, db')" and "st \<in> {Failed, Cancelled, Lost}"
    and "distinct (map r_id (t_runs db))" and "row \<in> set (t_runs db)"
  shows "(\<exists>q \<in> set (t_runs db'). r_id q = r_id row \<and> r_status q = st \<and> r_owner_id q = None \<and>
            r_finished_at q = Some now \<and> r_state_revision q = Suc (r_state_revision row)) \<and>
    (\<forall>g \<in> set (t_gpu_leases db'). g_run_id g \<noteq> r_id row) \<and>
    (\<forall>p \<in> set (t_port_leases db'). p_run_id p \<noteq> r_id row) \<and>
    (\<forall>a \<in> set (t_actions db'). a_run_id a = r_id row \<longrightarrow> a_status a \<noteq> AQueued) \<and>
    (\<forall>s \<in> set (t_stages db'). s_run_id s = r_id row \<longrightarrow> \<not> open_stage (s_status s)) \<and>
    filter (\<lambda>q. r_id q \<noteq> r_id row) (t_runs db') = filter (\<lambda>q. r_id q \<noteq> r_id row) (t_runs db) \<and>
    filter (\<lambda>g. g_run_id g \<noteq> r_id row) (t_gpu_leases db) = t_gpu_leases db'"
proof -
  let ?c = "close_stages (r_id row) st now code msg db"
  have db': "db' = finish_db row st now code msg db" by (rule finish_in_eq [OF assms(1)])
  let ?f = "\<lambda>r. r\<lparr>r_status := st,
      r_current_step := (if st = Succeeded then r_total_steps r else r_current_step r),
      r_state_revision := r_state_revision r + 1, r_owner_id := None, r_lease_expires_at := None,
      r_control_status := (if r_execution_mode r = Real then Some Connected else r_control_status r),
      r_finished_at := Some now, r_updated_at := now, r_failure_code := code, r_failure_message := msg\<rparr>"
  have runs: "t_runs db' = sql_update (\<lambda>r. r_id r = r_id row) ?f (t_runs db)"
    by (simp add: db' finish_db_tables close_run_def upd_actions_def upd_run_def)
  have "?f row \<in> set (t_runs db')"
    unfolding runs by (rule sql_update_hit [OF assms(4)]) simp
  then have "\<exists>q \<in> set (t_runs db'). r_id q = r_id row \<and> r_status q = st \<and> r_owner_id q = None \<and>
      r_finished_at q = Some now \<and> r_state_revision q = Suc (r_state_revision row)"
    by (rule bexI [rotated]) simp
  moreover have "filter (\<lambda>q. r_id q \<noteq> r_id row) (t_runs db') = filter (\<lambda>q. r_id q \<noteq> r_id row) (t_runs db)"
    unfolding runs by (rule filter_sql_update_other) simp_all
  moreover have "\<not> open_stage (s_status s)" if "s \<in> set (t_stages db')" "s_run_id s = r_id row" for s
    using that close_stages_closes [OF assms(2)] by (simp add: db' finish_db_tables)
  moreover have "a_status a \<noteq> AQueued" if "a \<in> set (t_actions db')" "a_run_id a = r_id row" for a
  proof -
    from that(1) obtain b where "a = (if a_run_id b = r_id row \<and> a_status b = AQueued
        then b\<lparr>a_status := ACancelled, a_finished_at := Some now, a_updated_at := now\<rparr> else b)"
      by (simp add: db' finish_db_tables close_run_def upd_actions_def upd_run_def sql_update_mem) blast
    with that(2) show ?thesis by (simp split: if_splits)
  qed
  moreover have "t_gpu_leases db' = filter (\<lambda>g. g_run_id g \<noteq> r_id row) (t_gpu_leases db)"
    "t_port_leases db' = filter (\<lambda>p. p_run_id p \<noteq> r_id row) (t_port_leases db)"
    by (simp_all add: db' finish_db_tables sql_delete_def)
  moreover have "\<forall>g \<in> set (filter (\<lambda>g. g_run_id g \<noteq> r_id row) (t_gpu_leases db)). g_run_id g \<noteq> r_id row"
    "\<forall>p \<in> set (filter (\<lambda>p. p_run_id p \<noteq> r_id row) (t_port_leases db)). p_run_id p \<noteq> r_id row" by simp_all
  ultimately show ?thesis by metis
qed

lemma ex_finish_ok: "is_ok (finish_in ex_run Failed 9 None None ex_live)"
  by code_simp

theorem finish_in_effect_witness:
  "\<exists>r db'. finish_in ex_run Failed 9 None None ex_live = Inr (r, db') \<and>
     (\<forall>g \<in> set (t_gpu_leases db'). g_run_id g \<noteq> r_id ex_run)"
proof -
  from ex_finish_ok obtain r db' where ret: "finish_in ex_run Failed 9 None None ex_live = Inr (r, db')"
    by (cases "finish_in ex_run Failed 9 None None ex_live") (auto simp: is_ok_def)
  have "distinct (map r_id (t_runs ex_live))" "ex_run \<in> set (t_runs ex_live)" by (simp_all add: ex_live_def)
  from finish_in_effect [OF ret _ this] ret show ?thesis by simp
qed

section \<open>Creating runs\<close>

text \<open>
  C35: A run that was created for an idempotency key is the answer to every later request with that
  key and the same payload, and nothing is changed; the key with another payload is a conflict.
\<close>

theorem create_run_replay:
  assumes "create_run E q builder key actor payload today now db = Inr (r, db')"
    and "q_execution_mode q2 \<in> {''simulation'', ''real''}"
    and "find_idempotency ''create_run'' key db = None"
  shows "create_run E q2 builder2 key actor2 payload today2 now2 db' = Inr (r, db') \<and>
    (payload_hash E payload2 \<noteq> payload_hash E payload \<longrightarrow>
       create_run E q2 builder2 key actor2 payload2 today2 now2 db' = Inl (Conflict ''idempotency_conflict''))"
proof -
  from create_run_cases [OF assms(1)] obtain m f rv port where
    "create_checked_run E q builder key (payload_hash E payload) actor today now (m, f, rv) port db = Inr (r, db')"
    using assms(3) by (simp only: option.distinct simp_thms ex_simps) blast
  from create_checked_run_idem [OF this] obtain ref where
    idem: "t_idempotency db' = t_idempotency db @ [\<lparr>i_scope = ''create_run'', i_key = key,
      i_digest = payload_hash E payload, i_response = ref, i_created_at = now\<rparr>]"
    and got: "get_run_in db' ref = Inr r" by blast
  have "find_idempotency ''create_run'' key db' = Some \<lparr>i_scope = ''create_run'', i_key = key,
      i_digest = payload_hash E payload, i_response = ref, i_created_at = now\<rparr>"
    using assms(3) by (simp add: find_idempotency_def idem)
  with got assms(2) show ?thesis by (auto simp: create_run_def Let_def returning_def)
qed

theorem create_run_replay_witness:
  "\<exists>r db'. ex_create ex_db = Inr (r, db') \<and> ex_create db' = Inr (r, db')"
proof -
  from ex_create_ok obtain r db' where ret: "ex_create ex_db = Inr (r, db')"
    by (cases "ex_create ex_db") (auto simp: is_ok_def)
  have mode: "q_execution_mode ex_request \<in> {''simulation'', ''real''}" by (simp add: ex_request_def)
  have "find_idempotency ''create_run'' ''key'' ex_db = None"
    by (simp add: find_idempotency_def ex_db_def empty_tdb_def)
  from create_run_replay [OF ret [unfolded ex_create_def] mode this] ret show ?thesis
    unfolding ex_create_def by blast
qed



text \<open>
  The port a distributed run gets is the smallest one of the range that no lease of the node holds;
  the request fails for lack of ports exactly when every port of the range is leased.
\<close>

theorem find_available_port_least:
  "(find_available_port server a b db = Inr p \<longleftrightarrow>
      a \<le> p \<and> p \<le> b \<and> (server, p) \<notin> (\<lambda>l. (p_server_ref l, p_port l)) ` set (t_port_leases db) \<and>
      (\<forall>x. a \<le> x \<longrightarrow> x < p \<longrightarrow> (server, x) \<in> (\<lambda>l. (p_server_ref l, p_port l)) ` set (t_port_leases db))) \<and>
   (find_available_port server a b db = Inl (Conflict ''master_port_exhausted'') \<longleftrightarrow>
      (\<forall>x. a \<le> x \<longrightarrow> x \<le> b \<longrightarrow> (server, x) \<in> (\<lambda>l. (p_server_ref l, p_port l)) ` set (t_port_leases db)))"
proof -
  let ?L = "set (map p_port (filter (\<lambda>p. p_server_ref p = server) (t_port_leases db)))"
  have L: "(server, x) \<in> (\<lambda>l. (p_server_ref l, p_port l)) ` set (t_port_leases db) \<longleftrightarrow> x \<in> ?L" for x
    by (simp add: image_iff) metis
  have first: "(\<exists>ps. filter (\<lambda>x. x \<notin> S) [i..<j] = p # ps) \<longleftrightarrow>
      i \<le> p \<and> p < j \<and> p \<notin> S \<and> (\<forall>x. i \<le> x \<longrightarrow> x < p \<longrightarrow> x \<in> S)" for S i j and p :: nat
  proof (induction "j - i" arbitrary: i)
    case 0
    then show ?case by auto
  next
    case (Suc n)
    then have ij: "[i..<j] = i # [Suc i..<j]" by (simp add: upt_conv_Cons)
    have IH: "(\<exists>ps. filter (\<lambda>x. x \<notin> S) [Suc i..<j] = p # ps) \<longleftrightarrow>
      Suc i \<le> p \<and> p < j \<and> p \<notin> S \<and> (\<forall>x. Suc i \<le> x \<longrightarrow> x < p \<longrightarrow> x \<in> S)" using Suc by auto
    show ?case
    proof (cases "i \<in> S")
      case True
      then show ?thesis unfolding ij using IH by (auto simp: Suc_le_eq) (metis le_neq_implies_less)+
    next
      case False
      then show ?thesis using Suc.hyps(2) unfolding ij by auto
    qed
  qed
  have ok: "find_available_port server a b db = Inr p \<longleftrightarrow> (\<exists>ps. filter (\<lambda>x. x \<notin> ?L) [a..<Suc b] = p # ps)"
    by (auto simp: find_available_port_def Let_def split: list.splits)
  have none: "find_available_port server a b db = Inl (Conflict ''master_port_exhausted'') \<longleftrightarrow>
      filter (\<lambda>x. x \<notin> ?L) [a..<Suc b] = []"
    by (auto simp: find_available_port_def Let_def split: list.splits)
  show ?thesis
    unfolding L ok none first by (auto simp: filter_empty_conv less_Suc_eq_le)
qed

theorem find_available_port_least_witness:
  "find_available_port ''node'' 29500 29502
     (ex_db\<lparr>t_port_leases := [\<lparr>p_server_ref = ''node'', p_port = 29500, p_run_id = 1, p_acquired_at = 0\<rparr>]\<rparr>) = Inr 29501"
proof -
  let ?d = "ex_db\<lparr>t_port_leases := [\<lparr>p_server_ref = ''node'', p_port = 29500, p_run_id = 1, p_acquired_at = 0\<rparr>]\<rparr>"
  have "\<forall>x. (29500::nat) \<le> x \<longrightarrow> x < 29501 \<longrightarrow> x = 29500" by auto
  then show ?thesis
    using find_available_port_least [of "''node''" 29500 29502 ?d 29501] by simp
qed

end
