(* ===== verification/Center_Updates.thy ===== *)
theory Center_Updates
  imports Center_Example
begin

text \<open>
  The numbered updates of a Worker as the centre applies them, the actions it hands out,
  and the bounded central log.
\<close>

section \<open>Applying updates keeps the identity of runs\<close>

definition run_key :: "run_row \<Rightarrow> nat \<times> string \<times> string \<times> exec_mode \<times> int \<times> int" where
  "run_key r = (r_id r, r_run_ref r, r_server_ref r, r_execution_mode r, r_exec_owner_epoch r, r_exec_update_seq r)"

definition ident :: "tdb \<Rightarrow> (nat \<times> string \<times> string \<times> exec_mode \<times> int \<times> int) list \<times> node_row list" where
  "ident db = (map run_key (t_runs db), t_nodes db)"

lemma ident_upd_run:
  assumes "\<And>r. run_key (f r) = run_key r"
  shows "ident (upd_run i P f db) = ident db"
  using assms by (simp add: ident_def upd_run_def map_sql_update)

lemma ident_frame [simp]:
  "ident (add_event ty ref p now db) = ident db"
  "ident (upd_stages P g db) = ident db"
  "ident (upd_actions Q h db) = ident db"
  "ident (snd (add_log rid level msg now stage db)) = ident db"
  "ident (add_artifact E v s k path sim now db) = ident db"
  "ident (snd (queue_training_action_in E rid' sid n ak pl now db)) = ident db"
  "ident (db\<lparr>t_metrics := ms\<rparr>) = ident db"
proof -
  have "ident (snd (store_log_line rid l m t now stage d)) = ident d" for l m t d
    by (simp add: store_log_line_def Let_def ident_def)
  moreover have "ident (ensure_log_storage rid now db) = ident db"
    by (simp add: ensure_log_storage_def Let_def ident_def)
  ultimately show "ident (snd (add_log rid level msg now stage db)) = ident db"
    by (simp add: add_log_def Let_def split: option.splits)
qed (simp_all add: ident_def add_event_def upd_stages_def upd_actions_def add_artifact_def new_ref_def
      queue_training_action_in_def)

lemma ident_log_event [simp]: "ident (log_and_event rid ref level msg p stage now db) = ident db"
proof -
  obtain seq d where "add_log rid level msg now stage db = (seq, d)" by force
  then show ?thesis
    using ident_frame(4) [of rid level msg now stage db] by (cases seq) (simp_all add: log_and_event_def)
qed

lemma ident_finish_db [simp]: "ident (finish_db row st now code msg db) = ident db"
proof -
  have "ident (close_run rid st now code msg d) = ident d" for rid d
  proof -
    have "map run_key (sql_update P (\<lambda>r. r\<lparr>r_status := st,
        r_current_step := (if st = Succeeded then r_total_steps r else r_current_step r),
        r_state_revision := r_state_revision r + 1, r_owner_id := None, r_lease_expires_at := None,
        r_control_status := (if r_execution_mode r = Real then Some Connected else r_control_status r),
        r_finished_at := Some now, r_updated_at := now, r_failure_code := code, r_failure_message := msg\<rparr>) t) =
        map run_key t" for P t
      by (rule map_sql_update) (simp add: run_key_def)
    then show ?thesis by (simp add: ident_def close_run_def upd_actions_def upd_run_def)
  qed
  moreover have "ident (close_stages rid st now code msg d) = ident d" for rid d
    by (simp add: close_stages_def)
  ultimately show ?thesis by (simp add: finish_db_def closing_log_def Let_def)
qed

lemma ident_settle [simp]:
  "ident (settle_stop_actions rid now db) = ident db"
  "ident (settle_start_actions rid sid now db) = ident db"
  by (simp_all add: settle_stop_actions_def settle_start_actions_def)

lemma ident_started [simp]: "ident (apply_started run stage u now db) = ident db"
proof -
  have "ident (upd_run i P (\<lambda>r. r\<lparr>r_status := Running, r_started_at := coalesce (r_started_at r) (Some now),
      r_state_revision := r_state_revision r + 1, r_updated_at := now\<rparr>) d) = ident d" for i P d
    by (rule ident_upd_run) (simp add: run_key_def)
  then show ?thesis by (simp add: apply_started_def)
qed

lemma ident_log [simp]: "ident (apply_log E run stage u now db) = ident db"
proof -
  have "ident (fold (apply_log_line E run stage u now) ls db) = ident db" for ls
    by (induction ls arbitrary: db) (simp_all add: apply_log_line_def)
  then show ?thesis by (simp add: apply_log_def)
qed

lemma ident_metric: "apply_metric E run stage u now db = Inr db' \<Longrightarrow> ident db' = ident db"
proof -
  have "ident (upd_run i P (\<lambda>r. r\<lparr>r_current_step := n, r_updated_at := now\<rparr>) d) = ident d" for i P d n
    by (rule ident_upd_run) (simp add: run_key_def)
  then show "apply_metric E run stage u now db = Inr db' \<Longrightarrow> ident db' = ident db"
    by (simp add: apply_metric_def rbind_eq_Inr Let_def) (elim exE conjE, hypsubst, simp)
qed

lemma ident_checkpoint: "apply_checkpoint E run stage u now db = Inr db' \<Longrightarrow> ident db' = ident db"
  by (auto simp: apply_checkpoint_def Let_def new_ref_def ident_def add_event_def
      split: if_splits option.splits)

lemma ident_exited: "apply_exited E run stage_opt u now db = Inr db' \<Longrightarrow> ident db' = ident db"
proof (cases stage_opt)
  case (Some stage)
  let ?st = "py_str E (py_or (dict_get u ''status'') (JStr ''failed''))"
  have prep: "ident (upd_run i P (\<lambda>r. r\<lparr>r_status := Preparing,
      r_state_revision := Suc (r_state_revision r), r_updated_at := now\<rparr>) d) = ident d" for i P d
    by (rule ident_upd_run) (simp add: run_key_def)
  have one: "exited_stopped run stage now d = Inr db' \<Longrightarrow> ident db' = ident d" for d
    by (auto simp: exited_stopped_def dest: rbind_finish_in)
  have two: "exited_unsuccessful run stage st code msg now d = Inr db' \<Longrightarrow> ident db' = ident d" for d st code msg
    by (auto simp: exited_unsuccessful_def dest!: rbind_finish_in split: if_splits)
  have three: "exited_succeeded E run stage now d = Inr db' \<Longrightarrow> ident db' = ident d" for d
    by (simp add: exited_succeeded_def Let_def rbind_eq_Inr finish_in_def returning_eq_Inr split: option.splits)
      (elim exE conjE; hypsubst; simp add: prep)+
  assume "apply_exited E run stage_opt u now db = Inr db'"
  then show ?thesis
    using Some
    by (simp add: apply_exited_def Let_def rbind_eq_Inr split: if_splits)
      ((elim exE conjE)?, drule one two three, simp)+
qed (simp add: apply_exited_def)

lemma ident_update:
  assumes "apply_training_update_in E run u now db = Inr db'"
  shows "ident db' = ident db"
proof -
  have rec1: "ident (upd_run i P (\<lambda>r. r\<lparr>r_control_status := Some Unresolved,
      r_state_revision := Suc (r_state_revision r), r_updated_at := now\<rparr>) d) = ident d" for i P d
    by (rule ident_upd_run) (simp add: run_key_def)
  have rec2: "ident (upd_run i P (\<lambda>r. r\<lparr>r_status := Running, r_control_status := Some Connected,
      r_updated_at := now\<rparr>) d) = ident d" for i P d
    by (rule ident_upd_run) (simp add: run_key_def)
  have rec: "apply_reconciliation E run st u now db = Inr db' \<Longrightarrow> ident db' = ident db" for st
    by (cases st) (auto simp: apply_reconciliation_def Let_def rec1 rec2 split: if_splits dest: ident_exited)
  from assms obtain stage where "update_stage E run u db = Inr stage"
    by (cases "update_stage E run u db") (simp_all add: apply_training_update_in_def)
  with assms show ?thesis
    by (cases stage) (simp_all add: apply_training_update_in_def Let_def with_stage_def split: if_splits,
        (auto dest: rec ident_metric ident_checkpoint ident_exited)+)
qed

lemma ident_batch: "apply_batch E rid now us db = Inr db' \<Longrightarrow> ident db' = ident db"
proof (induction us arbitrary: db)
  case (Cons u us)
  then obtain run d where "run_by_id db rid = Some run" "apply_training_update_in E run u now db = Inr d"
    and "apply_batch E rid now us d = Inr db'"
    by (cases "run_by_id db rid") (auto simp: rbind_eq_Inr)
  with Cons.IH ident_update show ?case by metis
qed simp

text \<open>Looking a run up depends only on the keys of the rows.\<close>

lemma real_run_key:
  "map_option run_key (real_run db ref n) =
     find (\<lambda>(i, r, s, m, e, q). r = ref \<and> s = n \<and> m = Real) (map run_key (t_runs db))"
proof -
  have "map_option run_key (fetchone (filter (\<lambda>r. r_run_ref r = ref \<and> r_server_ref r = n \<and> r_execution_mode r = Real) t)) =
     find (\<lambda>(i, r, s, m, e, q). r = ref \<and> s = n \<and> m = Real) (map run_key t)" for t
    by (induction t) (simp_all add: run_key_def)
  then show ?thesis by (simp add: real_run_def)
qed

lemma authenticate_cong: "t_nodes db' = t_nodes db \<Longrightarrow> authenticate_worker E n tok w db' = authenticate_worker E n tok w db"
  by (simp add: authenticate_worker_def node_by_ref_def)

lemma nodes_of_ident: "ident db' = ident db \<Longrightarrow> t_nodes db' = t_nodes db"
  by (simp add: ident_def)

lemma real_run_ident: "ident db' = ident db \<Longrightarrow> map_option run_key (real_run db' ref n) = map_option run_key (real_run db ref n)"
  by (simp add: real_run_key ident_def)

text \<open>What recording the sequence number does to the keys.\<close>

lemma real_run_recorded:
  assumes "real_run db ref n = Some run"
  shows "\<exists>q. real_run (record_update_seq (r_id run) seq w now db) ref n = Some q \<and>
    r_exec_update_seq q = seq \<and> r_exec_owner_epoch q = r_exec_owner_epoch run \<and> r_id q = r_id run"
proof -
  let ?f = "\<lambda>r. r\<lparr>r_exec_update_seq := seq, r_exec_worker := Some w, r_exec_last_heartbeat := Some now,
      r_control_status := (if r_control_status r = Some Unresolved then r_control_status r else Some Connected),
      r_updated_at := now\<rparr>"
  have "fetchone (filter Q (sql_update P f t)) = map_option (\<lambda>r. if P r then f r else r) (fetchone (filter Q t))"
    if "\<And>r. Q (f r) = Q r" for P Q and f :: "run_row \<Rightarrow> run_row" and t
    using that by (induction t) simp_all
  from this [of "\<lambda>r. r_run_ref r = ref \<and> r_server_ref r = n \<and> r_execution_mode r = Real" ?f
      "\<lambda>r. r_id r = r_id run" "t_runs db"]
  have "real_run (record_update_seq (r_id run) seq w now db) ref n = Some (?f run)"
    using assms by (simp add: real_run_def record_update_seq_def upd_run_def)
  then show ?thesis by simp
qed

section \<open>Each update takes effect once\<close>

text \<open>
  C5: When the centre accepts a batch of updates it has either applied it and moved the run's
  update counter to the batch's number, which is one more than before, or it had already
  applied a batch with that number and changes nothing; in both cases the counter is now the
  batch's number, and sending the batch again is accepted without changing anything.
\<close>

theorem updates_applied_once:
  assumes "apply_training_run_updates E n tok ref w epoch seq us now db = Inr (r, db')"
  shows "\<exists>run q. real_run db ref n = Some run \<and> real_run db' ref n = Some q \<and> r_id q = r_id run \<and>
    r_exec_update_seq q = seq \<and>
    (seq = r_exec_update_seq run \<and> db' = db \<or> seq = r_exec_update_seq run + 1) \<and>
    apply_training_run_updates E n tok ref w epoch seq us2 now2 db' = Inr (r, db')"
proof -
  have auth: "\<exists>x. authenticate_worker E n tok (Some w) db = Inr x"
    using assms by (cases "authenticate_worker E n tok (Some w) db") (simp_all add: apply_training_run_updates_def)
  have got: "get_run_in db' ref = Inr r"
    using assms by (cases "real_run db ref n")
      (auto simp: apply_training_run_updates_def rbind_eq_Inr returning_eq_Inr split: if_splits)
  from assms show ?thesis
  proof (cases rule: apply_training_run_updates_cases)
    case (1 run)
    then show ?thesis using auth got by (auto simp: apply_training_run_updates_def returning_def)
  next
    case (2 run d)
    have id: "ident d = ident db" by (rule ident_batch [OF 2(4)])
    obtain run' where run': "real_run d ref n = Some run'" "run_key run' = run_key run"
      using real_run_ident [OF id, of ref n] 2(1) by auto
    then have ids: "r_id run' = r_id run" "r_exec_owner_epoch run' = epoch" using 2(2) by (simp_all add: run_key_def)
    from real_run_recorded [OF run'(1), of seq w now] obtain q where
      q: "real_run db' ref n = Some q" "r_exec_update_seq q = seq" "r_exec_owner_epoch q = epoch" "r_id q = r_id run"
      using 2(5) ids by auto
    have "t_nodes db' = t_nodes db"
      using nodes_of_ident [OF id] 2(5) by (simp add: record_update_seq_def upd_run_def)
    then have "apply_training_run_updates E n tok ref w epoch seq us2 now2 db' = Inr (r, db')"
      using auth got q authenticate_cong [of db' db] by (auto simp: apply_training_run_updates_def returning_def)
    with 2 q show ?thesis by blast
  qed
qed

lemma ex_update_ok:
  "is_ok (apply_training_run_updates ex_env ''node'' ''tok'' ''run_x'' ''w'' 1 8
     [[(''kind'', JStr ''heartbeat'')]] 30 ex_live)"
  by code_simp

theorem updates_applied_once_witness:
  "\<exists>r db' q. apply_training_run_updates ex_env ''node'' ''tok'' ''run_x'' ''w'' 1 8
     [[(''kind'', JStr ''heartbeat'')]] 30 ex_live = Inr (r, db') \<and>
     real_run db' ''run_x'' ''node'' = Some q \<and> r_exec_update_seq q = 8"
proof -
  let ?call = "apply_training_run_updates ex_env ''node'' ''tok'' ''run_x'' ''w'' 1 8
     [[(''kind'', JStr ''heartbeat'')]] 30 ex_live"
  from ex_update_ok obtain r db' where ret: "?call = Inr (r, db')" by (cases ?call) (auto simp: is_ok_def)
  from updates_applied_once [OF ret] ret show ?thesis by blast
qed

text \<open>
  Batches are applied in the order of their numbers: one with a number below the run's counter, or one
  that skips a number, is refused whatever it contains, and a Worker whose owner epoch is
  not the run's cannot apply anything.
\<close>

theorem updates_in_order:
  assumes "authenticate_worker E n tok (Some w) db = Inr node" and "real_run db ref n = Some run"
  shows "(r_exec_owner_epoch run \<noteq> epoch \<longrightarrow>
      apply_training_run_updates E n tok ref w epoch seq us now db = Inl (Conflict ''training_run_owner_epoch_conflict'')) \<and>
    (r_exec_owner_epoch run = epoch \<and> seq < r_exec_update_seq run \<longrightarrow>
      apply_training_run_updates E n tok ref w epoch seq us now db = Inl (Conflict ''training_run_update_out_of_order'')) \<and>
    (r_exec_owner_epoch run = epoch \<and> r_exec_update_seq run + 1 < seq \<longrightarrow>
      apply_training_run_updates E n tok ref w epoch seq us now db = Inl (Conflict ''training_run_update_gap''))"
  using assms by (auto simp: apply_training_run_updates_def)

theorem updates_in_order_witness:
  "apply_training_run_updates ex_env ''node'' ''tok'' ''run_x'' ''w'' 1 9 [] 30 ex_live
     = Inl (Conflict ''training_run_update_gap'')"
proof -
  have "authenticate_worker ex_env ''node'' ''tok'' (Some ''w'') ex_live = Inr ex_node"
    by (simp add: authenticate_worker_def node_by_ref_def token_digest_def ex_defs)
  moreover have "real_run ex_live ''run_x'' ''node'' = Some ex_run"
    by (simp add: real_run_def ex_defs)
  ultimately show ?thesis
    using updates_in_order [of ex_env "''node''" "''tok''" "''w''" ex_live ex_node "''run_x''" ex_run 1 9 "[]" 30]
    by (simp add: ex_run_def)
qed

section \<open>A stop request can be lost\<close>

text \<open>
  A run for which a stop was requested is set back to running by a reconciliation update that
  reports it running: the queued stop action is then not handed out by any poll, although
  nothing has been stopped.
\<close>

theorem reconciliation_drops_stop:
  assumes "r_status run = StopRequested" and "run \<in> set (t_runs db)" and "dict_get u ''status'' = JStr ''running''"
  shows "\<exists>db'. apply_reconciliation E run stage u now db = Inr db' \<and>
    (\<forall>q \<in> set (t_runs db'). r_id q = r_id run \<longrightarrow> r_status q = Running) \<and> t_actions db' = t_actions db \<and>
    (\<forall>(a, q) \<in> set (claim_candidates n limit (requeue_expired n later db')).
       a_run_id a = r_id run \<longrightarrow> a_kind a \<noteq> StopRun)"
proof -
  let ?d = "case stage of None \<Rightarrow> db
    | Some s \<Rightarrow> upd_stages (\<lambda>x. s_id x = s_id s) (\<lambda>x. x\<lparr>s_status := SRunning, s_updated_at := now\<rparr>) db"
  let ?f = "\<lambda>r. r\<lparr>r_status := Running, r_control_status := Some Connected, r_updated_at := now\<rparr>"
  let ?db' = "upd_run (r_id run) (\<lambda>_. True) ?f ?d"
  have ret: "apply_reconciliation E run stage u now db = Inr ?db'"
    using assms(3) by (simp add: apply_reconciliation_def py_or_def)
  have runs: "t_runs ?db' = sql_update (\<lambda>r. r_id r = r_id run) ?f (t_runs db)" and acts: "t_actions ?db' = t_actions db"
    by (cases stage; simp add: upd_run_def upd_stages_def)+
  have running: "r_status q = Running" if "q \<in> set (t_runs ?db')" "r_id q = r_id run" for q
  proof -
    from that(1) obtain p where "q = (if r_id p = r_id run then ?f p else p)"
      unfolding runs sql_update_mem by blast
    with that(2) show ?thesis by (simp split: if_splits)
  qed
  have "a_kind a \<noteq> StopRun" if "(a, q) \<in> set (claim_candidates n limit (requeue_expired n later ?db'))" "a_run_id a = r_id run" for a q
  proof -
    from that(1) have "q \<in> set (t_runs (requeue_expired n later ?db'))" "claimable a q"
      unfolding claim_candidates_def by (auto dest!: in_set_takeD)
    then have "q \<in> set (t_runs ?db')" "claimable a q"
      by (simp_all add: requeue_expired_def upd_actions_def)
    with running [of q] that(2) show ?thesis by (simp add: claimable_def)
  qed
  with ret running acts show ?thesis by blast
qed

theorem reconciliation_drops_stop_witness:
  "\<exists>db'. apply_reconciliation ex_env (ex_run\<lparr>r_status := StopRequested\<rparr>) (Some ex_stage)
      [(''status'', JStr ''running'')] 40
      (ex_live\<lparr>t_runs := [ex_run\<lparr>r_status := StopRequested\<rparr>], t_actions := [ex_stop_action]\<rparr>) = Inr db' \<and>
    t_actions db' = [ex_stop_action] \<and> (\<forall>(a, q) \<in> set (claim_candidates ''node'' 5 (requeue_expired ''node'' 50 db')).
       a_run_id a = r_id ex_run \<longrightarrow> a_kind a \<noteq> StopRun)"
  using reconciliation_drops_stop [of "ex_run\<lparr>r_status := StopRequested\<rparr>"
      "ex_live\<lparr>t_runs := [ex_run\<lparr>r_status := StopRequested\<rparr>], t_actions := [ex_stop_action]\<rparr>"
      "[(''status'', JStr ''running'')]" ex_env "Some ex_stage" 40 "''node''" 5 50]
  by (simp add: dict_get_def) blast

section \<open>Polling\<close>

definition handed_out :: "env \<Rightarrow> string \<Rightarrow> int \<Rightarrow> tdb \<Rightarrow> claimed_action \<Rightarrow> bool" where
  "handed_out E w now db c \<longleftrightarrow> (\<exists>x \<in> set (t_actions db). a_action_ref x = ca_action_ref c \<and> a_kind x = ca_kind c \<and>
     a_status x = ARunning \<and> a_worker x = Some w \<and> a_claim_sha256 x = Some (token_digest E (ca_claim_token c)) \<and>
     a_lease_expires_at x = Some (now + 45000))"

definition action_key :: "action_row \<Rightarrow> nat \<times> string \<times> action_kind" where
  "action_key a = (a_id a, a_action_ref a, a_kind a)"

lemma claim_one_effect:
  fixes E w now and acc :: "claimed_action list" and db
  assumes "claim_one E w now (a, r) (acc, db) = (acc', db')"
  shows "acc' = acc \<and> t_actions db' = t_actions db \<or>
    (\<exists>c token. acc' = acc @ [c] \<and> ca_kind c = a_kind a \<and> ca_action_ref c = a_action_ref a \<and> ca_claim_token c = token \<and>
      (\<exists>x \<in> set (t_actions db). a_id x = a_id a \<and> a_status x = AQueued) \<and>
      t_actions db' = sql_update (\<lambda>x. a_id x = a_id a \<and> a_status x = AQueued)
        (\<lambda>x. x\<lparr>a_status := ARunning, a_worker := Some w, a_claim_sha256 := Some (token_digest E token),
               a_lease_expires_at := Some (now + 45000),
               a_started_at := coalesce (a_started_at x) (Some now), a_updated_at := now\<rparr>) (t_actions db))"
proof -
  let ?P = "\<lambda>x. a_id x = a_id a \<and> a_status x = AQueued"
  obtain token d where tok: "new_token E ''claim_'' db = (token, d)" by force
  then have d: "t_actions d = t_actions db" by (auto simp: new_token_def)
  show ?thesis
  proof (cases "rowcount ?P (t_actions d) \<noteq> 1")
    case True
    with assms tok d show ?thesis by (auto simp: claim_one_def Let_def)
  next
    case False
    then have "filter ?P (t_actions db) \<noteq> []" using d by (auto simp: rowcount_def)
    then have "\<exists>x \<in> set (t_actions db). ?P x" by (simp add: filter_empty_conv)
    moreover have "ca_kind (last acc') = a_kind a \<and> ca_action_ref (last acc') = a_action_ref a \<and>
        ca_claim_token (last acc') = token \<and> acc' = acc @ [last acc']"
      using assms tok False by (auto simp: claim_one_def Let_def)
    moreover have "t_actions db' = sql_update ?P
        (\<lambda>x. x\<lparr>a_status := ARunning, a_worker := Some w, a_claim_sha256 := Some (token_digest E token),
               a_lease_expires_at := Some (now + 45000),
               a_started_at := coalesce (a_started_at x) (Some now), a_updated_at := now\<rparr>) (t_actions db)"
      using assms tok False d
      by (cases "a_stage_id a") (auto simp: claim_one_def Let_def upd_actions_def upd_run_def upd_stages_def split: if_splits)
    ultimately show ?thesis by blast
  qed
qed

lemma claim_one_keys:
  "claim_one E w now ar (acc, db) = (acc', db') \<Longrightarrow> map action_key (t_actions db') = map action_key (t_actions db)"
proof -
  assume call: "claim_one E w now ar (acc, db) = (acc', db')"
  obtain a r where "ar = (a, r)" by force
  have keep: "map action_key (sql_update P (\<lambda>x. x\<lparr>a_status := ARunning, a_worker := Some w,
      a_claim_sha256 := Some (token_digest E token), a_lease_expires_at := Some (now + 45000),
      a_started_at := coalesce (a_started_at x) (Some now), a_updated_at := now\<rparr>) t) = map action_key t" for P token t
    by (rule map_sql_update) (simp add: action_key_def)
  from claim_one_effect [OF call [unfolded \<open>ar = (a, r)\<close>]] show ?thesis
    by (elim disjE exE conjE) (simp_all add: keep)
qed

lemma handed_out_later:
  assumes "claim_one E w now ar (acc, db) = (acc', db')" and "handed_out E w now db c"
  shows "handed_out E w now db' c"
proof -
  obtain a r where "ar = (a, r)" by force
  with assms(1) have "t_actions db' = t_actions db \<or>
      (\<exists>f. t_actions db' = sql_update (\<lambda>x. a_id x = a_id a \<and> a_status x = AQueued) f (t_actions db))"
    using claim_one_effect [of E w now a r acc db acc' db'] by blast
  moreover from assms(2) obtain x where x: "x \<in> set (t_actions db)" "a_action_ref x = ca_action_ref c"
    "a_kind x = ca_kind c" "a_status x = ARunning" "a_worker x = Some w"
    "a_claim_sha256 x = Some (token_digest E (ca_claim_token c))" "a_lease_expires_at x = Some (now + 45000)"
    unfolding handed_out_def by blast
  have "x \<in> set (sql_update (\<lambda>x. a_id x = a_id a \<and> a_status x = AQueued) f (t_actions db))" for f
    unfolding sql_update_mem using x(1,4) by (intro bexI [of _ x]) simp_all
  ultimately have "x \<in> set (t_actions db')" using x(1) by auto
  with x show ?thesis unfolding handed_out_def by blast
qed

lemma handed_out_now:
  assumes call: "claim_one E w now (a, r) (acc, db) = (acc', db')"
    and keys: "distinct (map a_id (t_actions db))" "action_key a \<in> action_key ` set (t_actions db)"
    and new: "c \<in> set acc'" "c \<notin> set acc"
  shows "handed_out E w now db' c"
proof -
  let ?P = "\<lambda>x. a_id x = a_id a \<and> a_status x = AQueued"
  let ?f = "\<lambda>token x. x\<lparr>a_status := ARunning, a_worker := Some w, a_claim_sha256 := Some (token_digest E token),
      a_lease_expires_at := Some (now + 45000), a_started_at := coalesce (a_started_at x) (Some now), a_updated_at := now\<rparr>"
  have "c \<in> set acc' - set acc" using new by simp
  with claim_one_effect [OF call] obtain token x where
    c: "ca_kind c = a_kind a" "ca_action_ref c = a_action_ref a" "ca_claim_token c = token" and
    x: "x \<in> set (t_actions db)" "?P x" and upd: "t_actions db' = sql_update ?P (?f token) (t_actions db)"
    by (elim disjE exE conjE bexE) auto
  from keys(2) obtain y where y: "y \<in> set (t_actions db)" "action_key a = action_key y" by blast
  have "y = x"
    using keys(1) x y by (simp add: action_key_def distinct_map inj_on_def)
  then have "a_action_ref x = a_action_ref a" "a_kind x = a_kind a" using y(2) by (simp_all add: action_key_def)
  moreover have "?f token x \<in> set (t_actions db')"
    unfolding upd by (rule sql_update_hit [where P = ?P and f = "?f token", OF x])
  ultimately show ?thesis
    unfolding handed_out_def using c by (intro bexI [of _ "?f token x"]) simp_all
qed

lemma claim_fold:
  assumes "fold (claim_one E w now) xs (acc, db) = (acc', db')"
    and "distinct (map a_id (t_actions db))" and "\<And>a r. (a, r) \<in> set xs \<Longrightarrow> action_key a \<in> action_key ` set (t_actions db)"
    and "\<And>c. c \<in> set acc \<Longrightarrow> handed_out E w now db c"
    and "sorted (map (kind_rank \<circ> ca_kind) acc @ map (\<lambda>(a, r). kind_rank (a_kind a)) xs)"
  shows "length acc' \<le> length acc + length xs \<and> sorted (map (kind_rank \<circ> ca_kind) acc') \<and>
    (\<forall>c \<in> set acc'. handed_out E w now db' c)"
  using assms
proof (induction xs arbitrary: acc db)
  case Nil
  then show ?case by auto
next
  case (Cons ar xs)
  obtain a r where ar: "ar = (a, r)" by force
  obtain acc1 db1 where one: "claim_one E w now (a, r) (acc, db) = (acc1, db1)" by force
  have keys: "map action_key (t_actions db1) = map action_key (t_actions db)" by (rule claim_one_keys [OF one])
  have ids: "map a_id (t_actions db1) = map a_id (t_actions db)"
    using arg_cong [OF keys, of "map fst"] by (simp add: action_key_def comp_def)
  have img: "action_key ` set (t_actions db1) = action_key ` set (t_actions db)"
    using arg_cong [OF keys, of set] by simp
  have acc1: "acc1 = acc \<or> (\<exists>c. acc1 = acc @ [c] \<and> ca_kind c = a_kind a)"
    using claim_one_effect [OF one] by blast
  have "length acc' \<le> length acc1 + length xs \<and> sorted (map (kind_rank \<circ> ca_kind) acc') \<and>
    (\<forall>c \<in> set acc'. handed_out E w now db' c)"
  proof (rule Cons.IH)
    show "fold (claim_one E w now) xs (acc1, db1) = (acc', db')" using Cons.prems(1) by (simp add: ar one)
    show "distinct (map a_id (t_actions db1))" using Cons.prems(2) by (simp add: ids)
    show "action_key b \<in> action_key ` set (t_actions db1)" if "(b, q) \<in> set xs" for b q
      using that Cons.prems(3) [of b q] by (simp add: img)
    show "handed_out E w now db1 c" if "c \<in> set acc1" for c
    proof (cases "c \<in> set acc")
      case True
      then show ?thesis using handed_out_later [OF one Cons.prems(4)] by simp
    next
      case False
      have "action_key a \<in> action_key ` set (t_actions db)" using Cons.prems(3) [of a r] ar by simp
      then show ?thesis by (rule handed_out_now [OF one Cons.prems(2) _ that False])
    qed
    show "sorted (map (kind_rank \<circ> ca_kind) acc1 @ map (\<lambda>(a, r). kind_rank (a_kind a)) xs)"
      using acc1 Cons.prems(5) by (elim disjE exE conjE) (simp_all add: ar sorted_append comp_def)
  qed
  with acc1 show ?case by (auto simp: comp_def)
qed


definition ex_stop_db :: tdb where
  "ex_stop_db = ex_live\<lparr>t_runs := [ex_run\<lparr>r_status := StopRequested\<rparr>], t_actions := [ex_stop_action]\<rparr>"

lemma ex_poll_ok:
  "(case poll_training_actions ex_env ''node'' ''tok'' ''w'' 5 30 ex_stop_db of
      Inl _ \<Rightarrow> False | Inr (acts, _) \<Rightarrow> map ca_action_ref acts = [''training_action_x''])"
  by code_simp


section \<open>Stopping a run\<close>

definition joins :: "tdb \<Rightarrow> model_row list \<times> family_row list \<times> version_row list" where
  "joins db = (t_models db, t_families db, t_versions db)"

lemma joins_frame [simp]:
  "joins (add_event ty ref p now db) = joins db"
  "joins (upd_stages P g db) = joins db"
  "joins (upd_actions Q h db) = joins db"
  "joins (upd_run i R k db) = joins db"
  "joins (snd (add_log rid level msg now stage db)) = joins db"
  "joins (add_audit a b c p now db) = joins db"
  "joins (add_idempotency sc key dg rs now db) = joins db"
  "joins (snd (queue_training_action_in E rid' sid n ak pl now db)) = joins db"
proof -
  have "joins (snd (store_log_line rid l m t now stage d)) = joins d" for l m t d
    by (simp add: store_log_line_def Let_def joins_def)
  moreover have "joins (ensure_log_storage rid now db) = joins db"
    by (simp add: ensure_log_storage_def Let_def joins_def)
  ultimately show "joins (snd (add_log rid level msg now stage db)) = joins db"
    by (simp add: add_log_def Let_def split: option.splits)
qed (simp_all add: joins_def add_event_def add_audit_def add_idempotency_def upd_stages_def upd_actions_def
      upd_run_def queue_training_action_in_def new_ref_def)

lemma joins_log_event [simp]: "joins (log_and_event rid ref level msg p stage now db) = joins db"
proof -
  obtain seq d where "add_log rid level msg now stage db = (seq, d)" by force
  then show ?thesis
    using joins_frame(5) [of rid level msg now stage db] by (cases seq) (simp_all add: log_and_event_def)
qed

lemma joins_finish_db [simp]: "joins (finish_db row st now code msg db) = joins db"
proof -
  have "joins (close_stages rid st now code msg d) = joins d" for rid d by (simp add: close_stages_def)
  moreover have "joins (close_run rid st now code msg d) = joins d" for rid d
    by (simp add: close_run_def joins_def upd_actions_def upd_run_def)
  ultimately show ?thesis by (simp add: finish_db_def closing_log_def Let_def)
qed

text \<open>Reading a run after its table was updated in place.\<close>

lemma get_run_in_update:
  assumes "joins db' = joins db" and "t_runs db' = sql_update P f (t_runs db)"
    and "\<And>r. r_run_ref (f r) = r_run_ref r \<and> r_id (f r) = r_id r \<and> r_model_id (f r) = r_model_id r"
    and "get_run_in db ref = Inr row" and "get_run_in db' ref = Inr r"
  shows "r = (if P row then f row else row)"
proof -
  have joined: "run_joined db' q = run_joined db q" "run_joined db (f q) = run_joined db q" for q
    using assms(1,3) by (simp_all add: run_joined_def joins_def)
  have "fetchone (filter Q (sql_update P f t)) = map_option (\<lambda>r. if P r then f r else r) (fetchone (filter Q t))"
    if "\<And>r. Q (f r) = Q r" for Q t
    using that by (induction t) simp_all
  from this [of "\<lambda>r. r_run_ref r = ref \<and> run_joined db r" "t_runs db"] show ?thesis
    using assms(2-5) joined by (auto simp: get_run_in_def split: option.splits)
qed

lemma finish_in_row:
  assumes "get_run_in db ref = Inr row" and "finish_in row st now code msg db = Inr (r, db')"
    and "st \<in> {Failed, Cancelled, Lost}"
  shows "r_id r = r_id row \<and> r_status r = st \<and> r_state_revision r = Suc (r_state_revision row)"
proof -
  let ?f = "\<lambda>r. r\<lparr>r_status := st,
      r_current_step := (if st = Succeeded then r_total_steps r else r_current_step r),
      r_state_revision := r_state_revision r + 1, r_owner_id := None, r_lease_expires_at := None,
      r_control_status := (if r_execution_mode r = Real then Some Connected else r_control_status r),
      r_finished_at := Some now, r_updated_at := now, r_failure_code := code, r_failure_message := msg\<rparr>"
  have ref: "r_run_ref row = ref" using get_run_in_row [OF assms(1)] by simp
  have db': "db' = finish_db row st now code msg db" and got: "get_run_in db' ref = Inr r"
    using assms(2) ref by (auto simp: finish_in_def returning_eq_Inr)
  have "core (finish_db row st now code msg db) =
      core (close_run (r_id row) st now code msg (close_stages (r_id row) st now code msg db))"
    by (simp add: finish_db_def)
  then have runs: "t_runs db' = sql_update (\<lambda>r. r_id r = r_id row) ?f (t_runs db)"
    by (simp add: db' core_def close_run_def upd_actions_def upd_run_def)
  have "r = (if r_id row = r_id row then ?f row else row)"
    by (rule get_run_in_update [OF _ runs _ assms(1) got]) (simp_all add: db')
  then show ?thesis by simp
qed


lemma ex_stop_ok: "is_ok (stop_run ex_env ''run_x'' 4 ''stop'' ''admin'' 30 ex_live)"
  by code_simp


section \<open>The central log is bounded\<close>

definition run_log :: "nat \<Rightarrow> tdb \<Rightarrow> log_row list" where
  "run_log rid db = filter (\<lambda>l. l_run_id l = rid) (t_logs db)"

definition log_bytes :: "log_row list \<Rightarrow> nat" where
  "log_bytes ls = sum_list (map (\<lambda>l. length (l_message l)) ls)"

definition log_inv :: "nat \<Rightarrow> tdb \<Rightarrow> bool" where
  "log_inv rid db \<longleftrightarrow> map l_seq (run_log rid db) = [1..<Suc (length (run_log rid db))] \<and>
     (case log_storage rid db of
        None \<Rightarrow> run_log rid db = []
      | Some s \<Rightarrow> ls_lines s = length (run_log rid db) \<and> ls_bytes s = log_bytes (run_log rid db) \<and>
          ls_lines s \<le> RUN_LOG_MAX_LINES + (if ls_truncated s then 1 else 0) \<and>
          ls_bytes s \<le> RUN_LOG_MAX_BYTES + (if ls_truncated s then length RUN_LOG_TRUNCATED_MESSAGE else 0))"

definition add_logs :: "(nat \<times> string \<times> string \<times> int \<times> nat option) list \<Rightarrow> tdb \<Rightarrow> tdb" where
  "add_logs cs db = fold (\<lambda>(rid, level, msg, now, stage) d. snd (add_log rid level msg now stage d)) cs db"

lemma max0_upt [simp]: "max0 [Suc 0..<Suc n] = n"
  by (induction n) simp_all

lemma log_storage_update:
  "log_storage rid (db\<lparr>t_log_storage := sql_update (\<lambda>s. ls_run_id s = i) f (t_log_storage db), t_logs := ls\<rparr>) =
     (if i = rid then map_option f (log_storage rid db) else log_storage rid db)"
  if "\<And>s. ls_run_id (f s) = ls_run_id s"
proof -
  have "fetchone (filter (\<lambda>s. ls_run_id s = rid) (sql_update (\<lambda>s. ls_run_id s = i) f t)) =
      (if i = rid then map_option f (fetchone (filter (\<lambda>s. ls_run_id s = rid) t))
       else fetchone (filter (\<lambda>s. ls_run_id s = rid) t))" for t
    using that by (induction t) auto
  then show ?thesis by (simp add: log_storage_def)
qed

lemma log_inv_ensure: "log_inv i db \<Longrightarrow> log_inv i (ensure_log_storage rid now db)"
proof (cases "\<exists>s \<in> set (t_log_storage db). ls_run_id s = rid")
  case False
  assume inv: "log_inv i db"
  let ?new = "\<lparr>ls_run_id = rid, ls_lines = length (run_log rid db), ls_bytes = log_bytes (run_log rid db),
      ls_truncated = False, ls_updated_at = now\<rparr>"
  have e: "ensure_log_storage rid now db = db\<lparr>t_log_storage := t_log_storage db @ [?new]\<rparr>"
    using False by (simp add: ensure_log_storage_def Let_def run_log_def log_bytes_def)
  have sto: "log_storage i (ensure_log_storage rid now db) = (if i = rid then Some ?new else log_storage i db)"
    using False by (auto simp: e log_storage_def filter_empty_conv)
  have log: "run_log i (ensure_log_storage rid now db) = run_log i db" by (simp add: e run_log_def)
  have none: "log_storage rid db = None" using False by (simp add: log_storage_def filter_empty_conv)
  show ?thesis
  proof (cases "i = rid")
    case True
    with inv sto log none show ?thesis by (simp add: log_inv_def log_bytes_def)
  next
    case False
    with inv sto log show ?thesis by (simp only: log_inv_def if_False)
  qed
qed (simp add: ensure_log_storage_def)

lemma log_storage_ensured: "log_storage rid (ensure_log_storage rid now db) \<noteq> None"
proof (cases "\<exists>s \<in> set (t_log_storage db). ls_run_id s = rid")
  case True
  then show ?thesis by (auto simp: ensure_log_storage_def log_storage_def filter_empty_conv)
next
  case False
  then show ?thesis by (simp add: ensure_log_storage_def log_storage_def Let_def)
qed

lemma log_inv_store:
  assumes inv: "log_inv i db" and st: "log_storage rid db = Some s"
    and room: "\<not> trunc \<Longrightarrow> \<not> log_over_limit s msg" and fresh: "trunc \<Longrightarrow> \<not> ls_truncated s \<and> msg = RUN_LOG_TRUNCATED_MESSAGE"
  shows "log_inv i (snd (store_log_line rid level msg trunc now stage db))"
proof -
  let ?line = "\<lparr>l_run_id = rid, l_seq = next_log_seq rid db, l_level = level, l_message = msg, l_created_at = now, l_stage_id = stage\<rparr>"
  let ?f = "\<lambda>s. s\<lparr>ls_truncated := ls_truncated s \<or> trunc, ls_lines := ls_lines s + 1,
      ls_bytes := ls_bytes s + length msg, ls_updated_at := now\<rparr>"
  let ?d = "snd (store_log_line rid level msg trunc now stage db)"
  have log: "run_log i ?d = (if i = rid then run_log i db @ [?line] else run_log i db)"
    by (simp add: store_log_line_def Let_def run_log_def)
  have sto: "log_storage i ?d = (if i = rid then Some (?f s) else log_storage i db)"
    using log_storage_update [where f = ?f and rid = i and db = db and i = rid] st by (simp add: store_log_line_def Let_def)
  show ?thesis
  proof (cases "i = rid")
    case True
    have seqs: "map l_seq (run_log rid db) = [1..<Suc (length (run_log rid db))]" using inv True by (simp add: log_inv_def)
    have "next_log_seq rid db = Suc (length (run_log rid db))"
      using seqs by (simp add: next_log_seq_def next_id_def run_log_def [symmetric] del: upt_Suc)
    with seqs inv st log sto True room fresh show ?thesis
      by (cases trunc; cases "ls_truncated s") (auto simp: log_inv_def log_bytes_def log_over_limit_def)
  next
    case False
    with inv log sto show ?thesis by (simp only: log_inv_def if_False)
  qed
qed

lemma log_inv_add_log: "log_inv i db \<Longrightarrow> log_inv i (snd (add_log rid level msg now stage db))"
proof -
  assume inv: "log_inv i db"
  let ?d = "ensure_log_storage rid now db"
  obtain s where s: "log_storage rid ?d = Some s" using log_storage_ensured by blast
  have d: "log_inv i ?d" by (rule log_inv_ensure [OF inv])
  have "log_inv i (snd (store_log_line rid level msg False now stage ?d))" if "\<not> log_over_limit s msg"
    by (rule log_inv_store [OF d s]) (simp_all add: that)
  moreover have "log_inv i (snd (store_log_line rid ''warning'' RUN_LOG_TRUNCATED_MESSAGE True now stage ?d))"
    if "\<not> ls_truncated s"
    by (rule log_inv_store [OF d s]) (simp_all add: that)
  ultimately show ?thesis using s d by (simp add: add_log_def Let_def)
qed

text \<open>
  C39: Whatever is logged for whichever runs, the centre never stores more than the line limit plus one warning
  line, nor more bytes than the byte limit plus the warning, for any run, and the stored lines of
  a run are numbered from one without gaps.
\<close>

theorem run_log_bounded:
  assumes "t_logs db = []" and "t_log_storage db = []"
  shows "length (run_log rid (add_logs cs db)) \<le> RUN_LOG_MAX_LINES + 1 \<and>
    log_bytes (run_log rid (add_logs cs db)) \<le> RUN_LOG_MAX_BYTES + length RUN_LOG_TRUNCATED_MESSAGE \<and>
    map l_seq (run_log rid (add_logs cs db)) = [1..<Suc (length (run_log rid (add_logs cs db)))]"
proof -
  have "log_inv rid d \<Longrightarrow> log_inv rid (add_logs cs d)" for d
    unfolding add_logs_def by (induction cs arbitrary: d) (auto simp: log_inv_add_log)
  moreover have "log_inv rid db" using assms by (simp add: log_inv_def run_log_def log_storage_def)
  ultimately have "log_inv rid (add_logs cs db)" by simp
  then show ?thesis
    by (auto simp: log_inv_def log_bytes_def split: option.splits if_splits)
qed

theorem run_log_bounded_witness:
  "length (run_log 1 (add_logs [(1, ''info'', ''hello'', 5, None)] ex_live)) \<le> 100001"
  using run_log_bounded [of ex_live 1 "[(1, ''info'', ''hello'', 5, None)]"]
  by (simp add: ex_defs RUN_LOG_MAX_LINES_def)

end
