(* ===== verification/Dataset_Transfer.thy ===== *)
theory Dataset_Transfer
  imports Run_Creation
begin

text \<open>
  Released datasets on training nodes, as the centre drives them (\<open>training/store.py\<close>): the
  source manifests and their preparation, the transfers a user requests, pauses, cancels and
  continues, the commands a Worker claims under a lease and reports on, the replicas a
  finished transfer registers, and the check of a trained artifact.
\<close>

section \<open>Tables\<close>

definition upd_nodes :: "(node_row \<Rightarrow> bool) \<Rightarrow> (node_row \<Rightarrow> node_row) \<Rightarrow> tdb \<Rightarrow> tdb" where
  "upd_nodes P f db = db\<lparr>t_nodes := sql_update P f (t_nodes db)\<rparr>"

definition upd_manifests :: "(manifest_row \<Rightarrow> bool) \<Rightarrow> (manifest_row \<Rightarrow> manifest_row) \<Rightarrow> tdb \<Rightarrow> tdb" where
  "upd_manifests P f db = db\<lparr>t_manifests := sql_update P f (t_manifests db)\<rparr>"

definition upd_transfers :: "(transfer_row \<Rightarrow> bool) \<Rightarrow> (transfer_row \<Rightarrow> transfer_row) \<Rightarrow> tdb \<Rightarrow> tdb" where
  "upd_transfers P f db = db\<lparr>t_transfers := sql_update P f (t_transfers db)\<rparr>"

definition upd_replicas :: "(replica_row \<Rightarrow> bool) \<Rightarrow> (replica_row \<Rightarrow> replica_row) \<Rightarrow> tdb \<Rightarrow> tdb" where
  "upd_replicas P f db = db\<lparr>t_replicas := sql_update P f (t_replicas db)\<rparr>"

definition upd_commands :: "(command_row \<Rightarrow> bool) \<Rightarrow> (command_row \<Rightarrow> command_row) \<Rightarrow> tdb \<Rightarrow> tdb" where
  "upd_commands P f db = db\<lparr>t_commands := sql_update P f (t_commands db)\<rparr>"

definition upd_inspections :: "(inspection_row \<Rightarrow> bool) \<Rightarrow> (inspection_row \<Rightarrow> inspection_row) \<Rightarrow> tdb \<Rightarrow> tdb" where
  "upd_inspections P f db = db\<lparr>t_inspections := sql_update P f (t_inspections db)\<rparr>"

definition node_by_id :: "tdb \<Rightarrow> nat option \<Rightarrow> node_row option" where
  "node_by_id db i = fetchone (filter (\<lambda>n. Some (n_id n) = i) (t_nodes db))"

definition manifest_by_id :: "tdb \<Rightarrow> nat \<Rightarrow> manifest_row option" where
  "manifest_by_id db i = fetchone (filter (\<lambda>m. mf_id m = i) (t_manifests db))"

definition manifest_by_release :: "tdb \<Rightarrow> string \<Rightarrow> manifest_row option" where
  "manifest_by_release db r = fetchone (filter (\<lambda>m. mf_release_ref m = r) (t_manifests db))"

text \<open>\<open>_TRANSFER_SELECT ... WHERE transfer.transfer_ref=?\<close>: joined with the source manifest.\<close>

definition transfer_by_ref :: "tdb \<Rightarrow> string \<Rightarrow> (transfer_row \<times> manifest_row) option" where
  "transfer_by_ref db ref =
     fetchone (concat (map (\<lambda>t. map (Pair t) (filter (\<lambda>m. mf_id m = tr_manifest_id t) (t_manifests db)))
       (filter (\<lambda>t. tr_ref t = ref) (t_transfers db))))"

definition get_dataset_transfer_in :: "tdb \<Rightarrow> string \<Rightarrow> (transfer_row \<times> manifest_row) res" where
  "get_dataset_transfer_in db ref =
     (case transfer_by_ref db ref of
        None \<Rightarrow> Inl (NotFound ''dataset_transfer_not_found'')
      | Some t \<Rightarrow> Inr t)"

text \<open>\<open>SELECT status FROM dataset_transfers WHERE transfer_ref=?\<close>.\<close>

definition transfer_status_of :: "tdb \<Rightarrow> json \<Rightarrow> transfer_status option" where
  "transfer_status_of db ref =
     map_option tr_status (fetchone (filter (\<lambda>t. JStr (tr_ref t) = ref) (t_transfers db)))"

fun transfer_status_name :: "transfer_status \<Rightarrow> string" where
  "transfer_status_name TPreparing = ''preparing''"
| "transfer_status_name TQueued = ''queued''"
| "transfer_status_name TRunning = ''running''"
| "transfer_status_name TPauseRequested = ''pause_requested''"
| "transfer_status_name TPaused = ''paused''"
| "transfer_status_name TCancelRequested = ''cancel_requested''"
| "transfer_status_name TSucceeded = ''succeeded''"
| "transfer_status_name TFailed = ''failed''"
| "transfer_status_name TCancelled = ''cancelled''"

text \<open>The statuses in which a transfer occupies its node.\<close>

definition occupying :: "transfer_status \<Rightarrow> bool" where
  "occupying s \<longleftrightarrow> s \<in> {TPreparing, TQueued, TRunning, TPauseRequested, TCancelRequested}"

definition transfer_event :: "json \<Rightarrow> transfer_status \<Rightarrow> int \<Rightarrow> tdb \<Rightarrow> tdb" where
  "transfer_event ref status now =
     add_other_event ''dataset.transfer.updated''
       [(''transfer_ref'', ref), (''status'', JStr (transfer_status_name status))] now"

section \<open>Commands for a node\<close>

definition require_online_node_in :: "tdb \<Rightarrow> string \<Rightarrow> node_row res" where
  "require_online_node_in db ref =
     (case node_by_ref db ref of
        None \<Rightarrow> Inl (NotFound ''training_node_not_found'')
      | Some n \<Rightarrow>
          (if n_status n \<notin> {Online, Degraded} then Inl (Conflict ''training_node_unavailable'') else Inr n))"

definition add_command :: "string \<Rightarrow> node_row \<Rightarrow> command_kind \<Rightarrow> dict \<Rightarrow> int \<Rightarrow> tdb \<Rightarrow> tdb" where
  "add_command ref n kind request now db =
     db\<lparr>t_commands := t_commands db @
        [\<lparr>nc_id = next_id (map nc_id (t_commands db)), nc_ref = ref, nc_node_id = Some (n_id n),
          nc_node_ref = n_node_ref n, nc_kind = kind, nc_status = AQueued, nc_request = request,
          nc_result = None, nc_worker = None, nc_lease_expires_at = None, nc_created_at = now,
          nc_started_at = None, nc_finished_at = None, nc_updated_at = now, nc_claim_sha256 = None\<rparr>]\<rparr>"

definition insert_node_command ::
  "env \<Rightarrow> node_row \<Rightarrow> command_kind \<Rightarrow> dict \<Rightarrow> int \<Rightarrow> tdb \<Rightarrow> string \<times> tdb" where
  "insert_node_command E n kind request now db0 =
     (let (ref, db) = new_ref E ''command'' db0 in (ref, add_command ref n kind request now db))"

text \<open>The request of a transfer command.\<close>

definition transfer_request :: "string \<Rightarrow> string \<Rightarrow> string \<Rightarrow> string \<Rightarrow> dict" where
  "transfer_request ref release date parent =
     [(''transfer_ref'', JStr ref), (''release_ref'', JStr release), (''dataset_date'', JStr date),
      (''destination_parent'', JStr parent)]"

definition dataset_stop_command_payload :: "transfer_row \<times> manifest_row \<Rightarrow> string \<Rightarrow> dict" where
  "dataset_stop_command_payload = (\<lambda>(t, m) action.
     transfer_request (tr_ref t) (mf_release_ref m) (mf_dataset_date m) (tr_target_parent t) @
     [(''action'', JStr action)])"

definition create_directory_listing ::
  "env \<Rightarrow> string \<Rightarrow> string \<Rightarrow> string \<Rightarrow> int \<Rightarrow> tdb \<Rightarrow> (string \<times> tdb) res" where
  "create_directory_listing E node_ref path actor now db0 =
     (let (ref, db) = new_ref E ''listing'' db0 in
      rbind (require_online_node_in db node_ref) (\<lambda>n.
        Inr (ref, add_audit actor ''dataset.directory_listing_requested'' ref [] now
          (add_command ref n ListDirectories [(''path'', JStr path)] now db))))"

section \<open>Source manifests\<close>

record inventory_file =
  if_relative_path :: string
  if_size_bytes :: int
  if_sha256 :: string

record inventory =
  iv_release_ref :: string
  iv_dataset_date :: string
  iv_source_root :: string
  iv_inventory_sha256 :: string
  iv_total_bytes :: int
  iv_files :: "inventory_file list"

definition ensure_source_manifest_placeholder ::
  "env \<Rightarrow> string \<Rightarrow> string \<Rightarrow> string \<Rightarrow> int \<Rightarrow> tdb \<Rightarrow> manifest_row \<times> tdb" where
  "ensure_source_manifest_placeholder E release domain date now db0 =
     (case manifest_by_release db0 release of
        Some m \<Rightarrow> (m, db0)
      | None \<Rightarrow>
          (let (ref, db) = new_ref E ''dataset_manifest'' db0;
               m = \<lparr>mf_id = next_id (map mf_id (t_manifests db)), mf_manifest_ref = ref,
                    mf_release_ref = release, mf_domain = domain, mf_dataset_date = date,
                    mf_status = MPreparing, mf_source_root = None, mf_inventory_sha256 = None,
                    mf_file_count = 0, mf_total_bytes = 0, mf_error_code = None,
                    mf_error_message = None, mf_lease_expires_at = None, mf_created_at = now,
                    mf_updated_at = now\<rparr> in
           (m, db\<lparr>t_manifests := t_manifests db @ [m]\<rparr>)))"

text \<open>The file rows of an inventory; \<open>index\<close> counts from 1 and \<open>ordinal\<close> from 0.\<close>

definition source_file :: "env \<Rightarrow> manifest_row \<Rightarrow> nat \<Rightarrow> inventory_file \<Rightarrow> source_file_row" where
  "source_file E m ordinal f =
     \<lparr>sf_manifest_id = mf_id m,
      sf_file_ref = ''dataset_file_'' @ sha256_hex E (mf_manifest_ref m @ [CHR 0x00] @
        nat_str (Suc ordinal) @ [CHR 0x00] @ if_relative_path f),
      sf_ordinal = ordinal, sf_relative_path = if_relative_path f,
      sf_size_bytes = if_size_bytes f, sf_sha256 = if_sha256 f\<rparr>"

definition source_files :: "env \<Rightarrow> manifest_row \<Rightarrow> inventory_file list \<Rightarrow> source_file_row list" where
  "source_files E m fs = map (\<lambda>(i, f). source_file E m i f) (zip [0..<length fs] fs)"

text \<open>The UNIQUE and CHECK constraints the inserted files and the manifest's totals meet.\<close>

definition inventory_insertable :: "source_file_row list \<Rightarrow> source_file_row list \<Rightarrow> int \<Rightarrow> bool" where
  "inventory_insertable others new bytes \<longleftrightarrow>
     distinct (map sf_file_ref (others @ new)) \<and> distinct (map sf_relative_path new) \<and>
     (\<forall>f \<in> set new. 0 \<le> sf_size_bytes f) \<and> 0 \<le> bytes"

text \<open>A transfer that waited for the manifest: queued, with its command when the node still exists.\<close>

definition release_waiting :: "env \<Rightarrow> inventory \<Rightarrow> int \<Rightarrow> transfer_row \<Rightarrow> tdb \<Rightarrow> tdb" where
  "release_waiting E ivt now t db0 =
     (let db = upd_transfers (\<lambda>x. tr_ref x = tr_ref t)
                 (\<lambda>x. x\<lparr>tr_status := TQueued, tr_updated_at := now\<rparr>) db0 in
      case node_by_id db (tr_node_id t) of
        None \<Rightarrow> db
      | Some n \<Rightarrow>
          snd (insert_node_command E n TransferDataset
            (transfer_request (tr_ref t) (iv_release_ref ivt) (iv_dataset_date ivt) (tr_target_parent t))
            now db))"

definition waiting_transfers :: "nat \<Rightarrow> tdb \<Rightarrow> transfer_row list" where
  "waiting_transfers mid db =
     order_by tr_id (filter (\<lambda>t. tr_manifest_id t = mid \<and> tr_status t = TPreparing) (t_transfers db))"

definition complete_source_manifest :: "env \<Rightarrow> inventory \<Rightarrow> int \<Rightarrow> tdb \<Rightarrow> (manifest_row \<times> tdb) res" where
  "complete_source_manifest E ivt now db =
     (case manifest_by_release db (iv_release_ref ivt) of
        None \<Rightarrow> Inl (NotFound ''dataset_source_manifest_not_found'')
      | Some m \<Rightarrow>
          (let files = source_files E m (iv_files ivt);
               others = sql_delete (\<lambda>f. sf_manifest_id f = mf_id m) (t_source_files db);
               ready = (\<lambda>x. x\<lparr>mf_status := MReady, mf_source_root := Some (iv_source_root ivt),
                 mf_inventory_sha256 := Some (iv_inventory_sha256 ivt),
                 mf_file_count := int (length files), mf_total_bytes := iv_total_bytes ivt,
                 mf_error_code := None, mf_error_message := None, mf_lease_expires_at := None,
                 mf_updated_at := now\<rparr>) in
           if \<not> inventory_insertable others files (iv_total_bytes ivt) then Inl IntegrityError
           else
             let db1 = upd_manifests (\<lambda>x. mf_id x = mf_id m) ready (db\<lparr>t_source_files := others @ files\<rparr>) in
             Inr (ready m, fold (release_waiting E ivt now) (waiting_transfers (mf_id m) db1) db1)))"

definition claim_source_manifest_preparation :: "int \<Rightarrow> tdb \<Rightarrow> manifest_row option \<times> tdb" where
  "claim_source_manifest_preparation now db =
     (case fetchone (order_by mf_id (filter (\<lambda>m. mf_status m = MPreparing \<or>
             mf_status m = MBuilding \<and> (case mf_lease_expires_at m of None \<Rightarrow> False | Some t \<Rightarrow> t < now)) (t_manifests db))) of
        None \<Rightarrow> (None, db)
      | Some m \<Rightarrow>
          (Some m, upd_manifests (\<lambda>x. mf_id x = mf_id m)
             (\<lambda>x. x\<lparr>mf_status := MBuilding, mf_error_code := None, mf_error_message := None,
                    mf_lease_expires_at := Some (now + 1800000), mf_updated_at := now\<rparr>) db))"

definition fail_source_manifest_preparation :: "string \<Rightarrow> string \<Rightarrow> string \<Rightarrow> int \<Rightarrow> tdb \<Rightarrow> tdb" where
  "fail_source_manifest_preparation ref code msg now db =
     (case fetchone (filter (\<lambda>m. mf_manifest_ref m = ref) (t_manifests db)) of
        None \<Rightarrow> db
      | Some m \<Rightarrow>
          upd_transfers (\<lambda>t. tr_manifest_id t = mf_id m \<and> tr_status t = TPreparing)
            (\<lambda>t. t\<lparr>tr_status := TFailed, tr_error_code := Some code, tr_error_message := Some msg,
                   tr_finished_at := Some now, tr_updated_at := now\<rparr>)
          (upd_manifests (\<lambda>x. mf_id x = mf_id m)
            (\<lambda>x. x\<lparr>mf_status := MFailed, mf_error_code := Some code, mf_error_message := Some msg,
                   mf_lease_expires_at := None, mf_updated_at := now\<rparr>) db))"

text \<open>One page of a ready manifest's files and the cursor of the next page.\<close>

definition source_manifest_page ::
  "string \<Rightarrow> nat \<Rightarrow> nat \<Rightarrow> tdb \<Rightarrow> (source_file_row list \<times> nat option) res" where
  "source_manifest_page release cursor limit db =
     (case manifest_by_release db release of
        None \<Rightarrow> Inl (NotFound ''dataset_source_manifest_not_found'')
      | Some m \<Rightarrow>
          (if mf_status m \<noteq> MReady then Inl (Conflict ''dataset_source_manifest_not_ready'')
           else
             let page = take limit (drop cursor
                   (order_by sf_ordinal (filter (\<lambda>f. sf_manifest_id f = mf_id m) (t_source_files db)))) in
             Inr (page, if int (cursor + length page) < mf_file_count m
                        then Some (cursor + length page) else None)))"

definition authorize_source_download :: "string \<Rightarrow> string \<Rightarrow> tdb \<Rightarrow> unit res" where
  "authorize_source_download node_ref release db =
     (if \<exists>t \<in> set (t_transfers db). tr_node_ref t = node_ref \<and> occupying (tr_status t) \<and>
           (\<exists>m \<in> set (t_manifests db). mf_id m = tr_manifest_id t \<and> mf_release_ref m = release)
      then Inr () else Inl (Forbidden ''dataset_source_not_assigned_to_node''))"

section \<open>Transfers a user asks for\<close>

definition add_transfer ::
  "string \<Rightarrow> node_row \<Rightarrow> nat \<Rightarrow> transfer_status \<Rightarrow> string \<Rightarrow> string \<Rightarrow> nat option \<Rightarrow> int \<Rightarrow> tdb \<Rightarrow> tdb" where
  "add_transfer ref n mid status parent final recovery now db =
     db\<lparr>t_transfers := t_transfers db @
        [\<lparr>tr_id = next_id (map tr_id (t_transfers db)), tr_ref = ref, tr_node_id = Some (n_id n),
          tr_node_ref = n_node_ref n, tr_manifest_id = mid, tr_status = status,
          tr_target_parent = parent, tr_final_directory = final, tr_bytes = 0, tr_files = 0,
          tr_error_code = None, tr_error_message = None, tr_created_at = now, tr_updated_at = now,
          tr_started_at = None, tr_finished_at = None, tr_recovery_replica = recovery\<rparr>]\<rparr>"

text \<open>A manifest back in line for preparation.\<close>

definition prepare_again :: "nat \<Rightarrow> int \<Rightarrow> tdb \<Rightarrow> tdb" where
  "prepare_again mid now =
     upd_manifests (\<lambda>x. mf_id x = mid)
       (\<lambda>x. x\<lparr>mf_status := MPreparing, mf_error_code := None, mf_error_message := None,
              mf_lease_expires_at := None, mf_updated_at := now\<rparr>)"

definition final_directory :: "string \<Rightarrow> manifest_row \<Rightarrow> string" where
  "final_directory parent m =
     rstrip_char CHR ''/'' parent @ ''/datapilot-managed/'' @ mf_dataset_date m @ ''-'' @
     py_take 8 (last (split_on CHR ''_'' (mf_release_ref m)))"

text \<open>One manifest of the request: its transfer, and its command when the files are ready.\<close>

definition add_requested_transfer ::
  "env \<Rightarrow> node_row \<Rightarrow> string \<Rightarrow> string \<Rightarrow> int \<Rightarrow> string \<Rightarrow> string list \<times> tdb \<Rightarrow> (string list \<times> tdb) res" where
  "add_requested_transfer E n parent actor now manifest_ref = (\<lambda>(refs, db0).
     case fetchone (filter (\<lambda>m. mf_manifest_ref m = manifest_ref) (t_manifests db0)) of
       None \<Rightarrow> Inl AssertionError
     | Some m \<Rightarrow>
         (let ready = mf_status m = MReady;
              db = (if mf_status m = MFailed then prepare_again (mf_id m) now db0 else db0) in
          if \<exists>r \<in> set (t_replicas db). rp_node_id r = Some (n_id n) \<and> rp_manifest_id r = mf_id m
          then Inl (Conflict ''dataset_replica_already_exists'')
          else if \<exists>t \<in> set (t_transfers db). tr_node_id t = Some (n_id n) \<and> tr_manifest_id t = mf_id m \<and>
                    tr_status t \<in> {TFailed, TPaused}
          then Inl (Conflict ''dataset_transfer_retry_required'')
          else
            let (ref, db1) = new_ref E ''transfer'' db;
                db2 = add_transfer ref n (mf_id m) (if ready then TQueued else TPreparing) parent
                        (final_directory parent m) None now db1;
                db3 = (if ready then snd (insert_node_command E n TransferDataset
                         (transfer_request ref (mf_release_ref m) (mf_dataset_date m) parent) now db2)
                       else db2) in
            Inr (refs @ [ref], add_audit actor ''dataset.transfer_requested'' ref [] now db3)))"

definition create_dataset_transfers ::
  "env \<Rightarrow> string \<Rightarrow> string list \<Rightarrow> string \<Rightarrow> string \<Rightarrow> json \<Rightarrow> string \<Rightarrow> int \<Rightarrow> tdb \<Rightarrow>
   ((transfer_row \<times> manifest_row) list \<times> tdb) res" where
  "create_dataset_transfers E node_ref manifest_refs parent key payload actor now db =
     (let digest = payload_hash E payload in
      case find_idempotency ''dataset_transfer_batch'' key db of
        Some idem \<Rightarrow>
          (if i_digest idem \<noteq> digest then Inl (Conflict ''idempotency_conflict'')
           else rbind (json_loads E (i_response idem)) (\<lambda>j. rbind (py_list j) (\<lambda>refs.
             rbind (rmap (\<lambda>r. get_dataset_transfer_in db (py_str E r)) refs) (\<lambda>ts. Inr (ts, db)))))
      | None \<Rightarrow>
          rbind (require_online_node_in db node_ref) (\<lambda>n.
            if \<exists>t \<in> set (t_transfers db). tr_node_id t = Some (n_id n) \<and> occupying (tr_status t)
            then Inl (Conflict ''dataset_transfer_node_busy'')
            else
              rbind (rfold (add_requested_transfer E n parent actor now) manifest_refs ([], db)) (\<lambda>(refs, db1).
                let db2 = add_idempotency ''dataset_transfer_batch'' key digest
                            (json_dumps E (JList (map JStr refs))) now db1 in
                rbind (rmap (get_dataset_transfer_in db2) refs) (\<lambda>ts. Inr (ts, db2)))))"

definition requests_transfer :: "string \<Rightarrow> command_row \<Rightarrow> bool" where
  "requests_transfer ref c \<longleftrightarrow> nc_kind c = TransferDataset \<and> dict_get (nc_request c) ''transfer_ref'' = JStr ref"

definition transfer_command_running :: "string \<Rightarrow> tdb \<Rightarrow> bool" where
  "transfer_command_running ref db \<longleftrightarrow>
     (\<exists>c \<in> set (t_commands db). nc_status c = ARunning \<and> requests_transfer ref c)"

definition cancel_queued_transfer_commands :: "string \<Rightarrow> int \<Rightarrow> tdb \<Rightarrow> tdb" where
  "cancel_queued_transfer_commands ref now =
     upd_commands (\<lambda>c. nc_status c = AQueued \<and> requests_transfer ref c)
       (\<lambda>c. c\<lparr>nc_status := ACancelled, nc_result := Some (JObj [(''status'', JStr ''cancelled''),
                (''transfer_ref'', JStr ref), (''reason'', JStr ''transfer_stopped_before_start'')]),
              nc_finished_at := Some now, nc_updated_at := now\<rparr>)"

text \<open>
  What pausing and cancelling share: the status the transfer moves to, the queued commands
  that are withdrawn, and the stop command that a requested stop needs an online node for.
\<close>

definition stop_transfer ::
  "env \<Rightarrow> transfer_row \<times> manifest_row \<Rightarrow> bool \<Rightarrow> string \<Rightarrow> transfer_status \<Rightarrow> bool \<Rightarrow> string \<Rightarrow> string \<Rightarrow> int \<Rightarrow> tdb \<Rightarrow>
   ((transfer_row \<times> manifest_row) \<times> tdb) res" where
  "stop_transfer E tm running action next requested audit actor now db =
     (let t = fst tm;
          db1 = upd_transfers (\<lambda>x. tr_id x = tr_id t)
            (\<lambda>x. x\<lparr>tr_status := next, tr_updated_at := now,
                   tr_finished_at := (if requested then tr_finished_at x else Some now)\<rparr>) db;
          db2 = (if tr_status t = TQueued \<and> \<not> running
                 then cancel_queued_transfer_commands (tr_ref t) now db1 else db1) in
      rbind (if requested
             then rbind (require_online_node_in db2 (tr_node_ref t)) (\<lambda>n.
               Inr (snd (insert_node_command E n CancelDatasetTransfer
                 (dataset_stop_command_payload tm action) now db2)))
             else Inr db2) (\<lambda>db3.
        let db4 = add_audit actor audit (tr_ref t) [] now (transfer_event (JStr (tr_ref t)) next now db3) in
        rbind (get_dataset_transfer_in db4 (tr_ref t)) (\<lambda>r. Inr (r, db4))))"

definition pause_dataset_transfer ::
  "env \<Rightarrow> string \<Rightarrow> string \<Rightarrow> int \<Rightarrow> tdb \<Rightarrow> ((transfer_row \<times> manifest_row) \<times> tdb) res" where
  "pause_dataset_transfer E ref actor now db =
     (case transfer_by_ref db ref of
        None \<Rightarrow> Inl (NotFound ''dataset_transfer_not_found'')
      | Some (t, m) \<Rightarrow>
          (if tr_status t \<notin> {TPreparing, TQueued, TRunning} then Inl (Conflict ''dataset_transfer_not_pausable'')
           else
             let running = transfer_command_running ref db;
                 requested = tr_status t = TRunning \<or> running in
             stop_transfer E (t, m) running ''pause'' (if requested then TPauseRequested else TPaused) requested
               ''dataset.transfer_pause_requested'' actor now db))"

definition cancel_dataset_transfer ::
  "env \<Rightarrow> string \<Rightarrow> string \<Rightarrow> int \<Rightarrow> tdb \<Rightarrow> ((transfer_row \<times> manifest_row) \<times> tdb) res" where
  "cancel_dataset_transfer E ref actor now db =
     (case transfer_by_ref db ref of
        None \<Rightarrow> Inl (NotFound ''dataset_transfer_not_found'')
      | Some (t, m) \<Rightarrow>
          (if tr_status t \<notin> {TPreparing, TQueued, TRunning, TPaused, TFailed}
           then Inl (Conflict ''dataset_transfer_not_cancellable'')
           else
             let running = transfer_command_running ref db;
                 requested = \<not> (tr_status t = TPreparing \<or> tr_status t = TQueued \<and> \<not> running) in
             stop_transfer E (t, m) running ''cancel'' (if requested then TCancelRequested else TCancelled) requested
               ''dataset.transfer_cancel_requested'' actor now db))"

definition retry_dataset_transfer ::
  "env \<Rightarrow> string \<Rightarrow> string \<Rightarrow> string \<Rightarrow> int \<Rightarrow> tdb \<Rightarrow> ((transfer_row \<times> manifest_row) \<times> tdb) res" where
  "retry_dataset_transfer E ref key actor now db =
     (let digest = payload_hash E (JObj [(''transfer_ref'', JStr ref)]) in
      case find_idempotency ''dataset_transfer_retry'' key db of
        Some idem \<Rightarrow>
          (if i_digest idem \<noteq> digest \<or> i_response idem \<noteq> ref then Inl (Conflict ''idempotency_conflict'')
           else rbind (get_dataset_transfer_in db ref) (\<lambda>r. Inr (r, db)))
      | None \<Rightarrow>
          (case transfer_by_ref db ref of
             None \<Rightarrow> Inl (NotFound ''dataset_transfer_not_found'')
           | Some (t, m) \<Rightarrow>
               (if tr_status t \<notin> {TFailed, TPaused} then Inl (Conflict ''dataset_transfer_not_retryable'')
                else
                  rbind (require_online_node_in db (tr_node_ref t)) (\<lambda>n.
                    let ready = mf_status m = MReady;
                        db1 = upd_transfers (\<lambda>x. tr_id x = tr_id t)
                          (\<lambda>x. x\<lparr>tr_status := (if ready then TQueued else TPreparing), tr_error_code := None,
                                 tr_error_message := None, tr_started_at := None, tr_finished_at := None,
                                 tr_updated_at := now\<rparr>) db;
                        db2 = (if ready
                               then snd (insert_node_command E n TransferDataset
                                 (transfer_request ref (mf_release_ref m) (mf_dataset_date m) (tr_target_parent t)) now db1)
                               else prepare_again (mf_id m) now db1);
                        db3 = add_audit actor ''dataset.transfer_retried'' ref [] now
                                (add_idempotency ''dataset_transfer_retry'' key digest ref now db2) in
                    rbind (get_dataset_transfer_in db3 ref) (\<lambda>r. Inr (r, db3))))))"

section \<open>Replicas\<close>

text \<open>A recovery for a replica whose node row is gone, on a node with the same confirmed host key.\<close>

definition recoverable :: "string \<Rightarrow> nat \<Rightarrow> tdb \<Rightarrow> replica_row \<times> manifest_row \<Rightarrow> bool" where
  "recoverable fingerprint nid db = (\<lambda>(r, m).
     rp_node_id r = None \<and> rp_status r = RReady \<and> rp_fingerprint r = Some fingerprint \<and>
     mf_status m = MReady \<and>
     \<not> (\<exists>c \<in> set (t_replicas db). rp_node_id c = Some nid \<and> rp_manifest_id c = rp_manifest_id r) \<and>
     \<not> (\<exists>t \<in> set (t_transfers db). tr_recovery_replica t = Some (rp_id r)))"

definition replicas_joined :: "tdb \<Rightarrow> (replica_row \<times> manifest_row) list" where
  "replicas_joined db =
     concat (map (\<lambda>r. map (Pair r) (filter (\<lambda>m. mf_id m = rp_manifest_id r) (t_manifests db))) (t_replicas db))"

definition queue_detached_dataset_replica_recovery ::
  "env \<Rightarrow> node_row \<Rightarrow> string \<Rightarrow> string \<Rightarrow> int \<Rightarrow> tdb \<Rightarrow> string option \<times> tdb" where
  "queue_detached_dataset_replica_recovery E n fingerprint actor now db =
     (if \<exists>t \<in> set (t_transfers db). tr_node_id t = Some (n_id n) \<and> occupying (tr_status t) then (None, db)
      else case fetchone (order_by (\<lambda>(r, m). rp_id r) (filter (recoverable fingerprint (n_id n) db) (replicas_joined db))) of
        None \<Rightarrow> (None, db)
      | Some (r, m) \<Rightarrow>
          (let root = parse_path (rp_local_root r); managed = path_parent root;
               parent = path_str (path_parent managed) in
           if \<not> path_is_absolute root \<or> path_name managed \<noteq> ''datapilot-managed'' \<or> path_parent managed = managed
           then (None, db)
           else
             let (ref, db1) = new_ref E ''transfer'' db;
                 db2 = add_transfer ref n (rp_manifest_id r) TQueued parent (path_str root) (Some (rp_id r)) now db1;
                 db3 = snd (insert_node_command E n TransferDataset
                   (transfer_request ref (mf_release_ref m) (mf_dataset_date m) parent @
                    [(''recovery_replica_ref'', JStr (rp_replica_ref r))]) now db2) in
             (Some ref, add_audit actor ''dataset.replica_recovery_requested'' (rp_replica_ref r)
               [(''node_ref'', JStr (n_node_ref n))] now db3)))"

definition entry_of :: "replica_row \<times> manifest_row \<Rightarrow> split_entry" where
  "entry_of = (\<lambda>(r, m). \<lparr>se_replica_ref = rp_replica_ref r, se_release_ref = mf_release_ref m,
     se_dataset_date = mf_dataset_date m, se_local_root = rp_local_root r,
     se_inventory_sha256 = rp_inventory_sha256 r\<rparr>)"

definition resolve_dataset_selection ::
  "string \<Rightarrow> string list \<Rightarrow> string list \<Rightarrow> tdb \<Rightarrow> (split_entry list \<times> split_entry list) res" where
  "resolve_dataset_selection node_ref train test db =
     (if set train \<inter> set test \<noteq> {} then Inl (Conflict ''dataset_split_overlap'')
      else if train @ test = [] then Inr ([], [])
      else if \<exists>ref \<in> set (train @ test). replica_by_ref db ref = None then Inl (NotFound ''dataset_replica_not_found'')
      else if \<exists>ref \<in> set (train @ test). rp_node_ref (fst (the (replica_by_ref db ref))) \<noteq> node_ref \<or>
                rp_status (fst (the (replica_by_ref db ref))) \<noteq> RReady
        then Inl (Conflict ''dataset_replica_unavailable'')
      else Inr (map (\<lambda>ref. entry_of (the (replica_by_ref db ref))) train,
                map (\<lambda>ref. entry_of (the (replica_by_ref db ref))) test))"

definition remove_dataset_replica ::
  "env \<Rightarrow> string \<Rightarrow> string \<Rightarrow> int \<Rightarrow> tdb \<Rightarrow> ((replica_row \<times> manifest_row) \<times> tdb) res" where
  "remove_dataset_replica E ref actor now db =
     (case replica_by_ref db ref of
        None \<Rightarrow> Inl (NotFound ''dataset_replica_not_found'')
      | Some (r, m) \<Rightarrow>
          (if rp_status r \<noteq> RReady then Inl (Conflict ''dataset_replica_not_removable'')
           else rbind (require_online_node_in db (rp_node_ref r)) (\<lambda>n.
             let removing = (\<lambda>x. x\<lparr>rp_status := RRemoving, rp_updated_at := now\<rparr>);
                 db1 = upd_replicas (\<lambda>x. rp_id x = rp_id r) removing db;
                 db2 = snd (insert_node_command E n RemoveDatasetReplica
                   [(''replica_ref'', JStr ref), (''local_root'', JStr (rp_local_root r)),
                    (''release_ref'', JStr (mf_release_ref m)),
                    (''inventory_sha256'', JStr (rp_inventory_sha256 r))] now db1) in
             Inr ((removing r, m), add_audit actor ''dataset.replica_remove_requested'' ref [] now db2))))"

end
