(* ===== verification/Node_Commands.thy ===== *)
theory Node_Commands
  imports Dataset_Transfer
begin

text \<open>
  The Worker's side of the command queue as the centre sees it (\<open>training/store.py\<close>): claiming
  commands under a lease with a claim token, requeueing what a Worker abandoned, and applying
  progress and final results to transfers, replicas and artifact checks.
\<close>

section \<open>Claiming\<close>

record claimed_command =
  cc_ref :: string
  cc_claim_token :: string
  cc_kind :: command_kind
  cc_payload :: dict

definition authenticated_node :: "env \<Rightarrow> string \<Rightarrow> string \<Rightarrow> string \<Rightarrow> tdb \<Rightarrow> node_row res" where
  "authenticated_node E node_ref token instance_id db =
     (case node_by_ref db node_ref of
        None \<Rightarrow> Inl (Forbidden ''worker_authentication_failed'')
      | Some n \<Rightarrow>
          (if n_worker_token_sha256 n \<noteq> Some (token_digest E token) \<or> n_worker_instance n \<noteq> Some instance_id
           then Inl (Forbidden ''worker_authentication_failed'') else Inr n))"

text \<open>A transfer command whose transfer is not waiting any more.\<close>

definition settle_abandoned_transfer_command ::
  "command_row \<Rightarrow> json \<Rightarrow> transfer_status option \<Rightarrow> int \<Rightarrow> tdb \<Rightarrow> tdb" where
  "settle_abandoned_transfer_command c ref status now db0 =
     (let db = upd_commands (\<lambda>x. nc_id x = nc_id c)
          (\<lambda>x. x\<lparr>nc_status := ACancelled, nc_result := Some (JObj [(''status'', JStr ''cancelled''),
                   (''transfer_ref'', ref), (''reason'', JStr ''transfer_no_longer_active'')]),
                 nc_worker := None, nc_claim_sha256 := None, nc_lease_expires_at := None,
                 nc_finished_at := Some now, nc_updated_at := now\<rparr>) db0;
          settle = (\<lambda>s code msg. transfer_event ref s now
            (upd_transfers (\<lambda>t. JStr (tr_ref t) = ref)
              (\<lambda>t. t\<lparr>tr_status := s, tr_error_code := code, tr_error_message := msg,
                     tr_finished_at := Some now, tr_updated_at := now\<rparr>) db)) in
      case status of
        Some TPauseRequested \<Rightarrow> settle TPaused None None
      | Some TCancelRequested \<Rightarrow> settle TFailed (Some ''dataset_partial_cleanup_unconfirmed'')
          (Some ''The Worker could not confirm removal of the partial dataset.'')
      | _ \<Rightarrow> db)"

definition transfer_abandoned :: "transfer_status option \<Rightarrow> bool" where
  "transfer_abandoned s \<longleftrightarrow> s \<noteq> Some TQueued \<and> s \<noteq> Some TRunning"

definition requeue_command :: "command_row \<Rightarrow> int \<Rightarrow> tdb \<Rightarrow> tdb" where
  "requeue_command c now db0 =
     (let db = upd_commands (\<lambda>x. nc_id x = nc_id c)
          (\<lambda>x. x\<lparr>nc_status := AQueued, nc_worker := None, nc_claim_sha256 := None,
                 nc_lease_expires_at := None, nc_started_at := None, nc_updated_at := now\<rparr>) db0 in
      if nc_kind c = InspectTrainingArtifact
      then upd_inspections (\<lambda>i. in_command_ref i = nc_ref c \<and> in_status i = IRunning)
        (\<lambda>i. i\<lparr>in_status := IQueued, in_availability := Unchecked, in_started_at := None, in_updated_at := now\<rparr>) db
      else db)"

definition recover_command :: "int \<Rightarrow> command_row \<Rightarrow> tdb \<Rightarrow> tdb res" where
  "recover_command now c db =
     (if nc_kind c = TransferDataset
      then rbind (dict_item (nc_request c) ''transfer_ref'') (\<lambda>ref.
        if transfer_abandoned (transfer_status_of db ref)
        then Inr (settle_abandoned_transfer_command c ref (transfer_status_of db ref) now db)
        else Inr (requeue_command c now db))
      else Inr (requeue_command c now db))"

definition stale_commands :: "nat \<Rightarrow> int \<Rightarrow> tdb \<Rightarrow> command_row list" where
  "stale_commands nid now db =
     order_by nc_id (filter (\<lambda>c. nc_node_id c = Some nid \<and> nc_status c = ARunning \<and>
       (case nc_lease_expires_at c of None \<Rightarrow> False | Some t \<Rightarrow> t < now)) (t_commands db))"

definition running_transfer :: "nat \<Rightarrow> command_row \<Rightarrow> bool" where
  "running_transfer nid c \<longleftrightarrow> nc_node_id c = Some nid \<and> nc_kind c = TransferDataset \<and> nc_status c = ARunning"

definition command_candidates :: "nat \<Rightarrow> nat \<Rightarrow> tdb \<Rightarrow> command_row list" where
  "command_candidates nid limit db =
     take limit (order_by nc_id (filter (\<lambda>c. nc_node_id c = Some nid \<and> nc_status c = AQueued \<and>
       (nc_kind c \<noteq> TransferDataset \<or> \<not> (\<exists>a \<in> set (t_commands db). running_transfer nid a))) (t_commands db)))"

definition command_lease :: "command_kind \<Rightarrow> int" where
  "command_lease k = (if k = TransferDataset then 1800000 else 90000)"

text \<open>The claim itself, for a command that is still queued.\<close>

definition claim_command ::
  "env \<Rightarrow> string \<Rightarrow> int \<Rightarrow> command_row \<Rightarrow> claimed_command list \<times> bool \<times> tdb \<Rightarrow> claimed_command list \<times> bool \<times> tdb" where
  "claim_command E worker now c = (\<lambda>(claimed, got, db0).
     let (token, db) = new_token E ''claim_'' db0 in
     if \<not> (\<exists>x \<in> set (t_commands db). nc_id x = nc_id c \<and> nc_status x = AQueued) then (claimed, got, db)
     else
       let db1 = upd_commands (\<lambda>x. nc_id x = nc_id c \<and> nc_status x = AQueued)
             (\<lambda>x. x\<lparr>nc_status := ARunning, nc_worker := Some worker,
                    nc_claim_sha256 := Some (token_digest E token),
                    nc_lease_expires_at := Some (now + command_lease (nc_kind c)),
                    nc_started_at := coalesce (nc_started_at x) (Some now), nc_updated_at := now\<rparr>) db;
           db2 = (if nc_kind c = InspectTrainingArtifact
                  then upd_inspections (\<lambda>i. in_command_ref i = nc_ref c \<and> in_status i = IQueued)
                    (\<lambda>i. i\<lparr>in_status := IRunning, in_started_at := coalesce (in_started_at i) (Some now),
                           in_updated_at := now\<rparr>) db1
                  else db1) in
       (claimed @ [\<lparr>cc_ref = nc_ref c, cc_claim_token = token, cc_kind = nc_kind c, cc_payload = nc_request c\<rparr>],
        got \<or> nc_kind c = TransferDataset, db2))"

definition claim_candidate ::
  "env \<Rightarrow> string \<Rightarrow> int \<Rightarrow> command_row \<Rightarrow> claimed_command list \<times> bool \<times> tdb \<Rightarrow> (claimed_command list \<times> bool \<times> tdb) res" where
  "claim_candidate E worker now c = (\<lambda>(claimed, got, db).
     if nc_kind c = TransferDataset then
       (if got then Inr (claimed, got, db)
        else rbind (dict_item (nc_request c) ''transfer_ref'') (\<lambda>ref.
          if transfer_abandoned (transfer_status_of db ref)
          then Inr (claimed, got, settle_abandoned_transfer_command c ref (transfer_status_of db ref) now db)
          else Inr (claim_command E worker now c (claimed, got, db))))
     else Inr (claim_command E worker now c (claimed, got, db)))"

definition claim_node_commands ::
  "env \<Rightarrow> string \<Rightarrow> string \<Rightarrow> string \<Rightarrow> nat \<Rightarrow> int \<Rightarrow> tdb \<Rightarrow> (claimed_command list \<times> tdb) res" where
  "claim_node_commands E node_ref token worker limit now db =
     rbind (authenticated_node E node_ref token worker db) (\<lambda>n.
     rbind (rfold (recover_command now) (stale_commands (n_id n) now db) db) (\<lambda>db1.
     rbind (rfold (claim_candidate E worker now) (command_candidates (n_id n) limit db1) ([], False, db1))
       (\<lambda>(claimed, got, db2). Inr (claimed, db2))))"

section \<open>Progress\<close>

definition update_running_command :: "command_row \<Rightarrow> dict \<Rightarrow> int \<Rightarrow> tdb \<Rightarrow> tdb res" where
  "update_running_command c data now db0 =
     (let db = upd_commands (\<lambda>x. nc_id x = nc_id c)
          (\<lambda>x. x\<lparr>nc_result := Some (JObj data),
                 nc_lease_expires_at := Some (now + command_lease (nc_kind c)), nc_updated_at := now\<rparr>) db0 in
      if nc_kind c \<noteq> TransferDataset then Inr db
      else
        rbind (as_dict (py_or (dict_get data ''progress'') (JObj []))) (\<lambda>progress.
        rbind (py_int (dict_get_default progress ''bytes_transferred'' (JInt 0))) (\<lambda>bytes.
        rbind (py_int (dict_get_default progress ''files_completed'' (JInt 0))) (\<lambda>nfiles.
        rbind (dict_item (nc_request c) ''transfer_ref'') (\<lambda>ref.
          let live = (\<lambda>t. JStr (tr_ref t) = ref \<and>
                 tr_status t \<in> {TQueued, TRunning, TPauseRequested, TCancelRequested}) in
          if (bytes < 0 \<or> nfiles < 0) \<and> (\<exists>t \<in> set (t_transfers db). live t) then Inl IntegrityError
          else
            let db1 = upd_transfers live
                  (\<lambda>t. t\<lparr>tr_status := (if tr_status t \<in> {TPauseRequested, TCancelRequested} then tr_status t else TRunning),
                         tr_bytes := bytes, tr_files := nfiles,
                         tr_started_at := coalesce (tr_started_at t) (Some now), tr_updated_at := now\<rparr>) db in
            case transfer_status_of db1 ref of
              None \<Rightarrow> Inr db1
            | Some s \<Rightarrow> Inr (transfer_event ref s now db1))))))"

section \<open>Results\<close>

text \<open>The identity a recovered directory must have.\<close>

definition recovery_matches :: "dict \<Rightarrow> node_row \<Rightarrow> replica_row \<Rightarrow> bool" where
  "recovery_matches replica_data n r \<longleftrightarrow>
     text_or (n_host_key_fingerprint n) '''' \<noteq> [] \<and> rp_fingerprint r = n_host_key_fingerprint n \<and>
     dict_get replica_data ''local_root'' = JStr (rp_local_root r) \<and>
     dict_get replica_data ''inventory_sha256'' = JStr (rp_inventory_sha256 r)"

definition recovery_replica :: "transfer_row \<Rightarrow> tdb \<Rightarrow> replica_row option" where
  "recovery_replica t db =
     fetchone (filter (\<lambda>r. Some (rp_id r) = tr_recovery_replica t \<and> rp_node_id r = None \<and> rp_status r = RReady)
       (t_replicas db))"

text \<open>
  The status a finished transfer gets, the replica it recovers, and whether the recovery was
  refused.
\<close>

definition transfer_outcome ::
  "transfer_row \<Rightarrow> dict \<Rightarrow> action_status \<Rightarrow> node_row option \<Rightarrow> dict \<Rightarrow> tdb \<Rightarrow> transfer_status \<times> replica_row option \<times> bool" where
  "transfer_outcome t data final n replica_data db =
     (let reported = (if final = ASucceeded then TSucceeded
            else if dict_get data ''status'' = JStr ''paused'' then TPaused
            else if dict_get data ''status'' = JStr ''cancelled'' then TCancelled else TFailed) in
      if final = ASucceeded \<and> tr_recovery_replica t \<noteq> None then
        (case (recovery_replica t db, n) of
           (Some r, Some node) \<Rightarrow>
             (if recovery_matches replica_data node r then (reported, Some r, False) else (TFailed, Some r, True))
         | (r, _) \<Rightarrow> (TFailed, r, True))
      else (reported, None, False))"

text \<open>\<open>INSERT ... ON CONFLICT(node_id,source_manifest_id) DO UPDATE\<close>.\<close>

definition upsert_replica :: "env \<Rightarrow> replica_row \<Rightarrow> tdb \<Rightarrow> tdb" where
  "upsert_replica E r db =
     (if rp_node_id r \<noteq> None \<and>
         (\<exists>x \<in> set (t_replicas db). rp_node_id x = rp_node_id r \<and> rp_manifest_id x = rp_manifest_id r)
      then upd_replicas (\<lambda>x. rp_node_id x = rp_node_id r \<and> rp_manifest_id x = rp_manifest_id r)
        (\<lambda>x. x\<lparr>rp_status := RReady, rp_local_root := rp_local_root r,
               rp_inventory_sha256 := rp_inventory_sha256 r, rp_file_count := rp_file_count r,
               rp_total_bytes := rp_total_bytes r, rp_node_ref := rp_node_ref r,
               rp_fingerprint := rp_fingerprint r, rp_updated_at := rp_updated_at r\<rparr>) db
      else let (i, db1) = autoincrement ''dataset_replicas'' db in
           db1\<lparr>t_replicas := t_replicas db1 @ [r\<lparr>rp_id := i\<rparr>]\<rparr>)"

definition register_replica ::
  "env \<Rightarrow> transfer_row \<Rightarrow> manifest_row \<Rightarrow> node_row option \<Rightarrow> dict \<Rightarrow> int \<Rightarrow> tdb \<Rightarrow> tdb res" where
  "register_replica E t m n replica_data now db0 =
     (let (ref, db) = new_ref E ''replica'' db0 in
      rbind (bind_text E (dict_get_default replica_data ''local_root'' (JStr (tr_final_directory t)))) (\<lambda>root.
      rbind (bind_text E (dict_get_default replica_data ''inventory_sha256'' (opt_json (mf_inventory_sha256 m)))) (\<lambda>digest.
      rbind (py_int (dict_get_default replica_data ''file_count'' (JInt (mf_file_count m)))) (\<lambda>nfiles.
      rbind (py_int (dict_get_default replica_data ''total_bytes'' (JInt (mf_total_bytes m)))) (\<lambda>bytes.
        case (root, digest) of
          (Some local_root, Some sha) \<Rightarrow>
            (if nfiles < 0 \<or> bytes < 0 then Inl IntegrityError
             else Inr (add_other_event ''dataset.replica.ready''
               [(''transfer_ref'', JStr (tr_ref t)), (''release_ref'', JStr (mf_release_ref m))] now
               (upsert_replica E \<lparr>rp_id = 0, rp_replica_ref = ref, rp_node_id = tr_node_id t,
                  rp_node_ref = tr_node_ref t, rp_manifest_id = tr_manifest_id t, rp_status = RReady,
                  rp_local_root = local_root, rp_inventory_sha256 = sha, rp_file_count = nfiles,
                  rp_total_bytes = bytes, rp_created_at = now, rp_updated_at = now,
                  rp_fingerprint = (case n of None \<Rightarrow> None | Some x \<Rightarrow> n_host_key_fingerprint x)\<rparr> db)))
        | _ \<Rightarrow> Inl IntegrityError)))))"

definition rebind_replica ::
  "transfer_row \<Rightarrow> manifest_row \<Rightarrow> node_row option \<Rightarrow> string \<Rightarrow> replica_row \<Rightarrow> int \<Rightarrow> tdb \<Rightarrow> tdb res" where
  "rebind_replica t m n actor r now db =
     (if tr_node_id t \<noteq> None \<and> (\<exists>x \<in> set (t_replicas db). rp_id x \<noteq> rp_id r \<and>
           rp_node_id x = tr_node_id t \<and> rp_manifest_id x = rp_manifest_id r)
      then Inl IntegrityError
      else Inr (add_other_event ''dataset.replica.ready''
         [(''replica_ref'', JStr (rp_replica_ref r)), (''release_ref'', JStr (mf_release_ref m)),
          (''recovered'', JBool True)] now
       (add_audit actor ''dataset.replica_recovered'' (rp_replica_ref r)
         [(''node_ref'', JStr (tr_node_ref t))] now
       (upd_replicas (\<lambda>x. rp_id x = rp_id r)
         (\<lambda>x. x\<lparr>rp_node_id := tr_node_id t, rp_node_ref := tr_node_ref t,
                rp_fingerprint := (case n of None \<Rightarrow> None | Some y \<Rightarrow> n_host_key_fingerprint y),
                rp_updated_at := now\<rparr>) db))))"

definition worker_actor :: "command_row \<Rightarrow> string" where
  "worker_actor c = ''worker:'' @ (case nc_worker c of None \<Rightarrow> ''None'' | Some w \<Rightarrow> w)"

text \<open>The transfer row as the result leaves it.\<close>

definition settle_transfer ::
  "env \<Rightarrow> transfer_row \<Rightarrow> manifest_row \<Rightarrow> transfer_status \<Rightarrow> bool \<Rightarrow> dict \<Rightarrow> dict \<Rightarrow> int \<Rightarrow> tdb \<Rightarrow> tdb res" where
  "settle_transfer E t m status refused progress error now db =
     rbind (py_int (dict_get_default progress ''bytes_transferred''
       (JInt (if status = TSucceeded then mf_total_bytes m else tr_bytes t)))) (\<lambda>bytes.
     rbind (py_int (dict_get_default progress ''files_completed''
       (JInt (if status = TSucceeded then mf_file_count m else tr_files t)))) (\<lambda>nfiles.
     rbind (if refused then Inr (Some ''dataset_replica_recovery_mismatch'')
            else bind_text E (dict_get error ''code'')) (\<lambda>code.
     rbind (if refused then Inr (Some ''The existing managed dataset did not match its registered identity.'')
            else bind_text E (dict_get error ''message'')) (\<lambda>msg.
       if bytes < 0 \<or> nfiles < 0 then Inl IntegrityError
       else Inr (upd_transfers (\<lambda>x. tr_id x = tr_id t)
         (\<lambda>x. x\<lparr>tr_status := status, tr_bytes := bytes, tr_files := nfiles, tr_error_code := code,
                tr_error_message := msg, tr_finished_at := Some now, tr_updated_at := now\<rparr>) db)))))"

definition apply_transfer_result ::
  "env \<Rightarrow> command_row \<Rightarrow> dict \<Rightarrow> action_status \<Rightarrow> dict \<Rightarrow> int \<Rightarrow> transfer_row \<times> manifest_row \<Rightarrow> tdb \<Rightarrow> tdb res" where
  "apply_transfer_result E c data final error now = (\<lambda>(t, m) db.
     rbind (as_dict (py_or (dict_get data ''progress'') (JObj []))) (\<lambda>progress.
     rbind (as_dict (py_or (dict_get data ''replica'') (JObj []))) (\<lambda>replica_data.
       let n = node_by_id db (tr_node_id t);
           (status, recovered, refused) = transfer_outcome t data final n replica_data db in
       rbind (settle_transfer E t m status refused progress error now db) (\<lambda>db1.
       rbind (if status \<noteq> TSucceeded then Inr db1
              else case recovered of
                Some r \<Rightarrow> rebind_replica t m n (worker_actor c) r now db1
              | None \<Rightarrow> register_replica E t m n replica_data now db1) (\<lambda>db2.
       let db3 = transfer_event (JStr (tr_ref t)) status now db2 in
       Inr (case (tr_recovery_replica t, n) of
              (Some _, Some node) \<Rightarrow>
                snd (queue_detached_dataset_replica_recovery E node (text_or (n_host_key_fingerprint node) '''')
                  (worker_actor c) now db3)
            | _ \<Rightarrow> db3))))))"

definition apply_removal_result :: "json \<Rightarrow> action_status \<Rightarrow> int \<Rightarrow> tdb \<Rightarrow> tdb" where
  "apply_removal_result ref final now db =
     (if final = ASucceeded
      then add_other_event ''dataset.replica.removed'' [(''replica_ref'', ref)] now
        (db\<lparr>t_replicas := sql_delete (\<lambda>r. JStr (rp_replica_ref r) = ref) (t_replicas db),
            t_transfers := sql_update (\<lambda>t. \<exists>r \<in> set (t_replicas db). JStr (rp_replica_ref r) = ref \<and>
               tr_recovery_replica t = Some (rp_id r)) (\<lambda>t. t\<lparr>tr_recovery_replica := None\<rparr>) (t_transfers db)\<rparr>)
      else upd_replicas (\<lambda>r. JStr (rp_replica_ref r) = ref)
        (\<lambda>r. r\<lparr>rp_status := RReady, rp_updated_at := now\<rparr>) db)"

definition apply_stop_result :: "json \<Rightarrow> bool \<Rightarrow> int \<Rightarrow> tdb \<Rightarrow> tdb" where
  "apply_stop_result ref cancel now db =
     (let requested = (if cancel then TCancelRequested else TPauseRequested);
          ended = (if cancel then TCancelled else TPaused);
          hit = (\<lambda>t. JStr (tr_ref t) = ref \<and> tr_status t = requested) in
      if \<not> (\<exists>t \<in> set (t_transfers db). hit t) then db
      else transfer_event ref ended now
        (upd_transfers hit (\<lambda>t. t\<lparr>tr_status := ended, tr_finished_at := Some now, tr_updated_at := now\<rparr>) db))"

section \<open>Artifact checks\<close>

fun availability_of :: "json \<Rightarrow> availability option" where
  "availability_of (JStr s) =
     (if s = ''available'' then Some Available else if s = ''missing'' then Some MissingArtifact
      else if s = ''unreadable'' then Some Unreadable else if s = ''unsafe'' then Some Unsafe
      else if s = ''check_failed'' then Some CheckFailed else None)"
| "availability_of _ = None"

fun availability_name :: "availability \<Rightarrow> string" where
  "availability_name Unchecked = ''unchecked''"
| "availability_name Available = ''available''"
| "availability_name MissingArtifact = ''missing''"
| "availability_name Unreadable = ''unreadable''"
| "availability_name Unsafe = ''unsafe''"
| "availability_name CheckFailed = ''check_failed''"

text \<open>A nullable count with its CHECK constraint; the request schema only lets integers and null through.\<close>

fun bind_count :: "json \<Rightarrow> int option res" where
  "bind_count JNull = Inr None"
| "bind_count (JInt i) = (if i < 0 then Inl IntegrityError else Inr (Some i))"
| "bind_count _ = Inl (RuntimeError ''binding'')"

definition inspection_by_command :: "tdb \<Rightarrow> string \<Rightarrow> (inspection_row \<times> version_row) option" where
  "inspection_by_command db ref =
     fetchone (concat (map (\<lambda>i. concat (map (\<lambda>a. map (Pair i) (filter (\<lambda>v. v_id v = f_version_id a) (t_versions db)))
         (filter (\<lambda>a. f_id a = in_artifact_id i) (t_artifacts db))))
       (filter (\<lambda>i. in_command_ref i = ref) (t_inspections db))))"

definition apply_inspection_result :: "env \<Rightarrow> command_row \<Rightarrow> dict \<Rightarrow> action_status \<Rightarrow> dict \<Rightarrow> int \<Rightarrow> tdb \<Rightarrow> tdb res" where
  "apply_inspection_result E c data final error now db =
     (case inspection_by_command db (nc_ref c) of
        None \<Rightarrow> Inr db
      | Some (i, v) \<Rightarrow>
          (let (ok, avail) = (case availability_of (dict_get data ''availability'') of
                 None \<Rightarrow> (False, CheckFailed)
               | Some a \<Rightarrow> (if final = ASucceeded then (True, a) else (False, CheckFailed))) in
           rbind (bind_count (dict_get data ''file_count'')) (\<lambda>nfiles.
           rbind (bind_count (dict_get data ''total_bytes'')) (\<lambda>bytes.
           rbind (bind_text E (if ok then dict_get data ''reason'' else dict_get error ''code'')) (\<lambda>code.
           rbind (if ok then Inr None else bind_text E (dict_get error ''message'')) (\<lambda>msg.
             Inr (add_other_event ''model.version.artifact.updated''
               [(''version_ref'', JStr (v_version_ref v)),
                (''status'', JStr (if ok then ''succeeded'' else ''failed'')),
                (''availability'', JStr (availability_name avail))] now
               (upd_inspections (\<lambda>x. in_id x = in_id i)
                 (\<lambda>x. x\<lparr>in_status := (if ok then ISucceeded else IFailed), in_availability := avail,
                        in_file_count := nfiles, in_total_bytes := bytes, in_error_code := code,
                        in_error_message := msg, in_finished_at := Some now, in_updated_at := now\<rparr>) db))))))))"

section \<open>Finishing a command\<close>

definition apply_terminal_command_result ::
  "env \<Rightarrow> command_row \<Rightarrow> dict \<Rightarrow> action_status \<Rightarrow> int \<Rightarrow> tdb \<Rightarrow> tdb res" where
  "apply_terminal_command_result E c data final now db =
     rbind (as_dict (py_or (dict_get data ''error'') (JObj []))) (\<lambda>error.
       case nc_kind c of
         TransferDataset \<Rightarrow>
           rbind (dict_item (nc_request c) ''transfer_ref'') (\<lambda>ref.
             case (case ref of JStr s \<Rightarrow> transfer_by_ref db s | _ \<Rightarrow> None) of
               None \<Rightarrow> Inr db
             | Some tm \<Rightarrow> apply_transfer_result E c data final error now tm db)
       | RemoveDatasetReplica \<Rightarrow>
           rbind (dict_item (nc_request c) ''replica_ref'') (\<lambda>ref. Inr (apply_removal_result ref final now db))
       | CancelDatasetTransfer \<Rightarrow>
           (if final \<noteq> ASucceeded then Inr db
            else rbind (dict_item (nc_request c) ''transfer_ref'') (\<lambda>ref.
              Inr (apply_stop_result ref
                (dict_get_default (nc_request c) ''action'' (JStr ''pause'') = JStr ''cancel'') now db)))
       | InspectTrainingArtifact \<Rightarrow> apply_inspection_result E c data final error now db
       | ListDirectories \<Rightarrow> Inr db)"

definition dict_text :: "dict \<Rightarrow> string \<Rightarrow> string res" where
  "dict_text d k = rbind (dict_item d k) (\<lambda>v. case v of JStr s \<Rightarrow> Inr s | _ \<Rightarrow> Inl AttributeError)"

definition final_command_status :: "json \<Rightarrow> action_status" where
  "final_command_status s =
     (if s = JStr ''succeeded'' then ASucceeded
      else if s = JStr ''paused'' \<or> s = JStr ''cancelled'' then ACancelled else AFailed)"

definition command_of_node :: "tdb \<Rightarrow> string \<Rightarrow> string \<Rightarrow> command_row option" where
  "command_of_node db ref node_ref =
     fetchone (filter (\<lambda>c. nc_ref c = ref \<and> nc_node_ref c = node_ref) (t_commands db))"

text \<open>The node row the command is joined with has to hold the presented credential.\<close>

definition command_authenticated :: "env \<Rightarrow> command_row \<Rightarrow> string \<Rightarrow> string \<Rightarrow> tdb \<Rightarrow> bool" where
  "command_authenticated E c token worker db =
     (case node_by_id db (nc_node_id c) of
        None \<Rightarrow> False
      | Some n \<Rightarrow> n_worker_token_sha256 n = Some (token_digest E token) \<and> n_worker_instance n = Some worker)"

definition finish_node_command ::
  "env \<Rightarrow> string \<Rightarrow> string \<Rightarrow> string \<Rightarrow> dict \<Rightarrow> int \<Rightarrow> tdb \<Rightarrow> (action_status \<times> tdb) res" where
  "finish_node_command E node_ref token ref data now db =
     rbind (dict_text data ''worker_instance_id'') (\<lambda>worker.
     rbind (dict_text data ''claim_token'') (\<lambda>claim.
       case command_of_node db ref node_ref of
         None \<Rightarrow> Inl (NotFound ''training_node_command_not_found'')
       | Some c \<Rightarrow>
           (if \<not> command_authenticated E c token worker db
            then Inl (Forbidden ''worker_authentication_failed'')
            else if nc_status c \<noteq> ARunning \<or> nc_worker c \<noteq> Some worker \<or>
                    nc_claim_sha256 c \<noteq> Some (token_digest E claim)
            then Inl (Conflict ''training_node_command_claim_stale'')
            else rbind (dict_item data ''status'') (\<lambda>status.
              if status = JStr ''running''
              then rbind (update_running_command c data now db) (\<lambda>db'. Inr (ARunning, db'))
              else
                let final = final_command_status status;
                    db1 = upd_commands (\<lambda>x. nc_id x = nc_id c)
                      (\<lambda>x. x\<lparr>nc_status := final, nc_result := Some (JObj data), nc_lease_expires_at := None,
                             nc_claim_sha256 := None, nc_finished_at := Some now, nc_updated_at := now\<rparr>) db in
                rbind (apply_terminal_command_result E c data final now db1) (\<lambda>db2. Inr (final, db2))))))"

section \<open>Requesting an artifact check\<close>

text \<open>\<open>_VERSION_LIBRARY_SELECT\<close>: the version, its succeeded real run and its latest real model artifact.\<close>

definition library_version :: "tdb \<Rightarrow> string \<Rightarrow> (version_row \<times> run_row \<times> artifact_row) option" where
  "library_version db ref =
     fetchone (concat (map (\<lambda>v. concat (map (\<lambda>r.
         case fetchone (rev (order_by f_id (filter (\<lambda>a. f_version_id a = v_id v \<and> f_kind a = VersionModel \<and>
                 \<not> f_simulated a) (t_artifacts db)))) of
           None \<Rightarrow> [] | Some a \<Rightarrow> [(v, r, a)])
         (filter (\<lambda>r. r_id r = v_run_id v \<and> r_execution_mode r = Real \<and> r_status r = Succeeded) (t_runs db))))
       (filter (\<lambda>v. v_version_ref v = ref \<and> (\<exists>f \<in> set (t_families db). fam_id f = v_family_id v)) (t_versions db))))"

definition get_artifact_inspection_in :: "tdb \<Rightarrow> string \<Rightarrow> inspection_row res" where
  "get_artifact_inspection_in db ref =
     (case fetchone (filter (\<lambda>i. in_ref i = ref \<and> (\<exists>a \<in> set (t_artifacts db). f_id a = in_artifact_id i \<and>
             (\<exists>v \<in> set (t_versions db). v_id v = f_version_id a))) (t_inspections db)) of
        None \<Rightarrow> Inl (NotFound ''artifact_inspection_not_found'')
      | Some i \<Rightarrow> Inr i)"

definition open_inspection :: "nat \<Rightarrow> inspection_row \<Rightarrow> bool" where
  "open_inspection artifact i \<longleftrightarrow> in_artifact_id i = artifact \<and> (in_status i = IQueued \<or> in_status i = IRunning)"

definition request_model_version_artifact_inspection ::
  "env \<Rightarrow> string \<Rightarrow> string \<Rightarrow> string \<Rightarrow> int \<Rightarrow> tdb \<Rightarrow> (inspection_row \<times> tdb) res" where
  "request_model_version_artifact_inspection E version_ref key actor now db =
     (let digest = payload_hash E (JObj [(''version_ref'', JStr version_ref)]) in
      case library_version db version_ref of
        None \<Rightarrow> Inl (NotFound ''model_version_not_found'')
      | Some (v, r, a) \<Rightarrow>
          (case find_idempotency ''artifact_inspection'' key db of
             Some idem \<Rightarrow>
               (if i_digest idem \<noteq> digest then Inl (Conflict ''idempotency_conflict'')
                else rbind (get_artifact_inspection_in db (i_response idem)) (\<lambda>i. Inr (i, db)))
           | None \<Rightarrow>
               (case fetchone (rev (order_by in_id (filter (open_inspection (f_id a)) (t_inspections db)))) of
                  Some i \<Rightarrow>
                    (let db1 = add_idempotency ''artifact_inspection'' key digest (in_ref i) now db in
                     rbind (get_artifact_inspection_in db1 (in_ref i)) (\<lambda>i. Inr (i, db1)))
                | None \<Rightarrow>
                    rbind (require_online_node_in db (r_server_ref r)) (\<lambda>n.
                      case last_stage db (r_id r) (\<lambda>s. s_status s = SSucceeded) of
                        None \<Rightarrow> Inl (Conflict ''model_version_artifact_invalid'')
                      | Some s \<Rightarrow>
                          rbind (as_dict (s_run_spec s)) (\<lambda>spec.
                            case dict_get spec ''output_root'' of
                              JStr (c # cs) \<Rightarrow>
                                (let (cref, db1) = insert_node_command E n InspectTrainingArtifact
                                       [(''artifact_ref'', JStr (f_artifact_ref a)), (''run_ref'', JStr (r_run_ref r)),
                                        (''version_ref'', JStr version_ref), (''version_label'', JStr (v_label v)),
                                        (''output_root'', JStr (c # cs)), (''artifact_path'', JStr (f_path a))] now db;
                                     (iref, db2) = new_ref E ''artifact_inspection'' db1;
                                     db3 = db2\<lparr>t_inspections := t_inspections db2 @
                                       [\<lparr>in_id = next_id (map in_id (t_inspections db2)), in_ref = iref,
                                         in_artifact_id = f_id a, in_node_id = Some (n_id n), in_command_ref = cref,
                                         in_status = IQueued, in_availability = Unchecked, in_file_count = None,
                                         in_total_bytes = None, in_error_code = None, in_error_message = None,
                                         in_requested_by = actor, in_created_at = now, in_updated_at = now,
                                         in_started_at = None, in_finished_at = None\<rparr>]\<rparr>;
                                     db4 = add_audit actor ''model.version_artifact_check_requested'' version_ref
                                       [(''inspection_ref'', JStr iref)] now
                                       (add_idempotency ''artifact_inspection'' key digest iref now db3) in
                                 rbind (get_artifact_inspection_in db4 iref) (\<lambda>i. Inr (i, db4)))
                            | _ \<Rightarrow> Inl (Conflict ''model_version_artifact_invalid''))))))"

end
