(* ===== verification/Model_Registry.thy ===== *)
theory Model_Registry
  imports Node_Commands
begin

text \<open>
  Model families and their configurations (\<open>training/store.py\<close>): creating a family, editing
  its configuration as a new numbered revision, and the verification of a configuration by
  the Worker of its node.
\<close>

record model_input =
  mi_family_name :: string
  mi_description :: "string option"
  mi_template :: dict
  mi_parameters :: json
  mi_data_access_mode :: "string option"

definition data_access_modes :: "string list" where
  "data_access_modes = [''datapilot_managed'', ''self_managed'']"

definition access_mode :: "model_input \<Rightarrow> string" where
  "access_mode d = (case mi_data_access_mode d of None \<Rightarrow> ''self_managed'' | Some m \<Rightarrow> m)"

definition new_revision ::
  "nat \<Rightarrow> string \<Rightarrow> nat \<Rightarrow> model_input \<Rightarrow> string \<Rightarrow> string \<Rightarrow> string \<Rightarrow> int \<Rightarrow> tdb \<Rightarrow> revision_row" where
  "new_revision model_id ref revision d working entry output_root now db =
     \<lparr>rv_id = next_id (map rv_id (t_revisions db)), rv_revision_ref = ref, rv_model_id = model_id,
      rv_number = revision, rv_working_directory = working, rv_entrypoint = entry,
      rv_fixed_argv = dict_get_default (mi_template d) ''fixed_argv'' (JList []),
      rv_output_template = rstrip_char CHR ''/'' output_root @ ''/{run_ref}'',
      rv_parameters = mi_parameters d, rv_template = JObj (mi_template d), rv_created_at = now,
      rv_data_access_mode = access_mode d\<rparr>"

definition insert_revision ::
  "env \<Rightarrow> nat \<Rightarrow> string \<Rightarrow> nat \<Rightarrow> model_input \<Rightarrow> int \<Rightarrow> tdb \<Rightarrow> tdb res" where
  "insert_revision E model_id ref revision d now db =
     rbind (dict_text (mi_template d) ''working_directory'') (\<lambda>working.
     rbind (dict_text (mi_template d) ''entrypoint'') (\<lambda>entry.
     rbind (dict_text (mi_template d) ''output_root'') (\<lambda>root.
       if access_mode d \<notin> set data_access_modes \<or>
          (\<exists>r \<in> set (t_revisions db). rv_revision_ref r = ref \<or> rv_model_id r = model_id \<and> rv_number r = revision)
       then Inl IntegrityError
       else Inr (db\<lparr>t_revisions := t_revisions db @
         [new_revision model_id ref revision d working entry root now db]\<rparr>))))"

definition create_model :: "env \<Rightarrow> model_input \<Rightarrow> string \<Rightarrow> int \<Rightarrow> tdb \<Rightarrow> (string \<times> tdb) res" where
  "create_model E d actor now db0 =
     (let (family_ref, db1) = new_ref E ''family'' db0; (model_ref, db2) = new_ref E ''model'' db1;
          (revision_ref, db3) = new_ref E ''mrev'' db2;
          fid = next_id (map fam_id (t_families db3)); mid = next_id (map md_id (t_models db3));
          db4 = db3\<lparr>t_families := t_families db3 @
                  [\<lparr>fam_id = fid, fam_ref = family_ref, fam_name = mi_family_name d, fam_created_at = now,
                    fam_updated_at = now, fam_current_model = None\<rparr>],
                t_models := t_models db3 @
                  [\<lparr>md_id = mid, md_model_ref = model_ref, md_name = mi_family_name d,
                    md_description = text_or (mi_description d) '''', md_status = Draft,
                    md_current_revision = 1, md_created_at = now, md_updated_at = now,
                    md_family_id = fid, md_version_number = 1, md_version_description = None\<rparr>]\<rparr> in
      rbind (insert_revision E mid revision_ref 1 d now db4) (\<lambda>db5.
        Inr (family_ref, add_audit actor ''model.created'' family_ref [] now
          (db5\<lparr>t_families := sql_update (\<lambda>f. fam_id f = fid)
               (\<lambda>f. f\<lparr>fam_current_model := Some mid\<rparr>) (t_families db5)\<rparr>))))"

text \<open>The current model of a family.\<close>

definition family_model :: "tdb \<Rightarrow> string \<Rightarrow> model_row option" where
  "family_model db family_ref =
     fetchone (filter (\<lambda>m. \<exists>f \<in> set (t_families db). fam_ref f = family_ref \<and> fam_current_model f = Some (md_id m))
       (t_models db))"

definition upd_model :: "nat \<Rightarrow> (model_row \<Rightarrow> model_row) \<Rightarrow> tdb \<Rightarrow> tdb" where
  "upd_model i f db = db\<lparr>t_models := sql_update (\<lambda>m. md_id m = i) f (t_models db)\<rparr>"

text \<open>The model row after an edit.\<close>

definition edited_model :: "model_input \<Rightarrow> string \<Rightarrow> nat \<Rightarrow> int \<Rightarrow> model_row \<Rightarrow> model_row" where
  "edited_model d old_description revision now x =
     x\<lparr>md_description := text_or (mi_description d) old_description, md_version_description := None,
       md_status := Draft, md_current_revision := revision, md_updated_at := now\<rparr>"

definition update_model :: "env \<Rightarrow> string \<Rightarrow> nat \<Rightarrow> model_input \<Rightarrow> string \<Rightarrow> int \<Rightarrow> tdb \<Rightarrow> tdb res" where
  "update_model E family_ref expected d actor now db0 =
     (case family_model db0 family_ref of
        None \<Rightarrow> Inl (NotFound ''model_not_found'')
      | Some m \<Rightarrow>
          (if md_status m = Disabled then Inl (Conflict ''model_not_editable'')
           else if md_current_revision m \<noteq> expected then Inl (Conflict ''model_configuration_edit_conflict'')
           else
             let revision = expected + 1; (ref, db) = new_ref E ''mrev'' db0 in
             rbind (insert_revision E (md_id m) ref revision d now
               (upd_model (md_id m) (edited_model d (md_description m) revision now) db)) (\<lambda>db1.
             Inr (add_audit actor ''model.updated'' family_ref [(''edit_revision'', JInt (int revision))] now
               (db1\<lparr>t_families := sql_update (\<lambda>f. fam_ref f = family_ref)
                    (\<lambda>f. f\<lparr>fam_updated_at := now\<rparr>) (t_families db1)\<rparr>)))))"

section \<open>Verification\<close>

definition upd_verifications ::
  "(verification_row \<Rightarrow> bool) \<Rightarrow> (verification_row \<Rightarrow> verification_row) \<Rightarrow> tdb \<Rightarrow> tdb" where
  "upd_verifications P f db = db\<lparr>t_verifications := sql_update P f (t_verifications db)\<rparr>"

definition open_verification :: "nat \<Rightarrow> verification_row \<Rightarrow> bool" where
  "open_verification model_id v \<longleftrightarrow> mv_model_id v = model_id \<and> (mv_status v = VQueued \<or> mv_status v = VRunning)"

definition verification_request :: "string \<Rightarrow> dict \<Rightarrow> dict res" where
  "verification_request family_ref template =
     rbind (dict_item template ''working_directory'') (\<lambda>working.
     rbind (dict_item template ''executable'') (\<lambda>executable.
     rbind (dict_item template ''entrypoint'') (\<lambda>entry.
     rbind (dict_item template ''output_root'') (\<lambda>root.
       Inr [(''family_ref'', JStr family_ref), (''working_directory'', working), (''executable'', executable),
            (''entrypoint'', entry), (''output_root'', root),
            (''runtime_environment'', dict_get_default template ''runtime_environment''
              (JObj [(''kind'', JStr ''system'')]))]))))"

definition revision_of :: "tdb \<Rightarrow> nat \<Rightarrow> nat \<Rightarrow> revision_row option" where
  "revision_of db model_id number =
     fetchone (filter (\<lambda>r. rv_model_id r = model_id \<and> rv_number r = number) (t_revisions db))"

definition request_model_verification ::
  "env \<Rightarrow> string \<Rightarrow> nat \<Rightarrow> string \<Rightarrow> int \<Rightarrow> tdb \<Rightarrow> tdb res" where
  "request_model_verification E family_ref expected actor now db0 =
     (let (ref, db) = new_ref E ''verify'' db0 in
      case family_model db family_ref of
        None \<Rightarrow> Inl (NotFound ''model_not_found'')
      | Some m \<Rightarrow>
          (if md_current_revision m \<noteq> expected then Inl (Conflict ''model_configuration_edit_conflict'')
           else if md_status m = Disabled then Inl (Conflict ''model_family_disabled'')
           else if \<exists>v \<in> set (t_verifications db). open_verification (md_id m) v
           then Inl (Conflict ''model_verification_in_progress'')
           else case revision_of db (md_id m) expected of
             None \<Rightarrow> Inl TypeError
           | Some rv \<Rightarrow>
               rbind (as_dict (rv_template rv)) (\<lambda>template.
               rbind (dict_item template ''server_ref'') (\<lambda>server.
                 case (case server of JStr s \<Rightarrow> node_by_ref db s | _ \<Rightarrow> None) of
                   None \<Rightarrow> Inl (Conflict ''model_verification_requires_training_node'')
                 | Some n \<Rightarrow>
                     (if effective_node_status n 45000 now \<noteq> Online
                      then Inl (Conflict ''model_verification_node_unavailable'')
                      else rbind (verification_request family_ref template) (\<lambda>request.
                        Inr (add_audit actor ''model.verification_requested'' family_ref
                          [(''verification_ref'', JStr ref), (''node_ref'', JStr (n_node_ref n))] now
                          (db\<lparr>t_verifications := t_verifications db @
                             [\<lparr>mv_id = next_id (map mv_id (t_verifications db)), mv_ref = ref,
                               mv_model_id = md_id m, mv_revision_id = rv_id rv, mv_node_id = Some (n_id n),
                               mv_node_ref = n_node_ref n, mv_status = VQueued, mv_request = JObj request,
                               mv_result = None, mv_worker = None, mv_lease_expires_at = None,
                               mv_created_at = now, mv_started_at = None, mv_finished_at = None,
                               mv_updated_at = now\<rparr>]\<rparr>))))))))"

definition claim_model_verification ::
  "string \<Rightarrow> string \<Rightarrow> int \<Rightarrow> tdb \<Rightarrow> verification_row option \<times> tdb" where
  "claim_model_verification node_ref worker now db =
     (case node_by_ref db node_ref of
        None \<Rightarrow> (None, db)
      | Some n \<Rightarrow>
          (if n_worker_instance n \<noteq> Some worker \<or> n_status n \<notin> {Online, Degraded} then (None, db)
           else
             let db1 = upd_verifications (\<lambda>v. mv_node_id v = Some (n_id n) \<and> mv_status v = VRunning \<and>
                     (case mv_lease_expires_at v of None \<Rightarrow> False | Some t \<Rightarrow> t < now))
                   (\<lambda>v. v\<lparr>mv_status := VQueued, mv_worker := None, mv_lease_expires_at := None,
                          mv_started_at := None, mv_updated_at := now\<rparr>) db in
             case fetchone (order_by mv_id (filter (\<lambda>v. mv_node_id v = Some (n_id n) \<and> mv_status v = VQueued)
                    (t_verifications db1))) of
               None \<Rightarrow> (None, db1)
             | Some v \<Rightarrow>
                 (Some v, upd_verifications (\<lambda>x. mv_id x = mv_id v \<and> mv_status x = VQueued)
                   (\<lambda>x. x\<lparr>mv_status := VRunning, mv_worker := Some worker,
                          mv_lease_expires_at := Some (now + 90000), mv_started_at := Some now,
                          mv_updated_at := now\<rparr>) db1)))"

text \<open>The verification command of a node, joined with its model.\<close>

definition verification_with_model :: "tdb \<Rightarrow> string \<Rightarrow> nat \<Rightarrow> (verification_row \<times> model_row) option" where
  "verification_with_model db ref nid =
     fetchone (concat (map (\<lambda>v. map (Pair v) (filter (\<lambda>m. md_id m = mv_model_id v) (t_models db)))
       (filter (\<lambda>v. mv_ref v = ref \<and> mv_node_id v = Some nid) (t_verifications db))))"

text \<open>The verification and the model as a result leaves them.\<close>

definition finished_verification :: "bool \<Rightarrow> json list \<Rightarrow> int \<Rightarrow> verification_row \<Rightarrow> verification_row" where
  "finished_verification succeeded checks now x =
     x\<lparr>mv_status := (if succeeded then VSucceeded else VFailed),
       mv_result := Some (JObj [(''checks'', JList checks)]), mv_lease_expires_at := None,
       mv_finished_at := Some now, mv_updated_at := now\<rparr>"

definition judged_model :: "bool \<Rightarrow> int \<Rightarrow> model_row \<Rightarrow> model_row" where
  "judged_model succeeded now x = x\<lparr>md_status := (if succeeded then Verified else Draft), md_updated_at := now\<rparr>"

definition configuration_current :: "verification_row \<Rightarrow> model_row \<Rightarrow> tdb \<Rightarrow> bool" where
  "configuration_current v m db =
     (case revision_of db (mv_model_id v) (md_current_revision m) of
        None \<Rightarrow> False | Some rv \<Rightarrow> rv_id rv = mv_revision_id v)"

definition finish_model_verification ::
  "env \<Rightarrow> string \<Rightarrow> string \<Rightarrow> string \<Rightarrow> string \<Rightarrow> bool \<Rightarrow> json list \<Rightarrow> int \<Rightarrow> tdb \<Rightarrow> (verification_status \<times> tdb) res" where
  "finish_model_verification E node_ref token worker ref succeeded checks now db =
     rbind (authenticated_node E node_ref token worker db) (\<lambda>n.
       case verification_with_model db ref (n_id n) of
         None \<Rightarrow> Inl (NotFound ''model_verification_not_found'')
       | Some (v, m) \<Rightarrow>
           (if mv_status v \<noteq> VRunning \<or> mv_worker v \<noteq> Some worker
            then Inl (Conflict ''model_verification_not_claimed'')
            else
              let final = (if succeeded then VSucceeded else VFailed);
                  db1 = upd_verifications (\<lambda>x. mv_id x = mv_id v) (finished_verification succeeded checks now) db;
                  db2 = (if configuration_current v m db1 \<and> md_status m \<noteq> Disabled
                         then upd_model (mv_model_id v) (judged_model succeeded now) db1 else db1) in
              Inr (final, add_audit (''worker:'' @ worker)
                (''model.verification_'' @ (if succeeded then ''succeeded'' else ''failed'')) ref
                [(''check_count'', JInt (int (length checks)))] now db2)))"

end
