(* ===== verification/Node_Registry.thy ===== *)
theory Node_Registry
  imports Node_Commands
begin

text \<open>
  Training nodes (\<open>training/store.py\<close>): registration and editing under an optimistic lock,
  one-time enrollment tokens, the Worker credential an enrollment issues, heartbeats with
  their bounded history, and the deployment and removal of a Worker.
\<close>

section \<open>Registering and editing\<close>

record node_input =
  ni_name :: string
  ni_description :: "string option"
  ni_address :: string
  ni_ssh_port :: "int option"
  ni_ssh_username :: "string option"

text \<open>The fields of an edit; a null field keeps the stored value.\<close>

record node_patch =
  np_name :: "string option"
  np_description :: "string option"
  np_address :: "string option"
  np_ssh_port :: "int option"
  np_ssh_username :: "string option"
  np_status :: "node_status option"
  np_desired_state :: "node_status option"

definition get_node :: "tdb \<Rightarrow> string \<Rightarrow> node_row res" where
  "get_node db ref =
     (case node_by_ref db ref of None \<Rightarrow> Inl (NotFound ''training_node_not_found'') | Some n \<Rightarrow> Inr n)"

definition returning_node :: "string \<Rightarrow> tdb \<Rightarrow> (node_row \<times> tdb) res" where
  "returning_node ref db = rbind (get_node db ref) (\<lambda>n. Inr (n, db))"

definition valid_port :: "int \<Rightarrow> bool" where
  "valid_port p \<longleftrightarrow> 1 \<le> p \<and> p \<le> 65535"

definition node_status_name :: "node_status \<Rightarrow> string" where
  "node_status_name s = (case s of PendingEnrollment \<Rightarrow> ''pending_enrollment'' | Online \<Rightarrow> ''online''
     | Degraded \<Rightarrow> ''degraded'' | Offline \<Rightarrow> ''offline'' | RepairRequired \<Rightarrow> ''repair_required''
     | NodeDisabled \<Rightarrow> ''disabled'')"

definition create_node :: "env \<Rightarrow> node_input \<Rightarrow> string \<Rightarrow> int \<Rightarrow> tdb \<Rightarrow> (node_row \<times> tdb) res" where
  "create_node E d actor now db0 =
     (let (ref, db1) = new_ref E ''node'' db0;
          port = (case ni_ssh_port d of None \<Rightarrow> 22 | Some p \<Rightarrow> p);
          (i, db2) = autoincrement ''training_nodes'' db1 in
      if \<not> valid_port port \<or> (\<exists>n \<in> set (t_nodes db2). n_node_ref n = ref) then Inl IntegrityError
      else returning_node ref
        (add_audit actor ''node.created'' ref [] now
          (db2\<lparr>t_nodes := t_nodes db2 @
             [\<lparr>n_id = i, n_node_ref = ref, n_name = ni_name d,
               n_description = text_or (ni_description d) '''', n_address = ni_address d,
               n_ssh_port = port, n_ssh_username = text_or (ni_ssh_username d) '''',
               n_status = PendingEnrollment, n_state_revision = 1, n_heartbeat_revision = 0,
               n_enrolled_at = None, n_last_heartbeat_at = None, n_worker_instance = None,
               n_worker_version = None, n_protocol_version = None, n_worker_token_sha256 = None,
               n_health_message = None, n_capabilities = JNull, n_host_key_algorithm = None,
               n_host_public_key = None, n_host_key_fingerprint = None,
               n_deployment_status = NotStarted, n_deployment_message = None,
               n_deployment_started_at = None, n_deployment_finished_at = None,
               n_installed_version = None, n_created_at = now, n_updated_at = now\<rparr>]\<rparr>)))"

text \<open>The row at the expected revision, or the error of a missing or changed node.\<close>

definition node_at_revision :: "tdb \<Rightarrow> string \<Rightarrow> nat \<Rightarrow> node_row res" where
  "node_at_revision db ref expected =
     (case node_by_ref db ref of
        None \<Rightarrow> Inl (NotFound ''training_node_not_found'')
      | Some n \<Rightarrow>
          (if n_state_revision n \<noteq> expected then Inl (Conflict ''training_node_revision_conflict'') else Inr n))"

definition consume_tokens :: "nat \<Rightarrow> int \<Rightarrow> tdb \<Rightarrow> tdb" where
  "consume_tokens nid now db =
     db\<lparr>t_tokens := sql_update (\<lambda>k. k_node_id k = nid \<and> k_consumed_at k = None)
          (\<lambda>k. k\<lparr>k_consumed_at := Some now\<rparr>) (t_tokens db)\<rparr>"

definition upd_node :: "nat \<Rightarrow> (node_row \<Rightarrow> node_row) \<Rightarrow> tdb \<Rightarrow> tdb" where
  "upd_node nid f = upd_nodes (\<lambda>n. n_id n = nid) f"

definition keep :: "'a option \<Rightarrow> 'a \<Rightarrow> 'a" where
  "keep new old = (case new of None \<Rightarrow> old | Some v \<Rightarrow> v)"

definition update_node :: "string \<Rightarrow> nat \<Rightarrow> node_patch \<Rightarrow> string \<Rightarrow> int \<Rightarrow> tdb \<Rightarrow> (node_row \<times> tdb) res" where
  "update_node ref expected p actor now db =
     rbind (node_at_revision db ref expected) (\<lambda>n.
       let status = keep (np_desired_state p) (keep (np_status p) (n_status n));
           port = keep (np_ssh_port p) (n_ssh_port n);
           disabled = status = NodeDisabled;
           db1 = (if disabled then consume_tokens (n_id n) now db else db) in
       if \<not> valid_port port then Inl IntegrityError
       else returning_node ref
         (add_audit actor ''node.updated'' ref [(''status'', JStr (node_status_name status))] now
           (upd_node (n_id n)
             (\<lambda>x. x\<lparr>n_name := keep (np_name p) (n_name n),
                    n_description := keep (np_description p) (n_description n),
                    n_address := keep (np_address p) (n_address n), n_ssh_port := port,
                    n_ssh_username := keep (np_ssh_username p) (n_ssh_username n), n_status := status,
                    n_worker_token_sha256 := (if disabled then None else n_worker_token_sha256 n),
                    n_state_revision := n_state_revision x + 1, n_updated_at := now\<rparr>) db1)))"

text \<open>
  Deleting a node that never enrolled: open verifications fail, replicas keep the host key
  they were confirmed under, and the foreign keys cascade or become null.
\<close>

definition node_deleted_result :: json where
  "node_deleted_result = JObj [(''checks'', JList [JObj [(''code'', JStr ''training_node_deleted''),
     (''label'', JStr (utf8 [0xE8,0xAE,0xAD,0xE7,0xBB,0x83,0xE8,0x8A,0x82,0xE7,0x82,0xB9])),
     (''status'', JStr ''failed''),
     (''detail'', JStr (utf8 [0xE8,0xAE,0xAD,0xE7,0xBB,0x83,0xE8,0x8A,0x82,0xE7,0x82,0xB9,
        0xE5,0xB7,0xB2,0xE5,0x88,0xA0,0xE9,0x99,0xA4,0xEF,0xBC,0x8C,0xE9,0x85,0x8D,0xE7,0xBD,0xAE,
        0xE9,0xAA,0x8C,0xE8,0xAF,0x81,0xE6,0x9C,0xAA,0xE5,0xAE,0x8C,0xE6,0x88,0x90,0xE3,0x80,0x82]))]])]"

definition fail_open_verifications :: "nat \<Rightarrow> int \<Rightarrow> tdb \<Rightarrow> tdb" where
  "fail_open_verifications nid now db =
     db\<lparr>t_verifications := sql_update
          (\<lambda>v. mv_node_id v = Some nid \<and> (mv_status v = VQueued \<or> mv_status v = VRunning))
          (\<lambda>v. v\<lparr>mv_status := VFailed, mv_result := Some node_deleted_result, mv_worker := None,
                 mv_lease_expires_at := None, mv_finished_at := Some now, mv_updated_at := now\<rparr>)
          (t_verifications db)\<rparr>"

definition drop_node :: "nat \<Rightarrow> tdb \<Rightarrow> tdb" where
  "drop_node nid db =
     db\<lparr>t_nodes := sql_delete (\<lambda>n. n_id n = nid) (t_nodes db),
        t_tokens := sql_delete (\<lambda>k. k_node_id k = nid) (t_tokens db),
        t_node_snapshots := sql_delete (\<lambda>s. ns_node_id s = nid) (t_node_snapshots db),
        t_verifications := sql_update (\<lambda>v. mv_node_id v = Some nid) (\<lambda>v. v\<lparr>mv_node_id := None\<rparr>) (t_verifications db),
        t_commands := sql_update (\<lambda>c. nc_node_id c = Some nid) (\<lambda>c. c\<lparr>nc_node_id := None\<rparr>) (t_commands db),
        t_transfers := sql_update (\<lambda>t. tr_node_id t = Some nid) (\<lambda>t. t\<lparr>tr_node_id := None\<rparr>) (t_transfers db),
        t_replicas := sql_update (\<lambda>r. rp_node_id r = Some nid) (\<lambda>r. r\<lparr>rp_node_id := None\<rparr>) (t_replicas db),
        t_inspections := sql_update (\<lambda>i. in_node_id i = Some nid) (\<lambda>i. i\<lparr>in_node_id := None\<rparr>) (t_inspections db)\<rparr>"

definition delete_node :: "string \<Rightarrow> nat \<Rightarrow> string \<Rightarrow> int \<Rightarrow> tdb \<Rightarrow> tdb res" where
  "delete_node ref expected actor now db =
     rbind (node_at_revision db ref expected) (\<lambda>n.
       if n_enrolled_at n \<noteq> None \<or> (\<exists>s \<in> set (t_node_snapshots db). ns_node_id s = n_id n)
       then Inl (Conflict ''training_node_has_history'')
       else
         let db1 = fail_open_verifications (n_id n) now db;
             db2 = (if text_or (n_host_key_fingerprint n) '''' = [] then db1
                    else upd_replicas (\<lambda>r. rp_node_id r = Some (n_id n))
                      (\<lambda>r. r\<lparr>rp_fingerprint := coalesce (rp_fingerprint r) (n_host_key_fingerprint n)\<rparr>) db1) in
         Inr (drop_node (n_id n) (add_audit actor ''node.deleted'' ref [] now db2)))"

section \<open>Enrollment\<close>

record enroll_input =
  ei_token :: string
  ei_instance :: string
  ei_version :: string
  ei_protocol :: int
  ei_capabilities :: json

definition create_enrollment_token ::
  "env \<Rightarrow> string \<Rightarrow> nat \<Rightarrow> int \<Rightarrow> string \<Rightarrow> int \<Rightarrow> tdb \<Rightarrow> ((string \<times> node_row) \<times> tdb) res" where
  "create_enrollment_token E ref expected expires_in actor now db0 =
     (let (token, db1) = new_token E ''enroll_'' db0; (tref, db2) = new_ref E ''enrollment'' db1;
          expires = now + 1000 * expires_in in
      rbind (node_at_revision db2 ref expected) (\<lambda>n.
        if n_status n = NodeDisabled then Inl (Conflict ''training_node_disabled'')
        else
          let db3 = consume_tokens (n_id n) now db2;
              (i, db4) = autoincrement ''training_node_enrollment_tokens'' db3 in
          if \<exists>k \<in> set (t_tokens db4). k_sha256 k = token_digest E token \<or> k_token_ref k = tref
          then Inl IntegrityError
          else rbind (returning_node ref
            (add_audit actor ''node.enrollment_token_created'' ref [(''expires_at'', JInt expires)] now
              (upd_node (n_id n) (\<lambda>x. x\<lparr>n_state_revision := n_state_revision x + 1, n_updated_at := now\<rparr>)
                (db4\<lparr>t_tokens := t_tokens db4 @
                   [\<lparr>k_id = i, k_token_ref = tref, k_node_id = n_id n, k_sha256 = token_digest E token,
                     k_expires_at = expires, k_created_by = actor, k_created_at = now,
                     k_consumed_at = None\<rparr>]\<rparr>))))
            (\<lambda>(row, db5). Inr ((token, row), db5))))"

text \<open>The token joined with its node.\<close>

definition token_with_node :: "tdb \<Rightarrow> string \<Rightarrow> (token_row \<times> node_row) option" where
  "token_with_node db digest =
     fetchone (concat (map (\<lambda>k. map (Pair k) (filter (\<lambda>n. n_id n = k_node_id k) (t_nodes db)))
       (filter (\<lambda>k. k_sha256 k = digest) (t_tokens db))))"

definition token_usable :: "token_row \<Rightarrow> int \<Rightarrow> bool" where
  "token_usable k now \<longleftrightarrow> k_consumed_at k = None \<and> now < k_expires_at k"

definition enroll_node :: "env \<Rightarrow> enroll_input \<Rightarrow> int \<Rightarrow> tdb \<Rightarrow> ((node_row \<times> string) \<times> tdb) res" where
  "enroll_node E d now db0 =
     (let (worker_token, db) = new_token E ''worker_'' db0 in
      case token_with_node db (token_digest E (ei_token d)) of
        None \<Rightarrow> Inl (Forbidden ''invalid_enrollment_token'')
      | Some (k, n) \<Rightarrow>
          (if \<not> token_usable k now then Inl (Forbidden ''invalid_enrollment_token'')
           else if n_status n = NodeDisabled then Inl (Forbidden ''training_node_disabled'')
           else
             let db1 = db\<lparr>t_tokens := sql_update (\<lambda>x. k_id x = k_id k \<and> k_consumed_at x = None)
                            (\<lambda>x. x\<lparr>k_consumed_at := Some now\<rparr>) (t_tokens db)\<rparr>;
                 db2 = upd_node (k_node_id k)
                   (\<lambda>x. x\<lparr>n_status := Online, n_heartbeat_revision := n_heartbeat_revision x + 1,
                          n_enrolled_at := coalesce (n_enrolled_at x) (Some now),
                          n_last_heartbeat_at := Some now, n_worker_instance := Some (ei_instance d),
                          n_worker_version := Some (ei_version d), n_protocol_version := Some (ei_protocol d),
                          n_worker_token_sha256 := Some (token_digest E worker_token),
                          n_health_message := None, n_capabilities := ei_capabilities d,
                          n_updated_at := now\<rparr>) db1 in
             rbind (returning_node (n_node_ref n)
               (add_audit (''worker:'' @ ei_instance d) ''node.enrolled'' (n_node_ref n)
                 [(''worker_version'', JStr (ei_version d)), (''protocol_version'', JInt (ei_protocol d))] now db2))
               (\<lambda>(row, db3). Inr ((row, worker_token), db3))))"

definition invalidate_node_enrollment_tokens :: "string \<Rightarrow> int \<Rightarrow> tdb \<Rightarrow> tdb" where
  "invalidate_node_enrollment_tokens ref now db =
     (case node_by_ref db ref of None \<Rightarrow> db | Some n \<Rightarrow> consume_tokens (n_id n) now db)"

section \<open>Heartbeats\<close>

datatype worker_health = Healthy | HealthDegraded | HealthRepairRequired

fun status_of_health :: "worker_health \<Rightarrow> node_status" where
  "status_of_health Healthy = Online"
| "status_of_health HealthDegraded = Degraded"
| "status_of_health HealthRepairRequired = RepairRequired"

record heartbeat_input =
  hb_health :: worker_health
  hb_instance :: string
  hb_version :: string
  hb_protocol :: int
  hb_message :: "string option"
  hb_capabilities :: json
  hb_resources :: json

definition SNAPSHOTS_KEPT :: nat where
  "SNAPSHOTS_KEPT = 1000"

text \<open>A new resource snapshot; of the node's snapshots only the newest are kept.\<close>

definition newest_ids :: "nat \<Rightarrow> tdb \<Rightarrow> nat list" where
  "newest_ids nid db =
     take SNAPSHOTS_KEPT (rev (sort (map ns_id (filter (\<lambda>s. ns_node_id s = nid) (t_node_snapshots db)))))"

definition add_node_snapshot :: "nat \<Rightarrow> json \<Rightarrow> int \<Rightarrow> tdb \<Rightarrow> tdb" where
  "add_node_snapshot nid resources now db0 =
     (let (i, db1) = autoincrement ''training_node_resource_snapshots'' db0;
          db = db1\<lparr>t_node_snapshots := t_node_snapshots db1 @
                 [\<lparr>ns_id = i, ns_node_id = nid, ns_captured_at = now, ns_resources = resources\<rparr>]\<rparr> in
      db\<lparr>t_node_snapshots := sql_delete (\<lambda>s. ns_node_id s = nid \<and> ns_id s \<notin> set (newest_ids nid db))
           (t_node_snapshots db)\<rparr>)"

definition record_node_heartbeat ::
  "env \<Rightarrow> string \<Rightarrow> string \<Rightarrow> heartbeat_input \<Rightarrow> int \<Rightarrow> tdb \<Rightarrow> (node_row \<times> tdb) res" where
  "record_node_heartbeat E ref token d now db =
     rbind (authenticated_node E ref token (hb_instance d) db) (\<lambda>n.
       if n_status n = NodeDisabled then Inl (Forbidden ''training_node_disabled'')
       else
         let status = status_of_health (hb_health d);
             caps = (if hb_capabilities d = JNull then n_capabilities n else hb_capabilities d);
             db1 = add_node_snapshot (n_id n) (hb_resources d) now
               (upd_node (n_id n)
                 (\<lambda>x. x\<lparr>n_status := status, n_last_heartbeat_at := Some now,
                        n_worker_version := Some (hb_version d), n_protocol_version := Some (hb_protocol d),
                        n_health_message := hb_message d, n_capabilities := caps,
                        n_heartbeat_revision := n_heartbeat_revision x + 1\<rparr>) db) in
         rbind (has_feature caps ''dataset_replica_recovery_v1'') (\<lambda>recovers.
           returning_node ref
             (if status = Online \<and> text_or (n_host_key_fingerprint n) '''' \<noteq> [] \<and> recovers
              then snd (queue_detached_dataset_replica_recovery E n (text_or (n_host_key_fingerprint n) '''')
                          (''worker:'' @ hb_instance d) now db1)
              else db1)))"

section \<open>Deploying and removing the Worker\<close>

definition begin_node_deployment ::
  "string \<Rightarrow> nat \<Rightarrow> string \<Rightarrow> string \<Rightarrow> string \<Rightarrow> string \<Rightarrow> int \<Rightarrow> tdb \<Rightarrow> (node_row \<times> tdb) res" where
  "begin_node_deployment ref expected algorithm public_key fingerprint actor now db =
     rbind (node_at_revision db ref expected) (\<lambda>n.
       if n_status n = NodeDisabled then Inl (Conflict ''training_node_disabled'')
       else if n_deployment_status n = Deploying then Inl (Conflict ''training_node_deployment_in_progress'')
       else returning_node ref
         (add_audit actor ''node.deployment_started'' ref [(''host_key_fingerprint'', JStr fingerprint)] now
           (upd_node (n_id n)
             (\<lambda>x. x\<lparr>n_host_key_algorithm := Some algorithm, n_host_public_key := Some public_key,
                    n_host_key_fingerprint := Some fingerprint, n_deployment_status := Deploying,
                    n_deployment_message := None, n_deployment_started_at := Some now,
                    n_deployment_finished_at := None, n_state_revision := n_state_revision x + 1,
                    n_updated_at := now\<rparr>) db)))"

definition finish_node_deployment ::
  "string \<Rightarrow> bool \<Rightarrow> string \<Rightarrow> string option \<Rightarrow> string \<Rightarrow> string option \<Rightarrow> int \<Rightarrow> tdb \<Rightarrow> (node_row \<times> tdb) res" where
  "finish_node_deployment ref succeeded message version actor username now db =
     (case node_by_ref db ref of
        None \<Rightarrow> Inl (NotFound ''training_node_not_found'')
      | Some n \<Rightarrow>
          returning_node ref
            (add_audit actor (if succeeded then ''node.deployment_succeeded'' else ''node.deployment_failed'') ref
              [(''message'', JStr (py_take 1000 message)), (''worker_version'', opt_json version)] now
              (upd_node (n_id n)
                (\<lambda>x. x\<lparr>n_deployment_status := (if succeeded then DeploySucceeded else DeployFailed),
                       n_deployment_message := Some (py_take 1000 message),
                       n_deployment_finished_at := Some now,
                       n_installed_version := coalesce version (n_installed_version x),
                       n_ssh_username := (if succeeded then keep username (n_ssh_username x) else n_ssh_username x),
                       n_state_revision := n_state_revision x + 1, n_updated_at := now\<rparr>) db)))"

definition begin_node_worker_removal :: "string \<Rightarrow> nat \<Rightarrow> string \<Rightarrow> int \<Rightarrow> tdb \<Rightarrow> (node_row \<times> tdb) res" where
  "begin_node_worker_removal ref expected actor now db =
     rbind (node_at_revision db ref expected) (\<lambda>n.
       if n_deployment_status n = Deploying then Inl (Conflict ''training_node_deployment_in_progress'')
       else if n_installed_version n = None \<and> n_worker_instance n = None \<and> n_enrolled_at n = None
       then Inl (Conflict ''training_node_worker_not_installed'')
       else returning_node ref
         (add_audit actor ''node.worker_removal_started'' ref [] now
           (upd_node (n_id n)
             (\<lambda>x. x\<lparr>n_status := NodeDisabled, n_worker_token_sha256 := None, n_deployment_status := Deploying,
                    n_deployment_message := Some ''Training Worker removal is in progress.'',
                    n_deployment_started_at := Some now, n_deployment_finished_at := None,
                    n_state_revision := n_state_revision x + 1, n_updated_at := now\<rparr>)
             (consume_tokens (n_id n) now db))))"

definition finish_node_worker_removal ::
  "string \<Rightarrow> bool \<Rightarrow> string \<Rightarrow> string \<Rightarrow> int \<Rightarrow> tdb \<Rightarrow> (node_row \<times> tdb) res" where
  "finish_node_worker_removal ref succeeded message actor now db =
     (case node_by_ref db ref of
        None \<Rightarrow> Inl (NotFound ''training_node_not_found'')
      | Some n \<Rightarrow>
          (let text = py_take 1000 message;
               db1 = (if succeeded
                 then upd_node (n_id n)
                   (\<lambda>x. x\<lparr>n_status := PendingEnrollment, n_deployment_status := NotStarted,
                          n_deployment_message := Some text, n_deployment_finished_at := Some now,
                          n_installed_version := None, n_enrolled_at := None, n_last_heartbeat_at := None,
                          n_worker_instance := None, n_worker_version := None, n_protocol_version := None,
                          n_worker_token_sha256 := None, n_health_message := None, n_capabilities := JNull,
                          n_state_revision := n_state_revision x + 1, n_updated_at := now\<rparr>)
                   (db\<lparr>t_node_snapshots := sql_delete (\<lambda>s. ns_node_id s = n_id n) (t_node_snapshots db)\<rparr>)
                 else upd_node (n_id n)
                   (\<lambda>x. x\<lparr>n_status := RepairRequired, n_deployment_status := DeployFailed,
                          n_deployment_message := Some text, n_deployment_finished_at := Some now,
                          n_worker_token_sha256 := None, n_state_revision := n_state_revision x + 1,
                          n_updated_at := now\<rparr>) db) in
           returning_node ref
             (add_audit actor (if succeeded then ''node.worker_removed'' else ''node.worker_removal_failed'') ref
               [(''message'', JStr text)] now db1)))"

end
