(* ===== verification/Node_Properties.thy ===== *)
theory Node_Properties
  imports Node_Registry Center_Example
begin

text \<open>
  What holds of training nodes: a stale edit is refused, an enrollment token works once, a
  disabled node is cut off, and the history of heartbeats stays bounded.
\<close>

section \<open>Frames\<close>

lemma add_audit_frame [simp]:
  "t_nodes (add_audit a b c d e db) = t_nodes db" "t_tokens (add_audit a b c d e db) = t_tokens db"
  "t_entropy (add_audit a b c d e db) = t_entropy db"
  "t_node_snapshots (add_audit a b c d e db) = t_node_snapshots db"
  by (simp_all add: add_audit_def)

lemma upd_node_frame [simp]:
  "t_tokens (upd_node i f db) = t_tokens db" "t_entropy (upd_node i f db) = t_entropy db"
  "t_node_snapshots (upd_node i f db) = t_node_snapshots db"
  by (simp_all add: upd_node_def upd_nodes_def)

lemma consume_tokens_frame [simp]:
  "t_nodes (consume_tokens i now db) = t_nodes db" "t_entropy (consume_tokens i now db) = t_entropy db"
  "t_node_snapshots (consume_tokens i now db) = t_node_snapshots db"
  by (simp_all add: consume_tokens_def)

lemma node_by_ref_cong: "t_nodes db = t_nodes db' \<Longrightarrow> node_by_ref db r = node_by_ref db' r"
  by (simp add: node_by_ref_def)

lemma node_by_refD: "node_by_ref db r = Some n \<Longrightarrow> n \<in> set (t_nodes db) \<and> n_node_ref n = r"
  unfolding node_by_ref_def by (rule fetchone_filterD)

lemma node_by_ref_audit [simp]: "node_by_ref (add_audit a b c d e db) r = node_by_ref db r"
  by (rule node_by_ref_cong) simp

text \<open>Rewriting the row of a node leaves it the row that its reference finds.\<close>

lemma node_by_ref_upd_node:
  assumes "\<And>x. n_node_ref (f x) = n_node_ref x"
  shows "node_by_ref (upd_node i f db) r =
    map_option (\<lambda>x. if n_id x = i then f x else x) (node_by_ref db r)"
  unfolding node_by_ref_def upd_node_def upd_nodes_def
  by (simp add: fetchone_key_update assms)

lemma returning_node_eq: "returning_node r db = Inr (n, db') \<longleftrightarrow> db' = db \<and> node_by_ref db r = Some n"
  by (auto simp: returning_node_def get_node_def split: option.splits)

lemma node_at_revision_eq:
  "node_at_revision db r e = Inr n \<longleftrightarrow> node_by_ref db r = Some n \<and> n_state_revision n = e"
  by (auto simp: node_at_revision_def split: option.splits if_splits)

lemma node_at_revision_stale:
  "node_by_ref db r = Some n \<Longrightarrow> n_state_revision n \<noteq> e \<Longrightarrow>
   node_at_revision db r e = Inl (Conflict ''training_node_revision_conflict'')"
  by (simp add: node_at_revision_def)

section \<open>The optimistic lock\<close>

text \<open>The edits that name the revision they were made against.\<close>

inductive guarded_edit :: "env \<Rightarrow> string \<Rightarrow> nat \<Rightarrow> tdb \<Rightarrow> tdb \<Rightarrow> bool" for E ref e where
  update: "update_node ref e p actor now db = Inr (n, db') \<Longrightarrow> guarded_edit E ref e db db'"
| token: "create_enrollment_token E ref e ttl actor now db = Inr (r, db') \<Longrightarrow> guarded_edit E ref e db db'"
| deploy: "begin_node_deployment ref e alg key fp actor now db = Inr (n, db') \<Longrightarrow> guarded_edit E ref e db db'"
| remove: "begin_node_worker_removal ref e actor now db = Inr (n, db') \<Longrightarrow> guarded_edit E ref e db db'"

definition at_revision :: "string \<Rightarrow> nat \<Rightarrow> tdb \<Rightarrow> bool" where
  "at_revision ref e db \<longleftrightarrow> (\<exists>n. node_by_ref db ref = Some n \<and> n_state_revision n = e)"

lemma at_revision_upd_node:
  assumes "node_by_ref db ref = Some n" "t_nodes db1 = t_nodes db"
    and "n_state_revision n = e"
    and "\<And>x. n_node_ref (f x) = n_node_ref x" "\<And>x. n_state_revision (f x) = Suc (n_state_revision x)"
  shows "at_revision ref (Suc e) (upd_node (n_id n) f db1)"
proof -
  have "node_by_ref db1 ref = Some n" using assms(1) node_by_ref_cong[OF assms(2)] by simp
  then show ?thesis using assms(3-) by (simp add: at_revision_def node_by_ref_upd_node)
qed

lemma at_revision_audit [simp]: "at_revision ref e (add_audit a b c d f db) \<longleftrightarrow> at_revision ref e db"
  by (simp add: at_revision_def)

lemma new_ref_nodes [simp]: "t_nodes (snd (new_ref E p db)) = t_nodes db" "t_tokens (snd (new_ref E p db)) = t_tokens db"
  "t_entropy (snd (new_ref E p db)) = Suc (t_entropy db)"
  by (simp_all add: new_ref_def)

lemma guarded_edit_revision:
  assumes "guarded_edit E ref e db db'"
  shows "at_revision ref (Suc e) db'"
  using assms
proof cases
  case (update p actor now n)
  then show ?thesis
    by (auto simp: update_node_def rbind_eq_Inr node_at_revision_eq returning_node_eq Let_def
        simp del: node_by_ref_audit split: if_splits intro!: at_revision_upd_node)
next
  case (token ttl actor now r)
  then show ?thesis
    by (auto simp: create_enrollment_token_def rbind_eq_Inr node_at_revision_eq returning_node_eq Let_def
        new_ref_def new_token_def autoincrement_def node_by_ref_def
        simp del: node_by_ref_audit split: if_splits intro!: at_revision_upd_node)
next
  case (deploy alg key fp actor now n)
  then show ?thesis
    by (auto simp: begin_node_deployment_def rbind_eq_Inr node_at_revision_eq returning_node_eq
        simp del: node_by_ref_audit split: if_splits intro!: at_revision_upd_node)
next
  case (remove actor now n)
  then show ?thesis
    by (auto simp: begin_node_worker_removal_def rbind_eq_Inr node_at_revision_eq returning_node_eq
        simp del: node_by_ref_audit split: if_splits intro!: at_revision_upd_node)
qed

lemma stale_edit_refused:
  assumes "at_revision ref e' db" "e' \<noteq> e"
  shows "update_node ref e p actor now db = Inl (Conflict ''training_node_revision_conflict'')"
    and "delete_node ref e actor now db = Inl (Conflict ''training_node_revision_conflict'')"
    and "create_enrollment_token E ref e ttl actor now db = Inl (Conflict ''training_node_revision_conflict'')"
    and "begin_node_deployment ref e alg key fp actor now db = Inl (Conflict ''training_node_revision_conflict'')"
    and "begin_node_worker_removal ref e actor now db = Inl (Conflict ''training_node_revision_conflict'')"
proof -
  have *: "node_at_revision db1 ref e = Inl (Conflict ''training_node_revision_conflict'')"
    if "t_nodes db1 = t_nodes db" for db1
    using assms node_by_ref_cong[OF that] by (auto simp: at_revision_def intro: node_at_revision_stale)
  show "update_node ref e p actor now db = Inl (Conflict ''training_node_revision_conflict'')"
    and "delete_node ref e actor now db = Inl (Conflict ''training_node_revision_conflict'')"
    and "begin_node_deployment ref e alg key fp actor now db = Inl (Conflict ''training_node_revision_conflict'')"
    and "begin_node_worker_removal ref e actor now db = Inl (Conflict ''training_node_revision_conflict'')"
    by (simp_all add: update_node_def delete_node_def begin_node_deployment_def begin_node_worker_removal_def *)
  show "create_enrollment_token E ref e ttl actor now db = Inl (Conflict ''training_node_revision_conflict'')"
    by (simp add: create_enrollment_token_def Let_def new_ref_def new_token_def *)
qed

text \<open>
  C29: of two administrators who edit a node from the same revision, the second is refused:
  after an edit against revision \<open>e\<close> succeeded (a change, an enrollment token, the start of a
  deployment or of a removal), every edit or deletion against \<open>e\<close> is a revision conflict.
\<close>

theorem stale_node_edit_refused:
  assumes "guarded_edit E ref e db db'"
  shows "update_node ref e p actor now db' = Inl (Conflict ''training_node_revision_conflict'') \<and>
    delete_node ref e actor now db' = Inl (Conflict ''training_node_revision_conflict'') \<and>
    create_enrollment_token E ref e ttl actor now db' = Inl (Conflict ''training_node_revision_conflict'') \<and>
    begin_node_deployment ref e alg key fp actor now db' = Inl (Conflict ''training_node_revision_conflict'') \<and>
    begin_node_worker_removal ref e actor now db' = Inl (Conflict ''training_node_revision_conflict'')"
  using stale_edit_refused[OF guarded_edit_revision[OF assms]] by simp

definition ex_patch :: node_patch where
  "ex_patch = \<lparr>np_name = Some ''renamed'', np_description = None, np_address = None, np_ssh_port = None,
     np_ssh_username = None, np_status = None, np_desired_state = None\<rparr>"

definition ex_renamed :: tdb where
  "ex_renamed = after (update_node ''node'' 1 ex_patch ''admin'' 20 ex_db) ex_db"

lemma ex_rename_ok: "is_ok (update_node ''node'' 1 ex_patch ''admin'' 20 ex_db)"
  by code_simp

lemma after_ok: "is_ok r \<Longrightarrow> \<exists>a. r = Inr (a, after r db)"
  by (cases r) (auto simp: is_ok_def after_def)

lemma ex_renamed_edit: "guarded_edit ex_env ''node'' 1 ex_db ex_renamed"
  using after_ok[OF ex_rename_ok, of ex_db] guarded_edit.update unfolding ex_renamed_def by blast

theorem stale_node_edit_refused_witness:
  "update_node ''node'' 1 ex_patch ''other'' 21 ex_renamed = Inl (Conflict ''training_node_revision_conflict'')"
  using stale_node_edit_refused[OF ex_renamed_edit] by blast

section \<open>Enrollment tokens\<close>

text \<open>The operations on nodes and their tokens.\<close>

inductive registry_step :: "env \<Rightarrow> tdb \<Rightarrow> tdb \<Rightarrow> bool" for E where
  create: "create_node E d actor now db = Inr (n, db') \<Longrightarrow> registry_step E db db'"
| update: "update_node ref e p actor now db = Inr (n, db') \<Longrightarrow> registry_step E db db'"
| delete: "delete_node ref e actor now db = Inr db' \<Longrightarrow> registry_step E db db'"
| token: "create_enrollment_token E ref e ttl actor now db = Inr (r, db') \<Longrightarrow> registry_step E db db'"
| enroll: "enroll_node E d now db = Inr (r, db') \<Longrightarrow> registry_step E db db'"
| invalidate: "registry_step E db (invalidate_node_enrollment_tokens ref now db)"
| heartbeat: "record_node_heartbeat E ref tok h now db = Inr (n, db') \<Longrightarrow> registry_step E db db'"
| deploy: "begin_node_deployment ref e alg key fp actor now db = Inr (n, db') \<Longrightarrow> registry_step E db db'"
| deployed: "finish_node_deployment ref ok msg ver actor user now db = Inr (n, db') \<Longrightarrow> registry_step E db db'"
| remove: "begin_node_worker_removal ref e actor now db = Inr (n, db') \<Longrightarrow> registry_step E db db'"
| removed: "finish_node_worker_removal ref ok msg actor now db = Inr (n, db') \<Longrightarrow> registry_step E db db'"

definition issued_digest :: "env \<Rightarrow> nat \<Rightarrow> string" where
  "issued_digest E i = token_digest E (''enroll_'' @ token_urlsafe E i)"

text \<open>
  How a step may change the tokens: an old row stays with its digest and, once consumed,
  stays consumed; a new row has the digest of randomness drawn in the step.
\<close>

definition old_token :: "token_row \<Rightarrow> token_row \<Rightarrow> bool" where
  "old_token k k' \<longleftrightarrow> k_sha256 k' = k_sha256 k \<and> (k_consumed_at k \<noteq> None \<longrightarrow> k_consumed_at k' \<noteq> None)"

definition token_frame :: "env \<Rightarrow> tdb \<Rightarrow> tdb \<Rightarrow> bool" where
  "token_frame E db db' \<longleftrightarrow> t_entropy db \<le> t_entropy db' \<and>
     (\<forall>k' \<in> set (t_tokens db'). (\<exists>k \<in> set (t_tokens db). old_token k k') \<or>
        (\<exists>i. t_entropy db \<le> i \<and> i < t_entropy db' \<and> k_sha256 k' = issued_digest E i)) \<and>
     (distinct (map k_sha256 (t_tokens db)) \<longrightarrow> distinct (map k_sha256 (t_tokens db')))"

lemma token_frame_same:
  "t_tokens db' = t_tokens db \<Longrightarrow> t_entropy db \<le> t_entropy db' \<Longrightarrow> token_frame E db db'"
  by (auto simp: token_frame_def old_token_def)

lemma token_frame_update:
  assumes "t_tokens db' = sql_update P (\<lambda>k. k\<lparr>k_consumed_at := Some now\<rparr>) (t_tokens db)"
    and "t_entropy db \<le> t_entropy db'"
  shows "token_frame E db db'"
  unfolding token_frame_def assms(1)
  using assms(2) by (simp add: map_sql_update) (fastforce simp: sql_update_mem old_token_def)

lemma token_frame_delete:
  assumes "t_tokens db' = sql_delete P (t_tokens db)" and "t_entropy db \<le> t_entropy db'"
  shows "token_frame E db db'"
  unfolding token_frame_def assms(1)
  using assms(2) by (auto simp: old_token_def distinct_map_sql_delete)

lemma recovery_frame [simp]:
  "t_tokens (snd (queue_detached_dataset_replica_recovery E n fp actor now db)) = t_tokens db"
  "t_entropy db \<le> t_entropy (snd (queue_detached_dataset_replica_recovery E n fp actor now db))"
  by (auto simp: queue_detached_dataset_replica_recovery_def Let_def new_ref_def add_transfer_def
      insert_node_command_def add_command_def split: option.splits prod.splits)

lemma add_node_snapshot_frame [simp]:
  "t_tokens (add_node_snapshot i r now db) = t_tokens db"
  "t_entropy (add_node_snapshot i r now db) = t_entropy db"
  by (simp_all add: add_node_snapshot_def autoincrement_def Let_def)

lemma consume_tokens_entropy:
  "t_tokens (consume_tokens i now (db\<lparr>t_entropy := m\<rparr>)) = t_tokens (consume_tokens i now db)"
  by (simp add: consume_tokens_def)

lemma create_enrollment_token_frame:
  assumes "create_enrollment_token E ref e ttl actor now db = Inr (r, db')"
  shows "token_frame E db db'"
proof -
  obtain nid k where db': "t_tokens db' = t_tokens (consume_tokens nid now db) @ [k]"
    and k: "k_sha256 k = issued_digest E (t_entropy db)"
    and fresh: "\<forall>x \<in> set (t_tokens (consume_tokens nid now db)). k_sha256 x \<noteq> k_sha256 k"
    and ent: "t_entropy db' = Suc (Suc (t_entropy db))"
    using assms
    by (auto simp: create_enrollment_token_def Let_def new_ref_def new_token_def autoincrement_def
        rbind_eq_Inr returning_node_eq issued_digest_def consume_tokens_entropy split: if_splits)
  have old: "(\<exists>k \<in> set (t_tokens db). old_token k k') \<or> k' = k" if "k' \<in> set (t_tokens db')" for k'
    using that unfolding db' by (auto simp: consume_tokens_def sql_update_mem old_token_def)
  have "map k_sha256 (t_tokens (consume_tokens nid now db)) = map k_sha256 (t_tokens db)"
    by (simp add: consume_tokens_def map_sql_update)
  moreover from this have "k_sha256 k \<notin> k_sha256 ` set (t_tokens db)"
    using fresh unfolding image_iff by (metis imageE image_eqI set_map)
  ultimately have "distinct (map k_sha256 (t_tokens db'))" if "distinct (map k_sha256 (t_tokens db))"
    using that unfolding db' by simp
  then show ?thesis unfolding token_frame_def using old k ent by force
qed

lemma enroll_node_tokens:
  assumes "enroll_node E d now db = Inr (r, db')"
  obtains k where "k \<in> set (t_tokens db)" "k_sha256 k = token_digest E (ei_token d)"
    "t_tokens db' = sql_update (\<lambda>x. k_id x = k_id k \<and> k_consumed_at x = None)
       (\<lambda>x. x\<lparr>k_consumed_at := Some now\<rparr>) (t_tokens db)" "t_entropy db' = Suc (t_entropy db)"
proof -
  from assms obtain k n where *: "token_with_node (snd (new_token E ''worker_'' db)) (token_digest E (ei_token d)) = Some (k, n)"
    and **: "t_tokens db' = sql_update (\<lambda>x. k_id x = k_id k \<and> k_consumed_at x = None)
       (\<lambda>x. x\<lparr>k_consumed_at := Some now\<rparr>) (t_tokens db)" "t_entropy db' = Suc (t_entropy db)"
    by (auto simp: enroll_node_def Let_def new_token_def rbind_eq_Inr returning_node_eq
        split: option.splits if_splits)
  from * have "k \<in> set (t_tokens db)" "k_sha256 k = token_digest E (ei_token d)"
    by (auto simp: token_with_node_def new_token_def dest!: fetchone_mem)
  with ** that show thesis by blast
qed

lemma record_node_heartbeat_db:
  assumes "record_node_heartbeat E ref tok h now db = Inr (n, db')"
  obtains m f fp actor where "authenticated_node E ref tok (hb_instance h) db = Inr m"
    "db' = add_node_snapshot (n_id m) (hb_resources h) now (upd_node (n_id m) f db) \<or>
     db' = snd (queue_detached_dataset_replica_recovery E m fp actor now
       (add_node_snapshot (n_id m) (hb_resources h) now (upd_node (n_id m) f db)))"
  using assms unfolding record_node_heartbeat_def Let_def rbind_eq_Inr
  by (simp add: rbind_eq_Inr returning_node_eq split: if_split_asm) blast+

lemma registry_step_frame:
  assumes "registry_step E db db'"
  shows "token_frame E db db'"
  using assms
proof cases
  case (create d actor now n)
  then show ?thesis
    by (intro token_frame_same) (auto simp: create_node_def Let_def new_ref_def autoincrement_def returning_node_eq split: if_splits)
next
  case (update ref e p actor now n)
  then consider i where "t_tokens db' = t_tokens (consume_tokens i now db)" "t_entropy db' = t_entropy db"
    | "t_tokens db' = t_tokens db" "t_entropy db' = t_entropy db"
    by (auto simp: update_node_def Let_def rbind_eq_Inr returning_node_eq split: if_splits)
  then show ?thesis by cases (auto simp: consume_tokens_def intro: token_frame_same token_frame_update)
next
  case (delete ref e actor now)
  then show ?thesis
    by (auto simp: delete_node_def Let_def rbind_eq_Inr drop_node_def fail_open_verifications_def upd_replicas_def
        split: if_splits intro!: token_frame_delete)
next
  case (token ref e ttl actor now r)
  then show ?thesis by (rule create_enrollment_token_frame)
next
  case (enroll d now r)
  then show ?thesis by (auto elim!: enroll_node_tokens intro: token_frame_update)
next
  case (invalidate ref now)
  then show ?thesis
    by (auto simp: invalidate_node_enrollment_tokens_def consume_tokens_def split: option.splits
        intro: token_frame_same token_frame_update)
next
  case (heartbeat ref tok h now n)
  then show ?thesis
    by (elim record_node_heartbeat_db disjE) (auto intro!: token_frame_same order_trans[OF _ recovery_frame(2)])
next
  case (deploy ref e alg key fp actor now n)
  then show ?thesis
    by (intro token_frame_same) (auto simp: begin_node_deployment_def rbind_eq_Inr returning_node_eq split: if_splits)
next
  case (deployed ref ok msg ver actor user now n)
  then show ?thesis
    by (intro token_frame_same) (auto simp: finish_node_deployment_def returning_node_eq split: option.splits)
next
  case (remove ref e actor now n)
  then obtain i where "t_tokens db' = t_tokens (consume_tokens i now db)" "t_entropy db' = t_entropy db"
    by (auto simp: begin_node_worker_removal_def rbind_eq_Inr returning_node_eq split: if_splits)
  then show ?thesis by (auto simp: consume_tokens_def intro: token_frame_update)
next
  case (removed ref ok msg actor now n)
  then show ?thesis
    by (intro token_frame_same) (auto simp: finish_node_worker_removal_def Let_def returning_node_eq split: option.splits if_splits)
qed

definition tokens_ok :: "env \<Rightarrow> tdb \<Rightarrow> bool" where
  "tokens_ok E db \<longleftrightarrow> distinct (map k_sha256 (t_tokens db)) \<and>
     (\<forall>k \<in> set (t_tokens db). \<exists>i < t_entropy db. k_sha256 k = issued_digest E i)"

interpretation tokens_ts: transition_system "registry_step E" "tokens_ok E" for E
proof
  fix db db' assume ok: "tokens_ok E db" and step: "registry_step E db db'"
  note frame = registry_step_frame[OF step, unfolded token_frame_def]
  have "\<exists>i < t_entropy db'. k_sha256 k' = issued_digest E i" if "k' \<in> set (t_tokens db')" for k'
    using frame ok that unfolding tokens_ok_def old_token_def by (metis order_less_le_trans)
  then show "tokens_ok E db'" using frame ok by (auto simp: tokens_ok_def)
qed

text \<open>Once the token of a given randomness is spent it stays spent.\<close>

definition spent :: "env \<Rightarrow> nat \<Rightarrow> tdb \<Rightarrow> bool" where
  "spent E i db \<longleftrightarrow> i < t_entropy db \<and> (\<forall>k \<in> set (t_tokens db). k_sha256 k = issued_digest E i \<longrightarrow> k_consumed_at k \<noteq> None)"

lemma spent_run:
  assumes "(registry_step E)\<^sup>*\<^sup>* db db'" "spent E i db" "inj (issued_digest E)"
  shows "spent E i db'"
  using assms(1,2)
proof (induction rule: rtranclp_induct)
  case (step db1 db2)
  note frame = registry_step_frame[OF step(2), unfolded token_frame_def]
  have "k_consumed_at k \<noteq> None" if k: "k \<in> set (t_tokens db2)" "k_sha256 k = issued_digest E i" for k
  proof (cases "\<exists>j. t_entropy db1 \<le> j \<and> k_sha256 k = issued_digest E j")
    case True
    then obtain j where "t_entropy db1 \<le> j" "issued_digest E i = issued_digest E j" using k by metis
    then have "t_entropy db1 \<le> i" using injD[OF assms(3)] by blast
    then show ?thesis using step.IH[OF step.prems] by (simp add: spent_def)
  next
    case False
    then obtain q where "q \<in> set (t_tokens db1)" "old_token q k" using frame k by blast
    then show ?thesis using step.IH[OF step.prems] k by (auto simp: spent_def old_token_def)
  qed
  then show ?case using frame step.IH[OF step.prems] by (auto simp: spent_def)
qed

lemma spent_enroll_refused:
  assumes "spent E i db" "token_digest E (ei_token d) = issued_digest E i"
  shows "enroll_node E d now db = Inl (Forbidden ''invalid_enrollment_token'')"
proof (cases "token_with_node (snd (new_token E ''worker_'' db)) (token_digest E (ei_token d))")
  case None
  then show ?thesis by (simp add: enroll_node_def new_token_def)
next
  case (Some kn)
  then obtain k n where kn: "token_with_node (snd (new_token E ''worker_'' db)) (token_digest E (ei_token d)) = Some (k, n)"
    by (cases kn) simp
  then have "k \<in> set (t_tokens db)" "k_sha256 k = token_digest E (ei_token d)"
    by (auto simp: token_with_node_def new_token_def dest!: fetchone_mem)
  then have "\<not> token_usable k now" using assms by (simp add: spent_def token_usable_def)
  then show ?thesis using kn by (simp add: enroll_node_def new_token_def)
qed

text \<open>
  C28: an enrollment token enrols one Worker.  From a centre without tokens, after any node
  operations and a successful enrollment, no later enrollment with the same token succeeds,
  whatever node operations lie in between (deleting the node and issuing further tokens
  included), provided the randomness behind tokens and their digest does not collide.
\<close>

theorem enrollment_token_single_use:
  assumes "t_tokens db0 = []" and "(registry_step E)\<^sup>*\<^sup>* db0 db"
    and "enroll_node E d now db = Inr (r, db1)" and "(registry_step E)\<^sup>*\<^sup>* db1 db2"
    and "ei_token d' = ei_token d" and "inj (issued_digest E)"
  shows "enroll_node E d' now' db2 = Inl (Forbidden ''invalid_enrollment_token'')"
proof -
  have ok: "tokens_ok E db" using tokens_ts.run_inv[OF assms(2)] assms(1) by (simp add: tokens_ok_def)
  obtain k where k: "k \<in> set (t_tokens db)" "k_sha256 k = token_digest E (ei_token d)"
    and t: "t_tokens db1 = sql_update (\<lambda>x. k_id x = k_id k \<and> k_consumed_at x = None)
       (\<lambda>x. x\<lparr>k_consumed_at := Some now\<rparr>) (t_tokens db)" "t_entropy db1 = Suc (t_entropy db)"
    by (rule enroll_node_tokens[OF assms(3)])
  obtain i where i: "i < t_entropy db" "k_sha256 k = issued_digest E i" using ok k by (auto simp: tokens_ok_def)
  have "q = k" if "q \<in> set (t_tokens db)" "k_sha256 q = k_sha256 k" for q
    using ok k(1) that unfolding tokens_ok_def distinct_map inj_on_def by blast
  then have "k_consumed_at x \<noteq> None" if "x \<in> set (t_tokens db1)" "k_sha256 x = issued_digest E i" for x
    using that i(2) unfolding t(1) sql_update_mem by (metis (mono_tags, lifting) option.distinct(1)
        token_row.select_convs(4,8) token_row.surjective token_row.update_convs(8))
  then have "spent E i db1" unfolding spent_def using i(1) t(2) by simp
  then have "spent E i db2" by (rule spent_run[OF assms(4) _ assms(6)])
  then show ?thesis using spent_enroll_refused i k assms(5) by metis
qed

definition ex_token_env :: env where
  "ex_token_env = ex_env\<lparr>token_urlsafe := (\<lambda>i. replicate i CHR ''x'')\<rparr>"

definition ex_enroll :: enroll_input where
  "ex_enroll = \<lparr>ei_token = ''enroll_'', ei_instance = ''w2'', ei_version = ''2'', ei_protocol = 1,
     ei_capabilities = JObj []\<rparr>"

definition ex_tokened :: tdb where
  "ex_tokened = after (create_enrollment_token ex_token_env ''node'' 1 600 ''admin'' 10 ex_db) ex_db"

definition ex_enrolled :: tdb where
  "ex_enrolled = after (enroll_node ex_token_env ex_enroll 20 ex_tokened) ex_tokened"

lemma ex_tokened_ok: "is_ok (create_enrollment_token ex_token_env ''node'' 1 600 ''admin'' 10 ex_db)"
  by code_simp

lemma ex_enrolled_ok: "is_ok (enroll_node ex_token_env ex_enroll 20 ex_tokened)"
  by code_simp

lemma ex_digests_inj: "inj (issued_digest ex_token_env)"
  by (rule injI) (simp add: issued_digest_def token_digest_def ex_token_env_def ex_env_def)

theorem enrollment_token_single_use_witness:
  "is_ok (enroll_node ex_token_env ex_enroll 20 ex_tokened) \<and>
   enroll_node ex_token_env ex_enroll 30 ex_enrolled = Inl (Forbidden ''invalid_enrollment_token'')"
proof -
  obtain r where "create_enrollment_token ex_token_env ''node'' 1 600 ''admin'' 10 ex_db = Inr (r, ex_tokened)"
    using after_ok[OF ex_tokened_ok, of ex_db] unfolding ex_tokened_def by blast
  then have "(registry_step ex_token_env)\<^sup>*\<^sup>* ex_db ex_tokened"
    by (intro r_into_rtranclp registry_step.token)
  moreover obtain q where "enroll_node ex_token_env ex_enroll 20 ex_tokened = Inr (q, ex_enrolled)"
    using after_ok[OF ex_enrolled_ok, of ex_tokened] unfolding ex_enrolled_def by blast
  moreover have "t_tokens ex_db = []" by (simp add: ex_db_def empty_tdb_def)
  ultimately show ?thesis
    using enrollment_token_single_use[of ex_db ex_token_env ex_tokened ex_enroll 20 q ex_enrolled ex_enrolled ex_enroll 30]
      ex_digests_inj ex_enrolled_ok by blast
qed

section \<open>Disabling a node\<close>

text \<open>The node is disabled: no credential is stored and no token of the node is left to use.\<close>

definition cut_off :: "string \<Rightarrow> tdb \<Rightarrow> bool" where
  "cut_off ref db \<longleftrightarrow> (\<exists>n. node_by_ref db ref = Some n \<and> n_status n = NodeDisabled \<and>
     n_worker_token_sha256 n = None \<and> (\<forall>k \<in> set (t_tokens db). k_node_id k = n_id n \<longrightarrow> k_consumed_at k \<noteq> None))"

lemma consume_tokens_consumed:
  "k \<in> set (t_tokens (consume_tokens i now db)) \<Longrightarrow> k_node_id k = i \<Longrightarrow> k_consumed_at k \<noteq> None"
  unfolding consume_tokens_def by (simp add: sql_update_mem) (elim bexE, simp split: if_splits)

lemma cut_off_upd_node:
  assumes n: "node_by_ref db ref = Some n"
    and f: "\<And>x. n_node_ref (f x) = n_node_ref x" "\<And>x. n_id (f x) = n_id x"
      "\<And>x. n_status (f x) = NodeDisabled" "\<And>x. n_worker_token_sha256 (f x) = None"
  shows "cut_off ref (add_audit a b c d e (upd_node (n_id n) f (consume_tokens (n_id n) now db)))"
proof -
  have "node_by_ref (consume_tokens (n_id n) now db) ref = Some n"
    using n node_by_ref_cong[of "consume_tokens (n_id n) now db" db] by simp
  then show ?thesis unfolding cut_off_def
    using consume_tokens_consumed[of _ "n_id n" now db] by (auto simp: node_by_ref_upd_node f)
qed

lemma update_node_disables:
  assumes "update_node ref e p actor now db = Inr (n, db')" "np_desired_state p = Some NodeDisabled"
  shows "cut_off ref db'"
  using assms
  by (auto simp: update_node_def Let_def rbind_eq_Inr node_at_revision_eq returning_node_eq keep_def
      simp del: node_by_ref_audit split: if_splits intro!: cut_off_upd_node)

lemma begin_node_worker_removal_disables:
  assumes "begin_node_worker_removal ref e actor now db = Inr (n, db')"
  shows "cut_off ref db'"
  using assms
  by (auto simp: begin_node_worker_removal_def rbind_eq_Inr node_at_revision_eq returning_node_eq
      simp del: node_by_ref_audit split: if_splits intro!: cut_off_upd_node)


definition ex_disable :: node_patch where
  "ex_disable = ex_patch\<lparr>np_name := None, np_desired_state := Some NodeDisabled\<rparr>"


section \<open>The history of heartbeats\<close>

definition node_history :: "nat \<Rightarrow> tdb \<Rightarrow> snapshot_row list" where
  "node_history i db = filter (\<lambda>s. ns_node_id s = i) (t_node_snapshots db)"

text \<open>The keys handed out stay below the counter, and no key is used twice.\<close>

definition snapshots_ok :: "tdb \<Rightarrow> bool" where
  "snapshots_ok db \<longleftrightarrow> distinct (map ns_id (t_node_snapshots db)) \<and>
     (\<forall>s \<in> set (t_node_snapshots db). ns_id s \<le> t_seq db ''training_node_resource_snapshots'')"

lemma sorted_filter_take:
  fixes xs :: "nat list"
  assumes "distinct xs"
  shows "length (filter (\<lambda>x. x \<in> set (take m (rev (sort xs)))) xs) = min m (length xs)"
proof -
  let ?T = "take m (rev (sort xs))"
  have "length (filter (\<lambda>x. x \<in> set ?T) xs) = card (set (filter (\<lambda>x. x \<in> set ?T) xs))"
    using assms by (simp only: distinct_card distinct_filter)
  also have "set (filter (\<lambda>x. x \<in> set ?T) xs) = set ?T"
    using set_take_subset[of m "rev (sort xs)"] by auto
  also have "card (set ?T) = length ?T" using assms by (simp add: distinct_card)
  finally show ?thesis by simp
qed

lemma sorted_le_last: "sorted ys \<Longrightarrow> a \<in> set ys \<Longrightarrow> a \<le> last ys"
  by (induction ys) auto

lemma max_in_take_rev_sort:
  fixes xs :: "nat list"
  assumes "xs \<noteq> []" "0 < m" "\<forall>x \<in> set xs. x \<le> a" "a \<in> set xs"
  shows "a \<in> set (take m (rev (sort xs)))"
proof -
  have "last (sort xs) = a"
  proof -
    have "last (sort xs) \<in> set xs" using assms(1) by (metis last_in_set set_sort sort_key_simps(1) length_0_conv length_sort)
    moreover have "a \<le> last (sort xs)" by (rule sorted_le_last) (simp_all add: assms(4))
    ultimately show ?thesis using assms(3) by (meson le_antisym)
  qed
  moreover have "hd (rev (sort xs)) = last (sort xs)" by (simp add: hd_rev)
  moreover have "rev (sort xs) \<noteq> []" using assms(1) by (metis length_0_conv length_rev length_sort)
  ultimately show ?thesis using assms(2) by (metis hd_in_set hd_take take_eq_Nil2 not_gr_zero)
qed

lemma add_node_snapshot_history:
  fixes db i r now
  defines "s \<equiv> \<lparr>ns_id = Suc (t_seq db ''training_node_resource_snapshots''), ns_node_id = i, ns_captured_at = now, ns_resources = r\<rparr>"
  assumes ok: "snapshots_ok db"
  shows "length (node_history i (add_node_snapshot i r now db)) = min SNAPSHOTS_KEPT (Suc (length (node_history i db)))"
    and "s \<in> set (node_history i (add_node_snapshot i r now db))"
    and "j \<noteq> i \<Longrightarrow> node_history j (add_node_snapshot i r now db) = node_history j db"
    and "snapshots_ok (add_node_snapshot i r now db)"
proof -
  let ?all = "t_node_snapshots db @ [s]"
  let ?mine = "filter (\<lambda>s. ns_node_id s = i) ?all"
  let ?keep = "take SNAPSHOTS_KEPT (rev (sort (map ns_id ?mine)))"
  let ?db' = "add_node_snapshot i r now db"
  have t: "t_node_snapshots ?db' = filter (\<lambda>x. \<not> (ns_node_id x = i \<and> ns_id x \<notin> set ?keep)) ?all"
    "t_seq ?db' ''training_node_resource_snapshots'' = Suc (t_seq db ''training_node_resource_snapshots'')"
    by (simp_all add: add_node_snapshot_def autoincrement_def newest_ids_def sql_delete_def Let_def s_def)
  have fresh: "ns_id s \<notin> ns_id ` set (t_node_snapshots db)"
    using ok by (fastforce simp: snapshots_ok_def s_def)
  have dist: "distinct (map ns_id ?all)" using ok fresh by (simp add: snapshots_ok_def)
  have h: "node_history i ?db' = filter (\<lambda>x. ns_id x \<in> set ?keep) ?mine"
    unfolding node_history_def t filter_filter by (rule filter_cong) auto
  have dm: "distinct (map ns_id ?mine)" using dist by (rule distinct_map_filter)
  have "length (node_history i ?db') = length (filter (\<lambda>n. n \<in> set ?keep) (map ns_id ?mine))"
    unfolding h by (simp add: filter_map o_def)
  also have "\<dots> = min SNAPSHOTS_KEPT (length (map ns_id ?mine))" by (rule sorted_filter_take[OF dm])
  also have "length (map ns_id ?mine) = Suc (length (node_history i db))"
    by (simp add: node_history_def s_def)
  finally show "length (node_history i ?db') = min SNAPSHOTS_KEPT (Suc (length (node_history i db)))" .
  have top: "\<forall>n \<in> set (map ns_id ?mine). n \<le> ns_id s" using ok by (fastforce simp: snapshots_ok_def s_def)
  have sm: "s \<in> set ?mine" by (simp add: s_def)
  then have "ns_id s \<in> set ?keep"
    using top by (intro max_in_take_rev_sort) (simp_all add: SNAPSHOTS_KEPT_def s_def)
  with sm show "s \<in> set (node_history i ?db')" unfolding h by simp
  show "node_history j ?db' = node_history j db" if "j \<noteq> i"
    using that unfolding node_history_def t filter_filter by (simp add: s_def conj_commute cong: conj_cong filter_cong)
  have "distinct (map ns_id (t_node_snapshots ?db'))" unfolding t using dist by (rule distinct_map_filter)
  moreover have "ns_id x \<le> t_seq ?db' ''training_node_resource_snapshots''" if "x \<in> set (t_node_snapshots ?db')" for x
  proof -
    have "x \<in> set ?all" using that unfolding t set_filter by blast
    then show ?thesis unfolding t(2) using ok by (auto simp: snapshots_ok_def s_def le_SucI)
  qed
  ultimately show "snapshots_ok ?db'" by (simp add: snapshots_ok_def)
qed

lemma recovery_snapshots [simp]:
  "t_node_snapshots (snd (queue_detached_dataset_replica_recovery E n fp actor now db)) = t_node_snapshots db"
  "t_seq (snd (queue_detached_dataset_replica_recovery E n fp actor now db)) = t_seq db"
  by (auto simp: queue_detached_dataset_replica_recovery_def Let_def new_ref_def add_transfer_def
      insert_node_command_def add_command_def add_audit_def split: option.splits prod.splits)

lemma record_node_heartbeat_snapshots:
  assumes "record_node_heartbeat E ref tok h now db = Inr (n, db')"
  obtains m where "node_by_ref db ref = Some m"
    "t_node_snapshots db' = t_node_snapshots (add_node_snapshot (n_id m) (hb_resources h) now db)"
    "t_seq db' = t_seq (add_node_snapshot (n_id m) (hb_resources h) now db)"
proof -
  from assms obtain m f fp actor where m: "authenticated_node E ref tok (hb_instance h) db = Inr m"
    and db': "db' = add_node_snapshot (n_id m) (hb_resources h) now (upd_node (n_id m) f db) \<or>
     db' = snd (queue_detached_dataset_replica_recovery E m fp actor now
       (add_node_snapshot (n_id m) (hb_resources h) now (upd_node (n_id m) f db)))"
    by (rule record_node_heartbeat_db)
  have "t_node_snapshots db' = t_node_snapshots (add_node_snapshot (n_id m) (hb_resources h) now (upd_node (n_id m) f db))"
    "t_seq db' = t_seq (add_node_snapshot (n_id m) (hb_resources h) now (upd_node (n_id m) f db))"
    using db' by auto
  moreover have "t_node_snapshots (add_node_snapshot i r now (upd_node i f db)) = t_node_snapshots (add_node_snapshot i r now db)"
    "t_seq (add_node_snapshot i r now (upd_node i f db)) = t_seq (add_node_snapshot i r now db)" for i r
    by (simp_all add: add_node_snapshot_def autoincrement_def newest_ids_def Let_def upd_node_def upd_nodes_def)
  moreover have "node_by_ref db ref = Some m" using m by (auto simp: authenticated_node_def split: option.splits if_splits)
  ultimately show thesis using that by simp
qed

text \<open>
  a heartbeat stores the reported resources as the newest snapshot of the node and keeps
  at most 1000 of the node's snapshots, dropping one only when the limit is reached; the
  snapshots of other nodes stay, and snapshot keys stay unique.
\<close>

theorem heartbeat_history_bounded:
  assumes "snapshots_ok db" and "record_node_heartbeat E ref tok h now db = Inr (n, db')"
  shows "\<exists>m. node_by_ref db ref = Some m \<and> snapshots_ok db' \<and>
    length (node_history (n_id m) db') = min 1000 (Suc (length (node_history (n_id m) db))) \<and>
    (\<exists>s \<in> set (node_history (n_id m) db'). ns_resources s = hb_resources h \<and> ns_captured_at s = now \<and>
       (\<forall>x \<in> set (node_history (n_id m) db). ns_id x < ns_id s)) \<and>
    (\<forall>j. j \<noteq> n_id m \<longrightarrow> node_history j db' = node_history j db)"
proof -
  obtain m where m: "node_by_ref db ref = Some m"
    and eq: "t_node_snapshots db' = t_node_snapshots (add_node_snapshot (n_id m) (hb_resources h) now db)"
      "t_seq db' = t_seq (add_node_snapshot (n_id m) (hb_resources h) now db)"
    by (rule record_node_heartbeat_snapshots[OF assms(2)])
  let ?db1 = "add_node_snapshot (n_id m) (hb_resources h) now db"
  have hist: "node_history j db' = node_history j ?db1" for j by (simp add: node_history_def eq)
  have "snapshots_ok db' = snapshots_ok ?db1" by (simp add: snapshots_ok_def eq)
  moreover have "ns_id x < Suc (t_seq db ''training_node_resource_snapshots'')" if "x \<in> set (node_history (n_id m) db)" for x
    using that assms(1) by (simp add: node_history_def snapshots_ok_def le_imp_less_Suc)
  ultimately show ?thesis
    using add_node_snapshot_history[OF assms(1), where i = "n_id m" and r = "hb_resources h" and now = now] m
    unfolding hist by (intro exI[of _ m] conjI bexI[of _ "\<lparr>ns_id = Suc (t_seq db ''training_node_resource_snapshots''),
        ns_node_id = n_id m, ns_captured_at = now, ns_resources = hb_resources h\<rparr>"]) (simp_all add: SNAPSHOTS_KEPT_def)
qed

definition ex_heartbeat :: heartbeat_input where
  "ex_heartbeat = \<lparr>hb_health = Healthy, hb_instance = ''w'', hb_version = ''1'', hb_protocol = 1,
     hb_message = None, hb_capabilities = JNull, hb_resources = JObj []\<rparr>"

theorem heartbeat_history_bounded_witness:
  "length (node_history 1 (after (record_node_heartbeat ex_env ''node'' ''tok'' ex_heartbeat 30 ex_db) ex_db)) = 1"
proof -
  have "is_ok (record_node_heartbeat ex_env ''node'' ''tok'' ex_heartbeat 30 ex_db)" by code_simp
  then obtain n where *: "record_node_heartbeat ex_env ''node'' ''tok'' ex_heartbeat 30 ex_db =
      Inr (n, after (record_node_heartbeat ex_env ''node'' ''tok'' ex_heartbeat 30 ex_db) ex_db)"
    using after_ok by blast
  have "snapshots_ok ex_db" "node_by_ref ex_db ''node'' = Some ex_node" "n_id ex_node = 1" "node_history 1 ex_db = []"
    by (simp_all add: snapshots_ok_def node_by_ref_def node_history_def ex_db_def empty_tdb_def ex_node_def)
  then show ?thesis using heartbeat_history_bounded[OF _ *] by auto
qed

end
