(* ===== verification/Model_Properties.thy ===== *)
theory Model_Properties
  imports Model_Registry Node_Properties
begin

text \<open>
  What verification of a model configuration promises: a model counts as verified only while
  its current configuration is the one a Worker verified, so a real run is only created for a
  configuration that was verified as it is.
\<close>

section \<open>The invariant\<close>

definition certified :: "tdb \<Rightarrow> model_row \<Rightarrow> bool" where
  "certified db m \<longleftrightarrow> (\<exists>rv \<in> set (t_revisions db). \<exists>v \<in> set (t_verifications db).
     rv_model_id rv = md_id m \<and> rv_number rv = md_current_revision m \<and>
     mv_model_id v = md_id m \<and> mv_revision_id v = rv_id rv \<and> mv_status v = VSucceeded)"

definition models_ok :: "tdb \<Rightarrow> bool" where
  "models_ok db \<longleftrightarrow> distinct (map md_id (t_models db)) \<and> distinct (map mv_id (t_verifications db)) \<and>
     distinct (map (\<lambda>r. (rv_model_id r, rv_number r)) (t_revisions db)) \<and>
     (\<forall>m \<in> set (t_models db). md_status m = Verified \<longrightarrow> certified db m)"

text \<open>
  Every operation on models, the deletion of a node, and any operation that leaves the tables
  of models, configurations and verifications alone.
\<close>

inductive model_step :: "env \<Rightarrow> tdb \<Rightarrow> tdb \<Rightarrow> bool" for E where
  create: "create_model E d actor now db = Inr (r, db') \<Longrightarrow> model_step E db db'"
| update: "update_model E f e d actor now db = Inr db' \<Longrightarrow> model_step E db db'"
| request: "request_model_verification E f e actor now db = Inr db' \<Longrightarrow> model_step E db db'"
| claim: "claim_model_verification ref w now db = (r, db') \<Longrightarrow> model_step E db db'"
| finish: "finish_model_verification E ref tok w vref ok checks now db = Inr (s, db') \<Longrightarrow> model_step E db db'"
| delete_node: "delete_node ref e actor now db = Inr db' \<Longrightarrow> model_step E db db'"
| other: "t_models db' = t_models db \<Longrightarrow> t_revisions db' = t_revisions db \<Longrightarrow>
    t_verifications db' = t_verifications db \<Longrightarrow> model_step E db db'"

section \<open>Every operation keeps it\<close>

lemma certified_mono:
  assumes "certified db m" "md_id m' = md_id m" "md_current_revision m' = md_current_revision m"
    and "set (t_revisions db) \<subseteq> set (t_revisions db')"
    and "\<And>v. v \<in> set (t_verifications db) \<Longrightarrow> mv_status v = VSucceeded \<Longrightarrow>
      \<exists>v' \<in> set (t_verifications db'). mv_model_id v' = mv_model_id v \<and> mv_revision_id v' = mv_revision_id v \<and> mv_status v' = VSucceeded"
  shows "certified db' m'"
proof -
  obtain rv v where rv: "rv \<in> set (t_revisions db)" "rv_model_id rv = md_id m" "rv_number rv = md_current_revision m"
    and v: "v \<in> set (t_verifications db)" "mv_model_id v = md_id m" "mv_revision_id v = rv_id rv" "mv_status v = VSucceeded"
    using assms(1) unfolding certified_def by blast
  from assms(5)[OF v(1,4)] obtain v' where v': "v' \<in> set (t_verifications db')" "mv_model_id v' = mv_model_id v"
    "mv_revision_id v' = mv_revision_id v" "mv_status v' = VSucceeded" by blast
  have "rv \<in> set (t_revisions db')" using assms(4) rv(1) by blast
  then show ?thesis unfolding certified_def
    by (rule bexI[rotated]) (rule bexI[OF _ v'(1)], simp add: assms(2,3) rv v v')
qed

lemma insert_revision_eq:
  assumes "insert_revision E mid ref n d now db = Inr db'"
  obtains rv where "db' = db\<lparr>t_revisions := t_revisions db @ [rv]\<rparr>" "rv_model_id rv = mid" "rv_number rv = n"
    "\<forall>r \<in> set (t_revisions db). (rv_model_id r, rv_number r) \<noteq> (mid, n)"
proof -
  from assms obtain w en ro where
    *: "\<not> (\<exists>r \<in> set (t_revisions db). rv_revision_ref r = ref \<or> rv_model_id r = mid \<and> rv_number r = n)"
    and db': "db' = db\<lparr>t_revisions := t_revisions db @ [new_revision mid ref n d w en ro now db]\<rparr>"
    by (simp add: insert_revision_def rbind_eq_Inr Let_def split: if_split_asm) (elim exE conjE, blast)
  from * have "\<forall>r \<in> set (t_revisions db). (rv_model_id r, rv_number r) \<noteq> (mid, n)" by simp
  then show thesis by (intro that[OF db']) (simp_all add: new_revision_def)
qed

lemma create_model_tables:
  assumes "create_model E d actor now db = Inr (r, db')"
  obtains m rv where "t_models db' = t_models db @ [m]" "md_id m = next_id (map md_id (t_models db))" "md_status m = Draft"
    "t_revisions db' = t_revisions db @ [rv]"
    "\<forall>r \<in> set (t_revisions db). (rv_model_id r, rv_number r) \<noteq> (rv_model_id rv, rv_number rv)"
    "t_verifications db' = t_verifications db"
proof -
  from assms have "\<exists>ref db4 db5. insert_revision E (next_id (map md_id (t_models db))) ref 1 d now db4 = Inr db5 \<and>
      (\<exists>m. t_models db4 = t_models db @ [m] \<and> md_id m = next_id (map md_id (t_models db)) \<and> md_status m = Draft) \<and>
      t_revisions db4 = t_revisions db \<and> t_verifications db4 = t_verifications db \<and>
      t_models db' = t_models db5 \<and> t_revisions db' = t_revisions db5 \<and> t_verifications db' = t_verifications db5"
    by (simp add: create_model_def Let_def new_ref_def rbind_eq_Inr add_audit_def)
      (elim exE conjE, hypsubst, intro exI, rule conjI, assumption, simp)
  then obtain ref db4 db5 m where *: "insert_revision E (next_id (map md_id (t_models db))) ref 1 d now db4 = Inr db5"
    and m: "t_models db4 = t_models db @ [m]" "md_id m = next_id (map md_id (t_models db))" "md_status m = Draft"
    and o4: "t_revisions db4 = t_revisions db" "t_verifications db4 = t_verifications db"
    and o5: "t_models db' = t_models db5" "t_revisions db' = t_revisions db5" "t_verifications db' = t_verifications db5"
    by (elim exE conjE)
  from * obtain rv where rv: "db5 = db4\<lparr>t_revisions := t_revisions db4 @ [rv]\<rparr>"
    "rv_model_id rv = next_id (map md_id (t_models db))" "rv_number rv = 1"
    "\<forall>r \<in> set (t_revisions db4). (rv_model_id r, rv_number r) \<noteq> (next_id (map md_id (t_models db)), 1)"
    by (rule insert_revision_eq)
  show thesis using m rv(2-4) o4 o5 by (intro that[of m rv]) (simp_all add: rv(1))
qed

lemma create_model_ok:
  assumes "create_model E d actor now db = Inr (r, db')" "models_ok db"
  shows "models_ok db'"
proof -
  obtain m rv where m: "t_models db' = t_models db @ [m]" "md_id m = next_id (map md_id (t_models db))" "md_status m = Draft"
    and rv: "t_revisions db' = t_revisions db @ [rv]" "\<forall>r \<in> set (t_revisions db). (rv_model_id r, rv_number r) \<noteq> (rv_model_id rv, rv_number rv)"
    and v: "t_verifications db' = t_verifications db"
    by (rule create_model_tables[OF assms(1)])
  have "certified db' x" if "x \<in> set (t_models db)" "md_status x = Verified" for x
  proof -
    have "certified db x" using assms(2) that by (simp add: models_ok_def)
    then show ?thesis by (rule certified_mono[OF _ refl refl]) (auto simp: rv v)
  qed
  moreover have "distinct (map md_id (t_models db'))"
    using assms(2) next_id_fresh[of "map md_id (t_models db)"] by (simp add: models_ok_def m)
  moreover have "distinct (map (\<lambda>r. (rv_model_id r, rv_number r)) (t_revisions db'))"
    using assms(2) rv(2) by (force simp: models_ok_def rv(1))
  ultimately show ?thesis using assms(2) unfolding models_ok_def m(1) v by (auto simp: m(3))
qed

lemma edited_model_simps [simp]:
  "md_id (edited_model d o' r now x) = md_id x" "md_status (edited_model d o' r now x) = Draft"
  by (simp_all add: edited_model_def)

lemma judged_model_simps [simp]:
  "md_id (judged_model ok now x) = md_id x" "md_current_revision (judged_model ok now x) = md_current_revision x"
  "md_status (judged_model ok now x) = (if ok then Verified else Draft)"
  by (simp_all add: judged_model_def)

lemma finished_verification_simps [simp]:
  "mv_id (finished_verification ok cs now x) = mv_id x" "mv_model_id (finished_verification ok cs now x) = mv_model_id x"
  "mv_revision_id (finished_verification ok cs now x) = mv_revision_id x"
  "mv_status (finished_verification ok cs now x) = (if ok then VSucceeded else VFailed)"
  by (simp_all add: finished_verification_def)

lemma update_model_tables:
  assumes "update_model E f e d actor now db = Inr db'"
  obtains m :: model_row and r rv where "t_models db' = sql_update (\<lambda>x. md_id x = md_id m) (edited_model d (md_description m) r now) (t_models db)"
    "t_revisions db' = t_revisions db @ [rv]"
    "\<forall>r \<in> set (t_revisions db). (rv_model_id r, rv_number r) \<noteq> (rv_model_id rv, rv_number rv)"
    "t_verifications db' = t_verifications db"
proof -
  obtain m where m: "family_model db f = Some m"
    using assms by (cases "family_model db f") (simp_all add: update_model_def)
  let ?r = "e + 1"
  let ?db = "upd_model (md_id m) (edited_model d (md_description m) ?r now) (snd (new_ref E ''mrev'' db))"
  from assms m have "\<exists>db1. insert_revision E (md_id m) (fst (new_ref E ''mrev'' db)) ?r d now ?db = Inr db1 \<and>
      t_models db' = t_models db1 \<and> t_revisions db' = t_revisions db1 \<and> t_verifications db' = t_verifications db1"
    by (simp add: update_model_def Let_def case_prod_beta rbind_eq_Inr add_audit_def split: if_split_asm)
      (elim exE conjE, hypsubst, intro exI, rule conjI, assumption, simp)
  then obtain db1 where *: "insert_revision E (md_id m) (fst (new_ref E ''mrev'' db)) ?r d now ?db = Inr db1"
    and o1: "t_models db' = t_models db1" "t_revisions db' = t_revisions db1" "t_verifications db' = t_verifications db1"
    by (elim exE conjE)
  have odb: "t_models ?db = sql_update (\<lambda>x. md_id x = md_id m) (edited_model d (md_description m) ?r now) (t_models db)"
    "t_revisions ?db = t_revisions db" "t_verifications ?db = t_verifications db"
    by (simp_all add: upd_model_def new_ref_def)
  from * obtain rv where rv: "db1 = ?db\<lparr>t_revisions := t_revisions ?db @ [rv]\<rparr>" "rv_model_id rv = md_id m" "rv_number rv = ?r"
    "\<forall>r \<in> set (t_revisions ?db). (rv_model_id r, rv_number r) \<noteq> (md_id m, ?r)"
    by (rule insert_revision_eq)
  show thesis using rv(2-4) odb o1 by (intro that[of m ?r rv]) (simp_all add: rv(1))
qed

lemma update_model_ok:
  assumes "update_model E f e d actor now db = Inr db'" "models_ok db"
  shows "models_ok db'"
proof -
  obtain m :: model_row and r rv where m: "t_models db' = sql_update (\<lambda>x. md_id x = md_id m) (edited_model d (md_description m) r now) (t_models db)"
    and rv: "t_revisions db' = t_revisions db @ [rv]"
      "\<forall>r \<in> set (t_revisions db). (rv_model_id r, rv_number r) \<noteq> (rv_model_id rv, rv_number rv)"
    and v: "t_verifications db' = t_verifications db"
    by (rule update_model_tables[OF assms(1)])
  have "certified db' x" if "x \<in> set (t_models db')" "md_status x = Verified" for x
  proof -
    have "x \<in> set (t_models db)" using that unfolding m sql_update_mem by (metis edited_model_simps(2) model_status.distinct(1))
    with that assms(2) have "certified db x" by (simp add: models_ok_def)
    then show ?thesis by (rule certified_mono[OF _ refl refl]) (auto simp: rv v)
  qed
  moreover have "distinct (map md_id (t_models db'))"
    using assms(2) by (simp add: models_ok_def m map_sql_update)
  moreover have "distinct (map (\<lambda>r. (rv_model_id r, rv_number r)) (t_revisions db'))"
    using assms(2) rv(2) by (force simp: models_ok_def rv(1))
  ultimately show ?thesis using assms(2) unfolding models_ok_def v by blast
qed

text \<open>Operations on verifications that leave the succeeded ones.\<close>

lemma verifications_ok:
  assumes "models_ok db" "t_models db' = t_models db" "t_revisions db' = t_revisions db"
    and "distinct (map mv_id (t_verifications db'))"
    and "\<And>v. v \<in> set (t_verifications db) \<Longrightarrow> mv_status v = VSucceeded \<Longrightarrow>
      \<exists>v' \<in> set (t_verifications db'). mv_model_id v' = mv_model_id v \<and> mv_revision_id v' = mv_revision_id v \<and> mv_status v' = VSucceeded"
  shows "models_ok db'"
proof -
  have "certified db' x" if "x \<in> set (t_models db)" "md_status x = Verified" for x
  proof -
    have "certified db x" using assms(1) that by (simp add: models_ok_def)
    then show ?thesis by (rule certified_mono[OF _ refl refl]) (simp add: assms(3), rule assms(5))
  qed
  then show ?thesis using assms(1-4) by (simp add: models_ok_def)
qed

lemma request_model_verification_ok:
  assumes "request_model_verification E f e actor now db = Inr db'" "models_ok db"
  shows "models_ok db'"
proof -
  obtain v where v: "t_verifications db' = t_verifications db @ [v]" "mv_id v = next_id (map mv_id (t_verifications db))"
    "t_models db' = t_models db" "t_revisions db' = t_revisions db"
    using assms(1)
    by (auto simp: request_model_verification_def Let_def new_ref_def rbind_eq_Inr add_audit_def
        split: option.splits if_splits json.splits)
  show ?thesis
    using assms(2) next_id_fresh[of "map mv_id (t_verifications db)"]
    by (intro verifications_ok[OF assms(2)]) (auto simp: v models_ok_def)
qed

lemma sql_update_keeps: "v \<in> set t \<Longrightarrow> \<not> P v \<Longrightarrow> v \<in> set (sql_update P f t)"
  by (auto simp: sql_update_mem)

lemma upd_verifications_ok:
  assumes "models_ok db" "\<And>v. mv_id (f v) = mv_id v" "\<And>v. P v \<Longrightarrow> mv_status v \<noteq> VSucceeded"
  shows "models_ok (upd_verifications P f db)"
proof (rule verifications_ok[OF assms(1)])
  show "distinct (map mv_id (t_verifications (upd_verifications P f db)))"
    using assms by (simp add: upd_verifications_def map_sql_update models_ok_def)
next
  fix v assume "v \<in> set (t_verifications db)" "mv_status v = VSucceeded"
  then have "v \<in> set (t_verifications (upd_verifications P f db))"
    using assms(3) unfolding upd_verifications_def by (auto intro: sql_update_keeps)
  then show "\<exists>v' \<in> set (t_verifications (upd_verifications P f db)).
      mv_model_id v' = mv_model_id v \<and> mv_revision_id v' = mv_revision_id v \<and> mv_status v' = VSucceeded"
    using \<open>mv_status v = VSucceeded\<close> by blast
qed (simp_all add: upd_verifications_def)

lemma claim_model_verification_ok:
  assumes "claim_model_verification ref w now db = (r, db')" "models_ok db"
  shows "models_ok db'"
  using assms
  by (auto simp: claim_model_verification_def Let_def split: option.splits if_splits
      intro!: upd_verifications_ok)

lemma delete_node_models_ok:
  assumes "delete_node ref e actor now db = Inr db'" "models_ok db"
  shows "models_ok db'"
proof -
  obtain nid where t: "t_models db' = t_models db" "t_revisions db' = t_revisions db"
    "t_verifications db' = sql_update (\<lambda>v. mv_node_id v = Some nid) (\<lambda>v. v\<lparr>mv_node_id := None\<rparr>)
       (t_verifications (fail_open_verifications nid now db))"
    using assms(1)
    by (auto simp: delete_node_def Let_def rbind_eq_Inr drop_node_def add_audit_def upd_replicas_def
        fail_open_verifications_def split: if_splits)
  show ?thesis
  proof (rule verifications_ok[OF assms(2) t(1,2)])
    show "distinct (map mv_id (t_verifications db'))"
      using assms(2) by (simp add: t(3) fail_open_verifications_def map_sql_update models_ok_def)
  next
    fix v assume v: "v \<in> set (t_verifications db)" "mv_status v = VSucceeded"
    then have "v \<in> set (t_verifications (fail_open_verifications nid now db))"
      unfolding fail_open_verifications_def by (auto intro: sql_update_keeps)
    then have "(if mv_node_id v = Some nid then v\<lparr>mv_node_id := None\<rparr> else v) \<in> set (t_verifications db')"
      unfolding t(3) by (auto simp: set_sql_update)
    then show "\<exists>v' \<in> set (t_verifications db'). mv_model_id v' = mv_model_id v \<and>
        mv_revision_id v' = mv_revision_id v \<and> mv_status v' = VSucceeded"
      using v(2) by (intro bexI) auto
  qed
qed

text \<open>The result of a verification: the model becomes verified only with its current configuration.\<close>

lemma configuration_currentD:
  assumes "configuration_current v m (upd_verifications P f db)" "md_id m = mv_model_id v"
  shows "\<exists>rv \<in> set (t_revisions db). rv_model_id rv = md_id m \<and> rv_number rv = md_current_revision m \<and> rv_id rv = mv_revision_id v"
proof -
  obtain rv where "revision_of (upd_verifications P f db) (mv_model_id v) (md_current_revision m) = Some rv" "rv_id rv = mv_revision_id v"
    using assms(1) by (auto simp: configuration_current_def split: option.splits)
  then show ?thesis
    using fetchone_filterD[of "\<lambda>r. rv_model_id r = mv_model_id v \<and> rv_number r = md_current_revision m" "t_revisions db" rv] assms(2)
    by (auto simp: revision_of_def upd_verifications_def)
qed

lemma finish_model_verification_tables:
  assumes "finish_model_verification E ref tok w vref ok checks now db = Inr (s, db')"
  obtains v m where "v \<in> set (t_verifications db)" "mv_status v = VRunning" "m \<in> set (t_models db)" "md_id m = mv_model_id v"
    "t_verifications db' = sql_update (\<lambda>x. mv_id x = mv_id v) (finished_verification ok checks now) (t_verifications db)"
    "t_revisions db' = t_revisions db"
    "t_models db' = t_models db \<or> t_models db' = sql_update (\<lambda>x. md_id x = mv_model_id v) (judged_model ok now) (t_models db) \<and>
       (\<exists>rv \<in> set (t_revisions db). rv_model_id rv = md_id m \<and> rv_number rv = md_current_revision m \<and> rv_id rv = mv_revision_id v)"
proof -
  from assms obtain n :: node_row and v m where vm: "verification_with_model db vref (n_id n) = Some (v, m)"
    and st: "mv_status v = VRunning"
    and ts: "t_verifications db' = sql_update (\<lambda>x. mv_id x = mv_id v) (finished_verification ok checks now) (t_verifications db)"
      "t_revisions db' = t_revisions db"
      "t_models db' = t_models db \<or> t_models db' = sql_update (\<lambda>x. md_id x = mv_model_id v) (judged_model ok now) (t_models db) \<and>
       configuration_current v m (upd_verifications (\<lambda>x. mv_id x = mv_id v) (finished_verification ok checks now) db)"
  proof -
    obtain n where "authenticated_node E ref tok w db = Inr n"
      using assms by (auto simp: finish_model_verification_def rbind_eq_Inr)
    moreover from this obtain v m where "verification_with_model db vref (n_id n) = Some (v, m)"
      using assms by (cases "verification_with_model db vref (n_id n)") (auto simp: finish_model_verification_def)
    ultimately show ?thesis
      using assms by (intro that[of n v m])
        (simp_all add: finish_model_verification_def Let_def add_audit_def upd_model_def upd_verifications_def
          split: if_split_asm, (elim conjE, hypsubst, simp)+)
  qed
  have mem: "v \<in> set (t_verifications db)" "m \<in> set (t_models db)" "md_id m = mv_model_id v"
    using fetchone_mem[OF vm[unfolded verification_with_model_def]] by auto
  show thesis using ts(3) by (intro that[OF mem(1) st mem(2,3) ts(1,2)]) (auto dest: configuration_currentD[OF _ mem(3)])
qed

lemma finish_model_verification_ok:
  assumes "finish_model_verification E ref tok w vref ok checks now db = Inr (s, db')" "models_ok db"
  shows "models_ok db'"
proof -
  obtain v m where v: "v \<in> set (t_verifications db)" "mv_status v = VRunning" and m: "m \<in> set (t_models db)" "md_id m = mv_model_id v"
    and ts: "t_verifications db' = sql_update (\<lambda>x. mv_id x = mv_id v) (finished_verification ok checks now) (t_verifications db)"
    and rs: "t_revisions db' = t_revisions db"
    and ms: "t_models db' = t_models db \<or> t_models db' = sql_update (\<lambda>x. md_id x = mv_model_id v) (judged_model ok now) (t_models db) \<and>
       (\<exists>rv \<in> set (t_revisions db). rv_model_id rv = md_id m \<and> rv_number rv = md_current_revision m \<and> rv_id rv = mv_revision_id v)"
    by (rule finish_model_verification_tables[OF assms(1)])
  let ?g = "judged_model ok now" and ?f = "finished_verification ok checks now"
  have uniq: "x = v" if "x \<in> set (t_verifications db)" "mv_id x = mv_id v" for x
    using assms(2) that v(1) unfolding models_ok_def distinct_map inj_on_def by blast
  have umod: "x = m" if "x \<in> set (t_models db)" "md_id x = mv_model_id v" for x
    using assms(2) that m unfolding models_ok_def distinct_map inj_on_def by metis
  have old: "certified db' x'" if "certified db x" "md_id x' = md_id x" "md_current_revision x' = md_current_revision x" for x x'
    using that
  proof (rule certified_mono)
    fix y assume y: "y \<in> set (t_verifications db)" "mv_status y = VSucceeded"
    then have "mv_id y \<noteq> mv_id v" using uniq[of y] v(2) by force
    then have "y \<in> set (t_verifications db')" unfolding ts using y(1) by (rule sql_update_keeps[rotated])
    then show "\<exists>v' \<in> set (t_verifications db'). mv_model_id v' = mv_model_id y \<and> mv_revision_id v' = mv_revision_id y \<and> mv_status v' = VSucceeded"
      using y(2) by blast
  qed (simp add: rs)
  have new: "certified db' (?g m)" if "ok" "rv \<in> set (t_revisions db)" "rv_model_id rv = md_id m" "rv_number rv = md_current_revision m" "rv_id rv = mv_revision_id v" for rv
  proof -
    have "?f v \<in> set (t_verifications db')" unfolding ts using v(1) by (rule sql_update_hit) simp
    then show ?thesis unfolding certified_def rs using that m by (intro bexI[of _ rv] bexI[of _ "?f v"]) auto
  qed
  have cert: "certified db' x" if x: "x \<in> set (t_models db')" "md_status x = Verified" for x
    using ms
  proof
    assume "t_models db' = t_models db"
    with x assms(2) show ?thesis using old[of x x] by (simp add: models_ok_def)
  next
    assume *: "t_models db' = sql_update (\<lambda>x. md_id x = mv_model_id v) ?g (t_models db) \<and>
       (\<exists>rv \<in> set (t_revisions db). rv_model_id rv = md_id m \<and> rv_number rv = md_current_revision m \<and> rv_id rv = mv_revision_id v)"
    with x(1) have "x \<in> set (sql_update (\<lambda>x. md_id x = mv_model_id v) ?g (t_models db))" by simp
    then obtain y where y: "y \<in> set (t_models db)" "x = (if md_id y = mv_model_id v then ?g y else y)"
      unfolding sql_update_mem by blast
    show ?thesis
    proof (cases "md_id y = mv_model_id v")
      case True
      then have "y = m" "x = ?g m" using y umod by auto
      moreover have ok using x(2) \<open>x = ?g m\<close> by (auto split: if_splits)
      ultimately show ?thesis using * new by blast
    next
      case False
      then show ?thesis using y x(2) assms(2) old[of y y] by (simp add: models_ok_def)
    qed
  qed
  have "map md_id (t_models db') = map md_id (t_models db)" using ms by (auto simp: map_sql_update)
  moreover have "map mv_id (t_verifications db') = map mv_id (t_verifications db)" unfolding ts by (simp add: map_sql_update)
  ultimately show ?thesis using assms(2) cert unfolding models_ok_def rs by simp
qed

interpretation model_ts: transition_system "model_step E" models_ok for E
proof
  fix db db' assume ok: "models_ok db" and step: "model_step E db db'"
  from step show "models_ok db'"
  proof cases
    case other
    then show ?thesis using ok by (simp add: models_ok_def certified_def)
  next
    case create then show ?thesis by (rule create_model_ok[OF _ ok])
  next
    case update then show ?thesis by (rule update_model_ok[OF _ ok])
  next
    case request then show ?thesis by (rule request_model_verification_ok[OF _ ok])
  next
    case claim then show ?thesis by (rule claim_model_verification_ok[OF _ ok])
  next
    case finish then show ?thesis by (rule finish_model_verification_ok[OF _ ok])
  next
    case delete_node then show ?thesis by (rule delete_node_models_ok[OF _ ok])
  qed
qed

section \<open>Real runs use verified configurations\<close>

lemma create_real_run_checked:
  assumes "create_run E q b key actor payload today now db = Inr (r, db')"
    and "q_execution_mode q = ''real''" "find_idempotency ''create_run'' key db = None"
  obtains m f rv where "current_model q db = Inr (m, f, rv)" "md_status m = Verified"
  using assms
  by (auto simp: create_run_def Let_def rbind_eq_Inr check_real_target_def split: if_splits option.splits)

lemma current_modelD:
  assumes "current_model q db = Inr (m, f, rv)"
  shows "m \<in> set (t_models db)" "md_model_ref m = q_model_ref q" "rv \<in> set (t_revisions db)"
    "rv_revision_ref rv = q_revision_ref q" "rv_model_id rv = md_id m" "rv_number rv = md_current_revision m"
  using assms
  by (auto simp: current_model_def split: option.splits if_splits dest!: fetchone_mem)

text \<open>
  C6: a real run is only created for a configuration that a Worker verified.  In every centre
  reached from an empty registry by operations on models (edits, requests, claims and results
  of verifications, in any order, also results that arrive after a later edit), the deletion
  of nodes and operations on other tables, a newly created real run names a revision that is
  the model's current one and that has a succeeded verification of exactly that revision.
\<close>

theorem real_run_configuration_verified:
  assumes "t_models db0 = []" "t_revisions db0 = []" "t_verifications db0 = []"
    and "(model_step E)\<^sup>*\<^sup>* db0 db"
    and "create_run E q b key actor payload today now db = Inr (r, db')"
    and "q_execution_mode q = ''real''" and "find_idempotency ''create_run'' key db = None"
  shows "\<exists>m \<in> set (t_models db). \<exists>rv \<in> set (t_revisions db). \<exists>v \<in> set (t_verifications db).
    md_model_ref m = q_model_ref q \<and> rv_revision_ref rv = q_revision_ref q \<and>
    rv_model_id rv = md_id m \<and> rv_number rv = md_current_revision m \<and>
    mv_status v = VSucceeded \<and> mv_model_id v = md_id m \<and> mv_revision_id v = rv_id rv"
proof -
  have ok: "models_ok db" using model_ts.run_inv[OF assms(4)] assms(1-3) by (simp add: models_ok_def)
  obtain m f rv where cm: "current_model q db = Inr (m, f, rv)" and vm: "md_status m = Verified"
    by (rule create_real_run_checked[OF assms(5-7)])
  note d = current_modelD[OF cm]
  from ok vm d(1) have "certified db m" by (simp add: models_ok_def)
  then obtain rv' v where rv': "rv' \<in> set (t_revisions db)" "rv_model_id rv' = md_id m" "rv_number rv' = md_current_revision m"
    and v: "v \<in> set (t_verifications db)" "mv_model_id v = md_id m" "mv_revision_id v = rv_id rv'" "mv_status v = VSucceeded"
    unfolding certified_def by blast
  have "rv' = rv" using ok rv' d(3,5,6) unfolding models_ok_def distinct_map inj_on_def by (metis (mono_tags, lifting))
  then show ?thesis using d v by blast
qed


definition ex_model_input :: model_input where
  "ex_model_input = \<lparr>mi_family_name = ''Family'', mi_description = None,
     mi_template = [(''server_ref'', JStr ''node''), (''working_directory'', JStr ''/w''),
       (''executable'', JStr ''python''), (''entrypoint'', JStr ''train.py''), (''output_root'', JStr ''/out'')],
     mi_parameters = JList [], mi_data_access_mode = None\<rparr>"

definition ex_step :: "tdb res \<Rightarrow> tdb \<Rightarrow> tdb" where
  "ex_step r db = (case r of Inl _ \<Rightarrow> db | Inr db' \<Rightarrow> db')"

definition ex_m0 :: tdb where
  "ex_m0 = empty_tdb\<lparr>t_nodes := [ex_node]\<rparr>"

definition ex_m1 :: tdb where
  "ex_m1 = after (create_model ex_env ex_model_input ''admin'' 1 ex_m0) ex_m0"

definition ex_m2 :: tdb where
  "ex_m2 = ex_step (request_model_verification ex_env ''family_0'' 1 ''admin'' 2 ex_m1) ex_m1"

definition ex_m3 :: tdb where
  "ex_m3 = snd (claim_model_verification ''node'' ''w'' 3 ex_m2)"

definition ex_m4 :: tdb where
  "ex_m4 = after (finish_model_verification ex_env ''node'' ''tok'' ''w'' ''verify_3'' True [] 4 ex_m3) ex_m3"

definition ex_model_request :: run_request where
  "ex_model_request = ex_request\<lparr>q_model_ref := ''model_1'', q_revision_ref := ''mrev_2''\<rparr>"

lemma ex_step_ok: "is_ok r \<Longrightarrow> r = Inr (ex_step r db)"
  by (cases r) (simp_all add: ex_step_def is_ok_def)

lemma ex_m1_ok: "is_ok (create_model ex_env ex_model_input ''admin'' 1 ex_m0)"
  by code_simp

lemma ex_m2_ok: "is_ok (request_model_verification ex_env ''family_0'' 1 ''admin'' 2 ex_m1)"
  by code_simp

lemma ex_m4_ok: "is_ok (finish_model_verification ex_env ''node'' ''tok'' ''w'' ''verify_3'' True [] 4 ex_m3)"
  by code_simp

lemma ex_m4_reached: "(model_step ex_env)\<^sup>*\<^sup>* ex_m0 ex_m4"
proof -
  have 1: "model_step ex_env ex_m0 ex_m1"
    using after_ok[OF ex_m1_ok, of ex_m0] model_step.create unfolding ex_m1_def by blast
  have 2: "model_step ex_env ex_m1 ex_m2"
    using model_step.request[OF ex_step_ok[OF ex_m2_ok]] unfolding ex_m2_def .
  have 3: "model_step ex_env ex_m2 ex_m3"
    unfolding ex_m3_def by (rule model_step.claim[OF surjective_pairing])
  have 4: "model_step ex_env ex_m3 ex_m4"
    using after_ok[OF ex_m4_ok, of ex_m3] model_step.finish unfolding ex_m4_def by blast
  have "(model_step ex_env)\<^sup>*\<^sup>* ex_m0 ex_m2" using 1 2 by (rule rtranclp.rtrancl_into_rtrancl[OF r_into_rtranclp])
  moreover have "(model_step ex_env)\<^sup>*\<^sup>* ex_m2 ex_m4" using 3 4 by (rule rtranclp.rtrancl_into_rtrancl[OF r_into_rtranclp])
  ultimately show ?thesis by (rule rtranclp_trans)
qed

theorem real_run_configuration_verified_witness:
  "is_ok (create_run ex_env ex_model_request ex_builder ''key'' ''admin'' (JStr ''payload'') ''20250101'' 10 ex_m4) \<and>
   (\<exists>v \<in> set (t_verifications ex_m4). mv_status v = VSucceeded)"
proof -
  have ok: "is_ok (create_run ex_env ex_model_request ex_builder ''key'' ''admin'' (JStr ''payload'') ''20250101'' 10 ex_m4)"
    by code_simp
  then obtain r where *: "create_run ex_env ex_model_request ex_builder ''key'' ''admin'' (JStr ''payload'') ''20250101'' 10 ex_m4 =
      Inr (r, after (create_run ex_env ex_model_request ex_builder ''key'' ''admin'' (JStr ''payload'') ''20250101'' 10 ex_m4) ex_m4)"
    using after_ok[OF ok, of ex_m4] by blast
  have "t_models ex_m0 = []" "t_revisions ex_m0 = []" "t_verifications ex_m0 = []"
    by (simp_all add: ex_m0_def empty_tdb_def)
  moreover have "q_execution_mode ex_model_request = ''real''" by (simp add: ex_model_request_def ex_request_def)
  moreover have "find_idempotency ''create_run'' ''key'' ex_m4 = None" by code_simp
  ultimately have "\<exists>v \<in> set (t_verifications ex_m4). mv_status v = VSucceeded"
    using real_run_configuration_verified[OF _ _ _ ex_m4_reached *] by blast
  with ok show ?thesis by blast
qed

end
