(* ===== verification/Command_Properties.thy ===== *)
theory Command_Properties
  imports Node_Properties
begin

text \<open>
  The queue of Worker commands: whatever operations interleave, at most one transfer command
  runs on a node at a time.
\<close>

section \<open>The invariant\<close>

definition transfer_count :: "nat \<Rightarrow> command_row list \<Rightarrow> nat" where
  "transfer_count nid cs = length (filter (running_transfer nid) cs)"

definition slots_ok :: "tdb \<Rightarrow> bool" where
  "slots_ok db \<longleftrightarrow> distinct (map nc_id (t_commands db)) \<and> (\<forall>nid. transfer_count nid (t_commands db) \<le> 1)"

text \<open>Changes of the queue that start no transfer.\<close>

definition calm :: "tdb \<Rightarrow> tdb \<Rightarrow> bool" where
  "calm db db' \<longleftrightarrow>
     (distinct (map nc_id (t_commands db)) \<longrightarrow> distinct (map nc_id (t_commands db'))) \<and>
     (\<forall>nid. transfer_count nid (t_commands db') \<le> transfer_count nid (t_commands db))"

lemma calm_refl: "t_commands db' = t_commands db \<Longrightarrow> calm db db'"
  by (simp add: calm_def)

lemma calm_trans [trans]: "calm a b \<Longrightarrow> calm b c \<Longrightarrow> calm a c"
  unfolding calm_def using le_trans by blast

lemma calm_slots: "calm db db' \<Longrightarrow> slots_ok db \<Longrightarrow> slots_ok db'"
  unfolding calm_def slots_ok_def using le_trans by blast

lemma count_update_le:
  assumes "\<And>c. c \<in> set cs \<Longrightarrow> P c \<Longrightarrow> running_transfer nid (f c) \<Longrightarrow> running_transfer nid c"
  shows "transfer_count nid (sql_update P f cs) \<le> transfer_count nid cs"
  using assms by (induction cs) (auto simp: transfer_count_def)

lemma calm_update:
  assumes "t_commands db' = sql_update P f (t_commands db)" "\<And>c. P c \<Longrightarrow> nc_id (f c) = nc_id c"
    and "\<And>c nid. P c \<Longrightarrow> running_transfer nid (f c) \<Longrightarrow> running_transfer nid c"
  shows "calm db db'"
  using assms by (simp add: calm_def map_sql_update count_update_le)

lemma calm_add:
  assumes "t_commands db' = t_commands db @ [c]" "nc_id c = next_id (map nc_id (t_commands db))" "nc_status c = AQueued"
  shows "calm db db'"
  using assms next_id_fresh[of "map nc_id (t_commands db)"]
  by (simp add: calm_def transfer_count_def running_transfer_def)

lemma calm_insert: "calm db (snd (insert_node_command E n k r now db))"
  by (rule calm_add) (auto simp: insert_node_command_def new_ref_def add_command_def Let_def)

lemma calm_commands: "t_commands a = t_commands a' \<Longrightarrow> t_commands b = t_commands b' \<Longrightarrow> calm a b = calm a' b'"
  by (simp add: calm_def)

lemma calm_fold:
  assumes "\<And>x db. calm db (g x db)"
  shows "calm db (fold g xs db)"
proof (induction xs arbitrary: db)
  case (Cons x xs)
  have "calm (g x db) (fold g xs (g x db))" by (rule Cons.IH)
  with assms[of db x] show ?case by (simp add: calm_trans)
qed (simp add: calm_refl)

lemma calm_rfold:
  assumes "\<And>x s s'. f x s = Inr s' \<Longrightarrow> calm (st s) (st s')" "rfold f xs s = Inr s'"
  shows "calm (st s) (st s')"
  using assms(2)
proof (induction xs arbitrary: s)
  case (Cons x xs)
  then obtain t where "f x s = Inr t" "rfold f xs t = Inr s'" by (auto simp: rbind_eq_Inr)
  with assms(1) Cons.IH show ?case using calm_trans by blast
qed (simp add: calm_refl)

section \<open>Operations that start no transfer\<close>

named_theorems calm_simps \<open>updates of other tables, and the calm updates of the queue\<close>

lemma calm_other [calm_simps]:
  "calm a (upd_transfers P f db) = calm a db"
  "calm a (upd_manifests P' f' db) = calm a db"
  "calm a (upd_replicas P'' f'' db) = calm a db"
  "calm a (upd_inspections Q g db) = calm a db"
  "calm a (add_audit actor what target payload now db) = calm a db"
  "calm a (add_other_event what' d now db) = calm a db"
  "calm a (transfer_event ref status now db) = calm a db"
  "calm a (add_idempotency scope key digest resp now db) = calm a db"
  "calm a (snd (new_ref E prefix db)) = calm a db"
  "calm a (snd (new_token E prefix db)) = calm a db"
  "calm a (add_transfer r n mid s parent final recovery now db) = calm a db"
  "calm a (prepare_again mid now db) = calm a db"
  "calm a (snd (autoincrement tbl db)) = calm a db"
  "calm a (db\<lparr>t_source_files := fs\<rparr>) = calm a db"
  "calm a (db\<lparr>t_replicas := rs\<rparr>) = calm a db"
  "calm a (db\<lparr>t_transfers := ts\<rparr>) = calm a db"
  "calm a (db\<lparr>t_inspections := ins\<rparr>) = calm a db"
  by (simp_all add: calm_def upd_transfers_def upd_manifests_def upd_replicas_def upd_inspections_def add_audit_def
      add_other_event_def transfer_event_def add_idempotency_def new_ref_def new_token_def add_transfer_def
      prepare_again_def autoincrement_def Let_def)

lemma calm_same [calm_simps]: "calm db db"
  by (simp add: calm_refl)

lemma calm_insert_node_command [calm_simps]: "calm a db \<Longrightarrow> calm a (snd (insert_node_command E n k r now db))"
  by (erule calm_trans) (rule calm_insert)

lemma calm_add_command [calm_simps]:
  assumes "calm a db" shows "calm a (add_command ref n k r now db)"
  using assms by (rule calm_trans) (rule calm_add, auto simp: add_command_def)

text \<open>Updates that take commands out of the running ones, or leave status, kind and node.\<close>

lemma calm_upd_commands:
  assumes "calm a db" "\<And>c. nc_id (f c) = nc_id c" "\<And>c nid. running_transfer nid (f c) \<Longrightarrow> running_transfer nid c"
  shows "calm a (upd_commands P f db)"
  using assms(1) by (rule calm_trans) (rule calm_update, simp add: upd_commands_def, simp_all add: assms)

lemma calm_upd_stopped [calm_simps]:
  assumes "calm a db" "\<And>c. nc_id (f c) = nc_id c" "\<And>c. nc_status (f c) \<noteq> ARunning"
  shows "calm a (upd_commands P f db)"
  by (rule calm_upd_commands[OF assms(1,2)]) (simp add: running_transfer_def assms(3))

lemma calm_upd_kept [calm_simps]:
  assumes "calm a db" "\<And>c. nc_id (f c) = nc_id c" "\<And>c. nc_status (f c) = nc_status c" "\<And>c. nc_kind (f c) = nc_kind c"
    and "\<And>c. nc_node_id (f c) = nc_node_id c"
  shows "calm a (upd_commands P f db)"
  by (rule calm_upd_commands[OF assms(1,2)]) (simp add: running_transfer_def assms(3-5))

text \<open>Results that, when there is one, are calm.\<close>

definition calm_res :: "tdb \<Rightarrow> tdb res \<Rightarrow> bool" where
  "calm_res db r \<longleftrightarrow> (\<forall>db'. r = Inr db' \<longrightarrow> calm db db')"

lemma calm_res_simps [calm_simps]:
  "calm_res db (Inl e)" "calm_res db (Inr db') = calm db db'"
  "(\<And>a. calm_res db (f a)) \<Longrightarrow> calm_res db (rbind m f)"
  by (auto simp: calm_res_def rbind_eq_Inr)

lemma calm_resD: "calm_res db r \<Longrightarrow> r = Inr db' \<Longrightarrow> calm db db'"
  by (simp add: calm_res_def)

lemma calm_res_bind:
  "calm_res db m \<Longrightarrow> (\<And>a. calm db a \<Longrightarrow> calm_res db (f a)) \<Longrightarrow> calm_res db (rbind m f)"
  by (auto simp: calm_res_def rbind_eq_Inr)

lemma calm_fold_from [calm_simps]:
  "(\<And>x db. calm db (g x db)) \<Longrightarrow> calm a db \<Longrightarrow> calm a (fold g xs db)"
  using calm_fold[of g db xs] calm_trans by blast

lemma calm_create_directory_listing:
  assumes "create_directory_listing E ref path actor now db = Inr (r, db')" shows "calm db db'"
  using assms
  by (simp add: create_directory_listing_def Let_def case_prod_beta rbind_eq_Inr)
    (elim exE conjE, hypsubst, simp add: calm_simps)

lemma calm_release_waiting: "calm db (release_waiting E ivt now t db)"
  by (simp add: release_waiting_def Let_def calm_simps split: option.split)

lemma calm_complete_source_manifest:
  assumes "complete_source_manifest E ivt now db = Inr (m, db')" shows "calm db db'"
  using assms
  by (simp add: complete_source_manifest_def Let_def split: option.split_asm if_split_asm)
    (elim conjE, hypsubst, simp add: calm_simps calm_release_waiting)

lemma calm_queue_recovery [calm_simps]:
  "calm a db \<Longrightarrow> calm a (snd (queue_detached_dataset_replica_recovery E n fp actor now db))"
  by (simp add: queue_detached_dataset_replica_recovery_def Let_def case_prod_beta calm_simps split: option.split)

lemma calm_add_requested_transfer:
  assumes "add_requested_transfer E n parent actor now r (refs, db) = Inr (refs', db')" shows "calm db db'"
  using assms
  by (simp add: add_requested_transfer_def Let_def case_prod_beta split: option.split_asm if_split_asm)
    ((elim conjE, hypsubst, simp add: calm_simps)+)?

lemma calm_create_dataset_transfers:
  assumes "create_dataset_transfers E ref ms parent key payload actor now db = Inr (ts, db')" shows "calm db db'"
proof (cases "find_idempotency ''dataset_transfer_batch'' key db")
  case None
  obtain n where n: "require_online_node_in db ref = Inr n"
    using assms None by (cases "require_online_node_in db ref") (simp_all add: create_dataset_transfers_def)
  with assms None obtain refs db1 where r: "rfold (add_requested_transfer E n parent actor now) ms ([], db) = Inr (refs, db1)"
    and "db' = add_idempotency ''dataset_transfer_batch'' key (payload_hash E payload) (json_dumps E (JList (map JStr refs))) now db1"
    by (simp add: create_dataset_transfers_def Let_def rbind_eq_Inr split: if_split_asm) blast
  then have db': "calm db db' = calm db db1" by (simp add: calm_simps)
  have "calm (snd ([] :: string list, db)) (snd (refs, db1))"
    by (rule calm_rfold[OF _ r]) (use calm_add_requested_transfer in fastforce)
  with db' show ?thesis by simp
next
  case (Some idem)
  with assms show ?thesis
    by (simp add: create_dataset_transfers_def Let_def rbind_eq_Inr split: if_split_asm)
      (elim exE conjE, hypsubst, simp add: calm_simps)
qed


lemma calm_cancel_queued [calm_simps]:
  "calm a db \<Longrightarrow> calm a (cancel_queued_transfer_commands ref now db)"
  by (simp add: cancel_queued_transfer_commands_def calm_simps running_transfer_def)

lemma calm_stop_transfer:
  assumes "stop_transfer E tm running action next requested audit actor now db = Inr (r, db')" shows "calm db db'"
  using assms
  by (simp add: stop_transfer_def Let_def rbind_eq_Inr split: if_split_asm)
    ((elim exE conjE, hypsubst, simp add: calm_simps)+)?

lemma calm_pause:
  assumes "pause_dataset_transfer E ref actor now db = Inr (r, db')" shows "calm db db'"
  using assms
  by (simp add: pause_dataset_transfer_def Let_def case_prod_beta split: option.split_asm if_split_asm)
    (erule calm_stop_transfer)+

lemma calm_cancel:
  assumes "cancel_dataset_transfer E ref actor now db = Inr (r, db')" shows "calm db db'"
  using assms
  by (simp add: cancel_dataset_transfer_def Let_def case_prod_beta split: option.split_asm if_split_asm)
    (erule calm_stop_transfer)+

lemma calm_retry:
  assumes "retry_dataset_transfer E ref key actor now db = Inr (r, db')" shows "calm db db'"
  using assms
  by (simp add: retry_dataset_transfer_def Let_def case_prod_beta rbind_eq_Inr split: option.split_asm if_split_asm)
    ((elim exE conjE, hypsubst, simp add: calm_simps)+)?

lemma calm_remove_replica:
  assumes "remove_dataset_replica E ref actor now db = Inr (r, db')" shows "calm db db'"
  using assms
  by (simp add: remove_dataset_replica_def Let_def case_prod_beta rbind_eq_Inr split: option.split_asm if_split_asm)
    ((elim exE conjE, hypsubst, simp add: calm_simps)+)?

lemma calm_delete_node:
  assumes "delete_node ref e actor now db = Inr db'" shows "calm db db'"
proof -
  from assms have "\<exists>nid. t_commands db' = sql_update (\<lambda>c. nc_node_id c = Some nid) (\<lambda>c. c\<lparr>nc_node_id := None\<rparr>) (t_commands db)"
    by (simp add: delete_node_def Let_def rbind_eq_Inr drop_node_def fail_open_verifications_def add_audit_def
        upd_replicas_def split: if_split_asm)
      (elim exE conjE, simp split: if_split_asm, hypsubst?, auto)
  then obtain nid where "t_commands db' = sql_update (\<lambda>c. nc_node_id c = Some nid) (\<lambda>c. c\<lparr>nc_node_id := None\<rparr>) (t_commands db)" ..
  then show ?thesis by (rule calm_update) (simp_all add: running_transfer_def)
qed

section \<open>Progress and results\<close>

lemma calm_settle_abandoned [calm_simps]: "calm a db \<Longrightarrow> calm a (settle_abandoned_transfer_command c ref status now db)"
  by (simp add: settle_abandoned_transfer_command_def Let_def calm_simps running_transfer_def
      split: option.split transfer_status.split)

lemma calm_requeue_command [calm_simps]: "calm a db \<Longrightarrow> calm a (requeue_command c now db)"
  by (simp add: requeue_command_def Let_def calm_simps running_transfer_def)

lemma calm_recover_command: "calm_res db (recover_command now c db)"
  by (simp add: recover_command_def calm_simps)

lemma calm_update_running_command: "calm_res db (update_running_command c data now db)"
  by (simp add: update_running_command_def Let_def calm_simps split: option.split)

lemma calm_upsert_replica [calm_simps]: "calm a db \<Longrightarrow> calm a (upsert_replica E r db)"
  by (simp add: upsert_replica_def Let_def case_prod_beta calm_simps)

lemma calm_register_replica: "calm a db \<Longrightarrow> calm_res a (register_replica E t m n d now db)"
  by (simp add: register_replica_def Let_def case_prod_beta calm_simps split: option.split)

lemma calm_rebind_replica: "calm a db \<Longrightarrow> calm_res a (rebind_replica t m n actor r now db)"
  by (simp add: rebind_replica_def calm_simps)

lemma calm_settle_transfer: "calm a db \<Longrightarrow> calm_res a (settle_transfer E t m status refused progress error now db)"
  by (simp add: settle_transfer_def calm_simps)

lemma calm_apply_transfer_result: "calm a db \<Longrightarrow> calm_res a (apply_transfer_result E c data final error now tm db)"
  by (simp add: apply_transfer_result_def case_prod_beta Let_def calm_res_simps(3))
    (intro calm_res_simps(3) calm_res_bind calm_settle_transfer,
      auto simp: calm_simps calm_register_replica calm_rebind_replica split: option.split)

lemma calm_apply_terminal: "calm a db \<Longrightarrow> calm_res a (apply_terminal_command_result E c data final now db)"
  by (simp add: apply_terminal_command_result_def apply_removal_result_def apply_stop_result_def
      apply_inspection_result_def case_prod_beta Let_def calm_simps calm_apply_transfer_result
      split: command_kind.split option.split json.split)

lemma map_sum_rbind [simp]: "map_sum id g (rbind m f) = rbind m (\<lambda>a. map_sum id g (f a))"
  by (cases m) simp_all

lemma rbind_Inr [simp]: "rbind m Inr = m"
  by (cases m) simp_all

lemma final_not_running [simp]: "final_command_status s \<noteq> ARunning"
  by (simp add: final_command_status_def)

lemma calm_finish_node_command:
  assumes "finish_node_command E node_ref token ref data now db = Inr (s, db')" shows "calm db db'"
proof -
  have "calm_res db (map_sum id snd (finish_node_command E node_ref token ref data now db))"
    by (simp add: finish_node_command_def Let_def calm_simps calm_update_running_command calm_apply_terminal
        split: option.split if_split)
  with assms show ?thesis by (simp add: calm_simps)
qed

section \<open>Claiming\<close>

text \<open>What a claim never changes of a command.\<close>

definition command_keys :: "tdb \<Rightarrow> (nat \<times> command_kind \<times> nat option) list" where
  "command_keys db = map (\<lambda>c. (nc_id c, nc_kind c, nc_node_id c)) (t_commands db)"

lemma command_keys_ids: "map nc_id (t_commands db) = map fst (command_keys db)"
  by (simp add: command_keys_def comp_def)

lemma same_id_same_key:
  assumes "command_keys db = command_keys db1" "distinct (map nc_id (t_commands db1))"
    and "x \<in> set (t_commands db)" "c \<in> set (t_commands db1)" "nc_id x = nc_id c"
  shows "nc_kind x = nc_kind c \<and> nc_node_id x = nc_node_id c"
proof -
  have "(nc_id x, nc_kind x, nc_node_id x) \<in> set (command_keys db1)"
    using assms(3) assms(1)[symmetric] by (simp add: command_keys_def)
  moreover have "(nc_id c, nc_kind c, nc_node_id c) \<in> set (command_keys db1)"
    using assms(4) unfolding command_keys_def by simp
  moreover have "distinct (map fst (command_keys db1))" using assms(2) by (simp add: command_keys_ids)
  ultimately have "(nc_kind x, nc_node_id x) = (nc_kind c, nc_node_id c)"
    unfolding assms(5) by (intro eq_key_imp_eq_value[of "command_keys db1"])
  then show ?thesis by simp
qed

lemma count_update_add:
  "transfer_count nid (sql_update P f cs) \<le> transfer_count nid cs + length (filter P cs)"
  by (induction cs) (auto simp: transfer_count_def)

lemma filter_id_le_1: "distinct (map nc_id cs) \<Longrightarrow> length (filter (\<lambda>x. nc_id x = i \<and> Q x) cs) \<le> 1"
  by (induction cs) (auto simp: filter_empty_conv image_iff)

text \<open>
  The state of the claim loop over the candidates of node \<open>nid\<close>, found when no transfer was
  running there (\<open>free\<close>) or else without transfer commands among them.
\<close>

definition claiming :: "nat \<Rightarrow> bool \<Rightarrow> tdb \<Rightarrow> claimed_command list \<times> bool \<times> tdb \<Rightarrow> bool" where
  "claiming nid free db1 = (\<lambda>(claimed, got, db).
     command_keys db = command_keys db1 \<and> (\<forall>j. transfer_count j (t_commands db) \<le> 1) \<and>
     (free \<longrightarrow> \<not> got \<longrightarrow> transfer_count nid (t_commands db) = 0))"

lemma claim_command_commands:
  assumes "claim_command E w now c (claimed, got, db) = (claimed', got', db')"
  shows "t_commands db' = t_commands db \<and> got' = got \<or>
    (\<exists>f. t_commands db' = sql_update (\<lambda>x. nc_id x = nc_id c \<and> nc_status x = AQueued) f (t_commands db) \<and>
      (\<forall>x. nc_id (f x) = nc_id x \<and> nc_kind (f x) = nc_kind x \<and> nc_node_id (f x) = nc_node_id x) \<and>
      got' = (got \<or> nc_kind c = TransferDataset))"
proof (cases "\<exists>x \<in> set (t_commands db). nc_id x = nc_id c \<and> nc_status x = AQueued")
  case True
  then have None: "(\<forall>x \<in> set (t_commands db). nc_id x = nc_id c \<longrightarrow> nc_status x \<noteq> AQueued) = False" by blast
  let ?f = "\<lambda>x. x\<lparr>nc_status := ARunning, nc_worker := Some w,
             nc_claim_sha256 := Some (token_digest E (fst (new_token E ''claim_'' db))),
             nc_lease_expires_at := Some (now + command_lease (nc_kind c)),
             nc_started_at := coalesce (nc_started_at x) (Some now), nc_updated_at := now\<rparr>"
  have "t_commands db' = sql_update (\<lambda>x. nc_id x = nc_id c \<and> nc_status x = AQueued) ?f (t_commands db) \<and>
      got' = (got \<or> nc_kind c = TransferDataset)"
    using assms None
    by (simp add: claim_command_def new_token_def Let_def upd_commands_def upd_inspections_def split: if_split_asm)
      (elim conjE, hypsubst, simp)+
  then show ?thesis by (intro disjI2 exI[of _ ?f]) simp
next
  case False
  then show ?thesis using assms
    by (simp add: claim_command_def new_token_def Let_def split: if_split_asm) (elim conjE, hypsubst, simp)?
qed


lemma claim_command_claiming:
  assumes ids: "distinct (map nc_id (t_commands db1))" and c: "c \<in> set (t_commands db1)" "nc_node_id c = Some nid"
    and ok: "claiming nid free db1 (claimed, got, db)" and kind: "nc_kind c = TransferDataset \<Longrightarrow> free \<and> \<not> got"
    and step: "claim_command E w now c (claimed, got, db) = (claimed', got', db')"
  shows "claiming nid free db1 (claimed', got', db')"
proof -
  from ok have keys: "command_keys db = command_keys db1" and le: "\<forall>j. transfer_count j (t_commands db) \<le> 1"
    and zero: "free \<longrightarrow> \<not> got \<longrightarrow> transfer_count nid (t_commands db) = 0"
    by (simp_all add: claiming_def)
  from claim_command_commands[OF step] show ?thesis
  proof
    assume "t_commands db' = t_commands db \<and> got' = got"
    then show ?thesis using keys le zero by (simp add: claiming_def command_keys_def)
  next
    let ?P = "\<lambda>x. nc_id x = nc_id c \<and> nc_status x = AQueued"
    assume "\<exists>f. t_commands db' = sql_update ?P f (t_commands db) \<and>
      (\<forall>x. nc_id (f x) = nc_id x \<and> nc_kind (f x) = nc_kind x \<and> nc_node_id (f x) = nc_node_id x) \<and>
      got' = (got \<or> nc_kind c = TransferDataset)"
    then obtain f where f: "t_commands db' = sql_update ?P f (t_commands db)"
      "\<And>x. nc_id (f x) = nc_id x \<and> nc_kind (f x) = nc_kind x \<and> nc_node_id (f x) = nc_node_id x"
      and got': "got' = (got \<or> nc_kind c = TransferDataset)" by (elim exE conjE) blast
    have keys': "command_keys db' = command_keys db1"
      using keys f(2) unfolding command_keys_def f(1) by (subst map_sql_update) simp_all
    have row: "nc_kind x = nc_kind c \<and> nc_node_id x = Some nid" if "x \<in> set (t_commands db)" "?P x" for x
      using same_id_same_key[OF keys ids that(1) c(1)] that(2) c(2) by simp
    have other: "transfer_count j (t_commands db') \<le> transfer_count j (t_commands db)" if "nc_kind c \<noteq> TransferDataset \<or> j \<noteq> nid" for j
      unfolding f(1) by (rule count_update_le) (use row f(2) that in \<open>auto simp: running_transfer_def\<close>)
    have "map nc_id (t_commands db) = map nc_id (t_commands db1)" unfolding command_keys_ids keys ..
    then have "distinct (map nc_id (t_commands db))" using ids by simp
    then have one: "length (filter ?P (t_commands db)) \<le> 1" by (rule filter_id_le_1)
    have "transfer_count j (t_commands db') \<le> 1" for j
    proof (cases "nc_kind c \<noteq> TransferDataset \<or> j \<noteq> nid")
      case True
      then show ?thesis using other[OF True] le le_trans by blast
    next
      case False
      then have "transfer_count nid (t_commands db) = 0" using kind zero by blast
      then show ?thesis using count_update_add[of nid ?P f "t_commands db"] one False unfolding f(1) by simp
    qed
    moreover have "transfer_count nid (t_commands db') = 0" if "free" "\<not> got'"
      using other[of nid] zero that got' by simp
    ultimately show ?thesis using keys' by (simp add: claiming_def)
  qed
qed

lemma claim_candidate_claiming:
  assumes ids: "distinct (map nc_id (t_commands db1))" and c: "c \<in> set (t_commands db1)" "nc_node_id c = Some nid"
    and free: "nc_kind c = TransferDataset \<Longrightarrow> free" and ok: "claiming nid free db1 s"
    and step: "claim_candidate E w now c s = Inr s'"
  shows "claiming nid free db1 s'"
proof -
  obtain claimed got db where s: "s = (claimed, got, db)" by (cases s)
  have settled: "claiming nid free db1 (claimed, got, settle_abandoned_transfer_command c ref status now db)" for ref status
  proof -
    have "calm db (settle_abandoned_transfer_command c ref status now db)" by (simp add: calm_simps)
    moreover have "command_keys (settle_abandoned_transfer_command c ref status now db) = command_keys db"
      by (simp add: settle_abandoned_transfer_command_def Let_def command_keys_def upd_commands_def upd_transfers_def
          transfer_event_def add_other_event_def map_sql_update split: option.split transfer_status.split)
    ultimately show ?thesis using ok le_trans unfolding s claiming_def calm_def by fastforce
  qed
  have claimed: "claiming nid free db1 (claim_command E w now c (claimed, got, db))" if "nc_kind c = TransferDataset \<Longrightarrow> \<not> got"
  proof -
    obtain a b d where *: "claim_command E w now c (claimed, got, db) = (a, b, d)"
      by (cases "claim_command E w now c (claimed, got, db)")
    have "claiming nid free db1 (a, b, d)"
      by (rule claim_command_claiming[OF ids c ok[unfolded s] _ *]) (use free that in blast)
    with * show ?thesis by simp
  qed
  show ?thesis
  proof (cases "nc_kind c = TransferDataset \<and> \<not> got")
    case True
    then have got: "got = False" by simp
    from True obtain ref where "(if transfer_abandoned (transfer_status_of db ref)
        then Inr (claimed, got, settle_abandoned_transfer_command c ref (transfer_status_of db ref) now db)
        else Inr (claim_command E w now c (claimed, got, db))) = (Inr s' :: _ res)"
      using step unfolding s got by (simp add: claim_candidate_def rbind_eq_Inr) blast
    then show ?thesis using settled claimed True by (auto split: if_split_asm)
  next
    case False
    then show ?thesis using step ok claimed unfolding s by (auto simp: claim_candidate_def split: if_split_asm)
  qed
qed


lemma claim_candidates_claiming:
  assumes "distinct (map nc_id (t_commands db1))" "claiming nid free db1 s"
    and "\<forall>c \<in> set cs. c \<in> set (t_commands db1) \<and> nc_node_id c = Some nid \<and> (nc_kind c = TransferDataset \<longrightarrow> free)"
    and "rfold (claim_candidate E w now) cs s = Inr s'"
  shows "claiming nid free db1 s'"
  using assms(2-4)
proof (induction cs arbitrary: s)
  case (Cons c cs)
  from Cons.prems(3) obtain t where t: "claim_candidate E w now c s = Inr t" "rfold (claim_candidate E w now) cs t = Inr s'"
    by (auto simp: rbind_eq_Inr)
  have "claiming nid free db1 t"
    using Cons.prems(1,2) by (intro claim_candidate_claiming[OF assms(1) _ _ _ _ t(1)]) auto
  then show ?case by (rule Cons.IH[OF _ _ t(2)]) (use Cons.prems(2) in simp)
qed simp

lemma claim_node_commands_slots:
  assumes "claim_node_commands E node_ref token w limit now db = Inr (cs, db')" "slots_ok db"
  shows "slots_ok db'"
proof -
  from assms(1) obtain n :: node_row and db1 got where r: "rfold (recover_command now) (stale_commands (n_id n) now db) db = Inr db1"
    and cl: "rfold (claim_candidate E w now) (command_candidates (n_id n) limit db1) ([], False, db1) = Inr (cs, got, db')"
    by (auto simp: claim_node_commands_def rbind_eq_Inr)
  have "calm (id db) (id db1)"
    by (rule calm_rfold[OF _ r]) (simp add: calm_resD[OF calm_recover_command])
  then have ok: "slots_ok db1" using calm_slots assms(2) by simp
  let ?free = "transfer_count (n_id n) (t_commands db1) = 0"
  have "claiming (n_id n) ?free db1 ([], False, db1)"
    using ok by (simp add: claiming_def slots_ok_def)
  moreover have "\<forall>c \<in> set (command_candidates (n_id n) limit db1). c \<in> set (t_commands db1) \<and>
      nc_node_id c = Some (n_id n) \<and> (nc_kind c = TransferDataset \<longrightarrow> ?free)"
    by (auto simp: command_candidates_def transfer_count_def filter_empty_conv dest!: in_set_takeD)
  ultimately have "claiming (n_id n) ?free db1 (cs, got, db')"
    using ok claim_candidates_claiming[OF _ _ _ cl] by (simp add: slots_ok_def)
  then have keys: "command_keys db' = command_keys db1" and "\<forall>j. transfer_count j (t_commands db') \<le> 1"
    by (simp_all add: claiming_def)
  moreover have "map nc_id (t_commands db') = map nc_id (t_commands db1)" unfolding command_keys_ids keys ..
  ultimately show ?thesis using ok by (simp add: slots_ok_def)
qed

section \<open>Every interleaving\<close>

inductive command_step :: "env \<Rightarrow> tdb \<Rightarrow> tdb \<Rightarrow> bool" for E where
  claim: "claim_node_commands E node_ref token w limit now db = Inr (cs, db') \<Longrightarrow> command_step E db db'"
| finish: "finish_node_command E node_ref token ref data now db = Inr (s, db') \<Longrightarrow> command_step E db db'"
| list_directories: "create_directory_listing E ref path actor now db = Inr (r, db') \<Longrightarrow> command_step E db db'"
| manifest: "complete_source_manifest E ivt now db = Inr (m, db') \<Longrightarrow> command_step E db db'"
| create: "create_dataset_transfers E ref ms parent key payload actor now db = Inr (ts, db') \<Longrightarrow> command_step E db db'"
| pause: "pause_dataset_transfer E ref actor now db = Inr (t, db') \<Longrightarrow> command_step E db db'"
| cancel: "cancel_dataset_transfer E ref actor now db = Inr (t, db') \<Longrightarrow> command_step E db db'"
| retry: "retry_dataset_transfer E ref key actor now db = Inr (t, db') \<Longrightarrow> command_step E db db'"
| remove_replica: "remove_dataset_replica E ref actor now db = Inr (r, db') \<Longrightarrow> command_step E db db'"
| inspect: "request_model_version_artifact_inspection E ref key actor now db = Inr (i, db') \<Longrightarrow> command_step E db db'"
| recovery: "queue_detached_dataset_replica_recovery E n fp actor now db = (r, db') \<Longrightarrow> command_step E db db'"
| delete_node: "delete_node ref e actor now db = Inr db' \<Longrightarrow> command_step E db db'"
| other: "t_commands db' = t_commands db \<Longrightarrow> command_step E db db'"

lemma calm_inspection:
  assumes "request_model_version_artifact_inspection E ref key actor now db = Inr (i, db')" shows "calm db db'"
proof -
  have "calm_res db (map_sum id snd (request_model_version_artifact_inspection E ref key actor now db))"
    by (simp add: request_model_version_artifact_inspection_def Let_def case_prod_beta calm_simps
        split: option.split json.split list.split)
  with assms show ?thesis by (simp add: calm_simps)
qed

interpretation slots_ts: transition_system "command_step E" slots_ok for E
proof
  fix db db' assume ok: "slots_ok db" and step: "command_step E db db'"
  from step show "slots_ok db'"
  proof cases
    case claim then show ?thesis by (rule claim_node_commands_slots[OF _ ok])
  next
    case finish then show ?thesis by (rule calm_slots[OF calm_finish_node_command ok])
  next
    case list_directories then show ?thesis by (rule calm_slots[OF calm_create_directory_listing ok])
  next
    case manifest then show ?thesis by (rule calm_slots[OF calm_complete_source_manifest ok])
  next
    case create then show ?thesis by (rule calm_slots[OF calm_create_dataset_transfers ok])
  next
    case pause then show ?thesis by (rule calm_slots[OF calm_pause ok])
  next
    case cancel then show ?thesis by (rule calm_slots[OF calm_cancel ok])
  next
    case retry then show ?thesis by (rule calm_slots[OF calm_retry ok])
  next
    case remove_replica then show ?thesis by (rule calm_slots[OF calm_remove_replica ok])
  next
    case inspect then show ?thesis by (rule calm_slots[OF calm_inspection ok])
  next
    case (recovery n fp actor now r)
    then have "db' = snd (queue_detached_dataset_replica_recovery E n fp actor now db)" by simp
    then show ?thesis using calm_slots[OF calm_queue_recovery[OF calm_same] ok] by simp
  next
    case delete_node then show ?thesis by (rule calm_slots[OF calm_delete_node ok])
  next
    case other then show ?thesis by (rule calm_slots[OF calm_refl ok])
  qed
qed

text \<open>
  C14: at most one transfer runs on a node.  From a centre without commands, however requests of
  users (new transfers, pauses, cancellations, retries, removals, inspections), completed
  manifests, deleted nodes and the claims, progress and results of Workers interleave, no two
  transfer commands of the same node are running at the same time.
\<close>

theorem one_transfer_per_node:
  assumes "t_commands db0 = []" and "(command_step E)\<^sup>*\<^sup>* db0 db"
  shows "length (filter (\<lambda>c. nc_node_id c = Some nid \<and> nc_kind c = TransferDataset \<and> nc_status c = ARunning) (t_commands db)) \<le> 1"
proof -
  have "slots_ok db0" using assms(1) by (simp add: slots_ok_def transfer_count_def)
  then have "slots_ok db" by (rule slots_ts.run_inv[OF assms(2)])
  then show ?thesis by (simp add: slots_ok_def transfer_count_def running_transfer_def[abs_def])
qed

definition ex_hash :: string where
  "ex_hash = replicate 64 CHR ''a''"

definition ex_data_env :: env where
  "ex_data_env = ex_env\<lparr>sha256_hex := (\<lambda>_. ex_hash)\<rparr>"

definition ex_manifest :: manifest_row where
  "ex_manifest = \<lparr>mf_id = 1, mf_manifest_ref = ''dataset_manifest_x'', mf_release_ref = ''release_x'',
     mf_domain = ''navigation'', mf_dataset_date = ''20250101'', mf_status = MBuilding, mf_source_root = None,
     mf_inventory_sha256 = None, mf_file_count = 0, mf_total_bytes = 0, mf_error_code = None,
     mf_error_message = None, mf_lease_expires_at = None, mf_created_at = 0, mf_updated_at = 0\<rparr>"


definition ex_two_manifests :: tdb where
  "ex_two_manifests = ex_db\<lparr>t_nodes := [ex_node\<lparr>n_worker_token_sha256 := Some ex_hash\<rparr>],
     t_manifests := [ex_manifest\<lparr>mf_status := MReady\<rparr>,
       ex_manifest\<lparr>mf_id := 2, mf_manifest_ref := ''dataset_manifest_y'', mf_release_ref := ''release_y'', mf_status := MReady\<rparr>]\<rparr>"

definition ex_two_requested :: tdb where
  "ex_two_requested = after (create_dataset_transfers ex_data_env ''node'' [''dataset_manifest_x'', ''dataset_manifest_y'']
     ''/data'' ''k'' JNull ''admin'' 1 ex_two_manifests) ex_two_manifests"

definition ex_two_claimed :: tdb where
  "ex_two_claimed = after (claim_node_commands ex_data_env ''node'' ''tok'' ''w'' 5 2 ex_two_requested) ex_two_requested"

lemma ex_two_requested_ok:
  "is_ok (create_dataset_transfers ex_data_env ''node'' [''dataset_manifest_x'', ''dataset_manifest_y'']
     ''/data'' ''k'' JNull ''admin'' 1 ex_two_manifests)"
  by code_simp

lemma ex_two_claimed_ok: "is_ok (claim_node_commands ex_data_env ''node'' ''tok'' ''w'' 5 2 ex_two_requested)"
  by code_simp

theorem one_transfer_per_node_witness:
  "map nc_status (t_commands ex_two_claimed) = [ARunning, AQueued] \<and>
   length (filter (\<lambda>c. nc_node_id c = Some 1 \<and> nc_kind c = TransferDataset \<and> nc_status c = ARunning) (t_commands ex_two_claimed)) \<le> 1"
proof -
  have 1: "command_step ex_data_env ex_two_manifests ex_two_requested"
    using after_ok[OF ex_two_requested_ok, of ex_two_manifests] command_step.create unfolding ex_two_requested_def by blast
  have 2: "command_step ex_data_env ex_two_requested ex_two_claimed"
    using after_ok[OF ex_two_claimed_ok, of ex_two_requested] command_step.claim unfolding ex_two_claimed_def by blast
  have "t_commands ex_two_manifests = []" by (simp add: ex_two_manifests_def ex_db_def empty_tdb_def)
  moreover have "(command_step ex_data_env)\<^sup>*\<^sup>* ex_two_manifests ex_two_claimed"
    using 1 2 by (rule rtranclp.rtrancl_into_rtrancl[OF r_into_rtranclp])
  ultimately have "length (filter (\<lambda>c. nc_node_id c = Some 1 \<and> nc_kind c = TransferDataset \<and> nc_status c = ARunning) (t_commands ex_two_claimed)) \<le> 1"
    by (rule one_transfer_per_node)
  moreover have "map nc_status (t_commands ex_two_claimed) = [ARunning, AQueued]" by code_simp
  ultimately show ?thesis by blast
qed

end
