(* ===== verification/Worker_Datasets.thy ===== *)
theory Worker_Datasets
  imports Prelude "HOL-Library.Sublist" "HOL-Library.Code_Target_Nat"
begin

text \<open>
  The Worker's side of a dataset transfer (\<open>training_worker/datasets.py\<close>): reading the
  inventory of a release page by page, and downloading its files into the temporary
  directory chunk by chunk, resuming what an earlier attempt left there and checking every
  file against its digest.

  The temporary directory is the map from the parts of a path below it to the bytes of the
  regular file there.  What the run reads from outside is a record: the chunks the centre
  sends, the readings of the cancel event and of the clock, the digest function, and whether
  a path is a symbolic link or has an unsafe parent.
\<close>

section \<open>References, digests, paths\<close>

fun validated_ref :: "json \<Rightarrow> string res" where
  "validated_ref (JStr s) = (if safe_ref s then Inr s else Inl (CommandError ''dataset_command_invalid''))"
| "validated_ref _ = Inl (CommandError ''dataset_command_invalid'')"

definition is_date :: "string \<Rightarrow> bool" where
  "is_date s \<longleftrightarrow> length s = 8 \<and> list_all is_digit s"

definition is_sha256 :: "string \<Rightarrow> bool" where
  "is_sha256 s \<longleftrightarrow> length s = 64 \<and>
     list_all (\<lambda>c. is_digit c \<or> 97 \<le> (of_char c :: nat) \<and> (of_char c :: nat) \<le> 102) s"

definition safe_relative_path :: "string \<Rightarrow> bool" where
  "safe_relative_path s \<longleftrightarrow> s \<noteq> [] \<and> py_len s \<le> 4096 \<and> CHR 0x5C \<notin> set s \<and> CHR 0x00 \<notin> set s \<and>
     \<not> path_is_absolute (parse_path s) \<and> (\<forall>x \<in> set (snd (parse_path s)). x \<notin> {[], ''.'', ''..''})"

section \<open>The inventory\<close>

record dataset_file =
  df_file_ref :: string
  df_relative_path :: string
  df_size_bytes :: nat
  df_sha256 :: string

record dataset_inventory =
  di_release_ref :: string
  di_dataset_date :: string
  di_inventory_sha256 :: string
  di_total_bytes :: nat
  di_files :: "dataset_file list"

text \<open>A checked text, and a checked size: an \<open>int\<close> that is no \<open>bool\<close> and not negative.\<close>

definition text_where :: "(string \<Rightarrow> bool) \<Rightarrow> json \<Rightarrow> string res" where
  "text_where P j = (case j of
       JStr s \<Rightarrow> (if P s then Inr s else Inl (CommandError ''dataset_manifest_invalid''))
     | _ \<Rightarrow> Inl (CommandError ''dataset_manifest_invalid''))"

fun size_of :: "json \<Rightarrow> nat res" where
  "size_of (JInt i) = (if i < 0 then Inl (CommandError ''dataset_manifest_invalid'') else Inr (nat i))"
| "size_of _ = Inl (CommandError ''dataset_manifest_invalid'')"

fun parse_manifest_file :: "json \<Rightarrow> dataset_file res" where
  "parse_manifest_file (JObj raw) =
     rbind (validated_ref (dict_get raw ''file_ref'')) (\<lambda>file_ref.
     rbind (text_where safe_relative_path (dict_get raw ''relative_path'')) (\<lambda>path.
     rbind (size_of (dict_get raw ''size_bytes'')) (\<lambda>size.
     rbind (text_where is_sha256 (dict_get raw ''sha256'')) (\<lambda>sha.
       Inr \<lparr>df_file_ref = file_ref, df_relative_path = path, df_size_bytes = size, df_sha256 = sha\<rparr>))))"
| "parse_manifest_file _ = Inl (CommandError ''dataset_manifest_invalid'')"

text \<open>What every page repeats: the date, the digest and the total size; and the page's raw files.\<close>

type_synonym page_header = "string \<times> string \<times> nat"

definition parse_page :: "string \<Rightarrow> dict \<Rightarrow> (page_header \<times> json list) res" where
  "parse_page release page =
     (if dict_get page ''release_ref'' \<noteq> JStr release then Inl (CommandError ''dataset_manifest_invalid'')
      else rbind (text_where is_date (dict_get page ''dataset_date'')) (\<lambda>date.
        rbind (text_where is_sha256 (dict_get page ''inventory_sha256'')) (\<lambda>digest.
        rbind (size_of (dict_get page ''total_bytes'')) (\<lambda>bytes.
          case dict_get page ''files'' of
            JList raw \<Rightarrow> Inr ((date, digest, bytes), raw)
          | _ \<Rightarrow> Inl (CommandError ''dataset_manifest_invalid'')))))"

text \<open>
  The page loop.  \<open>n\<close> is what is left of \<open>range(100_000)\<close>; the client is the function that
  answers a page request.
\<close>

type_synonym page_client = "string \<Rightarrow> int option \<Rightarrow> nat \<Rightarrow> dict res"

fun load_pages ::
  "nat \<Rightarrow> page_client \<Rightarrow> string \<Rightarrow> int option \<Rightarrow> int list \<Rightarrow> page_header option \<Rightarrow> dataset_file list \<Rightarrow>
   (page_header \<times> dataset_file list) res" where
  "load_pages 0 client release cursor seen header fs = Inl (CommandError ''dataset_manifest_too_large'')"
| "load_pages (Suc n) client release cursor seen header fs =
     rbind (client release cursor 500) (\<lambda>page.
     rbind (parse_page release page) (\<lambda>(h, raw).
       if header \<noteq> None \<and> header \<noteq> Some h then Inl (CommandError ''dataset_manifest_changed'')
       else rbind (rmap parse_manifest_file raw) (\<lambda>new.
         case dict_get page ''next_cursor'' of
           JNull \<Rightarrow> Inr (h, fs @ new)
         | JInt c \<Rightarrow>
             (if c < 0 \<or> c \<in> set seen then Inl (CommandError ''dataset_manifest_invalid'')
              else load_pages n client release (Some c) (c # seen) (Some h) (fs @ new))
         | _ \<Rightarrow> Inl (CommandError ''dataset_manifest_invalid''))))"

definition load_inventory :: "page_client \<Rightarrow> string \<Rightarrow> dataset_inventory res" where
  "load_inventory client release =
     rbind (validated_ref (JStr release)) (\<lambda>_.
     rbind (load_pages 100000 client release None [] None []) (\<lambda>((date, digest, bytes), fs).
       if \<not> distinct (map df_relative_path fs) then Inl (CommandError ''dataset_manifest_invalid'')
       else if sum_list (map df_size_bytes fs) \<noteq> bytes then Inl (CommandError ''dataset_manifest_invalid'')
       else Inr \<lparr>di_release_ref = release, di_dataset_date = date, di_inventory_sha256 = digest,
                 di_total_bytes = bytes, di_files = fs\<rparr>))"

section \<open>Downloading\<close>

record file_chunk =
  fc_data :: string
  fc_offset :: nat
  fc_total_size :: nat

record transfer_env =
  te_fetch :: "string \<Rightarrow> nat \<Rightarrow> nat \<Rightarrow> file_chunk res"
  te_cancelled :: "nat \<Rightarrow> bool"
  te_clock :: "nat \<Rightarrow> int"
  te_sha256 :: "string \<Rightarrow> string"
  te_symlink :: "string list \<Rightarrow> bool"
  te_parent_safe :: "string list \<Rightarrow> bool"

text \<open>
  The state of a run: the files below the temporary directory, the counters, the published
  progress (bytes and files), and how often the cancel event and the clock were read.
\<close>

record xfer =
  x_tree :: "string list \<Rightarrow> string option"
  x_bytes :: nat
  x_files :: nat
  x_reports :: "(nat \<times> nat) list"
  x_checks :: nat
  x_ticks :: nat

definition target_of :: "dataset_file \<Rightarrow> string list" where
  "target_of f = snd (parse_path (df_relative_path f))"

definition file_size :: "xfer \<Rightarrow> string list \<Rightarrow> nat" where
  "file_size x p = (case x_tree x p of None \<Rightarrow> 0 | Some c \<Rightarrow> length c)"

definition file_digest :: "transfer_env \<Rightarrow> xfer \<Rightarrow> string list \<Rightarrow> string option" where
  "file_digest T x p = map_option (te_sha256 T) (x_tree x p)"

definition append_file :: "string list \<Rightarrow> string \<Rightarrow> xfer \<Rightarrow> xfer" where
  "append_file p s x = x\<lparr>x_tree := (x_tree x)(p := Some ((case x_tree x p of None \<Rightarrow> [] | Some c \<Rightarrow> c) @ s))\<rparr>"

definition unlink_file :: "string list \<Rightarrow> xfer \<Rightarrow> xfer" where
  "unlink_file p x = x\<lparr>x_tree := (x_tree x)(p := None)\<rparr>"

definition report_progress :: "xfer \<Rightarrow> xfer" where
  "report_progress x = x\<lparr>x_reports := x_reports x @ [(x_bytes x, x_files x)]\<rparr>"

definition raise_if_cancelled :: "transfer_env \<Rightarrow> xfer \<Rightarrow> bool \<times> xfer" where
  "raise_if_cancelled T x = (te_cancelled T (x_checks x), x\<lparr>x_checks := Suc (x_checks x)\<rparr>)"

definition read_clock :: "transfer_env \<Rightarrow> xfer \<Rightarrow> int \<times> xfer" where
  "read_clock T x = (te_clock T (x_ticks x), x\<lparr>x_ticks := Suc (x_ticks x)\<rparr>)"

definition DOWNLOAD_CHUNK_BYTES :: nat where
  "DOWNLOAD_CHUNK_BYTES = 4 * 1024 * 1024"

text \<open>The chunk is written to the end of the file and counted.\<close>

definition store_chunk :: "dataset_file \<Rightarrow> string \<Rightarrow> xfer \<Rightarrow> xfer" where
  "store_chunk f data x = (append_file (target_of f) data x)\<lparr>x_bytes := x_bytes x + length data\<rparr>"

text \<open>Why a received chunk is refused.\<close>

definition chunk_error :: "transfer_env \<Rightarrow> dataset_file \<Rightarrow> nat \<Rightarrow> file_chunk \<Rightarrow> py_error option" where
  "chunk_error T f existing ch =
     (if fc_offset ch \<noteq> existing \<or> fc_total_size ch \<noteq> df_size_bytes f
      then Some (CommandError ''dataset_file_range_invalid'')
      else if fc_data ch = [] then Some (CommandError ''dataset_file_incomplete'')
      else if length (fc_data ch) > df_size_bytes f - existing
      then Some (CommandError ''dataset_file_range_invalid'')
      else if \<not> te_parent_safe T (target_of f) then Some (CommandError ''dataset_target_unsafe'')
      else None)"

lemma chunk_ok:
  assumes "chunk_error T f existing ch = None"
  shows "fc_offset ch = existing \<and> fc_data ch \<noteq> [] \<and> 0 < length (fc_data ch) \<and>
    length (fc_data ch) \<le> df_size_bytes f - existing"
  using assms by (auto simp: chunk_error_def split: if_splits)

lemma chunk_progress:
  assumes "chunk_error T f existing ch = None" "existing < df_size_bytes f"
  shows "df_size_bytes f - (existing + length (fc_data ch)) < df_size_bytes f - existing"
proof -
  have "0 < length (fc_data ch)" using chunk_ok[OF assms(1)] by simp
  with assms(2) show ?thesis by linarith
qed

text \<open>The loop \<open>while existing_size < item.size_bytes\<close>; every accepted chunk has at least one byte.\<close>

function download ::
  "transfer_env \<Rightarrow> dataset_file \<Rightarrow> nat \<Rightarrow> int \<Rightarrow> xfer \<Rightarrow> xfer \<times> unit res" where
  "download T f existing last_report x =
     (if existing < df_size_bytes f then
        (let (cancelled, x1) = raise_if_cancelled T x in
         if cancelled then (x1, Inl TransferCancelled)
         else case te_fetch T (df_file_ref f) existing (min DOWNLOAD_CHUNK_BYTES (df_size_bytes f - existing)) of
           Inl e \<Rightarrow> (x1, Inl e)
         | Inr ch \<Rightarrow>
             (case chunk_error T f existing ch of
                Some e \<Rightarrow> (x1, Inl e)
              | None \<Rightarrow>
                  (let (now, x2) = read_clock T (store_chunk f (fc_data ch) x1);
                       existing' = existing + length (fc_data ch);
                       due = now - last_report \<ge> 1000 \<or> existing' = df_size_bytes f in
                   download T f existing' (if due then now else last_report) (if due then report_progress x2 else x2))))
      else (x, Inr ()))"
  by pat_completeness auto

termination
proof (relation "measure (\<lambda>(T, f, existing, l, x). df_size_bytes f - existing)")
qed (auto simp: chunk_progress)

declare download.simps [simp del]

text \<open>
  What is kept of a file found in the temporary directory: nothing when it is too long or has
  the full length with another digest.
\<close>

definition keep_partial :: "transfer_env \<Rightarrow> dataset_file \<Rightarrow> xfer \<Rightarrow> xfer" where
  "keep_partial T f x =
     (let p = target_of f in
      if file_size x p > df_size_bytes f then unlink_file p x
      else if x_tree x p \<noteq> None \<and> file_size x p = df_size_bytes f \<and> file_digest T x p \<noteq> Some (df_sha256 f)
      then unlink_file p x
      else x)"

text \<open>The end of a file: an empty file is created, the digest is checked, a bad file is removed.\<close>

definition finish_file :: "transfer_env \<Rightarrow> dataset_file \<Rightarrow> xfer \<Rightarrow> xfer \<times> unit res" where
  "finish_file T f x0 =
     (let p = target_of f in
      if df_size_bytes f = 0 \<and> x_tree x0 p = None \<and> \<not> te_parent_safe T p
      then (x0, Inl (CommandError ''dataset_target_unsafe''))
      else
        let x = (if df_size_bytes f = 0 \<and> x_tree x0 p = None then append_file p [] x0 else x0) in
        if file_digest T x p \<noteq> Some (df_sha256 f)
        then (unlink_file p x, Inl (CommandError ''dataset_file_checksum_mismatch''))
        else (x\<lparr>x_files := Suc (x_files x)\<rparr>, Inr ()))"

definition transfer_file :: "transfer_env \<Rightarrow> dataset_file \<Rightarrow> xfer \<Rightarrow> xfer \<times> unit res" where
  "transfer_file T f x0 =
     (let (cancelled, x1) = raise_if_cancelled T x0; p = target_of f in
      if cancelled then (x1, Inl TransferCancelled)
      else if \<not> safe_relative_path (df_relative_path f) then (x1, Inl (CommandError ''dataset_manifest_invalid''))
      else if x_tree x1 p \<noteq> None \<and> te_symlink T p then (x1, Inl (CommandError ''dataset_target_unsafe''))
      else
        let x2 = keep_partial T f x1; existing = file_size x2 p;
            (last_report, x3) = read_clock T (x2\<lparr>x_bytes := x_bytes x2 + existing\<rparr>) in
        case download T f existing last_report (report_progress x3) of
          (x4, Inl e) \<Rightarrow> (x4, Inl e)
        | (x4, Inr _) \<Rightarrow> finish_file T f x4)"

text \<open>The loop over the inventory and the check after it.\<close>

fun transfer_files :: "transfer_env \<Rightarrow> dataset_file list \<Rightarrow> xfer \<Rightarrow> xfer \<times> unit res" where
  "transfer_files T [] x =
     (let (cancelled, x1) = raise_if_cancelled T x in
      (x1, if cancelled then Inl TransferCancelled else Inr ()))"
| "transfer_files T (f # fs) x =
     (case transfer_file T f x of (x1, Inl e) \<Rightarrow> (x1, Inl e) | (x1, Inr _) \<Rightarrow> transfer_files T fs x1)"

definition new_xfer :: "(string list \<Rightarrow> string option) \<Rightarrow> xfer" where
  "new_xfer t = \<lparr>x_tree = t, x_bytes = 0, x_files = 0, x_reports = [], x_checks = 0, x_ticks = 0\<rparr>"

text \<open>
  The final report of a run that raised: what the \<open>except\<close> clauses publish.  \<open>removed\<close> is
  whether a discarded partial directory could be removed.
\<close>

datatype transfer_report = ReportSucceeded dataset_inventory | ReportCancelled | ReportPaused | ReportFailed string

definition failure_report :: "bool \<Rightarrow> bool \<Rightarrow> py_error \<Rightarrow> transfer_report" where
  "failure_report discard removed e =
     (case e of
        TransferCancelled \<Rightarrow>
          (if discard \<and> \<not> removed then ReportFailed ''dataset_partial_remove_failed''
           else if discard then ReportCancelled else ReportPaused)
      | CommandError code \<Rightarrow> ReportFailed code
      | OSError \<Rightarrow> ReportFailed ''dataset_transfer_io_error''
      | _ \<Rightarrow> ReportFailed ''dataset_transfer_source_unavailable'')"

text \<open>
  The whole run: the inventory and its date, an existing replica that is reported as it is, the
  temporary directory, the files, the marker and the move to the final directory.  What the
  file system answers is a record: \<open>tf_existing\<close> for the checks of an existing replica,
  \<open>tf_prepare\<close> for the temporary directory, \<open>tf_marker\<close> for writing the marker,
  \<open>tf_occupied\<close> and \<open>tf_move\<close> for the move.  The result is the state of the download
  with whether it was moved to its place, and the final report.
\<close>

record transfer_files_system =
  tf_existing :: "dataset_inventory \<Rightarrow> bool res"
  tf_prepare :: "unit res"
  tf_marker :: "unit res"
  tf_occupied :: bool
  tf_move :: "unit res"

definition publish_replica :: "transfer_env \<Rightarrow> transfer_files_system \<Rightarrow> xfer \<Rightarrow> unit res" where
  "publish_replica T F x =
     rbind (tf_marker F) (\<lambda>_.
       if fst (raise_if_cancelled T x) then Inl TransferCancelled
       else if tf_occupied F then Inl (CommandError ''dataset_destination_exists'')
       else tf_move F)"

definition run_transfer ::
  "transfer_env \<Rightarrow> transfer_files_system \<Rightarrow> page_client \<Rightarrow> string \<Rightarrow> string \<Rightarrow> bool \<Rightarrow> bool \<Rightarrow>
   (string list \<Rightarrow> string option) \<Rightarrow> xfer \<times> bool \<times> transfer_report" where
  "run_transfer T F client release date discard removed t =
     (let x0 = new_xfer t;
          failed = (\<lambda>started x e. (x, False, failure_report (discard \<and> started) removed e)) in
      case rbind (load_inventory client release) (\<lambda>I.
             if di_dataset_date I \<noteq> date then Inl (CommandError ''dataset_date_mismatch'')
             else rbind (tf_existing F I) (\<lambda>existing. Inr (I, existing))) of
        Inl e \<Rightarrow> failed False x0 e
      | Inr (I, existing) \<Rightarrow>
          (if existing then (x0, False, ReportSucceeded I)
           else case tf_prepare F of
             Inl e \<Rightarrow> failed True x0 e
           | Inr _ \<Rightarrow>
               (case transfer_files T (di_files I) x0 of
                  (x, Inl e) \<Rightarrow> failed True x e
                | (x, Inr _) \<Rightarrow>
                    (case publish_replica T F x of
                       Inl e \<Rightarrow> failed True x e
                     | Inr _ \<Rightarrow> (x, True, ReportSucceeded I)))))"


section \<open>What a run leaves behind\<close>

definition file_bytes :: "(string list \<Rightarrow> string option) \<Rightarrow> string list \<Rightarrow> string" where
  "file_bytes t p = (case t p of None \<Rightarrow> [] | Some c \<Rightarrow> c)"

lemma tree_simps [simp]:
  "x_tree (report_progress x) = x_tree x" "x_tree (snd (raise_if_cancelled T x)) = x_tree x"
  "x_tree (snd (read_clock T x)) = x_tree x" "x_tree (unlink_file p x) = (x_tree x)(p := None)"
  "x_tree (append_file p s x) = (x_tree x)(p := Some (file_bytes (x_tree x) p @ s))"
  "x_tree (store_chunk f s x) = (x_tree x)(target_of f := Some (file_bytes (x_tree x) (target_of f) @ s))"
  by (simp_all add: report_progress_def raise_if_cancelled_def read_clock_def unlink_file_def append_file_def
      store_chunk_def file_bytes_def)

lemma file_size_bytes: "file_size x p = length (file_bytes (x_tree x) p)"
  by (simp add: file_size_def file_bytes_def split: option.splits)

lemma download_stop: "\<not> existing < df_size_bytes f \<Longrightarrow> download T f existing l x = (x, Inr ())"
  by (simp add: download.simps)

text \<open>One round of the loop.\<close>

lemma download_step:
  assumes "existing < df_size_bytes f"
  obtains (cancelled) "te_cancelled T (x_checks x)" "download T f existing l x = (snd (raise_if_cancelled T x), Inl TransferCancelled)"
  | (failed) e where "\<not> te_cancelled T (x_checks x)"
      "te_fetch T (df_file_ref f) existing (min DOWNLOAD_CHUNK_BYTES (df_size_bytes f - existing)) = Inl e"
      "download T f existing l x = (snd (raise_if_cancelled T x), Inl e)"
  | (refused) ch e where "\<not> te_cancelled T (x_checks x)"
      "te_fetch T (df_file_ref f) existing (min DOWNLOAD_CHUNK_BYTES (df_size_bytes f - existing)) = Inr ch"
      "chunk_error T f existing ch = Some e" "download T f existing l x = (snd (raise_if_cancelled T x), Inl e)"
  | (stored) ch l' x' where "\<not> te_cancelled T (x_checks x)"
      "te_fetch T (df_file_ref f) existing (min DOWNLOAD_CHUNK_BYTES (df_size_bytes f - existing)) = Inr ch"
      "chunk_error T f existing ch = None" "x_tree x' = x_tree (store_chunk f (fc_data ch) x)"
      "download T f existing l x = download T f (existing + length (fc_data ch)) l' x'"
proof -
  let ?x1 = "snd (raise_if_cancelled T x)"
  have eq: "download T f existing l x =
      (if te_cancelled T (x_checks x) then (?x1, Inl TransferCancelled)
       else case te_fetch T (df_file_ref f) existing (min DOWNLOAD_CHUNK_BYTES (df_size_bytes f - existing)) of
           Inl e \<Rightarrow> (?x1, Inl e)
         | Inr ch \<Rightarrow> (case chunk_error T f existing ch of
              Some e \<Rightarrow> (?x1, Inl e)
            | None \<Rightarrow> (let (now, x2) = read_clock T (store_chunk f (fc_data ch) ?x1);
                  due = now - l \<ge> 1000 \<or> existing + length (fc_data ch) = df_size_bytes f in
                download T f (existing + length (fc_data ch)) (if due then now else l) (if due then report_progress x2 else x2))))"
    using assms by (subst download.simps) (simp add: raise_if_cancelled_def Let_def split: sum.split option.split)
  show thesis
  proof (cases "te_cancelled T (x_checks x)")
    case True
    then show ?thesis using eq cancelled by simp
  next
    case nc: False
    show ?thesis
    proof (cases "te_fetch T (df_file_ref f) existing (min DOWNLOAD_CHUNK_BYTES (df_size_bytes f - existing))")
      case (Inl e)
      then show ?thesis using eq nc failed by simp
    next
      case (Inr ch)
      show ?thesis
      proof (cases "chunk_error T f existing ch")
        case (Some e)
        then show ?thesis using eq nc Inr refused by simp
      next
        case None
        let ?x2 = "snd (read_clock T (store_chunk f (fc_data ch) ?x1))"
        let ?now = "fst (read_clock T (store_chunk f (fc_data ch) ?x1))"
        let ?due = "?now - l \<ge> 1000 \<or> existing + length (fc_data ch) = df_size_bytes f"
        have "download T f existing l x = download T f (existing + length (fc_data ch)) (if ?due then ?now else l)
            (if ?due then report_progress ?x2 else ?x2)"
          using eq nc Inr None by (simp add: case_prod_beta Let_def)
        then show ?thesis by (rule stored[OF nc Inr None, rotated]) simp
      qed
    qed
  qed
qed

text \<open>A download touches one file, and ends with all its bytes when it returns.\<close>

lemma download_frame:
  "p \<noteq> target_of f \<Longrightarrow> x_tree (fst (download T f existing l x)) p = x_tree x p"
proof (induction "df_size_bytes f - existing" arbitrary: existing l x rule: less_induct)
  case less
  show ?case
  proof (cases "existing < df_size_bytes f")
    case True
    then show ?thesis
    proof (cases rule: download_step[where T = T and x = x and l = l])
      case (stored ch l' x')
      with True have "df_size_bytes f - (existing + length (fc_data ch)) < df_size_bytes f - existing"
        by (simp add: chunk_progress)
      from less.hyps[OF this less.prems] stored less.prems show ?thesis by simp
    qed simp_all
  qed (simp add: download_stop)
qed

lemma download_length:
  assumes "download T f existing l x = (x', Inr ())" "length (file_bytes (x_tree x) (target_of f)) = existing" "existing \<le> df_size_bytes f"
  shows "length (file_bytes (x_tree x') (target_of f)) = df_size_bytes f"
  using assms
proof (induction "df_size_bytes f - existing" arbitrary: existing l x rule: less_induct)
  case less
  show ?case
  proof (cases "existing < df_size_bytes f")
    case True
    then show ?thesis
    proof (cases rule: download_step[where T = T and x = x and l = l])
      case (stored ch l' x'')
      note ok = chunk_ok[OF stored(3)]
      have lt: "df_size_bytes f - (existing + length (fc_data ch)) < df_size_bytes f - existing"
        using True stored(3) by (simp add: chunk_progress)
      have len: "length (file_bytes (x_tree x'') (target_of f)) = existing + length (fc_data ch)"
        using less.prems(2) stored(4) by (simp add: file_bytes_def)
      have le: "existing + length (fc_data ch) \<le> df_size_bytes f" using ok True by linarith
      show ?thesis using less.hyps[OF lt _ len le] less.prems(1) stored(5) by simp
    qed (use less.prems in simp_all)
  next
    case False
    then show ?thesis using less.prems by (simp add: download_stop)
  qed
qed


lemma keep_partial_tree:
  "p \<noteq> target_of f \<Longrightarrow> x_tree (keep_partial T f x) p = x_tree x p"
  "length (file_bytes (x_tree (keep_partial T f x)) (target_of f)) \<le> df_size_bytes f"
  by (auto simp: keep_partial_def Let_def file_size_bytes file_bytes_def)

lemma finish_file_frame: "p \<noteq> target_of f \<Longrightarrow> x_tree (fst (finish_file T f x)) p = x_tree x p"
  by (simp add: finish_file_def Let_def)

lemma finish_file_ok:
  assumes "finish_file T f x = (x', Inr ())" "length (file_bytes (x_tree x) (target_of f)) = df_size_bytes f"
  shows "\<exists>c. x_tree x' (target_of f) = Some c \<and> length c = df_size_bytes f \<and> te_sha256 T c = df_sha256 f"
  using assms
  by (auto simp: finish_file_def Let_def file_digest_def file_bytes_def split: if_splits option.splits)

text \<open>A file's transfer as the phases before, during and after its download.\<close>

definition started_file :: "transfer_env \<Rightarrow> dataset_file \<Rightarrow> xfer \<Rightarrow> xfer" where
  "started_file T f x =
     (let x2 = keep_partial T f (snd (raise_if_cancelled T x)) in
      report_progress (snd (read_clock T (x2\<lparr>x_bytes := x_bytes x2 + file_size x2 (target_of f)\<rparr>))))"

lemma started_file_tree:
  "p \<noteq> target_of f \<Longrightarrow> x_tree (started_file T f x) p = x_tree x p"
  "length (file_bytes (x_tree (started_file T f x)) (target_of f)) \<le> df_size_bytes f"
  by (simp_all add: started_file_def Let_def keep_partial_tree)

lemma transfer_file_cases:
  obtains (stopped) e where "transfer_file T f x = (snd (raise_if_cancelled T x), Inl e)"
      "te_cancelled T (x_checks x) \<or> \<not> safe_relative_path (df_relative_path f) \<or> te_symlink T (target_of f)"
  | (loaded) l where "transfer_file T f x =
      (case download T f (length (file_bytes (x_tree (started_file T f x)) (target_of f))) l (started_file T f x) of
         (x4, Inl e) \<Rightarrow> (x4, Inl e) | (x4, Inr _) \<Rightarrow> finish_file T f x4)"
proof (cases "te_cancelled T (x_checks x) \<or> \<not> safe_relative_path (df_relative_path f) \<or>
    x_tree x (target_of f) \<noteq> None \<and> te_symlink T (target_of f)")
  case True
  then have "\<exists>e. transfer_file T f x = (snd (raise_if_cancelled T x), Inl e)"
    by (auto simp: transfer_file_def raise_if_cancelled_def Let_def)
  with True show ?thesis using stopped by blast
next
  case False
  let ?x2 = "keep_partial T f (snd (raise_if_cancelled T x))"
  from False show ?thesis
    by (intro loaded[of "fst (read_clock T (?x2\<lparr>x_bytes := x_bytes ?x2 + file_size ?x2 (target_of f)\<rparr>))"])
      (cases "te_symlink T (target_of f)",
       simp_all add: transfer_file_def started_file_def raise_if_cancelled_def Let_def case_prod_beta
         file_size_bytes split: sum.split)
qed

lemma transfer_file_frame: "p \<noteq> target_of f \<Longrightarrow> x_tree (fst (transfer_file T f x)) p = x_tree x p"
proof (cases rule: transfer_file_cases[of T f x])
  case (loaded l)
  assume p: "p \<noteq> target_of f"
  then have "x_tree (fst (download T f n l (started_file T f x))) p = x_tree x p" for n
    by (simp add: download_frame started_file_tree)
  then show ?thesis using loaded p
    by (simp add: case_prod_beta finish_file_frame split: sum.split)
qed simp

lemma transfer_file_ok:
  assumes "transfer_file T f x = (x', Inr ())"
  shows "\<exists>c. x_tree x' (target_of f) = Some c \<and> length c = df_size_bytes f \<and> te_sha256 T c = df_sha256 f"
proof (cases rule: transfer_file_cases[of T f x])
  case (loaded l)
  then obtain x4 where d: "download T f (length (file_bytes (x_tree (started_file T f x)) (target_of f))) l (started_file T f x) = (x4, Inr ())"
    and fin: "finish_file T f x4 = (x', Inr ())"
    using assms by (auto split: prod.splits sum.splits)
  show ?thesis by (rule finish_file_ok[OF fin download_length[OF d refl started_file_tree(2)]])
qed (use assms in simp)

lemma transfer_files_frame:
  "p \<notin> target_of ` set fs \<Longrightarrow> x_tree (fst (transfer_files T fs x)) p = x_tree x p"
proof (induction fs arbitrary: x)
  case Nil
  then show ?case by (simp add: raise_if_cancelled_def)
next
  case (Cons f fs)
  then have "x_tree (fst (transfer_file T f x)) p = x_tree x p" by (simp add: transfer_file_frame)
  with Cons show ?case by (auto split: prod.split sum.split)
qed

section \<open>A source that answers truthfully\<close>

text \<open>
  A source may fail, and answer with fewer bytes than asked for, but what it sends are the
  bytes of the file at the requested offset, never none of them.
\<close>

definition truthful :: "transfer_env \<Rightarrow> dataset_file \<Rightarrow> string \<Rightarrow> bool" where
  "truthful T f c \<longleftrightarrow> length c = df_size_bytes f \<and> te_sha256 T c = df_sha256 f \<and>
     (\<forall>n k ch. n < df_size_bytes f \<longrightarrow> 0 < k \<longrightarrow> te_fetch T (df_file_ref f) n k = Inr ch \<longrightarrow>
        fc_offset ch = n \<and> fc_total_size ch = df_size_bytes f \<and> fc_data ch \<noteq> [] \<and> length (fc_data ch) \<le> k \<and>
        prefix (fc_data ch) (drop n c))"

text \<open>The run is not disturbed: no cancellation, every request answered, no unsafe path.\<close>

definition undisturbed :: "transfer_env \<Rightarrow> dataset_file list \<Rightarrow> bool" where
  "undisturbed T fs \<longleftrightarrow> (\<forall>i. \<not> te_cancelled T i) \<and>
     (\<forall>f \<in> set fs. safe_relative_path (df_relative_path f) \<and> \<not> te_symlink T (target_of f) \<and>
        te_parent_safe T (target_of f) \<and>
        (\<forall>n k. n < df_size_bytes f \<longrightarrow> 0 < k \<longrightarrow> (\<exists>ch. te_fetch T (df_file_ref f) n k = Inr ch)))"

lemma truthfulD:
  assumes "truthful T f c" "n < df_size_bytes f" "0 < k" "te_fetch T (df_file_ref f) n k = Inr ch"
  shows "fc_offset ch = n" "fc_total_size ch = df_size_bytes f" "fc_data ch \<noteq> []"
    "length (fc_data ch) \<le> k" "prefix (fc_data ch) (drop n c)"
  using assms unfolding truthful_def by blast+

lemma undisturbedD:
  assumes "undisturbed T fs" "f \<in> set fs" "n < df_size_bytes f" "0 < k"
  obtains ch where "te_fetch T (df_file_ref f) n k = Inr ch"
  using assms unfolding undisturbed_def by blast

lemma chunk_size_pos: "existing < df_size_bytes f \<Longrightarrow> 0 < min DOWNLOAD_CHUNK_BYTES (df_size_bytes f - existing)"
  by (simp add: DOWNLOAD_CHUNK_BYTES_def)

lemma download_truthful:
  assumes "truthful T f c" "prefix (file_bytes (x_tree x) (target_of f)) c"
    and "existing = length (file_bytes (x_tree x) (target_of f))"
  shows "prefix (file_bytes (x_tree (fst (download T f existing l x))) (target_of f)) c"
  using assms
proof (induction "df_size_bytes f - existing" arbitrary: existing l x rule: less_induct)
  case less
  show ?case
  proof (cases "existing < df_size_bytes f")
    case True
    then show ?thesis
    proof (cases rule: download_step[where T = T and x = x and l = l])
      case (stored ch l' x')
      have lt: "df_size_bytes f - (existing + length (fc_data ch)) < df_size_bytes f - existing"
        using True stored(3) by (simp add: chunk_progress)
      have "prefix (fc_data ch) (drop existing c)"
        by (rule truthfulD(5)[OF less.prems(1) True chunk_size_pos[OF True] stored(2)])
      moreover have "file_bytes (x_tree x) (target_of f) = take existing c"
        using less.prems(2,3) by (metis append_eq_conv_conj prefix_def)
      ultimately have "prefix (file_bytes (x_tree x') (target_of f)) c"
        using stored(4) by (auto simp: file_bytes_def prefix_def) (metis append.assoc append_take_drop_id)
      moreover have "existing + length (fc_data ch) = length (file_bytes (x_tree x') (target_of f))"
        using stored(4) less.prems(3) by (simp add: file_bytes_def)
      ultimately show ?thesis using less.hyps[OF lt less.prems(1)] stored(5) by simp
    qed (use less.prems in simp_all)
  next
    case False
    then show ?thesis using less.prems by (simp add: download_stop)
  qed
qed

lemma download_completes:
  assumes "truthful T f c" "undisturbed T [f]"
  shows "snd (download T f existing l x) = Inr ()"
proof (induction "df_size_bytes f - existing" arbitrary: existing l x rule: less_induct)
  case less
  show ?case
  proof (cases "existing < df_size_bytes f")
    case True
    let ?k = "min DOWNLOAD_CHUNK_BYTES (df_size_bytes f - existing)"
    obtain ch where ch: "te_fetch T (df_file_ref f) existing ?k = Inr ch"
      using undisturbedD[OF assms(2) _ True chunk_size_pos[OF True]] by auto
    then have "chunk_error T f existing ch = None"
      using truthfulD[OF assms(1) True chunk_size_pos[OF True] ch] assms(2)
      by (simp add: undisturbed_def chunk_error_def)
    from True show ?thesis
    proof (cases rule: download_step[where T = T and x = x and l = l])
      case (stored ch' l' x')
      have "df_size_bytes f - (existing + length (fc_data ch')) < df_size_bytes f - existing"
        using True stored(3) by (simp add: chunk_progress)
      then show ?thesis using less.hyps stored(5) by simp
    qed (use assms(2) ch \<open>chunk_error T f existing ch = None\<close> in \<open>auto simp: undisturbed_def\<close>)
  qed (simp add: download_stop)
qed


text \<open>Files that hold a beginning of their content, and a run that may break off at any point.\<close>

definition partial_tree :: "dataset_file list \<Rightarrow> (dataset_file \<Rightarrow> string) \<Rightarrow> (string list \<Rightarrow> string option) \<Rightarrow> bool" where
  "partial_tree fs content t \<longleftrightarrow> (\<forall>f \<in> set fs. prefix (file_bytes t (target_of f)) (content f))"

lemma keep_partial_truthful:
  assumes "truthful T f c" "prefix (file_bytes (x_tree x) (target_of f)) c"
  shows "prefix (file_bytes (x_tree (started_file T f x)) (target_of f)) c"
  using assms by (simp add: started_file_def keep_partial_def Let_def file_bytes_def)

lemma finish_file_truthful:
  assumes "truthful T f c" "prefix (file_bytes (x_tree x) (target_of f)) c"
  shows "prefix (file_bytes (x_tree (fst (finish_file T f x))) (target_of f)) c"
  using assms by (simp add: finish_file_def Let_def file_bytes_def)

lemma transfer_file_truthful:
  assumes "truthful T f c" "prefix (file_bytes (x_tree x) (target_of f)) c"
  shows "prefix (file_bytes (x_tree (fst (transfer_file T f x))) (target_of f)) c"
proof (cases rule: transfer_file_cases[of T f x])
  case (loaded l)
  let ?d = "download T f (length (file_bytes (x_tree (started_file T f x)) (target_of f))) l (started_file T f x)"
  have "prefix (file_bytes (x_tree (fst ?d)) (target_of f)) c"
    by (rule download_truthful[OF assms(1) keep_partial_truthful[OF assms] refl])
  then show ?thesis using loaded finish_file_truthful[OF assms(1)]
    by (simp add: case_prod_beta split: sum.split)
qed (use assms in simp)

lemma transfer_file_partial:
  assumes "distinct (map target_of fs)" "f \<in> set fs" "\<forall>f \<in> set fs. truthful T f (content f)"
    and "partial_tree fs content (x_tree x)"
  shows "partial_tree fs content (x_tree (fst (transfer_file T f x)))"
  unfolding partial_tree_def
proof
  fix g assume g: "g \<in> set fs"
  show "prefix (file_bytes (x_tree (fst (transfer_file T f x))) (target_of g)) (content g)"
  proof (cases "g = f")
    case True
    then show ?thesis using assms g by (simp add: partial_tree_def transfer_file_truthful)
  next
    case False
    then have "target_of g \<noteq> target_of f" using assms(1,2) g by (auto simp: distinct_map inj_on_def)
    then show ?thesis using assms(4) g by (simp add: partial_tree_def transfer_file_frame file_bytes_def)
  qed
qed

lemma transfer_files_partial:
  assumes "distinct (map target_of fs)" "set gs \<subseteq> set fs" "\<forall>f \<in> set fs. truthful T f (content f)"
    and "partial_tree fs content (x_tree x)"
  shows "partial_tree fs content (x_tree (fst (transfer_files T gs x)))"
  using assms(2,4)
proof (induction gs arbitrary: x)
  case Nil
  then show ?case by (simp add: raise_if_cancelled_def)
next
  case (Cons g gs)
  then have "partial_tree fs content (x_tree (fst (transfer_file T g x)))"
    using transfer_file_partial[OF assms(1) _ assms(3)] by simp
  with Cons show ?case by (auto split: prod.split sum.split)
qed

lemma transfer_file_completes:
  assumes "truthful T f c" "undisturbed T [f]" "prefix (file_bytes (x_tree x) (target_of f)) c"
  shows "snd (transfer_file T f x) = Inr () \<and> x_tree (fst (transfer_file T f x)) (target_of f) = Some c"
proof (cases rule: transfer_file_cases[of T f x])
  case (stopped e)
  then show ?thesis using assms(2) by (simp add: undisturbed_def)
next
  case (loaded l)
  let ?s = "started_file T f x"
  let ?d = "download T f (length (file_bytes (x_tree ?s) (target_of f))) l ?s"
  have ok: "snd ?d = Inr ()" by (rule download_completes[OF assms(1,2)])
  then have eq: "?d = (fst ?d, Inr ())" by (metis prod.collapse)
  have pre: "prefix (file_bytes (x_tree (fst ?d)) (target_of f)) c"
    by (rule download_truthful[OF assms(1) keep_partial_truthful[OF assms(1,3)] refl])
  have len: "length (file_bytes (x_tree (fst ?d)) (target_of f)) = df_size_bytes f"
    by (rule download_length[OF eq refl started_file_tree(2)])
  have bytes: "file_bytes (x_tree (fst ?d)) (target_of f) = c"
    using pre len assms(1) by (auto simp: truthful_def prefix_def)
  have "transfer_file T f x = finish_file T f (fst ?d)"
    using loaded by (subst (asm) eq) simp
  moreover have "snd (finish_file T f (fst ?d)) = Inr () \<and> x_tree (fst (finish_file T f (fst ?d))) (target_of f) = Some c"
    using bytes len assms(1,2)
    by (cases "x_tree (fst ?d) (target_of f)")
      (auto simp: finish_file_def Let_def file_bytes_def file_digest_def truthful_def undisturbed_def)
  ultimately show ?thesis by simp
qed

lemma transfer_files_complete:
  assumes "distinct (map target_of gs)" "\<forall>f \<in> set gs. truthful T f (content f)" "undisturbed T gs"
    and "\<forall>f \<in> set gs. prefix (file_bytes (x_tree x) (target_of f)) (content f)"
  shows "snd (transfer_files T gs x) = Inr () \<and>
    (\<forall>f \<in> set gs. x_tree (fst (transfer_files T gs x)) (target_of f) = Some (content f))"
  using assms
proof (induction gs arbitrary: x)
  case Nil
  then show ?case by (simp add: raise_if_cancelled_def undisturbed_def)
next
  case (Cons g gs)
  have "undisturbed T [g]" "undisturbed T gs" using Cons.prems(3) by (simp_all add: undisturbed_def)
  obtain y where y: "transfer_file T g x = (y, Inr ())" and yg: "x_tree y (target_of g) = Some (content g)"
    using transfer_file_completes[of T g "content g" x] Cons.prems \<open>undisturbed T [g]\<close> by (cases "transfer_file T g x") auto
  have fr: "x_tree y p = x_tree x p" if "p \<noteq> target_of g" for p
    using transfer_file_frame[OF that, of T x] y by simp
  have "\<forall>f \<in> set gs. prefix (file_bytes (x_tree y) (target_of f)) (content f)"
  proof
    fix f assume f: "f \<in> set gs"
    then have "target_of f \<noteq> target_of g" using Cons.prems(1) by (auto simp: image_iff)
    then show "prefix (file_bytes (x_tree y) (target_of f)) (content f)"
      using Cons.prems(4) f fr by (simp add: file_bytes_def)
  qed
  moreover have "target_of g \<notin> target_of ` set gs" using Cons.prems(1) by simp
  ultimately show ?case
    using Cons.IH[of y] Cons.prems y yg \<open>undisturbed T gs\<close> transfer_files_frame[of "target_of g" gs T y]
    by simp
qed


lemma transfer_files_verified:
  assumes "transfer_files T fs x = (x', Inr ())" and "distinct (map target_of fs)"
  shows "(\<forall>f \<in> set fs. \<exists>c. x_tree x' (target_of f) = Some c \<and> length c = df_size_bytes f \<and> te_sha256 T c = df_sha256 f) \<and>
    (\<forall>p. p \<notin> target_of ` set fs \<longrightarrow> x_tree x' p = x_tree x p)"
proof -
  have "\<forall>f \<in> set fs. \<exists>c. x_tree x' (target_of f) = Some c \<and> length c = df_size_bytes f \<and> te_sha256 T c = df_sha256 f"
    using assms
  proof (induction fs arbitrary: x)
    case (Cons g gs)
    then obtain y where y: "transfer_file T g x = (y, Inr ())" and r: "transfer_files T gs y = (x', Inr ())"
      by (auto split: prod.splits sum.splits)
    have "x_tree x' (target_of g) = x_tree y (target_of g)"
      using transfer_files_frame[of "target_of g" gs T y] r Cons.prems(2) by simp
    with transfer_file_ok[OF y] Cons.IH[OF r] Cons.prems(2) show ?case by simp
  qed simp
  moreover have "\<forall>p. p \<notin> target_of ` set fs \<longrightarrow> x_tree x' p = x_tree x p"
    using transfer_files_frame[of _ fs T x] assms(1) by simp
  ultimately show ?thesis by blast
qed


text \<open>
  One attempt at the transfer: it may be cancelled or fail anywhere, against a source that
  may refuse requests or answer them in part.
\<close>

inductive attempt ::
  "dataset_file list \<Rightarrow> (dataset_file \<Rightarrow> string) \<Rightarrow> (string list \<Rightarrow> string option) \<Rightarrow> (string list \<Rightarrow> string option) \<Rightarrow> bool"
  for fs content where
  run: "\<forall>f \<in> set fs. truthful T f (content f) \<Longrightarrow> transfer_files T fs (new_xfer t) = (x, r) \<Longrightarrow>
    attempt fs content t (x_tree x)"

lemma attempt_partial:
  assumes "distinct (map target_of fs)" "attempt fs content t t'" "partial_tree fs content t"
  shows "partial_tree fs content t'"
  using assms(2)
proof cases
  case (run T x r)
  then show ?thesis
    using transfer_files_partial[OF assms(1) subset_refl run(2), of "new_xfer t"] assms(3) by (simp add: new_xfer_def)
qed

text \<open>
  C16: an interrupted transfer can always be completed.  Starting from an empty temporary
  directory, after any number of attempts that were cancelled or failed at any point against
  a source that sends true bytes, one attempt that is not disturbed returns, and then every
  file has exactly its content.
\<close>

theorem interrupted_transfer_completes:
  assumes "distinct (map target_of fs)" and "(attempt fs content)\<^sup>*\<^sup>* (\<lambda>_. None) t"
    and "\<forall>f \<in> set fs. truthful T f (content f)" and "undisturbed T fs"
  shows "\<exists>x. transfer_files T fs (new_xfer t) = (x, Inr ()) \<and> (\<forall>f \<in> set fs. x_tree x (target_of f) = Some (content f))"
proof -
  have "partial_tree fs content t"
    using assms(2)
  proof (induction rule: rtranclp_induct)
    case base
    then show ?case by (simp add: partial_tree_def file_bytes_def)
  next
    case (step t t')
    then show ?case using attempt_partial[OF assms(1)] by blast
  qed
  then have "\<forall>f \<in> set fs. prefix (file_bytes (x_tree (new_xfer t)) (target_of f)) (content f)"
    by (simp add: partial_tree_def new_xfer_def)
  from transfer_files_complete[OF assms(1,3,4) this] show ?thesis
    by (cases "transfer_files T fs (new_xfer t)") auto
qed

section \<open>A small transfer\<close>

text \<open>Two files, a source that sends two bytes at a time, a digest that is the content, and a first run that is cancelled.\<close>

definition ex_files :: "dataset_file list" where
  "ex_files = [\<lparr>df_file_ref = ''f1'', df_relative_path = ''a/b.bin'', df_size_bytes = 3, df_sha256 = ''abc''\<rparr>,
     \<lparr>df_file_ref = ''f2'', df_relative_path = ''c.bin'', df_size_bytes = 1, df_sha256 = ''x''\<rparr>]"

definition ex_transfer_env :: "nat \<Rightarrow> transfer_env" where
  "ex_transfer_env stop = \<lparr>te_fetch = (\<lambda>ref n k. let c = (if ref = ''f1'' then ''abc'' else ''x'') in
       Inr \<lparr>fc_data = take (min 2 k) (drop n c), fc_offset = n, fc_total_size = length c\<rparr>),
     te_cancelled = (\<lambda>i. i = stop), te_clock = (\<lambda>_. 0), te_sha256 = id, te_symlink = (\<lambda>_. False),
     te_parent_safe = (\<lambda>_. True)\<rparr>"

definition ex_calm :: transfer_env where
  "ex_calm = (ex_transfer_env 0)\<lparr>te_cancelled := (\<lambda>_. False)\<rparr>"

definition ex_content :: "dataset_file \<Rightarrow> string" where
  "ex_content f = df_sha256 f"

lemma ex_truthful:
  "\<forall>f \<in> set ex_files. truthful (ex_transfer_env stop) f (ex_content f)"
  "\<forall>f \<in> set ex_files. truthful ex_calm f (ex_content f)"
  by (auto simp: ex_files_def truthful_def ex_transfer_env_def ex_calm_def ex_content_def Let_def take_is_prefix)

lemma ex_targets: "map target_of ex_files = [[''a'', ''b.bin''], [''c.bin'']]"
  by (simp add: ex_files_def target_of_def parse_path_def path_root_def)

lemma ex_calm_undisturbed: "undisturbed ex_calm ex_files"
  by (auto simp: undisturbed_def ex_calm_def ex_transfer_env_def ex_files_def safe_relative_path_def py_len_def is_cont_def
      parse_path_def path_root_def path_is_absolute_def Let_def)

definition ex_page :: page_client where
  "ex_page release cursor limit = Inr [(''release_ref'', JStr ''r''), (''dataset_date'', JStr ''20250101''),
     (''inventory_sha256'', JStr (replicate 64 CHR ''a'')), (''total_bytes'', JInt 0), (''files'', JList [JObj
       [(''file_ref'', JStr ''f''), (''relative_path'', JStr ''a''), (''size_bytes'', JInt 0), (''sha256'', JStr (replicate 64 CHR ''b''))]])]"

definition ex_system :: transfer_files_system where
  "ex_system = \<lparr>tf_existing = (\<lambda>_. Inr False), tf_prepare = Inr (), tf_marker = Inr (), tf_occupied = False, tf_move = Inr ()\<rparr>"

definition ex_run_env :: transfer_env where
  "ex_run_env = ex_calm\<lparr>te_sha256 := (\<lambda>_. replicate 64 CHR ''b'')\<rparr>"

definition ex_transfer_run :: "xfer \<times> bool \<times> transfer_report" where
  "ex_transfer_run = run_transfer ex_run_env ex_system ex_page ''r'' ''20250101'' False False (\<lambda>_. None)"

lemma ex_transfer_run_moved: "fst (snd ex_transfer_run)"
  by code_simp


theorem interrupted_transfer_completes_witness:
  "snd (transfer_files (ex_transfer_env 2) ex_files (new_xfer (\<lambda>_. None))) = Inl TransferCancelled \<and>
   snd (transfer_files ex_calm ex_files (new_xfer
     (x_tree (fst (transfer_files (ex_transfer_env 2) ex_files (new_xfer (\<lambda>_. None))))))) = Inr ()"
proof -
  let ?r = "transfer_files (ex_transfer_env 2) ex_files (new_xfer (\<lambda>_. None))"
  have "attempt ex_files ex_content (\<lambda>_. None) (x_tree (fst ?r))"
    by (rule attempt.run[OF ex_truthful(1)[of 2], where r = "snd ?r"]) simp
  then have "\<exists>x. transfer_files ex_calm ex_files (new_xfer (x_tree (fst ?r))) = (x, Inr ()) \<and>
      (\<forall>f \<in> set ex_files. x_tree x (target_of f) = Some (ex_content f))"
    using interrupted_transfer_completes[OF _ r_into_rtranclp ex_truthful(2) ex_calm_undisturbed] ex_targets by simp
  moreover have "snd ?r = Inl TransferCancelled" by code_simp
  ultimately show ?thesis by auto
qed

end
