(* ===== verification/Dataset_Properties.thy ===== *)
theory Dataset_Properties
  imports Command_Properties Worker_Datasets
begin

text \<open>
  Released datasets between the centre and a Worker: the manifest the centre stores is the
  inventory the Worker reads back page by page, one transfer command runs on a node at a
  time, and what a failed stop command leaves behind.
\<close>

section \<open>The manifest on the wire\<close>

text \<open>The projection of a manifest row; its two timestamps are left out.\<close>

fun manifest_status_name :: "manifest_status \<Rightarrow> string" where
  "manifest_status_name MPreparing = ''preparing''"
| "manifest_status_name MBuilding = ''building''"
| "manifest_status_name MReady = ''ready''"
| "manifest_status_name MFailed = ''failed''"

definition safe_source_manifest :: "manifest_row \<Rightarrow> dict" where
  "safe_source_manifest m =
     [(''manifest_ref'', JStr (mf_manifest_ref m)), (''release_ref'', JStr (mf_release_ref m)),
      (''dataset_date'', JStr (mf_dataset_date m)), (''status'', JStr (manifest_status_name (mf_status m))),
      (''inventory_sha256'', opt_json (mf_inventory_sha256 m)), (''file_count'', JInt (mf_file_count m)),
      (''total_bytes'', JInt (mf_total_bytes m)), (''error_code'', opt_json (mf_error_code m)),
      (''error_message'', opt_json (mf_error_message m))]"

definition source_file_json :: "source_file_row \<Rightarrow> json" where
  "source_file_json f =
     JObj [(''file_ref'', JStr (sf_file_ref f)), (''relative_path'', JStr (sf_relative_path f)),
           (''size_bytes'', JInt (sf_size_bytes f)), (''sha256'', JStr (sf_sha256 f))]"

definition manifest_response :: "string \<Rightarrow> nat \<Rightarrow> nat \<Rightarrow> tdb \<Rightarrow> dict res" where
  "manifest_response release cursor limit db =
     rbind (source_manifest_page release cursor limit db) (\<lambda>(page, next).
       case manifest_by_release db release of
         None \<Rightarrow> Inl (NotFound ''dataset_source_manifest_not_found'')
       | Some m \<Rightarrow> Inr (safe_source_manifest m @
           [(''files'', JList (map source_file_json page)),
            (''next_cursor'', case next of None \<Rightarrow> JNull | Some c \<Rightarrow> JInt (int c))]))"

text \<open>The service in front of the store: the Worker's credential, then its assignment.\<close>

definition service_manifest_page :: "env \<Rightarrow> string \<Rightarrow> string \<Rightarrow> string \<Rightarrow> nat \<Rightarrow> nat \<Rightarrow> tdb \<Rightarrow> dict res" where
  "service_manifest_page E node_ref release token cursor limit db =
     rbind (authenticate_worker E node_ref token None db) (\<lambda>_.
     rbind (authorize_source_download node_ref release db) (\<lambda>_.
       manifest_response release cursor limit db))"

text \<open>The Worker's HTTP client over it; a missing cursor is the route's default 0.\<close>

definition fetch_dataset_manifest_page :: "env \<Rightarrow> string \<Rightarrow> string \<Rightarrow> tdb \<Rightarrow> page_client" where
  "fetch_dataset_manifest_page E node_ref token db release cursor limit =
     (if token = [] \<or> node_ref = [] then Inl (ClientError ''worker is not enrolled'')
      else if limit < 1 \<or> limit > 1000 then Inl (ClientError ''dataset manifest page limit is invalid'')
      else if (case cursor of None \<Rightarrow> False | Some c \<Rightarrow> c < 0) then Inl (ClientError ''dataset manifest cursor is invalid'')
      else if \<not> safe_ref release then Inl (ClientError ''worker dataset reference is invalid'')
      else service_manifest_page E node_ref release token (case cursor of None \<Rightarrow> 0 | Some c \<Rightarrow> nat c) limit db)"

section \<open>Pages\<close>

lemma sort_by_id: "sorted (map k xs) \<Longrightarrow> order_by k xs = xs"
  by (simp add: order_by_def sort_key_id_if_sorted)

lemma source_files_ordinals: "map sf_ordinal (source_files E m fs) = [0..<length fs]"
  by (simp add: source_files_def source_file_def comp_def case_prod_beta)

lemma map_source_files:
  assumes "\<And>i f. k (source_file E m i f) = g f"
  shows "map k (source_files E m fs) = map g fs"
  by (rule nth_equalityI) (simp_all add: source_files_def assms)

lemma source_files_simps [simp]:
  "length (source_files E m fs) = length fs"
  "map sf_relative_path (source_files E m fs) = map if_relative_path fs"
  "map sf_size_bytes (source_files E m fs) = map if_size_bytes fs"
  "map sf_sha256 (source_files E m fs) = map if_sha256 fs"
proof -
  show "length (source_files E m fs) = length fs" by (simp add: source_files_def)
qed (rule map_source_files, simp add: source_file_def)+

lemma release_waiting_frame [simp]:
  "t_manifests (release_waiting E ivt now t db) = t_manifests db"
  "t_source_files (release_waiting E ivt now t db) = t_source_files db"
  by (simp_all add: release_waiting_def Let_def upd_transfers_def insert_node_command_def new_ref_def add_command_def
      split: option.split)

lemma fold_release_waiting_frame [simp]:
  "t_manifests (fold (release_waiting E ivt now) ts db) = t_manifests db"
  "t_source_files (fold (release_waiting E ivt now) ts db) = t_source_files db"
  by (induction ts arbitrary: db) simp_all

text \<open>What the completed manifest serves: its files in the order of the inventory.\<close>

lemma complete_source_manifest_stored:
  assumes "complete_source_manifest E ivt now db = Inr (m, db')"
  obtains m0 where "manifest_by_release db' (iv_release_ref ivt) = Some m"
    "m = m0\<lparr>mf_status := MReady, mf_source_root := Some (iv_source_root ivt),
       mf_inventory_sha256 := Some (iv_inventory_sha256 ivt), mf_file_count := int (length (iv_files ivt)),
       mf_total_bytes := iv_total_bytes ivt, mf_error_code := None, mf_error_message := None,
       mf_lease_expires_at := None, mf_updated_at := now\<rparr>" "mf_release_ref m0 = iv_release_ref ivt"
    "order_by sf_ordinal (filter (\<lambda>f. sf_manifest_id f = mf_id m) (t_source_files db')) = source_files E m0 (iv_files ivt)"
    "distinct (map if_relative_path (iv_files ivt))" "\<forall>f \<in> set (iv_files ivt). 0 \<le> if_size_bytes f"
proof -
  obtain m0 where m0: "manifest_by_release db (iv_release_ref ivt) = Some m0"
    using assms by (cases "manifest_by_release db (iv_release_ref ivt)") (simp_all add: complete_source_manifest_def)
  let ?g = "\<lambda>x. x\<lparr>mf_status := MReady, mf_source_root := Some (iv_source_root ivt),
       mf_inventory_sha256 := Some (iv_inventory_sha256 ivt), mf_file_count := int (length (iv_files ivt)),
       mf_total_bytes := iv_total_bytes ivt, mf_error_code := None, mf_error_message := None,
       mf_lease_expires_at := None, mf_updated_at := now\<rparr>"
  let ?fs = "source_files E m0 (iv_files ivt)"
  let ?others = "sql_delete (\<lambda>f. sf_manifest_id f = mf_id m0) (t_source_files db)"
  have ins: "inventory_insertable ?others ?fs (iv_total_bytes ivt)" and m: "m = ?g m0"
    and db': "t_manifests db' = sql_update (\<lambda>x. mf_id x = mf_id m0) ?g (t_manifests db)" "t_source_files db' = ?others @ ?fs"
    using assms m0 by (simp_all add: complete_source_manifest_def Let_def upd_manifests_def split: if_split_asm)
      (elim conjE, hypsubst, simp)+
  have rel: "mf_release_ref m0 = iv_release_ref ivt"
    using fetchone_filterD[OF m0[unfolded manifest_by_release_def]] by simp
  have "manifest_by_release db' (iv_release_ref ivt) = Some m"
    using m0 unfolding manifest_by_release_def db'
    by (subst fetchone_key_update[where k = mf_release_ref]) (simp_all add: m)
  moreover have "filter (\<lambda>f. sf_manifest_id f = mf_id m) (t_source_files db') = ?fs"
    by (simp add: db' m sql_delete_def) (simp add: source_files_def source_file_def case_prod_beta comp_def filter_True)
  then have "order_by sf_ordinal (filter (\<lambda>f. sf_manifest_id f = mf_id m) (t_source_files db')) = ?fs"
    by (simp add: sort_by_id source_files_ordinals)
  moreover have "distinct (map if_relative_path (iv_files ivt))"
    using ins unfolding inventory_insertable_def by simp
  moreover have "\<forall>f \<in> set (iv_files ivt). 0 \<le> if_size_bytes f"
  proof -
    have "\<forall>i \<in> set (map sf_size_bytes ?fs). 0 \<le> i" using ins by (simp add: inventory_insertable_def del: source_files_simps)
    then show ?thesis by simp
  qed
  ultimately show thesis using that[OF _ m rel] by blast
qed


section \<open>Reading the inventory back\<close>

text \<open>The inventory that \<open>build_inventory\<close> produces, with paths the Worker accepts.\<close>

definition inventory_wf :: "inventory \<Rightarrow> bool" where
  "inventory_wf ivt \<longleftrightarrow> iv_total_bytes ivt = sum_list (map if_size_bytes (iv_files ivt)) \<and>
     is_sha256 (iv_inventory_sha256 ivt) \<and> safe_ref (iv_release_ref ivt) \<and>
     (\<forall>f \<in> set (iv_files ivt). safe_relative_path (if_relative_path f) \<and> is_sha256 (if_sha256 f))"

definition received_file :: "source_file_row \<Rightarrow> dataset_file" where
  "received_file f = \<lparr>df_file_ref = sf_file_ref f, df_relative_path = sf_relative_path f,
     df_size_bytes = nat (sf_size_bytes f), df_sha256 = sf_sha256 f\<rparr>"

lemma sha256_safe_ref: "is_sha256 s \<Longrightarrow> safe_ref (''dataset_file_'' @ s)"
  by (auto simp: safe_ref_def is_sha256_def ref_char_def is_alnum_def is_digit_def list_all_iff)

lemma parse_source_file:
  assumes "safe_ref (sf_file_ref f)" "safe_relative_path (sf_relative_path f)" "0 \<le> sf_size_bytes f" "is_sha256 (sf_sha256 f)"
  shows "parse_manifest_file (source_file_json f) = Inr (received_file f)"
  using assms by (simp add: source_file_json_def dict_get_def text_where_def received_file_def)

lemma rmap_parse_source_files:
  assumes "\<forall>f \<in> set fs. parse_manifest_file (source_file_json f) = Inr (received_file f)"
  shows "rmap parse_manifest_file (map source_file_json fs) = Inr (map received_file fs)"
  using assms by (induction fs) simp_all

lemma sum_list_nat_of:
  "\<forall>x \<in> set xs. 0 \<le> k x \<Longrightarrow> int (sum_list (map (\<lambda>x. nat (k x)) xs)) = sum_list (map k xs)"
  by (induction xs) auto

text \<open>One page of a manifest with the given files, as the Worker parses it.\<close>

definition serves :: "page_client \<Rightarrow> string \<Rightarrow> page_header \<Rightarrow> source_file_row list \<Rightarrow> bool" where
  "serves client release h fs \<longleftrightarrow>
     (\<forall>cursor k. (case cursor of None \<Rightarrow> k = 0 | Some c \<Rightarrow> c = int k) \<longrightarrow>
        (\<exists>page. client release cursor 500 = Inr page \<and>
           parse_page release page = Inr (h, map source_file_json (take 500 (drop k fs))) \<and>
           dict_get page ''next_cursor'' = (if k + length (take 500 (drop k fs)) < length fs
             then JInt (int (k + length (take 500 (drop k fs)))) else JNull)))"

lemma load_pages_page:
  assumes "client release cursor 500 = Inr page" "parse_page release page = Inr (h, raw)"
    and "rmap parse_manifest_file raw = Inr new" "header = None \<or> header = Some h"
    and "dict_get page ''next_cursor'' = (if again then JInt (int j) else JNull)"
  shows "load_pages (Suc n) client release cursor seen header acc =
    (if again then if int j \<in> set seen then Inl (CommandError ''dataset_manifest_invalid'')
       else load_pages n client release (Some (int j)) (int j # seen) (Some h) (acc @ new)
     else Inr (h, acc @ new))"
  using assms by (cases again) auto

lemma load_pages_complete:
  assumes "serves client release h fs" "\<forall>f \<in> set fs. parse_manifest_file (source_file_json f) = Inr (received_file f)"
    and "case cursor of None \<Rightarrow> k = 0 | Some c \<Rightarrow> c = int k" "header = None \<or> header = Some h"
    and "length fs - k \<le> 500 * n" "0 < n" "k \<le> length fs" "\<forall>c \<in> set seen. c \<le> int k"
  shows "load_pages n client release cursor seen header acc = Inr (h, acc @ map received_file (drop k fs))"
  using assms(3-8)
proof (induction n arbitrary: cursor k seen header acc)
  case (Suc n)
  let ?page = "take 500 (drop k fs)"
  obtain page where page: "client release cursor 500 = Inr page"
    "parse_page release page = Inr (h, map source_file_json ?page)"
    "dict_get page ''next_cursor'' = (if k + length ?page < length fs then JInt (int (k + length ?page)) else JNull)"
    using assms(1) Suc.prems(1) unfolding serves_def by blast
  have parse: "rmap parse_manifest_file (map source_file_json ?page) = Inr (map received_file ?page)"
    using assms(2) by (intro rmap_parse_source_files) (meson in_set_dropD in_set_takeD)
  have step: "load_pages (Suc n) client release cursor seen header acc =
      (if k + length ?page < length fs
       then if int (k + length ?page) \<in> set seen then Inl (CommandError ''dataset_manifest_invalid'')
         else load_pages n client release (Some (int (k + length ?page))) (int (k + length ?page) # seen) (Some h)
           (acc @ map received_file ?page)
       else Inr (h, acc @ map received_file ?page))"
    by (rule load_pages_page[where client = client and release = release and cursor = cursor,
        OF page(1,2) parse Suc.prems(2)]) (rule page(3))
  show ?case
  proof (cases "k + length ?page < length fs")
    case True
    then have len: "length ?page = 500" by (simp add: min_def split: if_splits)
    have "int (k + 500) \<notin> set seen" using Suc.prems(6) by auto
    moreover have "load_pages n client release (Some (int (k + 500))) (int (k + 500) # seen) (Some h) (acc @ map received_file ?page) =
        Inr (h, (acc @ map received_file ?page) @ map received_file (drop (k + 500) fs))"
      using True len Suc.prems by (intro Suc.IH) (auto)
    moreover have "?page @ drop (k + 500) fs = drop k fs"
      by (metis add.commute append_take_drop_id drop_drop)
    then have "map received_file (drop k fs) = map received_file ?page @ map received_file (drop (k + 500) fs)"
      by (metis map_append)
    ultimately show ?thesis using step True len by simp
  next
    case False
    then have "?page = drop k fs" by simp
    then show ?thesis using step False by simp
  qed
qed simp


lemma parse_manifest_response:
  assumes "manifest_by_release db release = Some m" "mf_status m = MReady" "mf_release_ref m = release"
    and "is_date (mf_dataset_date m)" "mf_inventory_sha256 m = Some sha" "is_sha256 sha" "0 \<le> mf_total_bytes m"
    and "order_by sf_ordinal (filter (\<lambda>f. sf_manifest_id f = mf_id m) (t_source_files db)) = fs"
    and "mf_file_count m = int (length fs)"
  obtains page where "manifest_response release k 500 db = Inr page"
    "parse_page release page = Inr ((mf_dataset_date m, sha, nat (mf_total_bytes m)), map source_file_json (take 500 (drop k fs)))"
    "dict_get page ''next_cursor'' = (if k + length (take 500 (drop k fs)) < length fs
       then JInt (int (k + length (take 500 (drop k fs)))) else JNull)"
proof -
  let ?pg = "take 500 (drop k fs)"
  have "source_manifest_page release k 500 db =
      Inr (?pg, if k + length ?pg < length fs then Some (k + length ?pg) else None)"
    using assms by (simp add: source_manifest_page_def Let_def del: length_take of_nat_add)
  then have "manifest_response release k 500 db = Inr (safe_source_manifest m @
      [(''files'', JList (map source_file_json ?pg)),
       (''next_cursor'', if k + length ?pg < length fs then JInt (int (k + length ?pg)) else JNull)])"
    using assms(1) by (simp add: manifest_response_def del: length_take)
  then show thesis
    by (rule that) (use assms in \<open>simp_all add: parse_page_def safe_source_manifest_def dict_get_def text_where_def opt_json_def\<close>)
qed

text \<open>
  C13: the inventory a Worker downloads is the inventory the centre stored.  After the centre
  completed a manifest, an enrolled Worker with a transfer of the release follows the cursors
  from page to page, the loop ends within its limit of pages (500 files each), every check on
  the way accepts, and the result lists the same files in the same order with the same sizes
  and digests.  \<open>sha256_hex\<close> is assumed to print 64 hexadecimal digits.
\<close>

theorem inventory_roundtrip:
  assumes "complete_source_manifest E ivt now db = Inr (m, db')" and "inventory_wf ivt"
    and "is_date (mf_dataset_date m)" and "length (iv_files ivt) \<le> 500 * 100000" and "\<forall>s. is_sha256 (sha256_hex E s)"
    and "authenticate_worker E node_ref token None db' = Inr n" and "authorize_source_download node_ref (iv_release_ref ivt) db' = Inr ()"
    and "token \<noteq> []" and "node_ref \<noteq> []"
  shows "\<exists>I. load_inventory (fetch_dataset_manifest_page E node_ref token db') (iv_release_ref ivt) = Inr I \<and>
    di_release_ref I = iv_release_ref ivt \<and> di_dataset_date I = mf_dataset_date m \<and>
    di_inventory_sha256 I = iv_inventory_sha256 ivt \<and> int (di_total_bytes I) = iv_total_bytes ivt \<and>
    map (\<lambda>f. (df_relative_path f, int (df_size_bytes f), df_sha256 f)) (di_files I) =
    map (\<lambda>f. (if_relative_path f, if_size_bytes f, if_sha256 f)) (iv_files ivt)"
proof -
  obtain m0 where m: "manifest_by_release db' (iv_release_ref ivt) = Some m"
    "m = m0\<lparr>mf_status := MReady, mf_source_root := Some (iv_source_root ivt),
       mf_inventory_sha256 := Some (iv_inventory_sha256 ivt), mf_file_count := int (length (iv_files ivt)),
       mf_total_bytes := iv_total_bytes ivt, mf_error_code := None, mf_error_message := None,
       mf_lease_expires_at := None, mf_updated_at := now\<rparr>" "mf_release_ref m0 = iv_release_ref ivt"
    "order_by sf_ordinal (filter (\<lambda>f. sf_manifest_id f = mf_id m) (t_source_files db')) = source_files E m0 (iv_files ivt)"
    and paths: "distinct (map if_relative_path (iv_files ivt))" and sizes: "\<forall>f \<in> set (iv_files ivt). 0 \<le> if_size_bytes f"
    by (rule complete_source_manifest_stored[OF assms(1)])
  let ?fs = "source_files E m0 (iv_files ivt)" and ?client = "fetch_dataset_manifest_page E node_ref token db'"
  let ?h = "(mf_dataset_date m, iv_inventory_sha256 ivt, nat (iv_total_bytes ivt))"
  have tot: "0 \<le> iv_total_bytes ivt" 
  proof -
    have "0 \<le> sum_list (map if_size_bytes (iv_files ivt))" using sizes by (intro sum_list_nonneg) auto
    with assms(2) show ?thesis by (simp add: inventory_wf_def)
  qed
  have client: "?client (iv_release_ref ivt) cursor 500 = manifest_response (iv_release_ref ivt) k 500 db'"
    if "case cursor of None \<Rightarrow> k = 0 | Some c \<Rightarrow> c = int k" for cursor k
    using assms(2,6-9) that
    by (simp add: fetch_dataset_manifest_page_def service_manifest_page_def inventory_wf_def split: option.splits)
  have "serves ?client (iv_release_ref ivt) ?h ?fs"
    unfolding serves_def
  proof (intro allI impI)
    fix cursor k assume ck: "case cursor of None \<Rightarrow> k = 0 | Some c \<Rightarrow> c = int k"
    have st: "mf_status m = MReady" "mf_release_ref m = iv_release_ref ivt" "mf_inventory_sha256 m = Some (iv_inventory_sha256 ivt)"
      "mf_total_bytes m = iv_total_bytes ivt" "mf_file_count m = int (length ?fs)"
      using m(2,3) by simp_all
    have sha: "is_sha256 (iv_inventory_sha256 ivt)" using assms(2) by (simp add: inventory_wf_def)
    have tot': "0 \<le> mf_total_bytes m" using tot st(4) by simp
    obtain page where "manifest_response (iv_release_ref ivt) k 500 db' = Inr page"
      "parse_page (iv_release_ref ivt) page = Inr ((mf_dataset_date m, iv_inventory_sha256 ivt, nat (mf_total_bytes m)), map source_file_json (take 500 (drop k ?fs)))"
      "dict_get page ''next_cursor'' = (if k + length (take 500 (drop k ?fs)) < length ?fs
          then JInt (int (k + length (take 500 (drop k ?fs)))) else JNull)"
      by (rule parse_manifest_response[OF m(1) st(1,2) assms(3) st(3) sha tot' m(4) st(5)])
    then show "\<exists>page. ?client (iv_release_ref ivt) cursor 500 = Inr page \<and>
        parse_page (iv_release_ref ivt) page = Inr (?h, map source_file_json (take 500 (drop k ?fs))) \<and>
        dict_get page ''next_cursor'' = (if k + length (take 500 (drop k ?fs)) < length ?fs
          then JInt (int (k + length (take 500 (drop k ?fs)))) else JNull)"
      unfolding client[OF ck] st(4) by blast
  qed
  moreover have parse: "\<forall>f \<in> set ?fs. parse_manifest_file (source_file_json f) = Inr (received_file f)"
  proof
    fix f assume "f \<in> set ?fs"
    then obtain i g where f: "f = source_file E m0 i g" and g: "g \<in> set (iv_files ivt)"
      by (auto simp: source_files_def dest: set_zip_rightD)
    then show "parse_manifest_file (source_file_json f) = Inr (received_file f)"
      using assms(2,5) sizes sha256_safe_ref by (intro parse_source_file) (auto simp: source_file_def inventory_wf_def)
  qed
  ultimately have "load_pages 100000 ?client (iv_release_ref ivt) None [] None [] = Inr (?h, map received_file ?fs)"
    using load_pages_complete[where client = ?client and release = "iv_release_ref ivt" and h = ?h and fs = ?fs and
        cursor = None and k = 0 and header = None and n = 100000 and seen = "[]" and acc = "[]"] assms(4) by simp
  moreover have "map df_relative_path (map received_file ?fs) = map if_relative_path (iv_files ivt)"
    by (simp add: received_file_def comp_def)
  moreover have "map df_size_bytes (map received_file ?fs) = map (\<lambda>f. nat (if_size_bytes f)) (iv_files ivt)"
    unfolding map_map by (rule map_source_files) (simp add: received_file_def source_file_def)
  moreover have "sum_list (map (\<lambda>f. nat (if_size_bytes f)) (iv_files ivt)) = nat (iv_total_bytes ivt)"
  proof -
    have "int (sum_list (map (\<lambda>f. nat (if_size_bytes f)) (iv_files ivt))) = sum_list (map if_size_bytes (iv_files ivt))"
      using sizes by (rule sum_list_nat_of)
    then show ?thesis using assms(2) by (simp add: inventory_wf_def)
  qed
  ultimately have "load_inventory ?client (iv_release_ref ivt) = Inr \<lparr>di_release_ref = iv_release_ref ivt,
      di_dataset_date = mf_dataset_date m, di_inventory_sha256 = iv_inventory_sha256 ivt,
      di_total_bytes = nat (iv_total_bytes ivt), di_files = map received_file ?fs\<rparr>"
    using assms(2) paths by (simp add: load_inventory_def inventory_wf_def del: map_map)
  moreover have "map (\<lambda>f. (df_relative_path f, int (df_size_bytes f), df_sha256 f)) (map received_file ?fs) =
      map (\<lambda>f. (if_relative_path f, if_size_bytes f, if_sha256 f)) (iv_files ivt)"
  proof -
    have "map (\<lambda>f. (df_relative_path f, int (df_size_bytes f), df_sha256 f)) (map received_file ?fs) =
        map (\<lambda>f. (if_relative_path f, int (nat (if_size_bytes f)), if_sha256 f)) (iv_files ivt)"
      unfolding map_map by (rule map_source_files) (simp add: received_file_def source_file_def)
    then show ?thesis using sizes by simp
  qed
  ultimately show ?thesis using tot by (intro exI conjI) auto
qed


definition ex_data_db :: tdb where
  "ex_data_db = ex_db\<lparr>t_nodes := [ex_node\<lparr>n_worker_token_sha256 := Some ex_hash\<rparr>], t_manifests := [ex_manifest],
     t_transfers := [\<lparr>tr_id = 1, tr_ref = ''transfer_x'', tr_node_id = Some 1, tr_node_ref = ''node'',
       tr_manifest_id = 1, tr_status = TPreparing, tr_target_parent = ''/data'', tr_final_directory = ''/data/d'',
       tr_bytes = 0, tr_files = 0, tr_error_code = None, tr_error_message = None, tr_created_at = 0,
       tr_updated_at = 0, tr_started_at = None, tr_finished_at = None, tr_recovery_replica = None\<rparr>]\<rparr>"

definition ex_inventory :: inventory where
  "ex_inventory = \<lparr>iv_release_ref = ''release_x'', iv_dataset_date = ''20250101'', iv_source_root = ''/finish/20250101'',
     iv_inventory_sha256 = ex_hash, iv_total_bytes = 7,
     iv_files = [\<lparr>if_relative_path = ''a/b.bin'', if_size_bytes = 7, if_sha256 = ex_hash\<rparr>]\<rparr>"

definition ex_ready :: tdb where
  "ex_ready = after (complete_source_manifest ex_data_env ex_inventory 5 ex_data_db) ex_data_db"

theorem inventory_roundtrip_witness:
  "\<exists>I. load_inventory (fetch_dataset_manifest_page ex_data_env ''node'' ''tok'' ex_ready) ''release_x'' = Inr I \<and>
     map df_relative_path (di_files I) = [''a/b.bin'']"
proof -
  have "is_ok (complete_source_manifest ex_data_env ex_inventory 5 ex_data_db)" by code_simp
  then obtain m where c: "complete_source_manifest ex_data_env ex_inventory 5 ex_data_db = Inr (m, ex_ready)"
    using after_ok[of "complete_source_manifest ex_data_env ex_inventory 5 ex_data_db" ex_data_db] unfolding ex_ready_def by blast
  have date: "mf_dataset_date m = ''20250101''"
  proof -
    have "map_sum id (\<lambda>(m, _). mf_dataset_date m) (complete_source_manifest ex_data_env ex_inventory 5 ex_data_db) = Inr ''20250101''"
      by code_simp
    then show ?thesis by (simp add: c)
  qed
  have wf: "inventory_wf ex_inventory" by code_simp
  have hex: "\<forall>s. is_sha256 (sha256_hex ex_data_env s)"
    by (simp add: ex_data_env_def ex_hash_def is_sha256_def list_all_iff is_digit_def)
  have "is_ok (authenticate_worker ex_data_env ''node'' ''tok'' None ex_ready)" by code_simp
  then obtain n where auth: "authenticate_worker ex_data_env ''node'' ''tok'' None ex_ready = Inr n"
    by (cases "authenticate_worker ex_data_env ''node'' ''tok'' None ex_ready") (auto simp: is_ok_def)
  have asg: "authorize_source_download ''node'' (iv_release_ref ex_inventory) ex_ready = Inr ()" by code_simp
  have iv: "iv_release_ref ex_inventory = ''release_x''" "iv_files ex_inventory = [\<lparr>if_relative_path = ''a/b.bin'', if_size_bytes = 7, if_sha256 = ex_hash\<rparr>]"
    by (simp_all add: ex_inventory_def)
  have dt: "is_date (mf_dataset_date m)" by (simp add: date is_date_def is_digit_def)
  have len: "length (iv_files ex_inventory) \<le> 500 * 100000" by (simp add: iv)
  obtain I where
    I: "load_inventory (fetch_dataset_manifest_page ex_data_env ''node'' ''tok'' ex_ready) ''release_x'' = Inr I"
      "map (\<lambda>f. (df_relative_path f, int (df_size_bytes f), df_sha256 f)) (di_files I) = [(''a/b.bin'', 7, ex_hash)]"
    using inventory_roundtrip[OF c wf dt len hex auth asg list.distinct(2) list.distinct(2)] unfolding iv
    by (elim exE conjE) simp
  have "map df_relative_path (di_files I) = [''a/b.bin'']"
    using arg_cong[OF I(2), of "map fst"] unfolding map_map comp_def fst_conv list.map .
  then show ?thesis by (intro exI[of _ I] conjI I(1))
qed


section \<open>A failed stop command\<close>

lemma transfer_by_ref_mem:
  assumes "transfer_by_ref db ref = Some (t, m)"
  shows "t \<in> set (t_transfers db)" "tr_ref t = ref"
  using fetchone_mem[OF assms[unfolded transfer_by_ref_def]] by auto

text \<open>A stop command that is reported as failed changes only the command.\<close>

lemma failed_stop_command:
  assumes "finish_node_command E node_ref token cref data now db = Inr (AFailed, db')"
    and "command_of_node db cref node_ref = Some c" "nc_kind c = CancelDatasetTransfer"
  shows "\<exists>P f. db' = upd_commands P f db"
proof -
  let ?f = "\<lambda>x. x\<lparr>nc_status := AFailed, nc_result := Some (JObj data), nc_lease_expires_at := None,
                  nc_claim_sha256 := None, nc_finished_at := Some now, nc_updated_at := now\<rparr>"
  have "db' = upd_commands (\<lambda>x. nc_id x = nc_id c) ?f db"
    using assms
    by (simp add: finish_node_command_def rbind_eq_Inr Let_def apply_terminal_command_result_def split: if_split_asm)
      (elim exE conjE, simp split: if_split_asm, elim exE conjE, simp)
  then show ?thesis by blast
qed

text \<open>
  when the Worker cannot carry out a cancellation, the transfer is stuck and blocks its
  node.  Cancelling a paused or failed transfer waits for a stop command; if the Worker reports
  that command as failed (its target directory is gone, say), the transfer stays in
  \<open>cancel_requested\<close>, from which it can be neither paused nor cancelled again nor retried,
  and as long as it is there every request for a new transfer to the node is refused as busy.
\<close>

theorem failed_cancel_blocks_node:
  assumes "finish_node_command E node_ref token cref data now db = Inr (AFailed, db')"
    and "command_of_node db cref node_ref = Some c" and "nc_kind c = CancelDatasetTransfer"
    and "transfer_by_ref db ref = Some (t, m)" and "tr_status t = TCancelRequested"
    and "require_online_node_in db target = Inr n" and "tr_node_id t = Some (n_id n)"
    and "find_idempotency ''dataset_transfer_batch'' key db = None" and "find_idempotency ''dataset_transfer_retry'' key db = None"
  shows "transfer_by_ref db' ref = Some (t, m) \<and>
    pause_dataset_transfer E ref actor now' db' = Inl (Conflict ''dataset_transfer_not_pausable'') \<and>
    cancel_dataset_transfer E ref actor now' db' = Inl (Conflict ''dataset_transfer_not_cancellable'') \<and>
    retry_dataset_transfer E ref key actor now' db' = Inl (Conflict ''dataset_transfer_not_retryable'') \<and>
    create_dataset_transfers E target manifests parent key payload actor now' db' = Inl (Conflict ''dataset_transfer_node_busy'')"
proof -
  obtain P f where db': "db' = upd_commands P f db" using failed_stop_command[OF assms(1-3)] by blast
  have t: "transfer_by_ref db' ref = Some (t, m)" using assms(4) by (simp add: db' upd_commands_def transfer_by_ref_def)
  have same: "t_transfers db' = t_transfers db" "require_online_node_in db' target = Inr n"
    "find_idempotency ''dataset_transfer_batch'' key db' = None" "find_idempotency ''dataset_transfer_retry'' key db' = None"
    using assms(6,8,9) by (simp_all add: db' upd_commands_def require_online_node_in_def node_by_ref_def find_idempotency_def)
  have busy: "\<exists>t \<in> set (t_transfers db'). tr_node_id t = Some (n_id n) \<and> occupying (tr_status t)"
    using transfer_by_ref_mem(1)[OF t] assms(5,7) by (intro bexI[of _ t]) (simp_all add: occupying_def)
  have "pause_dataset_transfer E ref actor now' db' = Inl (Conflict ''dataset_transfer_not_pausable'')"
    "cancel_dataset_transfer E ref actor now' db' = Inl (Conflict ''dataset_transfer_not_cancellable'')"
    "retry_dataset_transfer E ref key actor now' db' = Inl (Conflict ''dataset_transfer_not_retryable'')"
    using t assms(5) same(4)
    by (simp_all add: pause_dataset_transfer_def cancel_dataset_transfer_def retry_dataset_transfer_def)
  moreover have "create_dataset_transfers E target manifests parent key payload actor now' db' = Inl (Conflict ''dataset_transfer_node_busy'')"
    using same(2,3) busy by (simp add: create_dataset_transfers_def)
  ultimately show ?thesis using t by blast
qed

text \<open>A paused transfer is cancelled, the Worker claims the stop command and fails it.\<close>

definition ex_paused :: tdb where
  "ex_paused = ex_data_db\<lparr>t_transfers := sql_update (\<lambda>_. True) (\<lambda>t. t\<lparr>tr_status := TPaused\<rparr>) (t_transfers ex_data_db),
     t_manifests := [ex_manifest\<lparr>mf_status := MReady\<rparr>]\<rparr>"

definition ex_cancelled :: tdb where
  "ex_cancelled = after (cancel_dataset_transfer ex_data_env ''transfer_x'' ''admin'' 10 ex_paused) ex_paused"

definition ex_stop_claimed :: tdb where
  "ex_stop_claimed = after (claim_node_commands ex_data_env ''node'' ''tok'' ''w'' 5 20 ex_cancelled) ex_cancelled"

definition ex_failure :: dict where
  "ex_failure = [(''worker_instance_id'', JStr ''w''), (''claim_token'', JStr ''claim''), (''status'', JStr ''failed'')]"

definition ex_stop_failed :: "(action_status \<times> tdb) res" where
  "ex_stop_failed = finish_node_command ex_data_env ''node'' ''tok'' ''command_0'' ex_failure 30 ex_stop_claimed"

lemma ex_stop_failed_ok: "map_sum id fst ex_stop_failed = Inr AFailed"
  by code_simp

lemma ex_stop_command: "map_option nc_kind (command_of_node ex_stop_claimed ''command_0'' ''node'') = Some CancelDatasetTransfer"
  by code_simp

lemma ex_stop_transfer: "map_option (\<lambda>(t, m). (tr_status t, tr_node_id t)) (transfer_by_ref ex_stop_claimed ''transfer_x'') = Some (TCancelRequested, Some 1)"
  by code_simp

lemma ex_stop_node: "map_sum id n_id (require_online_node_in ex_stop_claimed ''node'') = Inr 1"
  by code_simp

theorem failed_cancel_blocks_node_witness:
  "create_dataset_transfers ex_data_env ''node'' [] ''/data'' ''k'' JNull ''admin'' 40 (after ex_stop_failed ex_stop_claimed) =
     Inl (Conflict ''dataset_transfer_node_busy'')"
proof -
  have 1: "finish_node_command ex_data_env ''node'' ''tok'' ''command_0'' ex_failure 30 ex_stop_claimed = Inr (AFailed, after ex_stop_failed ex_stop_claimed)"
    using ex_stop_failed_ok unfolding ex_stop_failed_def
    by (cases "finish_node_command ex_data_env ''node'' ''tok'' ''command_0'' ex_failure 30 ex_stop_claimed")
      (simp_all add: after_def case_prod_beta prod_eq_iff)
  obtain c where 2: "command_of_node ex_stop_claimed ''command_0'' ''node'' = Some c" "nc_kind c = CancelDatasetTransfer"
    using ex_stop_command by (cases "command_of_node ex_stop_claimed ''command_0'' ''node''") simp_all
  obtain t m where 3: "transfer_by_ref ex_stop_claimed ''transfer_x'' = Some (t, m)" "tr_status t = TCancelRequested" "tr_node_id t = Some 1"
    using ex_stop_transfer by (cases "transfer_by_ref ex_stop_claimed ''transfer_x''") auto
  obtain n where 4: "require_online_node_in ex_stop_claimed ''node'' = Inr n" "n_id n = 1"
    using ex_stop_node by (cases "require_online_node_in ex_stop_claimed ''node''") simp_all
  have 5: "find_idempotency ''dataset_transfer_batch'' ''k'' ex_stop_claimed = None" by code_simp
  have 6: "find_idempotency ''dataset_transfer_retry'' ''k'' ex_stop_claimed = None" by code_simp
  have 7: "tr_node_id t = Some (n_id n)" using 3 4 by simp
  show ?thesis using failed_cancel_blocks_node[OF 1 2 3(1,2) 4(1) 7 5 6] by blast
qed

end
