(* ===== verification/Worker_Ledger.thy ===== *)
theory Worker_Ledger
  imports Prelude
begin

text \<open>
  The Training Worker's node-local ledger (\<open>training_worker/ledger.py\<close>): the table
  \<open>worker_runs\<close> of process observations, the outbox \<open>worker_run_updates\<close>, every operation
  of \<open>WorkerLedger\<close> on them, the read-only process probe and the parser of the Linux
  process start marker.  Every operation is one SQLite transaction: an exception leaves
  the ledger as it was, so an operation returns either an error or the new ledger.
  Timestamps are milliseconds.
\<close>

section \<open>Data\<close>

definition ACTIVE_RUN_STATES :: "string list" where
  "ACTIVE_RUN_STATES = [''running'', ''stopping'']"

definition KNOWN_RUN_STATES :: "string list" where
  "KNOWN_RUN_STATES =
     [''accepted'', ''running'', ''stopping'', ''succeeded'', ''failed'', ''cancelled'', ''unknown'']"

text \<open>What the caller of \<open>record_process_observation\<close> supplies; the row adds the ledger's own columns.\<close>

record observation =
  w_run_ref :: string
  w_state :: string
  w_pid :: "int option"
  w_start_marker :: "string option"
  w_argv_digest :: "string option"
  w_gpu_uuids :: "string list"
  w_working_directory :: "string option"
  w_stdout_path :: "string option"
  w_stderr_path :: "string option"
  w_stage_ref :: "string option"
  w_stage_number :: "int option"
  w_owner_epoch :: int
  w_version_label :: "string option"
  w_output_directory :: "string option"
  w_supervisor_state_path :: "string option"
  w_monitoring_format :: string
  w_log_offset :: int
  w_redactions :: "string list"
  w_launch_token :: "string option"

record ledger_run = observation +
  w_last_reconciliation :: "string option"
  w_created_at :: int
  w_updated_at :: int
  w_worker_seq :: nat

record run_update =
  u_run_ref :: string
  u_owner_epoch :: int
  u_worker_seq :: nat
  u_payload :: dict
  u_created_at :: int

record ledger =
  worker_runs :: "ledger_run list"
  worker_run_updates :: "run_update list"

definition empty_ledger :: ledger where
  "empty_ledger = \<lparr>worker_runs = [], worker_run_updates = []\<rparr>"

section \<open>Recording observations\<close>

text \<open>The argument checks of \<open>record_process_observation\<close>, in the code's order.\<close>

definition check_observation :: "observation \<Rightarrow> unit res" where
  "check_observation o' =
     (if w_run_ref o' = [] then Inl (ValueError ''run_ref must not be empty'')
      else if w_state o' \<notin> set KNOWN_RUN_STATES then Inl (ValueError ''unsupported worker run state'')
      else if w_state o' \<in> set ACTIVE_RUN_STATES \<and>
          (case w_pid o' of None \<Rightarrow> True | Some p \<Rightarrow> p \<le> 0)
        then Inl (ValueError ''an active process observation requires a positive pid'')
      else if (case w_pid o' of None \<Rightarrow> False | Some p \<Rightarrow> p \<le> 0)
        then Inl (ValueError ''pid must be positive'')
      else if w_owner_epoch o' < 0 then Inl (ValueError ''owner_epoch must not be negative'')
      else if (case w_stage_number o' of None \<Rightarrow> False | Some n \<Rightarrow> n < 1)
        then Inl (ValueError ''stage_number must be positive'')
      else if w_monitoring_format o' \<notin> {''plain'', ''transformers'', ''jsonl''}
        then Inl (ValueError ''monitoring_format is unsupported'')
      else if w_log_offset o' < 0 then Inl (ValueError ''log_offset must not be negative'')
      else Inr ())"

text \<open>\<open>sorted(set(xs))\<close>.\<close>

definition sorted_set :: "string list \<Rightarrow> string list" where
  "sorted_set xs = sort (remdups xs)"

definition normalise_observation :: "observation \<Rightarrow> observation" where
  "normalise_observation o' =
     o'\<lparr>w_gpu_uuids := sorted_set (w_gpu_uuids o'), w_redactions := sorted_set (w_redactions o')\<rparr>"

text \<open>
  \<open>INSERT ... ON CONFLICT(run_ref) DO UPDATE\<close>: a new row starts with sequence number 0
  and no reconciliation; an existing one keeps both, and its creation time.
\<close>

definition record_process_observation :: "observation \<Rightarrow> int \<Rightarrow> ledger \<Rightarrow> ledger res" where
  "record_process_observation o' now l =
     rbind (check_observation o') (\<lambda>_.
       let n = normalise_observation o'; ref = w_run_ref o' in
       Inr (l\<lparr>worker_runs :=
         (if \<exists>r \<in> set (worker_runs l). w_run_ref r = ref
          then sql_update (\<lambda>r. w_run_ref r = ref)
                 (\<lambda>r. observation.extend n
                   \<lparr>w_last_reconciliation = w_last_reconciliation r, w_created_at = w_created_at r,
                    w_updated_at = now, w_worker_seq = w_worker_seq r\<rparr>)
                 (worker_runs l)
          else worker_runs l @
                 [observation.extend n
                   \<lparr>w_last_reconciliation = None, w_created_at = now,
                    w_updated_at = now, w_worker_seq = 0\<rparr>])\<rparr>))"

section \<open>Reading and updating runs\<close>

definition list_launch_intents :: "ledger \<Rightarrow> ledger_run list" where
  "list_launch_intents l =
     order_by w_run_ref (filter (\<lambda>r. w_state r = ''accepted'') (worker_runs l))"

definition attach_launch_supervisor ::
  "string \<Rightarrow> int \<Rightarrow> string option \<Rightarrow> string option \<Rightarrow> int \<Rightarrow> ledger \<Rightarrow> ledger res" where
  "attach_launch_supervisor ref pid marker digest now l =
     (if pid \<le> 0 then Inl (ValueError ''supervisor pid must be positive'')
      else
        let P = (\<lambda>r. w_run_ref r = ref \<and> w_state r = ''accepted'') in
        if rowcount P (worker_runs l) \<noteq> 1 then Inl (KeyError ref)
        else Inr (l\<lparr>worker_runs := sql_update P
               (\<lambda>r. r\<lparr>w_pid := Some pid, w_start_marker := marker, w_argv_digest := digest,
                      w_updated_at := now\<rparr>) (worker_runs l)\<rparr>))"

definition list_active_runs :: "ledger \<Rightarrow> ledger_run list" where
  "list_active_runs l =
     order_by w_run_ref (filter (\<lambda>r. w_state r \<in> {''running'', ''stopping''}) (worker_runs l))"

definition update_run_state :: "string \<Rightarrow> string \<Rightarrow> int \<Rightarrow> ledger \<Rightarrow> ledger res" where
  "update_run_state ref state now l =
     (if state \<notin> set KNOWN_RUN_STATES then Inl (ValueError ''unsupported worker run state'')
      else
        let P = (\<lambda>r. w_run_ref r = ref) in
        if rowcount P (worker_runs l) \<noteq> 1 then Inl (KeyError ref)
        else Inr (l\<lparr>worker_runs := sql_update P
               (\<lambda>r. r\<lparr>w_state := state, w_updated_at := now\<rparr>) (worker_runs l)\<rparr>))"

definition update_log_offset :: "string \<Rightarrow> int \<Rightarrow> int \<Rightarrow> ledger \<Rightarrow> ledger res" where
  "update_log_offset ref offset now l =
     (if offset < 0 then Inl (ValueError ''log offset must not be negative'')
      else Inr (l\<lparr>worker_runs := sql_update (\<lambda>r. w_run_ref r = ref)
             (\<lambda>r. r\<lparr>w_log_offset := offset, w_updated_at := now\<rparr>) (worker_runs l)\<rparr>))"

definition get_run :: "string \<Rightarrow> ledger \<Rightarrow> ledger_run option" where
  "get_run ref l = fetchone (filter (\<lambda>r. w_run_ref r = ref) (worker_runs l))"

text \<open>The number of runs per state, one entry per state that occurs.\<close>

definition state_counts :: "ledger \<Rightarrow> (string \<times> nat) list" where
  "state_counts l =
     map (\<lambda>s. (s, length (filter (\<lambda>r. w_state r = s) (worker_runs l))))
       (sort (remdups (map w_state (worker_runs l))))"

section \<open>The update outbox\<close>

text \<open>
  The next sequence number of the run is stored with the update.  The table's
  \<open>UNIQUE(run_ref, owner_epoch, worker_seq)\<close> constraint would abort the transaction.
\<close>

definition enqueue_update :: "string \<Rightarrow> int \<Rightarrow> dict \<Rightarrow> int \<Rightarrow> ledger \<Rightarrow> (nat \<times> ledger) res" where
  "enqueue_update ref epoch payload now l =
     (if ref = [] \<or> epoch < 0 then Inl (ValueError ''invalid run update'')
      else case get_run ref l of
        None \<Rightarrow> Inl (KeyError ref)
      | Some r \<Rightarrow>
          let seq = w_worker_seq r + 1 in
          if \<exists>u \<in> set (worker_run_updates l).
               u_run_ref u = ref \<and> u_owner_epoch u = epoch \<and> u_worker_seq u = seq
          then Inl IntegrityError
          else Inr (seq, l\<lparr>
            worker_runs := sql_update (\<lambda>r. w_run_ref r = ref)
              (\<lambda>r. r\<lparr>w_worker_seq := seq, w_updated_at := now\<rparr>) (worker_runs l),
            worker_run_updates := worker_run_updates l @
              [\<lparr>u_run_ref = ref, u_owner_epoch = epoch, u_worker_seq = seq,
                u_payload = payload, u_created_at = now\<rparr>]\<rparr>))"

text \<open>\<open>SELECT ... WHERE run_ref = ? ORDER BY owner_epoch,worker_seq LIMIT ?\<close>.\<close>

definition pending_rows :: "string \<Rightarrow> nat \<Rightarrow> ledger \<Rightarrow> run_update list" where
  "pending_rows ref limit l =
     take limit (order_by (\<lambda>u. (u_owner_epoch u, u_worker_seq u))
       (filter (\<lambda>u. u_run_ref u = ref) (worker_run_updates l)))"

text \<open>\<open>{"owner_epoch": e, "worker_seq": n, **payload}\<close>.\<close>

definition update_dict :: "run_update \<Rightarrow> dict" where
  "update_dict u =
     dict_merge [(''owner_epoch'', JInt (u_owner_epoch u)), (''worker_seq'', JInt (int (u_worker_seq u)))]
       (u_payload u)"

definition pending_updates :: "string \<Rightarrow> nat \<Rightarrow> ledger \<Rightarrow> dict list res" where
  "pending_updates ref limit l =
     (if \<not> (1 \<le> limit \<and> limit \<le> 1000) then Inl (ValueError ''limit is out of range'')
      else Inr (map update_dict (pending_rows ref limit l)))"

definition pending_run_refs :: "ledger \<Rightarrow> string list" where
  "pending_run_refs l = sort (remdups (map u_run_ref (worker_run_updates l)))"

definition acknowledge_updates :: "string \<Rightarrow> int \<Rightarrow> nat \<Rightarrow> ledger \<Rightarrow> ledger" where
  "acknowledge_updates ref epoch through l =
     l\<lparr>worker_run_updates := sql_delete
        (\<lambda>u. u_run_ref u = ref \<and> u_owner_epoch u = epoch \<and> u_worker_seq u \<le> through)
        (worker_run_updates l)\<rparr>"

section \<open>Process identity\<close>

record process_observation =
  p_pid :: int
  p_start_marker :: "string option"
  p_argv_digest :: "string option"

text \<open>The four outcomes of a probe: \<open>matched\<close>, \<open>missing\<close>, \<open>mismatch\<close>, \<open>unverifiable\<close>.\<close>

datatype probe_status = Matched | Missing | Mismatch | Unverifiable

definition probe_name :: "probe_status \<Rightarrow> string" where
  "probe_name s = (case s of Matched \<Rightarrow> ''matched'' | Missing \<Rightarrow> ''missing''
     | Mismatch \<Rightarrow> ''mismatch'' | Unverifiable \<Rightarrow> ''unverifiable'')"

text \<open>
  What the kernel shows for a process number: the entry under \<open>/proc\<close> (the text of
  \<open>stat\<close> and the bytes of \<open>cmdline\<close>, each possibly unreadable), or the outcome of the
  null signal where there is no such directory.
\<close>

datatype signal_result = SigOk | SigNoProcess | SigPermission | SigOsError

datatype proc_view =
    ProcDir "string option" "string option"
  | NoProcDir signal_result

text \<open>\<open>str.split()\<close> on ASCII white space.\<close>

fun split_ws_aux :: "string \<Rightarrow> string \<Rightarrow> string list" where
  "split_ws_aux acc [] = (if acc = [] then [] else [rev acc])"
| "split_ws_aux acc (c # cs) =
     (if is_space c then (if acc = [] then split_ws_aux [] cs else rev acc # split_ws_aux [] cs)
      else split_ws_aux (c # acc) cs)"

definition split_ws :: "string \<Rightarrow> string list" where
  "split_ws s = split_ws_aux [] s"

text \<open>The text after the last \<open>)\<close>, if there is one: \<open>rfind\<close> and the slice that follows.\<close>

fun after_last :: "char \<Rightarrow> string \<Rightarrow> string option" where
  "after_last x [] = None"
| "after_last x (c # cs) =
     (case after_last x cs of Some t \<Rightarrow> Some t | None \<Rightarrow> (if c = x then Some cs else None))"

text \<open>Field 22 of \<open>stat\<close>, the start time: the twentieth field after the command name.\<close>

definition read_linux_process_start_marker :: "string option \<Rightarrow> string option" where
  "read_linux_process_start_marker stat =
     (case stat of
        None \<Rightarrow> None
      | Some text \<Rightarrow>
          (case after_last (CHR '')'') text of
             None \<Rightarrow> None
           | Some rest \<Rightarrow>
               (let remaining = split_ws (drop 1 rest) in
                if length remaining \<le> 19 then None else Some (remaining ! 19))))"

definition read_linux_argv_digest :: "(string \<Rightarrow> string) \<Rightarrow> string option \<Rightarrow> string option" where
  "read_linux_argv_digest sha256 cmdline =
     (case cmdline of None \<Rightarrow> None | Some argv \<Rightarrow> (if argv = [] then None else Some (sha256 argv)))"

definition local_probe_inspect ::
  "(string \<Rightarrow> string) \<Rightarrow> (int \<Rightarrow> proc_view) \<Rightarrow> process_observation \<Rightarrow> probe_status" where
  "local_probe_inspect sha256 proc obs =
     (case proc (p_pid obs) of
        ProcDir stat cmdline \<Rightarrow>
          (let start = read_linux_process_start_marker stat;
               digest = read_linux_argv_digest sha256 cmdline in
           if start = None \<or> digest = None then Unverifiable
           else if p_start_marker obs \<noteq> start then Mismatch
           else if p_argv_digest obs \<noteq> digest then Mismatch
           else Matched)
      | NoProcDir sig \<Rightarrow>
          (case sig of SigNoProcess \<Rightarrow> Missing | SigPermission \<Rightarrow> Unverifiable
           | SigOsError \<Rightarrow> Unverifiable | SigOk \<Rightarrow> Unverifiable))"

definition process_identity_for_pid ::
  "(string \<Rightarrow> string) \<Rightarrow> (int \<Rightarrow> proc_view) \<Rightarrow> int \<Rightarrow> process_observation option" where
  "process_identity_for_pid sha256 proc pid =
     (case proc pid of
        NoProcDir _ \<Rightarrow> None
      | ProcDir stat cmdline \<Rightarrow>
          (let start = read_linux_process_start_marker stat;
               digest = read_linux_argv_digest sha256 cmdline in
           if start = None \<or> digest = None then None
           else Some \<lparr>p_pid = pid, p_start_marker = start, p_argv_digest = digest\<rparr>))"

section \<open>Reconciliation after a restart\<close>

record reconciliation_result =
  rc_run_ref :: string
  rc_status :: probe_status
  rc_previous_state :: string
  rc_current_state :: string

text \<open>
  One active row: \<open>int(row["pid"])\<close> raises on a missing process number; otherwise the
  probe's answer decides the state.
\<close>

definition reconcile_row ::
  "(process_observation \<Rightarrow> probe_status) \<Rightarrow> int \<Rightarrow> ledger_run \<Rightarrow> ledger \<Rightarrow>
   (reconciliation_result \<times> ledger) res" where
  "reconcile_row probe now r l =
     (case w_pid r of
        None \<Rightarrow> Inl TypeError
      | Some pid \<Rightarrow>
          (let status = probe \<lparr>p_pid = pid, p_start_marker = w_start_marker r,
                               p_argv_digest = w_argv_digest r\<rparr>;
               current = (if status = Matched then w_state r else ''unknown'') in
           Inr (\<lparr>rc_run_ref = w_run_ref r, rc_status = status,
                 rc_previous_state = w_state r, rc_current_state = current\<rparr>,
                l\<lparr>worker_runs := sql_update (\<lambda>q. w_run_ref q = w_run_ref r)
                   (\<lambda>q. q\<lparr>w_state := current, w_last_reconciliation := Some (probe_name status),
                          w_updated_at := now\<rparr>) (worker_runs l)\<rparr>)))"

text \<open>
  Each row is committed on its own, so an exception at one row keeps the rows already
  reconciled: the ledger is returned beside the error.
\<close>

fun reconcile_rows ::
  "(process_observation \<Rightarrow> probe_status) \<Rightarrow> int \<Rightarrow> ledger_run list \<Rightarrow> ledger \<Rightarrow>
   reconciliation_result list res \<times> ledger" where
  "reconcile_rows probe now [] l = (Inr [], l)"
| "reconcile_rows probe now (r # rs) l =
     (case reconcile_row probe now r l of
        Inl e \<Rightarrow> (Inl e, l)
      | Inr (res, l') \<Rightarrow>
          (case reconcile_rows probe now rs l' of
             (Inl e, l'') \<Rightarrow> (Inl e, l'')
           | (Inr ress, l'') \<Rightarrow> (Inr (res # ress), l'')))"

definition reconcile_active_runs ::
  "(process_observation \<Rightarrow> probe_status) \<Rightarrow> int \<Rightarrow> ledger \<Rightarrow> reconciliation_result list res \<times> ledger" where
  "reconcile_active_runs probe now l = reconcile_rows probe now (list_active_runs l) l"

section \<open>The ledger invariant\<close>

text \<open>
  Row types (the table's CHECK and the argument checks), the primary key, and the outbox:
  every undelivered update belongs to a run and carries a sequence number that run has
  already handed out, at most once.
\<close>

definition row_ok :: "ledger_run \<Rightarrow> bool" where
  "row_ok r \<longleftrightarrow> w_run_ref r \<noteq> [] \<and> w_state r \<in> set KNOWN_RUN_STATES \<and>
     (\<forall>p. w_pid r = Some p \<longrightarrow> 0 < p) \<and> 0 \<le> w_owner_epoch r \<and>
     (\<forall>n. w_stage_number r = Some n \<longrightarrow> 1 \<le> n) \<and>
     w_monitoring_format r \<in> {''plain'', ''transformers'', ''jsonl''} \<and> 0 \<le> w_log_offset r \<and>
     sorted (w_gpu_uuids r) \<and> distinct (w_gpu_uuids r)"

definition outbox_ok :: "ledger_run list \<Rightarrow> run_update list \<Rightarrow> bool" where
  "outbox_ok rs us \<longleftrightarrow>
     (\<forall>u \<in> set us. \<exists>r \<in> set rs. w_run_ref r = u_run_ref u \<and>
        1 \<le> u_worker_seq u \<and> u_worker_seq u \<le> w_worker_seq r) \<and>
     distinct (map (\<lambda>u. (u_run_ref u, u_worker_seq u)) us)"

definition ledger_ok :: "ledger \<Rightarrow> bool" where
  "ledger_ok l \<longleftrightarrow> distinct (map w_run_ref (worker_runs l)) \<and>
     (\<forall>r \<in> set (worker_runs l). row_ok r) \<and> outbox_ok (worker_runs l) (worker_run_updates l)"

lemma ledger_okD:
  assumes "ledger_ok l"
  shows "distinct (map w_run_ref (worker_runs l))"
    and "r \<in> set (worker_runs l) \<Longrightarrow> row_ok r"
    and "outbox_ok (worker_runs l) (worker_run_updates l)"
  using assms by (auto simp: ledger_ok_def)

lemma get_run_Some: "get_run ref l = Some r \<Longrightarrow> r \<in> set (worker_runs l) \<and> w_run_ref r = ref"
  unfolding get_run_def by (drule fetchone_filterD) simp

lemma get_run_iff:
  assumes "ledger_ok l"
  shows "get_run ref l = Some r \<longleftrightarrow> r \<in> set (worker_runs l) \<and> w_run_ref r = ref"
proof
  assume "r \<in> set (worker_runs l) \<and> w_run_ref r = ref"
  then show "get_run ref l = Some r"
    using fetchone_unique_key [OF ledger_okD(1) [OF assms], of r] by (simp add: get_run_def)
qed (rule get_run_Some)

lemma sorted_set_props [simp]:
  "sorted (sorted_set xs)" "distinct (sorted_set xs)" "set (sorted_set xs) = set xs"
  by (simp_all add: sorted_set_def)

text \<open>A rewrite of rows that keeps keys, row types and never lowers a sequence number keeps the invariant.\<close>

lemma ledger_ok_update:
  assumes l: "ledger_ok l"
    and keep: "\<And>r. row_ok r \<Longrightarrow> P r \<Longrightarrow>
      w_run_ref (f r) = w_run_ref r \<and> row_ok (f r) \<and> w_worker_seq r \<le> w_worker_seq (f r)"
  shows "ledger_ok (l\<lparr>worker_runs := sql_update P f (worker_runs l)\<rparr>)"
proof -
  have kept: "w_run_ref (f r) = w_run_ref r" "row_ok (f r)" "w_worker_seq r \<le> w_worker_seq (f r)"
    if "r \<in> set (worker_runs l)" "P r" for r
    using keep [OF ledger_okD(2) [OF l that(1)] that(2)] by simp_all
  have keys: "map w_run_ref (sql_update P f (worker_runs l)) = map w_run_ref (worker_runs l)"
    using kept(1) by (simp add: sql_update_def)
  have rows: "\<forall>r \<in> set (sql_update P f (worker_runs l)). row_ok r"
    using sql_update_all [of _ P row_ok f] kept(2) ledger_okD(2) [OF l] by blast
  have "outbox_ok (sql_update P f (worker_runs l)) (worker_run_updates l)"
    unfolding outbox_ok_def
  proof (intro conjI ballI)
    fix u assume "u \<in> set (worker_run_updates l)"
    then obtain r where r: "r \<in> set (worker_runs l)" "w_run_ref r = u_run_ref u"
      "1 \<le> u_worker_seq u" "u_worker_seq u \<le> w_worker_seq r"
      using ledger_okD(3) [OF l] by (auto simp: outbox_ok_def)
    let ?r = "if P r then f r else r"
    have "?r \<in> set (sql_update P f (worker_runs l))" using r(1) by (auto simp: set_sql_update)
    moreover have "w_run_ref ?r = u_run_ref u" "u_worker_seq u \<le> w_worker_seq ?r"
      using r kept [OF r(1)] by (simp_all split: if_splits) (meson le_trans)
    ultimately show "\<exists>r \<in> set (sql_update P f (worker_runs l)). w_run_ref r = u_run_ref u \<and>
        1 \<le> u_worker_seq u \<and> u_worker_seq u \<le> w_worker_seq r"
      using r(3) by blast
  qed (use ledger_okD(3) [OF l] in \<open>simp add: outbox_ok_def\<close>)
  with keys rows ledger_okD(1) [OF l] show ?thesis by (simp add: ledger_ok_def)
qed

section \<open>Every operation keeps the invariant\<close>

lemma check_observation_ok:
  assumes "check_observation o' = Inr x"
  shows "w_run_ref o' \<noteq> []" "w_state o' \<in> set KNOWN_RUN_STATES"
    "w_pid o' = Some p \<Longrightarrow> 0 < p" "0 \<le> w_owner_epoch o'"
    "w_stage_number o' = Some n \<Longrightarrow> 1 \<le> n"
    "w_monitoring_format o' \<in> {''plain'', ''transformers'', ''jsonl''}" "0 \<le> w_log_offset o'"
    "w_state o' \<in> set ACTIVE_RUN_STATES \<Longrightarrow> \<exists>p. w_pid o' = Some p \<and> 0 < p"
  using assms by (auto simp: check_observation_def split: if_splits option.splits)

lemma extend_fields [simp]:
  "w_run_ref (observation.extend (normalise_observation o') m) = w_run_ref o'"
  "w_state (observation.extend (normalise_observation o') m) = w_state o'"
  "w_pid (observation.extend (normalise_observation o') m) = w_pid o'"
  "w_owner_epoch (observation.extend (normalise_observation o') m) = w_owner_epoch o'"
  "w_stage_number (observation.extend (normalise_observation o') m) = w_stage_number o'"
  "w_monitoring_format (observation.extend (normalise_observation o') m) = w_monitoring_format o'"
  "w_log_offset (observation.extend (normalise_observation o') m) = w_log_offset o'"
  "w_gpu_uuids (observation.extend (normalise_observation o') m) = sorted_set (w_gpu_uuids o')"
  by (simp_all add: observation.defs normalise_observation_def)

lemma extend_seq [simp]:
  "w_worker_seq (observation.extend o' \<lparr>w_last_reconciliation = a, w_created_at = b,
     w_updated_at = c, w_worker_seq = d\<rparr>) = d"
  by (simp add: observation.defs)

lemma row_ok_extend:
  "check_observation o' = Inr x \<Longrightarrow> row_ok (observation.extend (normalise_observation o') m)"
  using check_observation_ok [of o' x] unfolding row_ok_def by simp

lemma record_process_observation_ok:
  assumes l: "ledger_ok l" and r: "record_process_observation o' now l = Inr l'"
  shows "ledger_ok l'"
proof -
  from r obtain x where chk: "check_observation o' = Inr x"
    by (auto simp: record_process_observation_def rbind_eq_Inr)
  show ?thesis
  proof (cases "\<exists>q \<in> set (worker_runs l). w_run_ref q = w_run_ref o'")
    case True
    with r chk show ?thesis
      by (auto simp: record_process_observation_def Let_def
          intro!: ledger_ok_update [OF l] row_ok_extend [OF chk])
  next
    case False
    with r chk have eq: "l' = l\<lparr>worker_runs := worker_runs l @
        [observation.extend (normalise_observation o') \<lparr>w_last_reconciliation = None,
          w_created_at = now, w_updated_at = now, w_worker_seq = 0\<rparr>]\<rparr>"
      by (simp add: record_process_observation_def Let_def)
    have "outbox_ok (worker_runs l') (worker_run_updates l)"
      using ledger_okD(3) [OF l] unfolding eq outbox_ok_def by fastforce
    with False show ?thesis
      using ledger_okD(1,2) [OF l] row_ok_extend [OF chk] unfolding eq ledger_ok_def by auto
  qed
qed

lemma attach_launch_supervisor_ok:
  "ledger_ok l \<Longrightarrow> attach_launch_supervisor ref pid m d now l = Inr l' \<Longrightarrow> ledger_ok l'"
  by (auto simp: attach_launch_supervisor_def Let_def row_ok_def
      split: if_splits intro!: ledger_ok_update)

lemma update_run_state_ok:
  "ledger_ok l \<Longrightarrow> update_run_state ref st now l = Inr l' \<Longrightarrow> ledger_ok l'"
  by (auto simp: update_run_state_def Let_def row_ok_def
      split: if_splits intro!: ledger_ok_update)

lemma update_log_offset_ok:
  "ledger_ok l \<Longrightarrow> update_log_offset ref off now l = Inr l' \<Longrightarrow> ledger_ok l'"
  by (auto simp: update_log_offset_def row_ok_def
      split: if_splits intro!: ledger_ok_update)

text \<open>The outbox: a fresh number each time, and no unique-key violation in a well-formed ledger.\<close>

lemma enqueue_update_spec:
  assumes l: "ledger_ok l" and g: "get_run ref l = Some r" and "ref \<noteq> []" and "0 \<le> epoch"
  shows "enqueue_update ref epoch payload now l = Inr (w_worker_seq r + 1, l\<lparr>
    worker_runs := sql_update (\<lambda>r. w_run_ref r = ref)
      (\<lambda>q. q\<lparr>w_worker_seq := w_worker_seq r + 1, w_updated_at := now\<rparr>) (worker_runs l),
    worker_run_updates := worker_run_updates l @
      [\<lparr>u_run_ref = ref, u_owner_epoch = epoch, u_worker_seq = w_worker_seq r + 1,
        u_payload = payload, u_created_at = now\<rparr>]\<rparr>)"
proof -
  have "u_worker_seq u \<le> w_worker_seq r"
    if "u \<in> set (worker_run_updates l)" "u_run_ref u = ref" for u
  proof -
    from that ledger_okD(3) [OF l] obtain q where
      q: "q \<in> set (worker_runs l)" "w_run_ref q = ref" "u_worker_seq u \<le> w_worker_seq q"
      by (auto simp: outbox_ok_def)
    then have "q = r" using g get_run_iff [OF l] by (metis option.inject)
    with q show ?thesis by simp
  qed
  with assms show ?thesis by (fastforce simp: enqueue_update_def Let_def)
qed

lemma enqueue_update_Inr:
  assumes "enqueue_update ref epoch payload now l = Inr (seq, l')"
  obtains r where "get_run ref l = Some r" "ref \<noteq> []" "0 \<le> epoch" "seq = w_worker_seq r + 1"
  using assms by (auto simp: enqueue_update_def Let_def split: if_splits option.splits)

lemma enqueue_update_ok:
  assumes l: "ledger_ok l" and e: "enqueue_update ref epoch payload now l = Inr (seq, l')"
  shows "ledger_ok l'"
proof -
  from e obtain r where g: "get_run ref l = Some r" and ne: "ref \<noteq> []" "0 \<le> epoch"
    by (rule enqueue_update_Inr)
  let ?n = "w_worker_seq r + 1"
  let ?rs = "sql_update (\<lambda>q. w_run_ref q = ref) (\<lambda>q. q\<lparr>w_worker_seq := ?n, w_updated_at := now\<rparr>) (worker_runs l)"
  let ?u = "\<lparr>u_run_ref = ref, u_owner_epoch = epoch, u_worker_seq = ?n, u_payload = payload, u_created_at = now\<rparr>"
  have l'_eq: "l' = l\<lparr>worker_runs := ?rs, worker_run_updates := worker_run_updates l @ [?u]\<rparr>"
    using enqueue_update_spec [OF l g ne] e by auto
  have same: "q = r" if "q \<in> set (worker_runs l)" "w_run_ref q = ref" for q
    using that g get_run_iff [OF l] by (metis option.inject)
  have old: "ledger_ok (l\<lparr>worker_runs := sql_update (\<lambda>q. q = r)
      (\<lambda>q. q\<lparr>w_worker_seq := ?n, w_updated_at := now\<rparr>) (worker_runs l)\<rparr>)"
    by (rule ledger_ok_update [OF l]) (auto simp: row_ok_def)
  moreover have "sql_update (\<lambda>q. q = r) (\<lambda>q. q\<lparr>w_worker_seq := ?n, w_updated_at := now\<rparr>) (worker_runs l) = ?rs"
    by (rule sql_update_cong) (use same get_run_Some [OF g] in blast)+
  ultimately have ok: "ledger_ok (l\<lparr>worker_runs := ?rs\<rparr>)" by simp
  have fresh: "(ref, ?n) \<notin> (\<lambda>u. (u_run_ref u, u_worker_seq u)) ` set (worker_run_updates l)"
  proof
    assume "(ref, ?n) \<in> (\<lambda>u. (u_run_ref u, u_worker_seq u)) ` set (worker_run_updates l)"
    then obtain q where "q \<in> set (worker_runs l)" "w_run_ref q = ref" "?n \<le> w_worker_seq q"
      using ledger_okD(3) [OF l] by (fastforce simp: outbox_ok_def)
    with same show False by auto
  qed
  let ?f = "\<lambda>q. q\<lparr>w_worker_seq := ?n, w_updated_at := now\<rparr>"
  have "?f r \<in> set ?rs"
    using sql_update_hit [of r _ "\<lambda>q. w_run_ref q = ref" ?f] get_run_Some [OF g] by simp
  moreover have "w_run_ref (?f r) = ref \<and> ?n \<le> w_worker_seq (?f r)"
    using get_run_Some [OF g] by simp
  ultimately have hit: "\<exists>q \<in> set ?rs. w_run_ref q = ref \<and> ?n \<le> w_worker_seq q"
    by (rule bexI [rotated])
  from ok have old: "outbox_ok ?rs (worker_run_updates l)" by (simp add: ledger_ok_def)
  have "outbox_ok ?rs (worker_run_updates l @ [?u])"
    using old hit fresh unfolding outbox_ok_def by simp
  with ok show ?thesis unfolding l'_eq by (simp add: ledger_ok_def)
qed

lemma acknowledge_updates_ok: "ledger_ok l \<Longrightarrow> ledger_ok (acknowledge_updates ref epoch n l)"
  by (auto simp: ledger_ok_def outbox_ok_def acknowledge_updates_def table_simps)

lemma unknown_state [simp]: "''unknown'' \<in> set KNOWN_RUN_STATES"
  by (simp add: KNOWN_RUN_STATES_def)

lemma reconcile_row_ok:
  assumes l: "ledger_ok l" and r: "row_ok r" and eq: "reconcile_row probe now r l = Inr (res, l')"
  shows "ledger_ok l'"
proof -
  from eq obtain st rec where l': "l' = l\<lparr>worker_runs := sql_update (\<lambda>q. w_run_ref q = w_run_ref r)
      (\<lambda>q. q\<lparr>w_state := st, w_last_reconciliation := rec, w_updated_at := now\<rparr>) (worker_runs l)\<rparr>"
    and st: "st = w_state r \<or> st = ''unknown''"
    by (auto simp: reconcile_row_def Let_def split: option.splits if_splits)
  from r st have "st \<in> set KNOWN_RUN_STATES" by (auto simp: row_ok_def)
  then show ?thesis unfolding l' by (intro ledger_ok_update [OF l]) (simp add: row_ok_def)
qed

lemma reconcile_rows_ok:
  "ledger_ok l \<Longrightarrow> \<forall>q \<in> set rs. row_ok q \<Longrightarrow> ledger_ok (snd (reconcile_rows probe now rs l))"
proof (induction rs arbitrary: l)
  case Nil
  then show ?case by simp
next
  case (Cons r rs)
  show ?case
  proof (cases "reconcile_row probe now r l")
    case (Inl e)
    with Cons.prems show ?thesis by simp
  next
    case (Inr p)
    then obtain res l' where p: "reconcile_row probe now r l = Inr (res, l')" by (cases p) auto
    have "ledger_ok l'" using reconcile_row_ok [OF Cons.prems(1) _ p] Cons.prems(2) by simp
    then have "ledger_ok (snd (reconcile_rows probe now rs l'))" using Cons by simp
    with p show ?thesis by (auto split: prod.splits sum.splits)
  qed
qed

lemma reconcile_active_runs_ok:
  "ledger_ok l \<Longrightarrow> ledger_ok (snd (reconcile_active_runs probe now l))"
  unfolding reconcile_active_runs_def
  by (rule reconcile_rows_ok) (auto simp: list_active_runs_def ledger_ok_def)

section \<open>Runs of the ledger\<close>

inductive ledger_step :: "ledger \<Rightarrow> ledger \<Rightarrow> bool" where
  observe: "record_process_observation o' now l = Inr l' \<Longrightarrow> ledger_step l l'"
| attach: "attach_launch_supervisor ref pid m d now l = Inr l' \<Longrightarrow> ledger_step l l'"
| set_state: "update_run_state ref st now l = Inr l' \<Longrightarrow> ledger_step l l'"
| set_offset: "update_log_offset ref off now l = Inr l' \<Longrightarrow> ledger_step l l'"
| enqueue: "enqueue_update ref epoch payload now l = Inr (seq, l') \<Longrightarrow> ledger_step l l'"
| acknowledge: "ledger_step l (acknowledge_updates ref epoch through l)"
| reconcile: "ledger_step l (snd (reconcile_active_runs probe now l))"

lemmas ledger_ops_ok =
  record_process_observation_ok attach_launch_supervisor_ok update_run_state_ok
  update_log_offset_ok enqueue_update_ok acknowledge_updates_ok reconcile_active_runs_ok

interpretation ledger_ts: transition_system ledger_step ledger_ok
  by unfold_locales (auto elim!: ledger_step.cases intro: ledger_ops_ok)

lemma empty_ledger_ok: "ledger_ok empty_ledger"
  by (simp add: ledger_ok_def empty_ledger_def outbox_ok_def)

section \<open>Reconciliation, row by row\<close>

text \<open>The row a probe leaves behind: only an active row is touched, and only a match keeps it active.\<close>

definition reconciled :: "(process_observation \<Rightarrow> probe_status) \<Rightarrow> int \<Rightarrow> ledger_run \<Rightarrow> ledger_run" where
  "reconciled probe now r =
     (if w_state r \<in> {''running'', ''stopping''} then
        (let status = probe \<lparr>p_pid = the (w_pid r), p_start_marker = w_start_marker r,
                             p_argv_digest = w_argv_digest r\<rparr> in
         r\<lparr>w_state := (if status = Matched then w_state r else ''unknown''),
           w_last_reconciliation := Some (probe_name status), w_updated_at := now\<rparr>)
      else r)"

text \<open>What one probed row writes into the row with its key.\<close>

definition write_back :: "(process_observation \<Rightarrow> probe_status) \<Rightarrow> int \<Rightarrow> ledger_run \<Rightarrow> ledger_run \<Rightarrow> ledger_run" where
  "write_back probe now r q =
     (let status = probe \<lparr>p_pid = the (w_pid r), p_start_marker = w_start_marker r,
                          p_argv_digest = w_argv_digest r\<rparr> in
      q\<lparr>w_state := (if status = Matched then w_state r else ''unknown''),
        w_last_reconciliation := Some (probe_name status), w_updated_at := now\<rparr>)"

lemma write_back_key [simp]: "w_run_ref (write_back probe now r q) = w_run_ref q"
  by (simp add: write_back_def Let_def)

lemma reconcile_row_spec:
  "w_pid r \<noteq> None \<Longrightarrow> \<exists>res. reconcile_row probe now r l = Inr (res, l\<lparr>worker_runs :=
     sql_update (\<lambda>q. w_run_ref q = w_run_ref r) (write_back probe now r) (worker_runs l)\<rparr>)"
  by (auto simp: reconcile_row_def write_back_def [abs_def] Let_def)

lemma find_None_keys: "find (\<lambda>r. k r = x) rs = None \<longleftrightarrow> x \<notin> k ` set rs"
  by (auto simp: find_None_iff)

lemma reconcile_rows_spec:
  assumes "\<forall>r \<in> set rs. w_pid r \<noteq> None" and "distinct (map w_run_ref rs)"
  shows "\<exists>ress. reconcile_rows probe now rs l = (Inr ress, l\<lparr>worker_runs :=
    map (\<lambda>q. case find (\<lambda>r. w_run_ref r = w_run_ref q) rs of None \<Rightarrow> q
                | Some r \<Rightarrow> write_back probe now r q) (worker_runs l)\<rparr>)"
  using assms
proof (induction rs arbitrary: l)
  case Nil
  then show ?case by simp
next
  case (Cons r rs)
  let ?l = "l\<lparr>worker_runs :=
    sql_update (\<lambda>q. w_run_ref q = w_run_ref r) (write_back probe now r) (worker_runs l)\<rparr>"
  obtain res where step: "reconcile_row probe now r l = Inr (res, ?l)"
    using reconcile_row_spec [of r probe now l] Cons.prems(1) by auto
  obtain ress where rest: "reconcile_rows probe now rs ?l = (Inr ress, ?l\<lparr>worker_runs :=
      map (\<lambda>q. case find (\<lambda>r. w_run_ref r = w_run_ref q) rs of None \<Rightarrow> q
                  | Some r \<Rightarrow> write_back probe now r q) (worker_runs ?l)\<rparr>)"
    using Cons.IH [of ?l] Cons.prems by auto
  have "find (\<lambda>q. w_run_ref q = w_run_ref r) rs = None"
    using Cons.prems(2) by (auto simp: find_None_keys)
  then have "map (\<lambda>q. case find (\<lambda>r. w_run_ref r = w_run_ref q) rs of None \<Rightarrow> q
                  | Some r \<Rightarrow> write_back probe now r q) (worker_runs ?l) =
      map (\<lambda>q. case find (\<lambda>r. w_run_ref r = w_run_ref q) (r # rs) of None \<Rightarrow> q
                  | Some r \<Rightarrow> write_back probe now r q) (worker_runs l)"
    by (auto simp: sql_update_def)
  with step rest show ?case by simp
qed

lemma find_active:
  assumes "distinct (map w_run_ref (worker_runs l))" and "q \<in> set (worker_runs l)"
  shows "find (\<lambda>r. w_run_ref r = w_run_ref q) (list_active_runs l) =
    (if w_state q \<in> {''running'', ''stopping''} then Some q else None)"
proof (cases "find (\<lambda>r. w_run_ref r = w_run_ref q) (list_active_runs l)")
  case None
  then show ?thesis using assms by (auto simp: find_None_iff list_active_runs_def)
next
  case (Some r)
  then have r: "r \<in> set (list_active_runs l)" "w_run_ref r = w_run_ref q"
    by (auto simp: find_Some_iff)
  then have "r \<in> set (worker_runs l)" "w_state r \<in> {''running'', ''stopping''}"
    by (auto simp: list_active_runs_def)
  moreover have "r = q" using assms calculation(1) r(2) by (metis distinct_map inj_onD)
  ultimately show ?thesis using Some by auto
qed

lemma distinct_list_active:
  "distinct (map w_run_ref (worker_runs l)) \<Longrightarrow> distinct (map w_run_ref (list_active_runs l))"
  by (simp add: list_active_runs_def order_by_def distinct_map distinct_filter inj_on_def)

lemma reconcile_active_spec:
  assumes "ledger_ok l" and "\<forall>r \<in> set (list_active_runs l). w_pid r \<noteq> None"
  shows "\<exists>ress. reconcile_active_runs probe now l =
    (Inr ress, l\<lparr>worker_runs := map (reconciled probe now) (worker_runs l)\<rparr>)"
proof -
  note d = ledger_okD(1) [OF assms(1)]
  have "map (\<lambda>q. case find (\<lambda>r. w_run_ref r = w_run_ref q) (list_active_runs l) of None \<Rightarrow> q
          | Some r \<Rightarrow> write_back probe now r q) (worker_runs l) =
      map (reconciled probe now) (worker_runs l)"
    by (rule map_cong [OF refl]) (simp add: find_active [OF d] write_back_def reconciled_def Let_def)
  with reconcile_rows_spec [OF assms(2) distinct_list_active [OF d], of probe now l]
  show ?thesis by (simp add: reconcile_active_runs_def)
qed

section \<open>The start marker\<close>

lemma after_last_skip: "CHR '')'' \<notin> set t \<Longrightarrow> after_last (CHR '')'') (s @ CHR '')'' # t) = Some t"
proof (induction s)
  case Nil
  have "after_last (CHR '')'') t = None" if "CHR '')'' \<notin> set t" for t
    using that by (induction t) auto
  with Nil show ?case by simp
next
  case (Cons c s)
  then show ?case by simp
qed

fun join_sp :: "string list \<Rightarrow> string" where
  "join_sp [] = []"
| "join_sp [w] = w"
| "join_sp (w # ws) = w @ CHR '' '' # join_sp ws"

definition word :: "string \<Rightarrow> bool" where
  "word w \<longleftrightarrow> w \<noteq> [] \<and> (\<forall>c \<in> set w. \<not> is_space c \<and> c \<noteq> CHR '')'')"

lemma split_ws_word: "\<forall>c \<in> set w. \<not> is_space c \<Longrightarrow> split_ws_aux acc (w @ t) = split_ws_aux (rev w @ acc) t"
  by (induction w arbitrary: acc) auto

lemma space_is_space [simp]: "is_space (CHR '' '')"
  by (simp add: is_space_def)

lemma split_join: "\<forall>w \<in> set ws. word w \<Longrightarrow> split_ws (join_sp ws) = ws"
  unfolding split_ws_def
proof (induction ws rule: join_sp.induct)
  case 1
  then show ?case by simp
next
  case (2 w)
  then show ?case using split_ws_word [of w "[]" "[]"] by (simp add: word_def)
next
  case (3 w v vs)
  then have "split_ws_aux [] (join_sp (w # v # vs)) =
      split_ws_aux (rev w) (CHR '' '' # join_sp (v # vs))"
    using split_ws_word [of w "[]" "CHR '' '' # join_sp (v # vs)"] by (simp add: word_def)
  with 3 show ?case by (simp add: word_def)
qed

lemma join_sp_no_paren: "\<forall>w \<in> set ws. word w \<Longrightarrow> CHR '')'' \<notin> set (join_sp ws)"
  by (induction ws rule: join_sp.induct) (auto simp: word_def)

section \<open>Properties of the ledger\<close>

definition ex_obs :: observation where
  "ex_obs = \<lparr>w_run_ref = ''r1'', w_state = ''accepted'', w_pid = None, w_start_marker = None,
     w_argv_digest = None, w_gpu_uuids = [''g2'', ''g1'', ''g2''], w_working_directory = None,
     w_stdout_path = None, w_stderr_path = None, w_stage_ref = Some ''s1'', w_stage_number = Some 1,
     w_owner_epoch = 1, w_version_label = None, w_output_directory = None,
     w_supervisor_state_path = None, w_monitoring_format = ''plain'', w_log_offset = 0,
     w_redactions = [], w_launch_token = Some ''t''\<rparr>"

definition ex_row :: "string \<Rightarrow> int option \<Rightarrow> nat \<Rightarrow> ledger_run" where
  "ex_row st pid n = \<lparr>w_run_ref = ''r1'', w_state = st, w_pid = pid, w_start_marker = None,
     w_argv_digest = None, w_gpu_uuids = [''g1'', ''g2''], w_working_directory = None,
     w_stdout_path = None, w_stderr_path = None, w_stage_ref = Some ''s1'', w_stage_number = Some 1,
     w_owner_epoch = 1, w_version_label = None, w_output_directory = None,
     w_supervisor_state_path = None, w_monitoring_format = ''plain'', w_log_offset = 0,
     w_redactions = [], w_launch_token = Some ''t'', w_last_reconciliation = None,
     w_created_at = 0, w_updated_at = 0, w_worker_seq = n\<rparr>"

definition ex_ledger :: "string \<Rightarrow> int option \<Rightarrow> ledger" where
  "ex_ledger st pid = \<lparr>worker_runs = [ex_row st pid 0], worker_run_updates = []\<rparr>"

lemma ex_observed: "record_process_observation ex_obs 0 empty_ledger = Inr (ex_ledger ''accepted'' None)"
  by (simp add: record_process_observation_def check_observation_def ex_obs_def ex_ledger_def
      ex_row_def empty_ledger_def KNOWN_RUN_STATES_def ACTIVE_RUN_STATES_def observation.defs
      normalise_observation_def sorted_set_def)

lemma ex_stopping: "update_run_state ''r1'' ''stopping'' 0 (ex_ledger ''accepted'' None) =
    Inr (ex_ledger ''stopping'' None)"
  by (simp add: update_run_state_def ex_ledger_def ex_row_def KNOWN_RUN_STATES_def rowcount_def)

lemma ex_ledger_run: "ledger_step\<^sup>*\<^sup>* empty_ledger (ex_ledger ''accepted'' None)"
  by (rule r_into_rtranclp) (rule ledger_step.observe [OF ex_observed])

lemma ex_ledger_stopping_run: "ledger_step\<^sup>*\<^sup>* empty_ledger (ex_ledger ''stopping'' None)"
  by (rule rtranclp.rtrancl_into_rtrancl [OF ex_ledger_run]) (rule ledger_step.set_state [OF ex_stopping])

text \<open>
  C40: whatever sequence of operations runs on a fresh ledger, run references stay unique,
  every row keeps a known state, a positive process number if it has one, a sorted
  duplicate-free GPU list and non-negative counters, and every undelivered update carries
  a sequence number its run has handed out exactly once.
\<close>

theorem ledger_invariant: "ledger_step\<^sup>*\<^sup>* empty_ledger l \<Longrightarrow> ledger_ok l"
  using ledger_ts.run_inv empty_ledger_ok by blast

theorem ledger_invariant_witness: "ledger_ok (ex_ledger ''accepted'' None)"
  by (rule ledger_invariant [OF ex_ledger_run])

text \<open>
  in every reachable ledger, queueing an update for a known run succeeds; the unique
  key is never violated; the update gets the successor of the run's last sequence number,
  which becomes the run's last number, and is appended to the outbox; nothing else changes.
\<close>

theorem enqueue_assigns_next:
  assumes "ledger_step\<^sup>*\<^sup>* empty_ledger l" and "get_run ref l = Some r" and "0 \<le> epoch"
  shows "enqueue_update ref epoch payload now l = Inr (w_worker_seq r + 1, l\<lparr>
    worker_runs := sql_update (\<lambda>r. w_run_ref r = ref)
      (\<lambda>q. q\<lparr>w_worker_seq := w_worker_seq r + 1, w_updated_at := now\<rparr>) (worker_runs l),
    worker_run_updates := worker_run_updates l @
      [\<lparr>u_run_ref = ref, u_owner_epoch = epoch, u_worker_seq = w_worker_seq r + 1,
        u_payload = payload, u_created_at = now\<rparr>]\<rparr>)"
proof -
  have ok: "ledger_ok l" using assms(1) ledger_ts.run_inv empty_ledger_ok by blast
  then have "ref \<noteq> []" using get_run_Some [OF assms(2)] ledger_okD(2) [OF ok] by (auto simp: row_ok_def)
  with ok assms(2,3) show ?thesis by (intro enqueue_update_spec)
qed

theorem enqueue_assigns_next_witness:
  "\<exists>l'. enqueue_update ''r1'' 1 [] 5 (ex_ledger ''accepted'' None) = Inr (1, l')"
proof -
  have "get_run ''r1'' (ex_ledger ''accepted'' None) = Some (ex_row ''accepted'' None 0)"
    by (simp add: get_run_def ex_ledger_def ex_row_def)
  from enqueue_assigns_next [OF ex_ledger_run this, of 1 "[]" 5] show ?thesis
    by (simp add: ex_row_def)
qed

text \<open>
  reconciliation after a restart probes exactly the active runs.  When each has a
  process number it succeeds, keeps a run active only if the probe matched its recorded
  identity, parks every other active run as \<open>unknown\<close>, records the outcome, and leaves
  inactive runs and the outbox untouched.
\<close>

theorem reconcile_keeps_only_matched:
  assumes "ledger_step\<^sup>*\<^sup>* empty_ledger l" and "\<forall>r \<in> set (list_active_runs l). w_pid r \<noteq> None"
  shows "\<exists>ress. reconcile_active_runs probe now l =
    (Inr ress, l\<lparr>worker_runs := map (reconciled probe now) (worker_runs l)\<rparr>)"
  using reconcile_active_spec [OF _ assms(2)] assms(1) ledger_ts.run_inv empty_ledger_ok by blast

theorem reconcile_keeps_only_matched_witness:
  "\<exists>ress. reconcile_active_runs (\<lambda>_. Missing) 7 (ex_ledger ''accepted'' None) =
    (Inr ress, ex_ledger ''accepted'' None)"
proof -
  have "\<forall>r \<in> set (list_active_runs (ex_ledger ''accepted'' None)). w_pid r \<noteq> None"
    by (simp add: list_active_runs_def ex_ledger_def ex_row_def order_by_def)
  from reconcile_keeps_only_matched [OF ex_ledger_run this, of "\<lambda>_. Missing" 7] show ?thesis
    by (simp add: ex_ledger_def ex_row_def reconciled_def)
qed

text \<open>
  a launch intent is recorded without a process number, and moving it to \<open>stopping\<close>
  is allowed; a restart that finds such a row raises a TypeError in \<open>int(row["pid"])\<close>
  and leaves the row as it was, so the next restart raises it again.
\<close>

theorem reconcile_stuck_without_pid:
  "\<exists>l. ledger_step\<^sup>*\<^sup>* empty_ledger l \<and> (\<forall>probe now. reconcile_active_runs probe now l = (Inl TypeError, l))"
proof (intro exI conjI allI)
  show "ledger_step\<^sup>*\<^sup>* empty_ledger (ex_ledger ''stopping'' None)" by (rule ex_ledger_stopping_run)
  show "reconcile_active_runs probe now (ex_ledger ''stopping'' None) =
      (Inl TypeError, ex_ledger ''stopping'' None)" for probe now
    by (simp add: reconcile_active_runs_def list_active_runs_def ex_ledger_def ex_row_def
        order_by_def reconcile_row_def)
qed

text \<open>
  the probe answers \<open>matched\<close> only for a live process whose start marker and argv
  digest both equal the recorded ones, and a process whose identity was captured is
  matched for as long as \<open>/proc\<close> shows the same entry; so a recycled process number
  is not reattached.
\<close>

theorem probe_matches_identity:
  "local_probe_inspect sha256 proc obs = Matched \<longleftrightarrow>
     process_identity_for_pid sha256 proc (p_pid obs) = Some obs"
proof (cases "proc (p_pid obs)")
  case (NoProcDir sig)
  then show ?thesis
    by (simp add: local_probe_inspect_def process_identity_for_pid_def split: signal_result.splits)
next
  case (ProcDir stat cmdline)
  then show ?thesis
    by (cases obs) (auto simp: local_probe_inspect_def process_identity_for_pid_def Let_def)
qed

text \<open>
  the start marker is the twentieth word after the command name, whatever the command
  name is, with spaces and parentheses in it included.
\<close>

theorem start_marker_after_command:
  assumes "\<forall>w \<in> set ws. word w" and "19 < length ws"
  shows "read_linux_process_start_marker
    (Some (pid @ '' ('' @ comm @ '') '' @ join_sp ws)) = Some (ws ! 19)"
proof -
  have "after_last (CHR '')'') (pid @ '' ('' @ comm @ '') '' @ join_sp ws) =
      Some (CHR '' '' # join_sp ws)"
    using after_last_skip [of "CHR '' '' # join_sp ws" "pid @ '' ('' @ comm"]
      join_sp_no_paren [OF assms(1)] by simp
  with assms show ?thesis
    by (simp add: read_linux_process_start_marker_def split_join)
qed

theorem start_marker_after_command_witness:
  "read_linux_process_start_marker
    (Some (''7'' @ '' ('' @ ''a) (b'' @ '') '' @ join_sp (replicate 19 ''0'' @ [''42'']))) = Some ''42''"
proof -
  have "\<forall>w \<in> set (replicate 19 ''0'' @ [''42'']). word w"
    by (simp add: word_def is_space_def)
  from start_marker_after_command [OF this, of "''7''" "''a) (b''"] show ?thesis
    by (simp add: nth_append)
qed

end
