(* ===== verification/Update_Requests.thy ===== *)
theory Update_Requests
  imports Real_Engine
begin

text \<open>
  The HTTP route that takes a Worker's run updates (\<open>training/api.py\<close>): the request model
  with its validators, the bearer credential, and the call of the store
  (\<open>training/service.py\<close>).  Text is the list of its UTF-8 bytes, so \<open>length\<close> is the size
  the validators measure.
\<close>

section \<open>Checks shared by the validators\<close>

definition raise_if :: "bool \<Rightarrow> py_error \<Rightarrow> unit res" where
  "raise_if b e = (if b then Inl e else Inr ())"

lemma raise_if_Inr [simp]: "raise_if b e = Inr u \<longleftrightarrow> \<not> b"
  by (simp add: raise_if_def)

text \<open>\<open>^[A-Za-z0-9][A-Za-z0-9_.:-]{0,199}$\<close>.\<close>

definition api_safe_ref :: "string \<Rightarrow> bool" where
  "api_safe_ref s \<longleftrightarrow> (case s of [] \<Rightarrow> False | c # cs \<Rightarrow> is_alnum c \<and> length cs \<le> 199 \<and> list_all ref_char cs)"

text \<open>A number of the request: an integer or float, not a boolean, and finite as a float.\<close>

fun is_number :: "json \<Rightarrow> bool" where
  "is_number (JInt i) = True"
| "is_number (JFloat f) = True"
| "is_number _ = False"

fun is_finite :: "json \<Rightarrow> bool" where
  "is_finite (JFloat (Fin q)) = True"
| "is_finite (JFloat _) = False"
| "is_finite _ = True"

fun num_val :: "json \<Rightarrow> rat" where
  "num_val (JFloat (Fin q)) = q"
| "num_val (JInt i) = of_int i"
| "num_val _ = 0"

definition finite_or_none :: "env \<Rightarrow> py_error \<Rightarrow> json \<Rightarrow> unit res" where
  "finite_or_none E e v =
     (if v = JNull then Inr ()
      else if \<not> is_number v then Inl e
      else rbind (float_of E v) (\<lambda>f. raise_if (\<not> is_finite f) e))"

fun nonneg_int :: "json \<Rightarrow> bool" where
  "nonneg_int (JInt i) = (0 \<le> i)"
| "nonneg_int _ = False"

section \<open>The validators of each kind\<close>

fun is_text :: "json \<Rightarrow> bool" where
  "is_text (JStr s) = True"
| "is_text _ = False"

fun text_of :: "json \<Rightarrow> string" where
  "text_of (JStr s) = s"
| "text_of _ = []"

definition line_message :: "json \<Rightarrow> json" where
  "line_message line = (case line of JObj d \<Rightarrow> dict_get d ''message'' | _ \<Rightarrow> line)"

definition log_messages :: "dict \<Rightarrow> string list res" where
  "log_messages u =
     rbind (case dict_get u ''message'' of
              JNull \<Rightarrow> Inr []
            | JStr s \<Rightarrow> Inr [s]
            | _ \<Rightarrow> Inl (ValueError ''log message must be text'')) (\<lambda>ms.
       case dict_get u ''lines'' of
         JNull \<Rightarrow> Inr ms
       | JList ls \<Rightarrow>
           (if 200 < length ls then Inl (ValueError ''log lines must contain at most 200 items'')
            else if list_ex (\<lambda>l. \<not> is_text (line_message l)) ls then Inl (ValueError ''log line must be text'')
            else Inr (ms @ map (\<lambda>l. text_of (line_message l)) ls))
       | _ \<Rightarrow> Inl (ValueError ''log lines must contain at most 200 items''))"

definition validate_log :: "dict \<Rightarrow> unit res" where
  "validate_log u =
     rbind (log_messages u) (\<lambda>ms.
     rbind (raise_if (200 < length ms) (ValueError ''log update must contain at most 200 lines'')) (\<lambda>_.
     rbind (raise_if (ms = [] \<or> list_ex (\<lambda>m. 16384 < length m) ms)
              (ValueError ''log lines must be between 1 and 16384 bytes'')) (\<lambda>_.
       raise_if (262144 < sum_list (map length ms)) (ValueError ''log update exceeds the 256 KiB batch limit''))))"

definition GPU_FIELDS :: "string list" where
  "GPU_FIELDS = [''uuid'', ''index'', ''utilization_percent'', ''gpu_memory_mib'', ''temperature_celsius'']"

definition validate_gpu_ranges :: "env \<Rightarrow> dict \<Rightarrow> unit res" where
  "validate_gpu_ranges E gpu =
     rbind (if dict_get gpu ''utilization_percent'' = JNull then Inr ()
            else rbind (float_of E (dict_get gpu ''utilization_percent'')) (\<lambda>f.
              raise_if (\<not> (0 \<le> num_val f \<and> num_val f \<le> 100))
                (ValueError ''metric GPU utilization is outside 0..100''))) (\<lambda>_.
       if dict_get gpu ''gpu_memory_mib'' = JNull then Inr ()
       else rbind (float_of E (dict_get gpu ''gpu_memory_mib'')) (\<lambda>f.
         raise_if (num_val f < 0) (ValueError ''metric GPU memory must not be negative'')))"

definition validate_gpu :: "env \<Rightarrow> json \<Rightarrow> string list \<Rightarrow> string list res" where
  "validate_gpu E sample uuids =
     (case sample of
        JObj gpu \<Rightarrow>
          (if \<not> list_all (\<lambda>(k, v). k \<in> set GPU_FIELDS) gpu
           then Inl (ValueError ''metric GPU sample has unsupported fields'')
           else case dict_get gpu ''uuid'' of
             JStr uuid \<Rightarrow>
               (if \<not> api_safe_ref uuid \<or> uuid \<in> set uuids \<or> \<not> nonneg_int (dict_get gpu ''index'')
                then Inl (ValueError ''metric GPU sample identity is invalid'')
                else
                  rbind (rfold (\<lambda>k _. finite_or_none E (ValueError ''metric GPU values must be finite numbers'') (dict_get gpu k))
                    [''utilization_percent'', ''gpu_memory_mib'', ''temperature_celsius''] ()) (\<lambda>_.
                  rbind (validate_gpu_ranges E gpu) (\<lambda>_. Inr (uuid # uuids))))
           | _ \<Rightarrow> Inl (ValueError ''metric GPU sample identity is invalid''))
      | _ \<Rightarrow> Inl (ValueError ''metric GPU sample has unsupported fields''))"

definition validate_metric :: "env \<Rightarrow> dict \<Rightarrow> unit res" where
  "validate_metric E u =
     rbind (rfold (\<lambda>k _. finite_or_none E (ValueError ''metric fields must be finite numbers'') (dict_get u k))
       [''step'', ''total_steps'', ''epoch'', ''loss'', ''learning_rate'', ''grad_norm'', ''elapsed_seconds''] ()) (\<lambda>_.
     rbind (rfold (\<lambda>k _. raise_if (dict_get u k \<noteq> JNull \<and> \<not> nonneg_int (dict_get u k))
         (ValueError ''metric step fields must be non-negative integers'')) [''step'', ''total_steps''] ()) (\<lambda>_.
       case dict_get_default u ''gpus'' (JList []) of
         JList gpus \<Rightarrow>
           (if 8 < length gpus then Inl (ValueError ''metric GPU samples must contain at most 8 items'')
            else rbind (rfold (validate_gpu E) gpus []) (\<lambda>_. Inr ()))
       | _ \<Rightarrow> Inl (ValueError ''metric GPU samples must contain at most 8 items'')))"

definition validate_checkpoint :: "dict \<Rightarrow> unit res" where
  "validate_checkpoint u =
     (case dict_get u ''relative_path'' of
        JStr p \<Rightarrow> raise_if (1024 < py_len p) (ValueError ''checkpoint relative_path is invalid'')
      | _ \<Rightarrow> Inl (ValueError ''checkpoint relative_path is invalid''))"

section \<open>The request\<close>

definition UPDATE_KINDS :: "string list" where
  "UPDATE_KINDS = [''accepted'', ''started'', ''heartbeat'', ''log'', ''metric'', ''checkpoint'', ''exited'', ''reconciliation'']"

definition update_kind_error :: "json \<Rightarrow> py_error option" where
  "update_kind_error k =
     (case k of
        JStr s \<Rightarrow> (if s \<in> set UPDATE_KINDS then None else Some (ValueError ''training update contains an unsupported kind''))
      | JList _ \<Rightarrow> Some TypeError
      | JObj _ \<Rightarrow> Some TypeError
      | _ \<Rightarrow> Some (ValueError ''training update contains an unsupported kind''))"

definition validate_update :: "env \<Rightarrow> dict \<Rightarrow> unit res" where
  "validate_update E u =
     (case update_kind_error (dict_get u ''kind'') of
        Some e \<Rightarrow> Inl e
      | None \<Rightarrow>
          rbind (raise_if (dict_get u ''stage_ref'' \<noteq> JNull \<and>
                   \<not> (is_text (dict_get u ''stage_ref'') \<and> api_safe_ref (text_of (dict_get u ''stage_ref''))))
                 (ValueError ''training update contains an invalid stage_ref'')) (\<lambda>_.
            if dict_get u ''kind'' = JStr ''log'' then validate_log u
            else if dict_get u ''kind'' = JStr ''metric'' then validate_metric E u
            else if dict_get u ''kind'' = JStr ''checkpoint'' then validate_checkpoint u
            else Inr ()))"

definition validate_updates :: "env \<Rightarrow> dict list \<Rightarrow> unit res" where
  "validate_updates E us =
     rbind (raise_if (524288 < length (json_text E (JList (map JObj us))))
              (ValueError ''training update batch exceeds 512 KiB'')) (\<lambda>_.
       rfold (\<lambda>u _. validate_update E u) us ())"

record run_update_request =
  uq_worker_instance_id :: string
  uq_owner_epoch :: int
  uq_worker_seq :: int
  uq_updates :: "dict list"

definition validate_run_update_request :: "env \<Rightarrow> run_update_request \<Rightarrow> unit res" where
  "validate_run_update_request E q =
     rbind (raise_if (\<not> (1 \<le> py_len (uq_worker_instance_id q) \<and> py_len (uq_worker_instance_id q) \<le> 200) \<or>
              uq_owner_epoch q < 1 \<or> uq_worker_seq q < 1 \<or> \<not> (1 \<le> length (uq_updates q) \<and> length (uq_updates q) \<le> 200))
              (ValueError ''request'')) (\<lambda>_.
       validate_updates E (uq_updates q))"

text \<open>\<open>worker_[A-Za-z0-9_-]{40,250}\<close> after \<open>Bearer\<close>.\<close>

definition worker_bearer_token :: "string option \<Rightarrow> string res" where
  "worker_bearer_token authorization =
     (case authorization of
        None \<Rightarrow> Inl (Forbidden ''worker_authentication_failed'')
      | Some a \<Rightarrow>
          (let token = drop 7 a; tail = drop 7 token in
           if take 7 a = ''Bearer '' \<and> take 7 token = ''worker_'' \<and> 40 \<le> length tail \<and> length tail \<le> 250 \<and>
              list_all (\<lambda>c. is_alnum c \<or> c = CHR ''_'' \<or> c = CHR ''-'') tail
           then Inr token else Inl (Forbidden ''worker_authentication_failed'')))"

text \<open>
  The route: the framework validates the body and the length of the header before the
  credential is read; the service hands the fields to the store.
\<close>

definition update_training_run ::
  "env \<Rightarrow> string \<Rightarrow> string \<Rightarrow> string option \<Rightarrow> run_update_request \<Rightarrow> int \<Rightarrow> tdb \<Rightarrow> (run_row \<times> tdb) res" where
  "update_training_run E node_ref ref authorization q now db =
     rbind (validate_run_update_request E q) (\<lambda>_.
     rbind (case authorization of None \<Rightarrow> Inr () | Some a \<Rightarrow> raise_if (512 < length a) (ValueError ''header'')) (\<lambda>_.
     rbind (worker_bearer_token authorization) (\<lambda>token.
       apply_training_run_updates E node_ref token ref (uq_worker_instance_id q) (uq_owner_epoch q) (uq_worker_seq q)
         (uq_updates q) now db)))"

section \<open>What a request that is accepted satisfies\<close>

lemma rfold_unit: "rfold (\<lambda>x _. f x) xs () = Inr () \<longleftrightarrow> (\<forall>x \<in> set xs. f x = Inr ())"
  by (induction xs) (auto simp: rbind_eq_Inr)

lemma validate_updates_Inr:
  "validate_updates E us = Inr x \<longleftrightarrow> length (json_text E (JList (map JObj us))) \<le> 524288 \<and> (\<forall>u \<in> set us. validate_update E u = Inr ())"
  by (auto simp: validate_updates_def rbind_eq_Inr not_less rfold_unit)

lemma update_training_run_Inr:
  assumes "update_training_run E node ref auth q now db = Inr r"
  obtains token where "validate_run_update_request E q = Inr ()" "worker_bearer_token auth = Inr token"
    "apply_training_run_updates E node token ref (uq_worker_instance_id q) (uq_owner_epoch q) (uq_worker_seq q)
       (uq_updates q) now db = Inr r"
  using assms by (auto simp: update_training_run_def rbind_eq_Inr)

text \<open>A log update whose text is larger than the limit is refused.\<close>

lemma oversized_log_refused:
  assumes "dict_get u ''kind'' = JStr ''log''" "dict_get u ''message'' = JStr m" "16384 < length m"
  shows "validate_update E u \<noteq> Inr ()"
proof
  assume "validate_update E u = Inr ()"
  then obtain ms where "log_messages u = Inr ms" "\<not> list_ex (\<lambda>m. 16384 < length m) ms"
    using assms(1) by (auto simp: validate_update_def update_kind_error_def validate_log_def rbind_eq_Inr UPDATE_KINDS_def split: if_splits)
  moreover from this(1) assms(2) have "m \<in> set ms"
    by (auto simp: log_messages_def split: json.splits if_splits)
  ultimately show False using assms(3) by (auto simp: list_ex_iff)
qed

end
