(* ===== verification/Delivery.thy ===== *)
theory Delivery
  imports Worker_Ledger Update_Requests Center_Updates
begin

text \<open>
  From the Worker's outbox to the centre's run: the Worker numbers the updates of a run and
  sends the oldest one until it is answered (\<open>training_worker/execution.py\<close>), the centre
  applies a number once.  Two interfaces state what each side promises; the protocol built on
  them delivers every update exactly once and in order, over a connection that may lose
  requests and answers.
\<close>

section \<open>The two sides\<close>

text \<open>
  A numbered outbox: \<open>lseq\<close> is the last number handed out, \<open>pend\<close> the updates that are not
  acknowledged, in order.
\<close>

locale outbox =
  fixes lseq :: "'l \<Rightarrow> nat" and pend :: "'l \<Rightarrow> (nat \<times> 'p) list"
    and enq :: "'p \<Rightarrow> 'l \<Rightarrow> 'l \<Rightarrow> bool" and ack :: "nat \<Rightarrow> 'l \<Rightarrow> 'l" and lok :: "'l \<Rightarrow> bool"
  assumes enq_lseq: "lok l \<Longrightarrow> enq p l l' \<Longrightarrow> lseq l' = Suc (lseq l)"
    and enq_pend: "lok l \<Longrightarrow> enq p l l' \<Longrightarrow> pend l' = pend l @ [(Suc (lseq l), p)]"
    and enq_lok: "lok l \<Longrightarrow> enq p l l' \<Longrightarrow> lok l'"
    and ack_lseq: "lok l \<Longrightarrow> lseq (ack n l) = lseq l"
    and ack_pend: "lok l \<Longrightarrow> pend (ack n l) = filter (\<lambda>(i, p). n < i) (pend l)"
    and ack_lok: "lok l \<Longrightarrow> lok (ack n l)"

text \<open>A receiver that accepts the number it has (and does nothing) or the next one.\<close>

locale numbered_receiver =
  fixes rseq :: "'c \<Rightarrow> nat" and accept :: "nat \<Rightarrow> 'p \<Rightarrow> 'c \<Rightarrow> 'c \<Rightarrow> bool" and cok :: "'c \<Rightarrow> bool"
  assumes accept_number: "cok c \<Longrightarrow> accept n p c c' \<Longrightarrow> n = rseq c \<and> c' = c \<or> n = Suc (rseq c) \<and> rseq c' = n"
    and accept_cok: "cok c \<Longrightarrow> accept n p c c' \<Longrightarrow> cok c'"

text \<open>
  The protocol.  A world holds the outbox, the receiver, everything that was queued and
  everything that took effect.  The oldest pending update is sent; when the receiver accepts,
  the answer may still be lost, and then the update stays pending.
\<close>

locale numbered_delivery = outbox lseq pend enq ack lok + numbered_receiver rseq accept cok
  for lseq :: "'l \<Rightarrow> nat" and pend :: "'l \<Rightarrow> (nat \<times> 'p) list" and enq ack lok
    and rseq :: "'c \<Rightarrow> nat" and accept :: "nat \<Rightarrow> 'p \<Rightarrow> 'c \<Rightarrow> 'c \<Rightarrow> bool" and cok
begin

inductive deliver :: "'l \<times> 'c \<times> 'p list \<times> 'p list \<Rightarrow> 'l \<times> 'c \<times> 'p list \<times> 'p list \<Rightarrow> bool" where
  queue: "enq p l l' \<Longrightarrow> deliver (l, c, s, a) (l', c, s @ [p], a)"
| send: "pend l = (n, p) # rest \<Longrightarrow> accept n p c c' \<Longrightarrow>
    deliver (l, c, s, a) (if answered then ack n l else l, c', s, if rseq c' = rseq c then a else a @ [p])"
| local_step: "lok l' \<Longrightarrow> lseq l' = lseq l \<Longrightarrow> pend l' = pend l \<Longrightarrow> deliver (l, c, s, a) (l', c, s, a)"
| remote_step: "cok c' \<Longrightarrow> rseq c' = rseq c \<Longrightarrow> deliver (l, c, s, a) (l, c', s, a)"

definition inv_delivery :: "'l \<times> 'c \<times> 'p list \<times> 'p list \<Rightarrow> bool" where
  "inv_delivery = (\<lambda>(l, c, s, a). lok l \<and> cok c \<and> length s = lseq l \<and> rseq c \<le> lseq l \<and> a = take (rseq c) s \<and>
     (\<exists>k. (k = rseq c \<or> Suc k = rseq c) \<and> pend l = map (\<lambda>i. (Suc i, s ! i)) [k..<length s]))"

lemma inv_deliveryE:
  assumes "inv_delivery (l, c, s, a)"
  obtains k where "k = rseq c \<or> Suc k = rseq c" "pend l = map (\<lambda>i. (Suc i, s ! i)) [k..<length s]"
    "lok l" "cok c" "length s = lseq l" "rseq c \<le> lseq l" "a = take (rseq c) s"
  using assms unfolding inv_delivery_def prod.case by (elim conjE exE) (rule that)

lemma inv_send:
  assumes "inv_delivery (l, c, s, a)" "pend l = (n, p) # rest" "accept n p c c'"
  shows "inv_delivery (if answered then ack n l else l, c', s, if rseq c' = rseq c then a else a @ [p])"
proof -
  from assms(1) obtain k where k: "k = rseq c \<or> Suc k = rseq c" "pend l = map (\<lambda>i. (Suc i, s ! i)) [k..<length s]"
    and ok: "lok l" "cok c" "length s = lseq l" "rseq c \<le> lseq l" "a = take (rseq c) s"
    by (rule inv_deliveryE)
  from k(2) assms(2) have lt: "k < length s" and np: "n = Suc k" "p = s ! k"
    by (cases "k < length s"; simp add: upt_conv_Cons)+
  have acked: "pend (ack n l) = map (\<lambda>i. (Suc i, s ! i)) [Suc k..<length s]"
  proof -
    have "filter (\<lambda>(i, p). Suc k < i) (map (\<lambda>i. (Suc i, s ! i)) [k..<length s]) =
        map (\<lambda>i. (Suc i, s ! i)) (filter (\<lambda>i. k < i) [k..<length s])"
      by (simp add: filter_map comp_def)
    moreover have "filter (\<lambda>i. k < i) [k..<length s] = [Suc k..<length s]"
      using lt by (simp add: upt_conv_Cons filter_id_conv)
    ultimately show ?thesis using ack_pend[OF ok(1), of n] k(2) np(1) by simp
  qed
  have new: "rseq c' = Suc k" using accept_number[OF ok(2) assms(3)] k(1) np(1) by auto
  have a': "(if rseq c' = rseq c then a else a @ [p]) = take (Suc k) s"
  proof (cases "Suc k = rseq c")
    case True
    then show ?thesis using new ok(5) by simp
  next
    case False
    then show ?thesis using new ok(5) k(1) np(2) lt by (simp add: take_Suc_conv_app_nth)
  qed
  have "cok c'" by (rule accept_cok[OF ok(2) assms(3)])
  moreover have "\<exists>j. (j = rseq c' \<or> Suc j = rseq c') \<and>
      pend (if answered then ack n l else l) = map (\<lambda>i. (Suc i, s ! i)) [j..<length s]"
    using new acked k(2) by (cases answered) auto
  moreover have "rseq c' \<le> lseq (if answered then ack n l else l)" "lok (if answered then ack n l else l)"
    "length s = lseq (if answered then ack n l else l)"
    using ok lt new by (simp_all add: ack_lseq ack_lok)
  ultimately show ?thesis using a' new by (simp add: inv_delivery_def)
qed

lemma deliver_inv: "deliver w w' \<Longrightarrow> inv_delivery w \<Longrightarrow> inv_delivery w'"
proof (induction rule: deliver.induct)
  case (queue p l l' c s a)
  from queue.prems obtain k where k: "k = rseq c \<or> Suc k = rseq c" "pend l = map (\<lambda>i. (Suc i, s ! i)) [k..<length s]"
    and ok: "lok l" "cok c" "length s = lseq l" "rseq c \<le> lseq l" "a = take (rseq c) s"
    by (rule inv_deliveryE)
  have "k \<le> length s" using k(1) ok by auto
  then have "pend l' = map (\<lambda>i. (Suc i, (s @ [p]) ! i)) [k..<length (s @ [p])]"
    using enq_pend[OF ok(1) queue.hyps] k(2) ok(3) by (simp add: nth_append)
  then show ?case using enq_lseq[OF ok(1) queue.hyps] enq_lok[OF ok(1) queue.hyps] ok k(1)
    by (auto simp: inv_delivery_def)
next
  case (send l n p rest c c' answered s a)
  then show ?case using inv_send by blast
qed (auto simp: inv_delivery_def)

lemma delivered_in_order:
  assumes "deliver\<^sup>*\<^sup>* (l, c, [], []) (l', c', s, a)" "lok l" "cok c" "lseq l = 0" "rseq c = 0" "pend l = []"
  shows "inv_delivery (l', c', s, a)"
  using assms(1)
proof (induction "(l', c', s, a)" arbitrary: l' c' s a rule: rtranclp_induct)
  case base
  then show ?case using assms by (simp add: inv_delivery_def)
next
  case (step w)
  then show ?case using deliver_inv by (cases w) blast
qed

end


section \<open>The Worker's outbox\<close>

definition ref_updates :: "string \<Rightarrow> ledger \<Rightarrow> run_update list" where
  "ref_updates ref l = filter (\<lambda>u. u_run_ref u = ref) (worker_run_updates l)"

definition ref_seq :: "string \<Rightarrow> ledger \<Rightarrow> nat" where
  "ref_seq ref l = (case get_run ref l of None \<Rightarrow> 0 | Some r \<Rightarrow> w_worker_seq r)"

definition ref_pending :: "string \<Rightarrow> ledger \<Rightarrow> (nat \<times> dict) list" where
  "ref_pending ref l = map (\<lambda>u. (u_worker_seq u, u_payload u)) (ref_updates ref l)"

text \<open>The ledger of a Worker that owns the run under one epoch.\<close>

definition owned :: "string \<Rightarrow> int \<Rightarrow> ledger \<Rightarrow> bool" where
  "owned ref epoch l \<longleftrightarrow> ledger_ok l \<and> get_run ref l \<noteq> None \<and>
     (\<forall>u \<in> set (ref_updates ref l). u_owner_epoch u = epoch) \<and> sorted (map u_worker_seq (ref_updates ref l))"

lemma pending_rows_owned:
  assumes "owned ref epoch l"
  shows "pending_rows ref n l = take n (ref_updates ref l)"
proof -
  have "map (\<lambda>u. (u_owner_epoch u, u_worker_seq u)) (ref_updates ref l) = map (Pair epoch) (map u_worker_seq (ref_updates ref l))"
    using assms by (simp add: owned_def)
  moreover have "sorted (map (Pair epoch) ns)" if "sorted ns" for ns :: "nat list"
    using that by (induction ns) auto
  ultimately have "sorted (map (\<lambda>u. (u_owner_epoch u, u_worker_seq u)) (ref_updates ref l))"
    using assms unfolding owned_def by metis
  then show ?thesis
    by (simp add: pending_rows_def ref_updates_def order_by_def sort_key_id_if_sorted)
qed

lemma get_run_other_table: "worker_runs l' = worker_runs l \<Longrightarrow> get_run ref l' = get_run ref l"
  by (simp add: get_run_def)

lemma updates_le_seq:
  assumes "ledger_ok l" "get_run ref l = Some r" "u \<in> set (ref_updates ref l)"
  shows "u_worker_seq u \<le> w_worker_seq r"
proof -
  from assms(3) have u: "u \<in> set (worker_run_updates l)" "u_run_ref u = ref" by (simp_all add: ref_updates_def)
  with ledger_okD(3)[OF assms(1)] obtain q where q: "q \<in> set (worker_runs l)" "w_run_ref q = ref" "u_worker_seq u \<le> w_worker_seq q"
    unfolding outbox_ok_def by blast
  then have "get_run ref l = Some q" using get_run_iff[OF assms(1)] by blast
  with q assms(2) show ?thesis by simp
qed

lemma enqueue_owned:
  assumes "owned ref epoch l" "enqueue_update ref epoch p now l = Inr (n, l')"
  shows "ref_seq ref l' = Suc (ref_seq ref l)" "ref_pending ref l' = ref_pending ref l @ [(Suc (ref_seq ref l), p)]" "owned ref epoch l'"
proof -
  from assms(1) have ok: "ledger_ok l" by (simp add: owned_def)
  from assms(2) obtain r where r: "get_run ref l = Some r" "ref \<noteq> []" "0 \<le> epoch" by (rule enqueue_update_Inr)
  let ?f = "\<lambda>q. q\<lparr>w_worker_seq := w_worker_seq r + 1, w_updated_at := now\<rparr>"
  have l': "l' = l\<lparr>worker_runs := sql_update (\<lambda>r. w_run_ref r = ref) ?f (worker_runs l),
      worker_run_updates := worker_run_updates l @ [\<lparr>u_run_ref = ref, u_owner_epoch = epoch, u_worker_seq = w_worker_seq r + 1,
        u_payload = p, u_created_at = now\<rparr>]\<rparr>"
    using enqueue_update_spec[OF ok r, of p now] assms(2) by simp
  have g: "get_run ref l' = Some (?f r)"
    using r(1) get_run_Some[OF r(1)] unfolding l' get_run_def
    by simp (subst fetchone_key_update[where k = w_run_ref], simp_all)
  then show seq: "ref_seq ref l' = Suc (ref_seq ref l)" using r(1) by (simp add: ref_seq_def)
  have us: "ref_updates ref l' = ref_updates ref l @ [\<lparr>u_run_ref = ref, u_owner_epoch = epoch, u_worker_seq = w_worker_seq r + 1,
        u_payload = p, u_created_at = now\<rparr>]"
    by (simp add: l' ref_updates_def)
  then show "ref_pending ref l' = ref_pending ref l @ [(Suc (ref_seq ref l), p)]"
    using r(1) by (simp add: ref_pending_def ref_seq_def)
  have "\<forall>x \<in> set (map u_worker_seq (ref_updates ref l)). x \<le> w_worker_seq r + 1"
    using updates_le_seq[OF ok r(1)] by fastforce
  then show "owned ref epoch l'"
    using assms(1) enqueue_update_ok[OF ok assms(2)] g us by (simp add: owned_def sorted_append)
qed

lemma sorted_filter_key: "sorted (map k xs) \<Longrightarrow> sorted (map k (filter P xs))"
  by (induction xs) auto

lemma acknowledged_rows:
  "worker_run_updates (acknowledge_updates ref epoch n l) =
     filter (\<lambda>u. \<not> (u_run_ref u = ref \<and> u_owner_epoch u = epoch \<and> u_worker_seq u \<le> n)) (worker_run_updates l)"
  by (simp add: acknowledge_updates_def sql_delete_def)

lemma acknowledge_updates_rows:
  assumes "owned ref epoch l"
  shows "ref_updates ref (acknowledge_updates ref epoch n l) = filter (\<lambda>u. n < u_worker_seq u) (ref_updates ref l)"
proof -
  have epochs: "u_owner_epoch u = epoch" if "u \<in> set (worker_run_updates l)" "u_run_ref u = ref" for u
    using assms that by (simp add: owned_def ref_updates_def)
  show ?thesis
    unfolding ref_updates_def acknowledged_rows filter_filter
  proof (rule filter_cong[OF refl])
    fix u assume "u \<in> set (worker_run_updates l)"
    then show "(\<not> (u_run_ref u = ref \<and> u_owner_epoch u = epoch \<and> u_worker_seq u \<le> n) \<and> u_run_ref u = ref) =
        (u_run_ref u = ref \<and> n < u_worker_seq u)"
      using epochs[of u] by (cases "u_run_ref u = ref") (simp_all add: not_le)
  qed
qed

lemma acknowledge_owned:
  assumes "owned ref epoch l"
  shows "ref_seq ref (acknowledge_updates ref epoch n l) = ref_seq ref l"
    "ref_pending ref (acknowledge_updates ref epoch n l) = filter (\<lambda>(i, p). n < i) (ref_pending ref l)"
    "owned ref epoch (acknowledge_updates ref epoch n l)"
proof -
  note us = acknowledge_updates_rows[OF assms, of n]
  have runs: "worker_runs (acknowledge_updates ref epoch n l) = worker_runs l" by (simp add: acknowledge_updates_def)
  show "ref_seq ref (acknowledge_updates ref epoch n l) = ref_seq ref l"
    unfolding ref_seq_def get_run_other_table[OF runs] ..
  show "ref_pending ref (acknowledge_updates ref epoch n l) = filter (\<lambda>(i, p). n < i) (ref_pending ref l)"
    by (simp add: ref_pending_def us filter_map comp_def)
  show "owned ref epoch (acknowledge_updates ref epoch n l)"
    using assms us get_run_other_table[OF runs] by (simp add: owned_def acknowledge_updates_ok sorted_filter_key)
qed

interpretation ledger_outbox: outbox "ref_seq ref" "ref_pending ref"
  "\<lambda>p l l'. \<exists>now n. enqueue_update ref epoch p now l = Inr (n, l')" "\<lambda>n. acknowledge_updates ref epoch n" "owned ref epoch"
  for ref epoch
  by unfold_locales (auto simp: enqueue_owned acknowledge_owned)


section \<open>The run in the centre\<close>

definition run_seq :: "string \<Rightarrow> string \<Rightarrow> tdb \<Rightarrow> nat" where
  "run_seq node ref db = (case real_run db ref node of None \<Rightarrow> 0 | Some run \<Rightarrow> nat (r_exec_update_seq run))"

definition run_known :: "string \<Rightarrow> string \<Rightarrow> tdb \<Rightarrow> bool" where
  "run_known node ref db \<longleftrightarrow> (\<exists>run. real_run db ref node = Some run \<and> 0 \<le> r_exec_update_seq run)"

lemma accepted_update_number:
  assumes "apply_training_run_updates E node tok ref w epoch (int n) us now db = Inr (r, db')" "run_known node ref db"
  shows "(n = run_seq node ref db \<and> db' = db \<or> n = Suc (run_seq node ref db) \<and> run_seq node ref db' = n) \<and> run_known node ref db'"
  using assms(1)
proof (cases rule: apply_training_run_updates_cases)
  case (1 run)
  then show ?thesis using assms(2) by (auto simp: run_seq_def run_known_def)
next
  case (2 run d)
  have "ident d = ident db" by (rule ident_batch[OF 2(4)])
  then obtain run' where run': "real_run d ref node = Some run'" "run_key run' = run_key run"
    using real_run_ident[of d db ref node] 2(1) by auto
  then have "r_id run' = r_id run" by (simp add: run_key_def)
  with real_run_recorded[OF run'(1), of "int n" w now] 2(5) obtain q where
    "real_run db' ref node = Some q" "r_exec_update_seq q = int n" by auto
  then show ?thesis using 2(1,3) assms(2) by (auto simp: run_seq_def run_known_def)
qed

interpretation center_receiver: numbered_receiver "run_seq node ref"
  "\<lambda>n p db db'. \<exists>tok w now r. apply_training_run_updates E node tok ref w epoch (int n) [p] now db = Inr (r, db')"
  "run_known node ref" for E node ref epoch
  by unfold_locales (auto dest: accepted_update_number)

interpretation center_delivery: numbered_delivery "ref_seq ref" "ref_pending ref"
  "\<lambda>p l l'. \<exists>now n. enqueue_update ref epoch p now l = Inr (n, l')" "\<lambda>n. acknowledge_updates ref epoch n" "owned ref epoch"
  "run_seq node ref" "\<lambda>n p db db'. \<exists>tok w now r. apply_training_run_updates E node tok ref w epoch (int n) [p] now db = Inr (r, db')"
  "run_known node ref" for E node ref epoch
  by unfold_locales

section \<open>Sending what is pending\<close>

text \<open>What the connection does to one request: it is lost, its answer is lost, or it is answered.\<close>

datatype channel = RequestLost | AnswerLost | Answered

record worker_identity =
  wi_node_ref :: string
  wi_token :: string
  wi_instance :: string

text \<open>
  One request of the Worker's client: without a credential or with an unsafe reference nothing
  is sent, otherwise the centre's route answers.
\<close>

definition post_run_updates ::
  "env \<Rightarrow> worker_identity \<Rightarrow> string \<Rightarrow> int \<Rightarrow> int \<Rightarrow> dict list \<Rightarrow> int \<Rightarrow> tdb \<Rightarrow> (run_row \<times> tdb) res" where
  "post_run_updates E i ref epoch seq us now db =
     (if wi_token i = [] \<or> wi_node_ref i = [] then Inl (ClientError ''worker is not enrolled'')
      else if \<not> safe_ref ref then Inl (ClientError ''worker dataset reference is invalid'')
      else update_training_run E (wi_node_ref i) ref (Some (''Bearer '' @ wi_token i))
        \<lparr>uq_worker_instance_id = wi_instance i, uq_owner_epoch = epoch, uq_worker_seq = seq, uq_updates = us\<rparr> now db)"

lemma post_run_updates_Inr:
  assumes "post_run_updates E i ref epoch seq us now db = Inr x"
  obtains tok where "validate_updates E us = Inr ()"
    "apply_training_run_updates E (wi_node_ref i) tok ref (wi_instance i) epoch seq us now db = Inr x"
  using assms
  by (auto simp: post_run_updates_def validate_run_update_request_def rbind_eq_Inr split: if_split_asm
      elim!: update_training_run_Inr)

text \<open>
  \<open>publish_run_updates\<close> over the connection: the Worker sees an error when anything was lost,
  when it cannot read the answer, or when the centre refused.
\<close>

definition publish_run_updates ::
  "env \<Rightarrow> worker_identity \<Rightarrow> channel \<Rightarrow> string \<Rightarrow> int \<Rightarrow> int \<Rightarrow> dict list \<Rightarrow> int \<Rightarrow> tdb \<Rightarrow> bool \<times> tdb" where
  "publish_run_updates E i ch ref epoch seq us now db =
     (if ch = RequestLost then (False, db)
      else case post_run_updates E i ref epoch seq us now db of
        Inl e \<Rightarrow> (False, db)
      | Inr (r, db') \<Rightarrow> (ch = Answered, db'))"

text \<open>
  \<open>_flush\<close>: the pending updates in order, one request each, until one is not answered.  The
  numbers are taken out of the dictionary that \<open>pending_updates\<close> merged them into.
\<close>

fun flush_updates ::
  "env \<Rightarrow> worker_identity \<Rightarrow> string \<Rightarrow> int \<Rightarrow> dict list \<Rightarrow> channel list \<Rightarrow> ledger \<times> tdb \<Rightarrow> (ledger \<times> tdb) res" where
  "flush_updates E i ref now [] chs (l, db) = Inr (l, db)"
| "flush_updates E i ref now (u # us) chs (l, db) =
     rbind (py_int (dict_get u ''owner_epoch'')) (\<lambda>epoch.
     rbind (py_int (dict_get u ''worker_seq'')) (\<lambda>seq.
       case publish_run_updates E i (case chs of [] \<Rightarrow> RequestLost | ch # _ \<Rightarrow> ch) ref epoch seq
              [dict_del ''worker_seq'' (dict_del ''owner_epoch'' u)] now db of
         (False, db') \<Rightarrow> Inr (l, db')
       | (True, db') \<Rightarrow> flush_updates E i ref now us (drop 1 chs) (acknowledge_updates ref epoch (nat seq) l, db')))"

definition flush_run :: "env \<Rightarrow> worker_identity \<Rightarrow> string \<Rightarrow> int \<Rightarrow> channel list \<Rightarrow> ledger \<times> tdb \<Rightarrow> (ledger \<times> tdb) res" where
  "flush_run E i ref now chs = (\<lambda>(l, db).
     rbind (pending_updates ref 100 l) (\<lambda>us. flush_updates E i ref now us chs (l, db)))"

text \<open>\<open>_queue\<close>: an update of the run under the epoch its row names.\<close>

definition queue_update :: "ledger_run \<Rightarrow> dict \<Rightarrow> int \<Rightarrow> ledger \<Rightarrow> ledger res" where
  "queue_update run payload now l =
     rbind (enqueue_update (w_run_ref run) (w_owner_epoch run) payload now l) (\<lambda>(n, l'). Inr l')"


section \<open>A flush as steps of the protocol\<close>

text \<open>The payloads the sources queue: dictionaries that do not use the two numbering keys.\<close>

definition plain_payload :: "dict \<Rightarrow> bool" where
  "plain_payload p \<longleftrightarrow> distinct (map fst p) \<and> ''owner_epoch'' \<notin> fst ` set p \<and> ''worker_seq'' \<notin> fst ` set p"

lemma dict_set_new: "k \<notin> fst ` set d \<Longrightarrow> dict_set k v d = d @ [(k, v)]"
  by (induction d) auto

lemma dict_merge_disjoint:
  "distinct (map fst e) \<Longrightarrow> fst ` set d \<inter> fst ` set e = {} \<Longrightarrow> dict_merge d e = d @ e"
proof (induction e arbitrary: d)
  case (Cons kv e)
  obtain k v where kv: "kv = (k, v)" by (cases kv)
  have "dict_merge d (kv # e) = dict_merge (d @ [(k, v)]) e"
    using Cons.prems(2) kv by (simp add: dict_merge_def dict_set_new)
  also have "\<dots> = (d @ [(k, v)]) @ e" using Cons.prems kv by (intro Cons.IH) auto
  finally show ?case using kv by simp
qed (simp add: dict_merge_def)

lemma dict_del_absent: "k \<notin> fst ` set d \<Longrightarrow> dict_del k d = d"
  by (induction d) (auto simp: dict_del_def)

lemma update_dict_plain:
  assumes "plain_payload (u_payload u)"
  shows "dict_get (update_dict u) ''owner_epoch'' = JInt (u_owner_epoch u)"
    "dict_get (update_dict u) ''worker_seq'' = JInt (int (u_worker_seq u))"
    "dict_del ''worker_seq'' (dict_del ''owner_epoch'' (update_dict u)) = u_payload u"
proof -
  have eq: "update_dict u = [(''owner_epoch'', JInt (u_owner_epoch u)), (''worker_seq'', JInt (int (u_worker_seq u)))] @ u_payload u"
    unfolding update_dict_def using assms by (intro dict_merge_disjoint) (auto simp: plain_payload_def)
  show "dict_get (update_dict u) ''owner_epoch'' = JInt (u_owner_epoch u)"
    "dict_get (update_dict u) ''worker_seq'' = JInt (int (u_worker_seq u))"
    unfolding eq by (simp_all add: dict_get_def)
  have "dict_del ''worker_seq'' (u_payload u) = u_payload u" "dict_del ''owner_epoch'' (u_payload u) = u_payload u"
    using assms by (simp_all add: plain_payload_def dict_del_absent)
  then show "dict_del ''worker_seq'' (dict_del ''owner_epoch'' (update_dict u)) = u_payload u"
    unfolding eq by (simp add: dict_del_def)
qed

text \<open>The payloads that take effect in a flush: those at which the run's number moves.\<close>

fun flush_effects ::
  "env \<Rightarrow> worker_identity \<Rightarrow> string \<Rightarrow> int \<Rightarrow> run_update list \<Rightarrow> channel list \<Rightarrow> tdb \<Rightarrow> dict list" where
  "flush_effects E i ref now [] chs db = []"
| "flush_effects E i ref now (u # us) chs db =
     (case publish_run_updates E i (case chs of [] \<Rightarrow> RequestLost | ch # _ \<Rightarrow> ch) ref (u_owner_epoch u)
            (int (u_worker_seq u)) [u_payload u] now db of
        (ok, db') \<Rightarrow>
          (if run_seq (wi_node_ref i) ref db' = run_seq (wi_node_ref i) ref db then [] else [u_payload u]) @
          (if ok then flush_effects E i ref now us (drop 1 chs) db' else []))"

type_synonym world = "ledger \<times> tdb \<times> dict list \<times> dict list"

text \<open>Operations of the Worker that do not queue or acknowledge updates of the run.\<close>

inductive ledger_other :: "string \<Rightarrow> ledger \<Rightarrow> ledger \<Rightarrow> bool" for ref where
  observe: "record_process_observation o' now l = Inr l' \<Longrightarrow> ledger_other ref l l'"
| attach: "attach_launch_supervisor r pid m d now l = Inr l' \<Longrightarrow> ledger_other ref l l'"
| set_state: "update_run_state r st now l = Inr l' \<Longrightarrow> ledger_other ref l l'"
| set_offset: "update_log_offset r off now l = Inr l' \<Longrightarrow> ledger_other ref l l'"
| enqueue: "enqueue_update r epoch payload now l = Inr (seq, l') \<Longrightarrow> r \<noteq> ref \<Longrightarrow> ledger_other ref l l'"
| acknowledge: "r \<noteq> ref \<Longrightarrow> ledger_other ref l (acknowledge_updates r epoch through l)"
| reconcile: "ledger_other ref l (snd (reconcile_active_runs probe now l))"

inductive delivery_step :: "env \<Rightarrow> string \<Rightarrow> string \<Rightarrow> int \<Rightarrow> world \<Rightarrow> world \<Rightarrow> bool" for E node ref epoch where
  queue: "enqueue_update ref epoch p now l = Inr (n, l') \<Longrightarrow> plain_payload p \<Longrightarrow>
    delivery_step E node ref epoch (l, db, s, a) (l', db, s @ [p], a)"
| flush: "flush_run E i ref now chs (l, db) = Inr (l', db') \<Longrightarrow> wi_node_ref i = node \<Longrightarrow>
    delivery_step E node ref epoch (l, db, s, a) (l', db', s, a @ flush_effects E i ref now (pending_rows ref 100 l) chs db)"
| worker: "ledger_other ref l l' \<Longrightarrow> delivery_step E node ref epoch (l, db, s, a) (l', db, s, a)"
| center: "run_known node ref db' \<Longrightarrow> run_seq node ref db' = run_seq node ref db \<Longrightarrow>
    delivery_step E node ref epoch (l, db, s, a) (l, db', s, a)"

lemma publish_cases:
  assumes "publish_run_updates E i ch ref epoch (int n) [p] now db = (ok, db')"
  obtains (nothing) "\<not> ok" "db' = db"
  | (sent) tok r where "apply_training_run_updates E (wi_node_ref i) tok ref (wi_instance i) epoch (int n) [p] now db = Inr (r, db')"
proof (cases "ch = RequestLost")
  case True
  then have "\<not> ok" "db' = db" using assms by (simp_all add: publish_run_updates_def)
  then show ?thesis by (rule nothing)
next
  case False
  show ?thesis
  proof (cases "post_run_updates E i ref epoch (int n) [p] now db")
    case (Inl e)
    then have "\<not> ok" "db' = db" using assms False by (simp_all add: publish_run_updates_def)
    then show ?thesis by (rule nothing)
  next
    case (Inr x)
    then have "snd x = db'" using assms False by (simp add: publish_run_updates_def split: prod.splits)
    with Inr obtain tok where "apply_training_run_updates E (wi_node_ref i) tok ref (wi_instance i) epoch (int n) [p] now db = Inr (fst x, db')"
      by (metis post_run_updates_Inr prod.collapse)
    then show ?thesis by (rule sent)
  qed
qed

abbreviation delivers :: "env \<Rightarrow> string \<Rightarrow> string \<Rightarrow> int \<Rightarrow> world \<Rightarrow> world \<Rightarrow> bool" where
  "delivers E node ref epoch \<equiv> center_delivery.deliver ref epoch node E"

lemma owned_strict:
  assumes "owned ref epoch l"
  shows "sorted_wrt (<) (map u_worker_seq (ref_updates ref l))"
proof -
  have "distinct (map (\<lambda>u. (u_run_ref u, u_worker_seq u)) (ref_updates ref l))"
    using assms unfolding owned_def ledger_ok_def outbox_ok_def ref_updates_def by (simp add: distinct_map_filter)
  moreover have "map (\<lambda>u. (u_run_ref u, u_worker_seq u)) (ref_updates ref l) = map (Pair ref) (map u_worker_seq (ref_updates ref l))"
    by (simp add: ref_updates_def)
  ultimately have "distinct (map u_worker_seq (ref_updates ref l))" by (metis distinct_map)
  then show ?thesis using assms by (simp add: strict_sorted_iff owned_def)
qed

lemma acknowledge_head:
  assumes "owned ref epoch l" "ref_updates ref l = u # us"
  shows "ref_updates ref (acknowledge_updates ref epoch (u_worker_seq u) l) = us"
proof -
  have "\<forall>x \<in> set us. u_worker_seq u < u_worker_seq x" using owned_strict[OF assms(1)] assms(2) by simp
  then have "filter (\<lambda>x. u_worker_seq u < u_worker_seq x) us = us" by (rule filter_True)
  then show ?thesis using acknowledge_updates_rows[OF assms(1)] assms(2) by simp
qed

text \<open>The loop over the pending rows, each iteration a step of the protocol.\<close>

lemma flush_delivers:
  assumes "ref_updates ref l = us @ rest" "owned ref epoch l" "run_known (wi_node_ref i) ref db"
    and "\<forall>u \<in> set us. plain_payload (u_payload u)"
    and "flush_updates E i ref now (map update_dict us) chs (l, db) = Inr (l', db')"
  shows "(delivers E (wi_node_ref i) ref epoch)\<^sup>*\<^sup>* (l, db, s, a) (l', db', s, a @ flush_effects E i ref now us chs db)"
  using assms
proof (induction us arbitrary: l db chs a)
  case (Cons u us)
  let ?ch = "case chs of [] \<Rightarrow> RequestLost | ch # _ \<Rightarrow> ch" and ?D = "delivers E (wi_node_ref i) ref epoch"
  have ep: "u_owner_epoch u = epoch" using Cons.prems(1,2) by (simp add: owned_def)
  note pl = update_dict_plain[of u]
  obtain ok d where pub: "publish_run_updates E i ?ch ref epoch (int (u_worker_seq u)) [u_payload u] now db = (ok, d)" by force
  have rest_eq: "(if ok then flush_updates E i ref now (map update_dict us) (drop 1 chs) (acknowledge_updates ref epoch (u_worker_seq u) l, d)
      else Inr (l, d)) = Inr (l', db')"
    using Cons.prems(4,5) pl pub ep by (simp split: bool.splits)
  have pend: "ref_pending ref l = (u_worker_seq u, u_payload u) # map (\<lambda>u. (u_worker_seq u, u_payload u)) (us @ rest)"
    using Cons.prems(1) by (simp add: ref_pending_def)
  let ?e = "if run_seq (wi_node_ref i) ref d = run_seq (wi_node_ref i) ref db then [] else [u_payload u]"
  have eff: "flush_effects E i ref now (u # us) chs db = ?e @ (if ok then flush_effects E i ref now us (drop 1 chs) d else [])"
    using pub ep by simp
  from pub show ?case
  proof (cases rule: publish_cases)
    case nothing
    then show ?thesis using rest_eq eff by simp
  next
    case (sent tok r)
    let ?l1 = "if ok then acknowledge_updates ref epoch (u_worker_seq u) l else l"
    have "?D (l, db, s, a) (?l1, d, s, if run_seq (wi_node_ref i) ref d = run_seq (wi_node_ref i) ref db then a else a @ [u_payload u])"
      using sent(1) by (intro center_delivery.deliver.send[OF pend]) blast
    then have step: "?D (l, db, s, a) (?l1, d, s, a @ ?e)" by (cases "run_seq (wi_node_ref i) ref d = run_seq (wi_node_ref i) ref db") simp_all
    show ?thesis
    proof (cases ok)
      case False
      then show ?thesis using rest_eq step eff by auto
    next
      case True
      have own: "owned ref epoch (acknowledge_updates ref epoch (u_worker_seq u) l)" by (rule acknowledge_owned(3)[OF Cons.prems(2)])
      have kn: "run_known (wi_node_ref i) ref d" using accepted_update_number[OF sent(1) Cons.prems(3)] by blast
      have us: "ref_updates ref (acknowledge_updates ref epoch (u_worker_seq u) l) = us @ rest"
        using acknowledge_head[OF Cons.prems(2)] Cons.prems(1) by simp
      show ?thesis using Cons.IH[OF us own kn _, of "drop 1 chs" "a @ ?e"] Cons.prems(4) rest_eq True step eff by (auto intro: converse_rtranclp_into_rtranclp)
    qed
  qed
qed simp

text \<open>The other operations of the Worker leave the numbering of the run and its pending updates alone.\<close>

definition seqs :: "ledger \<Rightarrow> (string \<times> nat) list" where
  "seqs l = map (\<lambda>r. (w_run_ref r, w_worker_seq r)) (worker_runs l)"

lemma get_run_seqs: "map_option w_worker_seq (get_run ref l) = map_of (seqs l) ref"
proof -
  have "map_option w_worker_seq (fetchone (filter (\<lambda>r. w_run_ref r = ref) t)) = map_of (map (\<lambda>r. (w_run_ref r, w_worker_seq r)) t) ref"
    for t :: "ledger_run list" by (induction t) simp_all
  then show ?thesis by (simp add: get_run_def seqs_def)
qed

lemma ref_seq_seqs: "ref_seq ref l = (case map_of (seqs l) ref of None \<Rightarrow> 0 | Some n \<Rightarrow> n)"
  by (cases "get_run ref l") (simp_all add: ref_seq_def flip: get_run_seqs)

lemma seqs_update:
  assumes "\<And>r. P r \<Longrightarrow> w_run_ref (f r) = w_run_ref r \<and> w_worker_seq (f r) = w_worker_seq r"
  shows "seqs (l\<lparr>worker_runs := sql_update P f (worker_runs l)\<rparr>) = seqs l"
  using assms by (simp add: seqs_def sql_update_def)

definition same_outbox :: "string \<Rightarrow> ledger \<Rightarrow> ledger \<Rightarrow> bool" where
  "same_outbox ref l l' \<longleftrightarrow> (map_of (seqs l) ref \<noteq> None \<longrightarrow> map_of (seqs l') ref = map_of (seqs l) ref) \<and>
     ref_updates ref l' = ref_updates ref l"

lemma same_outbox_rewrite:
  assumes "\<And>r. P r \<Longrightarrow> w_run_ref (f r) = w_run_ref r \<and> w_worker_seq (f r) = w_worker_seq r"
  shows "same_outbox ref l (l\<lparr>worker_runs := sql_update P f (worker_runs l)\<rparr>)"
  using seqs_update[of P f l, OF assms] by (simp add: same_outbox_def ref_updates_def)

lemma same_outbox_trans: "same_outbox ref l l' \<Longrightarrow> same_outbox ref l' l'' \<Longrightarrow> same_outbox ref l l''"
  unfolding same_outbox_def by (elim conjE, intro conjI impI) simp_all

lemma reconcile_rows_outbox: "same_outbox ref l (snd (reconcile_rows probe now rs l))"
proof (induction rs arbitrary: l)
  case (Cons r rs)
  show ?case
  proof (cases "reconcile_row probe now r l")
    case (Inr p)
    then obtain x l' where p: "reconcile_row probe now r l = Inr (x, l')" by (cases p) auto
    then have "same_outbox ref l l'"
      by (auto simp: reconcile_row_def Let_def split: option.splits intro!: same_outbox_rewrite)
    with Cons.IH[of l'] p show ?thesis by (auto intro: same_outbox_trans split: prod.splits sum.splits)
  qed (simp add: same_outbox_def)
qed (simp add: same_outbox_def)

lemma seqs_observe:
  assumes "record_process_observation o' now l = Inr l'"
  shows "same_outbox ref l l'"
proof (cases "\<exists>q \<in> set (worker_runs l). w_run_ref q = w_run_ref o'")
  case True
  then show ?thesis using assms
    by (auto simp: record_process_observation_def rbind_eq_Inr Let_def intro!: same_outbox_rewrite)
next
  case False
  then obtain q where "l' = l\<lparr>worker_runs := worker_runs l @ [q]\<rparr>"
    using assms by (auto simp: record_process_observation_def rbind_eq_Inr Let_def)
  then show ?thesis by (auto simp: same_outbox_def ref_updates_def seqs_def map_add_def)
qed

lemma ledger_other_outbox:
  assumes "ledger_other ref l l'"
  shows "same_outbox ref l l'"
  using assms
proof cases
  case (observe o' now)
  then show ?thesis by (rule seqs_observe)
next
  case (enqueue r epoch payload now seq)
  then have "ref \<noteq> r" by simp
  then have "map_of (map (\<lambda>r. (w_run_ref r, w_worker_seq r)) (sql_update (\<lambda>q. w_run_ref q = r)
      (\<lambda>r. r\<lparr>w_worker_seq := seq, w_updated_at := now\<rparr>) t)) ref = map_of (map (\<lambda>r. (w_run_ref r, w_worker_seq r)) t) ref"
    for t :: "ledger_run list" by (induction t) (simp_all add: sql_update_def)
  with enqueue show ?thesis
    by (auto simp: enqueue_update_def Let_def same_outbox_def seqs_def ref_updates_def split: if_splits option.splits)
next
  case (acknowledge r epoch n)
  then have "filter (\<lambda>u. u_run_ref u = ref) (worker_run_updates l') = filter (\<lambda>u. u_run_ref u = ref) (worker_run_updates l)"
    unfolding acknowledge(1) acknowledged_rows filter_filter by (intro filter_cong) auto
  with acknowledge show ?thesis by (simp add: same_outbox_def seqs_def ref_updates_def acknowledge_updates_def)
next
  case (reconcile probe now)
  then show ?thesis by (simp add: reconcile_active_runs_def reconcile_rows_outbox)
qed (auto simp: attach_launch_supervisor_def update_run_state_def update_log_offset_def Let_def
       split: if_splits intro!: same_outbox_rewrite)

lemma ledger_other_ok: "ledger_other ref l l' \<Longrightarrow> ledger_ok l \<Longrightarrow> ledger_ok l'"
  by (erule ledger_other.cases) (auto intro: ledger_ops_ok)

lemma other_owned:
  assumes "ledger_other ref l l'" "owned ref epoch l"
  shows "owned ref epoch l'" "ref_seq ref l' = ref_seq ref l" "ref_pending ref l' = ref_pending ref l"
proof -
  note same = ledger_other_outbox[OF assms(1)]
  have some: "map_of (seqs l) ref \<noteq> None" using assms(2) by (simp add: owned_def flip: get_run_seqs)
  then have eq: "map_of (seqs l') ref = map_of (seqs l) ref"
    using same unfolding same_outbox_def by blast
  then have "get_run ref l' \<noteq> None" using some by (cases "get_run ref l'") (simp_all flip: get_run_seqs)
  then show "owned ref epoch l'"
    using assms(2) same ledger_other_ok[OF assms(1)] by (simp add: owned_def same_outbox_def)
  show "ref_seq ref l' = ref_seq ref l" using eq by (simp add: ref_seq_seqs)
  show "ref_pending ref l' = ref_pending ref l" using same by (simp add: same_outbox_def ref_pending_def)
qed

section \<open>The steps of the two programs\<close>

abbreviation delivery_inv :: "string \<Rightarrow> string \<Rightarrow> int \<Rightarrow> world \<Rightarrow> bool" where
  "delivery_inv node ref epoch \<equiv> center_delivery.inv_delivery ref epoch node"

lemma pending_payloads:
  assumes "delivery_inv node ref epoch (l, db, s, a)"
  shows "u_payload ` set (ref_updates ref l) \<subseteq> set s"
proof -
  from assms obtain k where "ref_pending ref l = map (\<lambda>i. (Suc i, s ! i)) [k..<length s]"
    by (rule center_delivery.inv_deliveryE)
  then have "map u_payload (ref_updates ref l) = map (\<lambda>i. s ! i) [k..<length s]"
    unfolding ref_pending_def by (metis (no_types, lifting) list.map_comp comp_def snd_conv map_cong)
  then have "u_payload ` set (ref_updates ref l) = (\<lambda>i. s ! i) ` {k..<length s}"
    by (metis list.set_map set_upt)
  then show ?thesis by auto
qed

lemma step_delivers:
  assumes "delivery_step E node ref epoch (l, db, s, a) (l', db', s', a')"
    and "delivery_inv node ref epoch (l, db, s, a)" "\<forall>p \<in> set s. plain_payload p"
  shows "(delivers E node ref epoch)\<^sup>*\<^sup>* (l, db, s, a) (l', db', s', a') \<and> (\<forall>p \<in> set s'. plain_payload p)"
proof -
  from assms(2) have own: "owned ref epoch l" and kn: "run_known node ref db" by (auto elim: center_delivery.inv_deliveryE)
  from assms(1) show ?thesis
  proof cases
    case (queue p now n)
    then have "delivers E node ref epoch (l, db, s, a) (l', db', s', a')"
      by (auto intro: center_delivery.deliver.queue)
    then show ?thesis using queue assms(3) by auto
  next
    case (flush i now chs)
    let ?us = "take 100 (ref_updates ref l)"
    have rows: "pending_rows ref 100 l = ?us" by (rule pending_rows_owned[OF own])
    then have "flush_updates E i ref now (map update_dict ?us) chs (l, db) = Inr (l', db')"
      using flush(3) by (simp add: flush_run_def pending_updates_def)
    moreover have "\<forall>u \<in> set ?us. plain_payload (u_payload u)"
      using pending_payloads[OF assms(2)] assms(3) by (auto dest!: in_set_takeD)
    ultimately have "(delivers E node ref epoch)\<^sup>*\<^sup>* (l, db, s, a) (l', db', s, a @ flush_effects E i ref now ?us chs db)"
      using flush_delivers[of ref l ?us "drop 100 (ref_updates ref l)" epoch i db] own kn flush(4) by simp
    then show ?thesis using flush assms(3) rows by simp
  next
    case worker
    then have "delivers E node ref epoch (l, db, s, a) (l', db', s', a')"
      using other_owned[OF worker(4) own] by (auto intro!: center_delivery.deliver.local_step)
    then show ?thesis using worker assms(3) by auto
  next
    case center
    then have "delivers E node ref epoch (l, db, s, a) (l', db', s', a')"
      by (auto intro!: center_delivery.deliver.remote_step)
    then show ?thesis using center assms(3) by auto
  qed
qed

lemma steps_deliver:
  assumes "(delivery_step E node ref epoch)\<^sup>*\<^sup>* (l0, db0, [], []) (l, db, s, a)"
    and "owned ref epoch l0" "ref_seq ref l0 = 0" "ref_updates ref l0 = []" "run_known node ref db0" "run_seq node ref db0 = 0"
  shows "delivery_inv node ref epoch (l, db, s, a) \<and> (\<forall>p \<in> set s. plain_payload p)"
  using assms(1)
proof (induction "(l, db, s, a)" arbitrary: l db s a rule: rtranclp_induct)
  case base
  then show ?case using assms by (simp add: center_delivery.inv_delivery_def ref_pending_def)
next
  case (step w)
  obtain l1 db1 s1 a1 where w: "w = (l1, db1, s1, a1)" by (cases w)
  from step(3)[OF w] have ih: "delivery_inv node ref epoch (l1, db1, s1, a1)" "\<forall>p \<in> set s1. plain_payload p" by auto
  from step_delivers[OF step(2)[unfolded w] ih]
  have steps: "(delivers E node ref epoch)\<^sup>*\<^sup>* (l1, db1, s1, a1) (l, db, s, a)" and plain: "\<forall>p \<in> set s. plain_payload p" by auto
  from steps have "delivery_inv node ref epoch (l, db, s, a)"
    by (induction rule: rtranclp_induct) (use ih(1) center_delivery.deliver_inv in blast)+
  with plain show ?case by blast
qed

section \<open>A flush over a working connection\<close>

lemma flush_updates_progress:
  assumes "ref_updates ref l = us @ rest" "owned ref epoch l" "run_known (wi_node_ref i) ref db"
    and "\<forall>u \<in> set us. plain_payload (u_payload u)" "length us \<le> length chs" "set chs \<subseteq> {Answered}"
  shows "\<exists>l' db'. flush_updates E i ref now (map update_dict us) chs (l, db) = Inr (l', db') \<and>
    (ref_updates ref l' = rest \<or> (\<exists>u rest' e. ref_updates ref l' = u # rest' \<and>
       post_run_updates E i ref epoch (int (u_worker_seq u)) [u_payload u] now db' = Inl e))"
  using assms
proof (induction us arbitrary: l db chs)
  case (Cons u us)
  obtain chs' where chs: "chs = Answered # chs'" "length us \<le> length chs'" "set chs' \<subseteq> {Answered}"
    using Cons.prems(5,6) by (cases chs) auto
  have ep: "u_owner_epoch u = epoch" using Cons.prems(1,2) by (simp add: owned_def)
  let ?apply = "post_run_updates E i ref epoch (int (u_worker_seq u)) [u_payload u] now db"
  show ?case
  proof (cases ?apply)
    case (Inl e)
    then have "flush_updates E i ref now (map update_dict (u # us)) chs (l, db) = Inr (l, db)"
      using Cons.prems(4) ep by (simp add: update_dict_plain publish_run_updates_def chs)
    with Inl show ?thesis using Cons.prems(1) by simp
  next
    case (Inr p)
    then obtain r d where ap: "?apply = Inr (r, d)" by (cases p) simp
    have own: "owned ref epoch (acknowledge_updates ref epoch (u_worker_seq u) l)" by (rule acknowledge_owned(3)[OF Cons.prems(2)])
    have us: "ref_updates ref (acknowledge_updates ref epoch (u_worker_seq u) l) = us @ rest"
      using acknowledge_head[OF Cons.prems(2)] Cons.prems(1) by simp
    have kn: "run_known (wi_node_ref i) ref d" using ap by (rule post_run_updates_Inr) (use accepted_update_number Cons.prems(3) in blast)
    have "flush_updates E i ref now (map update_dict (u # us)) chs (l, db) =
        flush_updates E i ref now (map update_dict us) chs' (acknowledge_updates ref epoch (u_worker_seq u) l, d)"
      using Cons.prems(4) ep ap by (simp add: update_dict_plain publish_run_updates_def chs)
    with Cons.IH[OF us own kn _ chs(2,3)] Cons.prems(4) show ?thesis by simp
  qed
qed simp

section \<open>An update the centre refuses\<close>

lemma refused_update_step:
  assumes "delivery_step E node ref epoch (l, db, s, a) (l', db', s', a')"
    and "owned ref epoch l" "ref_pending ref l = (n, p) # rest" "plain_payload p"
    and refused: "\<And>u. validate_updates E [p] \<noteq> Inr u"
  shows "owned ref epoch l' \<and> (\<exists>rest'. ref_pending ref l' = (n, p) # rest') \<and>
    run_seq node ref db' = run_seq node ref db \<and> a' = a"
  using assms(1)
proof cases
  case (queue q now k)
  then show ?thesis using enqueue_owned[OF assms(2) queue(4)] assms(3) by simp
next
  case (flush i now chs)
  obtain u us where u: "ref_updates ref l = u # us" "u_worker_seq u = n" "u_payload u = p"
    using assms(3) by (auto simp: ref_pending_def)
  have rows: "pending_rows ref 100 l = u # take 99 us" using pending_rows_owned[OF assms(2), of 100] u(1) by simp
  have ep: "u_owner_epoch u = epoch" using assms(2) u(1) by (simp add: owned_def)
  have "\<exists>e. post_run_updates E i ref epoch (int n) [p] now db = Inl e"
    using refused by (cases "post_run_updates E i ref epoch (int n) [p] now db") (blast elim: post_run_updates_Inr)+
  then have pub: "publish_run_updates E i ch ref epoch (int n) [p] now db = (False, db)" for ch
    by (auto simp: publish_run_updates_def)
  have "flush_run E i ref now chs (l, db) = Inr (l, db)"
    using pub rows u assms(4) ep by (simp add: flush_run_def pending_updates_def update_dict_plain)
  then show ?thesis using flush assms(2,3) rows u pub ep by simp
next
  case worker
  then show ?thesis using other_owned[OF worker(4) assms(2)] assms(3) by simp
qed (use assms(2,3) in simp_all)

section \<open>Properties\<close>


text \<open>A Worker and a centre that agree on a run nothing was reported for.\<close>

definition ex_beat :: dict where
  "ex_beat = [(''kind'', JStr ''heartbeat'')]"

definition ex_worker_ledger :: ledger where
  "ex_worker_ledger = \<lparr>worker_runs = [(ex_row ''running'' (Some 5) 0)\<lparr>w_run_ref := ''run_x''\<rparr>], worker_run_updates = []\<rparr>"

definition ex_token :: string where
  "ex_token = ''worker_'' @ replicate 40 (CHR ''a'')"

definition ex_centre :: tdb where
  "ex_centre = ex_live\<lparr>t_runs := [ex_run\<lparr>r_exec_update_seq := 0\<rparr>],
     t_nodes := [ex_node\<lparr>n_worker_token_sha256 := Some (token_digest ex_env ex_token)\<rparr>]\<rparr>"

definition ex_identity :: worker_identity where
  "ex_identity = \<lparr>wi_node_ref = ''node'', wi_token = ex_token, wi_instance = ''w''\<rparr>"

definition ex_queued :: "nat \<Rightarrow> ledger" where
  "ex_queued n = (((\<lambda>l. case enqueue_update ''run_x'' 1 ex_beat 0 l of Inl e \<Rightarrow> l | Inr (k, l') \<Rightarrow> l') ^^ n) ex_worker_ledger)"

lemma ex_owned: "owned ''run_x'' 1 ex_worker_ledger" "ref_seq ''run_x'' ex_worker_ledger = 0"
  "ref_updates ''run_x'' ex_worker_ledger = []"
  by (simp_all add: owned_def ledger_ok_def row_ok_def outbox_ok_def get_run_def ref_updates_def ref_seq_def
      ex_worker_ledger_def ex_row_def KNOWN_RUN_STATES_def)

lemma ex_centre_run: "run_known ''node'' ''run_x'' ex_centre" "run_seq ''node'' ''run_x'' ex_centre = 0"
  by (simp_all add: run_known_def run_seq_def real_run_def ex_centre_def ex_defs)

lemma ex_queues: "enqueue_update ''run_x'' 1 ex_beat 0 ex_worker_ledger = Inr (1, ex_queued 1)"
  "enqueue_update ''run_x'' 1 ex_beat 0 (ex_queued 1) = Inr (2, ex_queued 2)"
  by (simp_all add: ex_queued_def enqueue_update_def get_run_def ex_worker_ledger_def ex_row_def numeral_2_eq_2)

lemma ex_flush:
  "case flush_run ex_env ex_identity ''run_x'' 30 [Answered, AnswerLost] (ex_queued 2, ex_centre) of
     Inl e \<Rightarrow> False | Inr (l', db') \<Rightarrow> length (ref_updates ''run_x'' l') = 1 \<and> run_seq ''node'' ''run_x'' db' = 2"
  by code_simp




text \<open>
  A log update whose text takes more than 16384 bytes blocks its run for good: the centre's
  route refuses it, the Worker sends it again and again, and whatever happens from then on no
  later update of the run takes effect.
\<close>

theorem oversized_log_blocks_run:
  assumes "(delivery_step E node ref epoch)\<^sup>*\<^sup>* (l, db, sent, applied) (l', db', sent', applied')"
    and "owned ref epoch l" "ref_pending ref l = (n, p) # rest" "plain_payload p"
    and "dict_get p ''kind'' = JStr ''log''" "dict_get p ''message'' = JStr m" "16384 < length m"
  shows "applied' = applied \<and> run_seq node ref db' = run_seq node ref db \<and> (\<exists>rest'. ref_pending ref l' = (n, p) # rest')"
proof -
  have refused: "validate_updates E [p] \<noteq> Inr u" for u
    using oversized_log_refused[OF assms(5,6,7), of E] by (simp add: validate_updates_Inr)
  from assms(1) have "owned ref epoch l' \<and> (\<exists>rest'. ref_pending ref l' = (n, p) # rest') \<and>
      run_seq node ref db' = run_seq node ref db \<and> applied' = applied"
  proof (induction "(l', db', sent', applied')" arbitrary: l' db' sent' applied' rule: rtranclp_induct)
    case base
    then show ?case using assms(2,3) by simp
  next
    case (step w)
    obtain l1 db1 s1 a1 where w: "w = (l1, db1, s1, a1)" by (cases w)
    from step(3)[OF w] obtain rest1 where ih: "owned ref epoch l1" "ref_pending ref l1 = (n, p) # rest1"
      "run_seq node ref db1 = run_seq node ref db" "a1 = applied" by blast
    show ?case using refused_update_step[OF step(2)[unfolded w] ih(1,2) assms(4) refused] ih(3,4) by simp
  qed
  then show ?thesis by blast
qed

definition ex_wide_log :: dict where
  "ex_wide_log = [(''kind'', JStr ''log''), (''stage_ref'', JNull), (''level'', JStr ''info''),
     (''message'', JStr (concat (replicate 8193 (map char_of [0xC3, 0xA9 :: nat]))))]"

theorem oversized_log_blocks_run_witness:
  "\<exists>l. enqueue_update ''run_x'' 1 ex_wide_log 0 ex_worker_ledger = Inr (1, l) \<and>
     (\<forall>l' db' sent' applied'. (delivery_step ex_env ''node'' ''run_x'' 1)\<^sup>*\<^sup>* (l, ex_centre, [ex_wide_log], []) (l', db', sent', applied') \<longrightarrow>
       applied' = [] \<and> run_seq ''node'' ''run_x'' db' = 0)"
proof -
  obtain l where l: "enqueue_update ''run_x'' 1 ex_wide_log 0 ex_worker_ledger = Inr (1, l)"
    by (simp add: enqueue_update_def get_run_def ex_worker_ledger_def ex_row_def)
  have own: "owned ''run_x'' 1 l" and pend: "ref_pending ''run_x'' l = (1, ex_wide_log) # []"
    using enqueue_owned[OF ex_owned(1) l] ex_owned by (simp_all add: ref_pending_def)
  have plain: "plain_payload ex_wide_log" by (simp add: plain_payload_def ex_wide_log_def)
  let ?m = "concat (replicate 8193 (map char_of [0xC3, 0xA9 :: nat]))"
  have kind: "dict_get ex_wide_log ''kind'' = JStr ''log''" and msg: "dict_get ex_wide_log ''message'' = JStr ?m"
    by (simp_all add: dict_get_def ex_wide_log_def)
  have "16384 < length ?m" by (simp add: length_concat sum_list_replicate)
  note blocked = oversized_log_blocks_run[OF _ own pend plain kind msg this, where E = ex_env and node = "''node''" and db = ex_centre
      and sent = "[ex_wide_log]" and applied = "[]"]
  show ?thesis
  proof (intro exI[of _ l] conjI allI impI)
    fix l' db' sent' applied'
    assume steps: "(delivery_step ex_env ''node'' ''run_x'' 1)\<^sup>*\<^sup>* (l, ex_centre, [ex_wide_log], []) (l', db', sent', applied')"
    show "applied' = []" using blocked[OF steps] by blast
    show "run_seq ''node'' ''run_x'' db' = 0" using blocked[OF steps] ex_centre_run(2) by simp
  qed (rule l)
qed

end
