(* ===== verification/Worker_Logs.thy ===== *)
theory Worker_Logs
  imports Delivery "HOL-Library.Sublist"
begin

text \<open>
  The log of a training process as the Worker reports it
  (\<open>TrainingExecutionManager._collect_log\<close> in \<open>training_worker/execution.py\<close>): a batch of raw
  lines from the recorded offset, each decoded, redacted, searched for a training event and
  rendered as a terminal would, then one run update per chunk of text and one per event.

  \<open>json.loads\<close>, \<open>ast.literal_eval\<close>, \<open>float\<close> and the test that a checkpoint exists are
  parameters.  A JSON syntax error is \<open>ValueError ''JSONDecodeError''\<close>; \<open>literal_eval\<close> raises
  \<open>ValueError\<close> for both exceptions the code catches.  Digits and white space of the progress
  pattern are the ASCII ones.
\<close>

record log_env =
  le_json :: "string \<Rightarrow> json res"
  le_literal :: "string \<Rightarrow> json res"
  le_float :: "json \<Rightarrow> json res"
  le_checkpoint_ok :: "string \<Rightarrow> string \<Rightarrow> bool"

section \<open>Reading a batch of raw lines\<close>

definition NL :: char where "NL = char_of (10 :: nat)"
definition CR :: char where "CR = char_of (13 :: nat)"
definition ESC :: char where "ESC = char_of (27 :: nat)"

definition MAX_LOG_LINE_BYTES :: nat where "MAX_LOG_LINE_BYTES = 16384"
definition MAX_LOG_BATCH_LINES :: nat where "MAX_LOG_BATCH_LINES = 200"
definition MAX_LOG_BATCH_BYTES :: nat where "MAX_LOG_BATCH_BYTES = 262144"

text \<open>\<open>stream.readline(n)\<close>: up to and including a newline, at most \<open>n\<close> bytes.\<close>

fun readline :: "nat \<Rightarrow> string \<Rightarrow> string" where
  "readline n [] = []"
| "readline n (c # cs) = (if n = 0 then [] else c # (if c = NL then [] else readline (n - 1) cs))"

text \<open>The loop, with the number of lines still allowed and the bytes read so far.\<close>

fun read_lines :: "nat \<Rightarrow> nat \<Rightarrow> string \<Rightarrow> string list" where
  "read_lines 0 batch s = []"
| "read_lines (Suc k) batch s =
     (if MAX_LOG_BATCH_BYTES \<le> batch then []
      else let line = readline (min (MAX_LOG_LINE_BYTES + 1) (MAX_LOG_BATCH_BYTES - batch)) s in
        if line = [] then [] else line # read_lines k (batch + length line) (drop (length line) s))"

section \<open>Decoding with replacement\<close>

text \<open>
  A lead byte: how many continuation bytes follow, and the range of the first of them.
\<close>

definition utf8_lead :: "char \<Rightarrow> (nat \<times> nat \<times> nat) option" where
  "utf8_lead c = (let b = of_char c :: nat in
     if b < 128 then Some (0, 128, 191)
     else if 194 \<le> b \<and> b \<le> 223 then Some (1, 128, 191)
     else if b = 224 then Some (2, 160, 191)
     else if b = 237 then Some (2, 128, 159)
     else if 225 \<le> b \<and> b \<le> 239 then Some (2, 128, 191)
     else if b = 240 then Some (3, 144, 191)
     else if b = 244 then Some (3, 128, 143)
     else if 241 \<le> b \<and> b \<le> 243 then Some (3, 128, 191)
     else None)"

fun count_cont :: "nat \<Rightarrow> string \<Rightarrow> nat" where
  "count_cont n [] = 0"
| "count_cont n (c # cs) = (if 0 < n \<and> is_cont c then Suc (count_cont (n - 1) cs) else 0)"

text \<open>The next unit of a non-empty text: whether it is a code point, and its bytes.\<close>

definition utf8_unit :: "string \<Rightarrow> bool \<times> nat" where
  "utf8_unit s =
     (case utf8_lead (hd s) of
        None \<Rightarrow> (False, 1)
      | Some (n, lo, hi) \<Rightarrow>
          (if n = 0 then (True, 1)
           else case tl s of
             [] \<Rightarrow> (False, 1)
           | d # ds \<Rightarrow>
               (if lo \<le> (of_char d :: nat) \<and> (of_char d :: nat) \<le> hi
                then let k = count_cont (n - 1) ds in (k = n - 1, k + 2)
                else (False, 1))))"

definition REPLACEMENT :: string where
  "REPLACEMENT = map char_of [0xEF, 0xBF, 0xBD :: nat]"

lemma utf8_unit_pos: "0 < snd (utf8_unit s)"
  by (auto simp: utf8_unit_def Let_def split: option.splits list.splits)

function utf8_decode :: "string \<Rightarrow> string" where
  "utf8_decode [] = []"
| "utf8_decode (c # cs) =
     (if fst (utf8_unit (c # cs)) then take (snd (utf8_unit (c # cs))) (c # cs) else REPLACEMENT) @
     utf8_decode (drop (snd (utf8_unit (c # cs))) (c # cs))"
  by pat_completeness auto
termination
  by (relation "measure length") (auto simp: utf8_unit_pos Suc_le_eq diff_less)

section \<open>Redaction and terminal rendering\<close>

text \<open>\<open>s.replace(old, new)\<close> for a non-empty \<open>old\<close>.\<close>

function str_replace :: "string \<Rightarrow> string \<Rightarrow> string \<Rightarrow> string" where
  "str_replace old new [] = []"
| "str_replace old new (c # cs) =
     (if old \<noteq> [] \<and> prefix old (c # cs) then new @ str_replace old new (drop (length old) (c # cs))
      else c # str_replace old new cs)"
  by pat_completeness auto
termination by (relation "measure (\<lambda>(_, _, s). length s)") (auto simp: length_greater_0_conv diff_less)

definition redact :: "string list \<Rightarrow> string \<Rightarrow> string" where
  "redact secrets text = fold (\<lambda>x t. if x \<noteq> [] then str_replace x ''********'' t else t) secrets text"

text \<open>\<open>value.rsplit("\r", 1)[-1]\<close>, and the control sequences \<open>ESC [ ... letter\<close> removed.\<close>

definition after_last_cr :: "string \<Rightarrow> string" where
  "after_last_cr s = rev (takeWhile (\<lambda>c. c \<noteq> CR) (rev s))"

definition char_between :: "nat \<Rightarrow> nat \<Rightarrow> char \<Rightarrow> bool" where
  "char_between a b c \<longleftrightarrow> a \<le> (of_char c :: nat) \<and> (of_char c :: nat) \<le> b"

text \<open>The text after a control sequence that starts at its bracket, if there is one.\<close>

definition csi_rest :: "string \<Rightarrow> string option" where
  "csi_rest s =
     (if take 1 s \<noteq> ''['' then None
      else case dropWhile (char_between 32 47) (dropWhile (char_between 48 63) (drop 1 s)) of
        [] \<Rightarrow> None
      | c # cs \<Rightarrow> (if char_between 64 126 c then Some cs else None))"

lemma csi_rest_length: "csi_rest s = Some r \<Longrightarrow> length r < length s"
proof -
  assume "csi_rest s = Some r"
  then obtain c where c: "dropWhile (char_between 32 47) (dropWhile (char_between 48 63) (drop 1 s)) = c # r"
    by (auto simp: csi_rest_def split: if_splits list.splits)
  have "length (c # r) \<le> length s"
    unfolding c[symmetric] by (rule order.trans[OF length_dropWhile_le order.trans[OF length_dropWhile_le]]) simp
  then show ?thesis by simp
qed

function strip_csi :: "string \<Rightarrow> string" where
  "strip_csi [] = []"
| "strip_csi (c # cs) =
     (if c = ESC then (case csi_rest cs of Some r \<Rightarrow> strip_csi r | None \<Rightarrow> c # strip_csi cs)
      else c # strip_csi cs)"
  by pat_completeness auto
termination by (relation "measure length") (auto dest: csi_rest_length)

definition normalise_terminal_record :: "string \<Rightarrow> string" where
  "normalise_terminal_record value = strip_csi (after_last_cr value)"

section \<open>Training events\<close>

text \<open>\<open>str.strip()\<close> with all of Unicode's white space.\<close>

definition SPACES :: "string list" where
  "SPACES = map (map char_of) ([[9], [10], [11], [12], [13], [28], [29], [30], [31], [32], [0xC2, 0x85], [0xC2, 0xA0],
     [0xE1, 0x9A, 0x80], [0xE2, 0x80, 0xA8], [0xE2, 0x80, 0xA9], [0xE2, 0x80, 0xAF], [0xE2, 0x81, 0x9F], [0xE3, 0x80, 0x80]] @
     map (\<lambda>k. [0xE2, 0x80, k]) [0x80..<0x8B] :: nat list list)"

definition text_lead_space :: "string list \<Rightarrow> string \<Rightarrow> nat" where
  "text_lead_space spaces s = (case find (\<lambda>p. prefix p s) spaces of None \<Rightarrow> 0 | Some p \<Rightarrow> length p)"

function lstrip_by :: "string list \<Rightarrow> string \<Rightarrow> string" where
  "lstrip_by spaces s =
     (if s = [] \<or> text_lead_space spaces s = 0 then s else lstrip_by spaces (drop (text_lead_space spaces s) s))"
  by pat_completeness auto
termination by (relation "measure (\<lambda>(_, s). length s)") (auto simp: diff_less)

declare lstrip_by.simps [simp del]

definition strip_text :: "string \<Rightarrow> string" where
  "strip_text s = rev (lstrip_by (map rev SPACES) (rev (lstrip_by SPACES s)))"

text \<open>\<open>re.finditer(r"\{[^{}\r\n]*\}", s)\<close>.\<close>

fun brace_body :: "string \<Rightarrow> (string \<times> string) option" where
  "brace_body [] = None"
| "brace_body (c # cs) =
     (if c = CHR ''}'' then Some ([], cs)
      else if c = CHR ''{'' \<or> c = CR \<or> c = NL then None
      else map_option (\<lambda>(b, r). (c # b, r)) (brace_body cs))"

lemma brace_body_length: "brace_body s = Some (b, r) \<Longrightarrow> length r < length s"
  by (induction s arbitrary: b r) (auto split: if_split_asm)

function brace_matches :: "string \<Rightarrow> string list" where
  "brace_matches [] = []"
| "brace_matches (c # cs) =
     (if c = CHR ''{'' then
        (case brace_body cs of
           Some (b, r) \<Rightarrow> (''{'' @ b @ ''}'') # brace_matches r
         | None \<Rightarrow> brace_matches cs)
      else brace_matches cs)"
  by pat_completeness auto
termination by (relation "measure length") (auto dest: brace_body_length)

text \<open>\<open>re.finditer(r"(?<!\d)(\d+)\s*/\s*(\d+)(?!\d)", s)\<close>: whole runs of digits around a slash.\<close>

definition after_slash :: "string \<Rightarrow> string option" where
  "after_slash s = (case dropWhile is_space s of [] \<Rightarrow> None
     | c # cs \<Rightarrow> (if c = CHR ''/'' then Some (dropWhile is_space cs) else None))"

lemma after_slash_length: "after_slash s = Some r \<Longrightarrow> length r < length s"
proof -
  assume "after_slash s = Some r"
  then obtain cs where c: "dropWhile is_space s = CHR ''/'' # cs" "r = dropWhile is_space cs"
    by (auto simp: after_slash_def split: list.splits if_splits)
  have "length r \<le> length cs" unfolding c(2) by (rule length_dropWhile_le)
  moreover have "length (CHR ''/'' # cs) \<le> length s" unfolding c(1)[symmetric] by (rule length_dropWhile_le)
  ultimately show ?thesis by simp
qed

lemma progress_rest_length:
  "after_slash (dropWhile is_digit s) = Some r \<Longrightarrow> length (dropWhile is_digit r) < Suc (length s)"
  using after_slash_length[of "dropWhile is_digit s" r] length_dropWhile_le[of is_digit s] length_dropWhile_le[of is_digit r]
  by linarith

function progress_matches :: "string \<Rightarrow> (string \<times> string) list" where
  "progress_matches [] = []"
| "progress_matches (c # cs) =
     (if \<not> is_digit c then progress_matches cs
      else case after_slash (dropWhile is_digit cs) of
        None \<Rightarrow> progress_matches (dropWhile is_digit cs)
      | Some r \<Rightarrow>
          (if takeWhile is_digit r = [] then progress_matches (dropWhile is_digit cs)
           else (c # takeWhile is_digit cs, takeWhile is_digit r) # progress_matches (dropWhile is_digit r)))"
  by pat_completeness auto
termination
  by (relation "measure length")
    (auto simp: le_imp_less_Suc length_dropWhile_le dest: progress_rest_length)

text \<open>\<open>int(digits)\<close>: CPython refuses more than 4300 of them.\<close>

definition int_of_digits :: "string \<Rightarrow> int res" where
  "int_of_digits s =
     (if 4300 < length s then Inl (ValueError ''Exceeds the limit for integer string conversion'')
      else Inr (int (foldl (\<lambda>acc c. 10 * acc + (of_char c - 48)) 0 s)))"

definition is_decode_error :: "py_error \<Rightarrow> bool" where
  "is_decode_error e \<longleftrightarrow> e = ValueError ''JSONDecodeError''"

definition is_value_error :: "py_error \<Rightarrow> bool" where
  "is_value_error e = (case e of ValueError _ \<Rightarrow> True | _ \<Rightarrow> False)"

text \<open>The first candidate that parses to a dictionary.\<close>

fun first_dict :: "log_env \<Rightarrow> bool \<Rightarrow> string list \<Rightarrow> dict option res" where
  "first_dict L transformers [] = Inr None"
| "first_dict L transformers (item # rest) =
     (case le_json L item of
        Inr (JObj d) \<Rightarrow> Inr (Some d)
      | Inr _ \<Rightarrow> first_dict L transformers rest
      | Inl e \<Rightarrow>
          (if \<not> is_decode_error e then Inl e
           else if \<not> transformers then Inr None
           else case le_literal L item of
             Inr (JObj d) \<Rightarrow> Inr (Some d)
           | Inr _ \<Rightarrow> first_dict L transformers rest
           | Inl e' \<Rightarrow> (if is_value_error e' then first_dict L transformers rest else Inl e')))"

text \<open>A path below the output directory: not absolute and without parent references.\<close>

definition relative_inside :: "string \<Rightarrow> bool" where
  "relative_inside v \<longleftrightarrow> v \<noteq> [] \<and> char_of (92 :: nat) \<notin> set v \<and> char_of (0 :: nat) \<notin> set v \<and>
     \<not> path_is_absolute (parse_path v) \<and> ''..'' \<notin> set (snd (parse_path v))"

definition checkpoint_event :: "dict \<Rightarrow> dict option" where
  "checkpoint_event parsed =
     (case dict_get parsed ''relative_path'' of
        JStr p \<Rightarrow>
          (if \<not> relative_inside p then None
           else Some ([(''kind'', JStr ''checkpoint''), (''relative_path'', JStr p)] @
             (if nonneg_int (dict_get parsed ''step'') then [(''step'', dict_get parsed ''step'')] else [])))
      | _ \<Rightarrow> None)"

definition metric_number :: "log_env \<Rightarrow> dict \<Rightarrow> string \<Rightarrow> dict \<Rightarrow> dict res" where
  "metric_number L parsed key metric =
     (let v = dict_get parsed key in
      if \<not> is_number v then Inr metric
      else rbind (le_float L v) (\<lambda>f. Inr (if is_finite f then dict_set key v metric else metric)))"

definition metric_progress :: "string \<Rightarrow> dict \<Rightarrow> dict res" where
  "metric_progress text metric =
     (case rev (progress_matches (takeWhile (\<lambda>c. c \<noteq> CHR ''{'') text)) of
        [] \<Rightarrow> Inr metric
      | (a, b) # _ \<Rightarrow>
          rbind (int_of_digits a) (\<lambda>current. rbind (int_of_digits b) (\<lambda>limit.
            Inr (if 0 \<le> current \<and> current \<le> limit
                 then dict_set ''total_steps'' (JInt limit) (dict_set ''step'' (JInt current) metric) else metric))))"

definition metric_event :: "log_env \<Rightarrow> string \<Rightarrow> string \<Rightarrow> dict \<Rightarrow> dict option res" where
  "metric_event L fmt text parsed =
     (let steps = fold (\<lambda>k m. if nonneg_int (dict_get parsed k) then dict_set k (dict_get parsed k) m else m)
                    [''step'', ''total_steps''] [] in
      rbind (rfold (metric_number L parsed) [''epoch'', ''loss'', ''learning_rate'', ''grad_norm''] steps) (\<lambda>metric.
      rbind (if fmt = ''transformers'' \<and> map_of metric ''step'' = None then metric_progress text metric else Inr metric) (\<lambda>metric.
        Inr (if metric = [] then None else Some (dict_merge [(''kind'', JStr ''metric'')] metric)))))"

definition EVENT_PREFIX :: string where "EVENT_PREFIX = ''DATAPILOT_EVENT ''"

definition event_text :: "string \<Rightarrow> string" where
  "event_text line = (let c = strip_text line in if prefix EVENT_PREFIX c then drop (length EVENT_PREFIX) c else c)"

definition parse_event :: "log_env \<Rightarrow> string \<Rightarrow> string \<Rightarrow> dict option res" where
  "parse_event L line fmt =
     (if fmt = ''plain'' then Inr None
      else
        let text = event_text line; transformers = (fmt = ''transformers'') in
        rbind (first_dict L transformers
                 (text # (if transformers then filter (\<lambda>m. m \<noteq> text) (brace_matches text) else []))) (\<lambda>found.
          case found of
            None \<Rightarrow> Inr None
          | Some parsed \<Rightarrow>
              (if dict_get parsed ''contract'' = JStr ''datapilot_training_event_v1'' then
                 (if dict_get parsed ''type'' = JStr ''checkpoint'' then Inr (checkpoint_event parsed)
                  else if dict_get parsed ''type'' \<noteq> JStr ''metric'' then Inr None
                  else metric_event L fmt text parsed)
               else metric_event L fmt text parsed)))"

section \<open>Collecting a batch\<close>

definition checkpoint_exists :: "log_env \<Rightarrow> ledger_run \<Rightarrow> dict \<Rightarrow> bool" where
  "checkpoint_exists L run event =
     (case (dict_get event ''relative_path'', w_output_directory run) of
        (JStr rel, Some output) \<Rightarrow> le_checkpoint_ok L output rel
      | _ \<Rightarrow> False)"

text \<open>One raw line: its public text and its event.\<close>

definition rstrip_newline :: "string \<Rightarrow> string" where
  "rstrip_newline s = rev (dropWhile (\<lambda>c. c = CR \<or> c = NL) (rev s))"

definition raw_text :: "ledger_run \<Rightarrow> string \<Rightarrow> string" where
  "raw_text run line = redact (w_redactions run) (utf8_decode (take MAX_LOG_LINE_BYTES (rstrip_newline line)))"

definition log_record :: "log_env \<Rightarrow> ledger_run \<Rightarrow> string \<Rightarrow> (string \<times> dict option) res" where
  "log_record L run line =
     rbind (parse_event L (raw_text run line) (text_or (Some (w_monitoring_format run)) ''plain'')) (\<lambda>event.
       Inr (normalise_terminal_record (raw_text run line),
            case event of None \<Rightarrow> None
            | Some e \<Rightarrow> (if dict_get e ''kind'' \<noteq> JStr ''checkpoint'' \<or> checkpoint_exists L run e then Some e else None)))"

text \<open>\<open>message[:n]\<close> again and again, counted in code points.\<close>

lemma py_take_pos: "s \<noteq> [] \<Longrightarrow> 0 < length (py_take (Suc n) s)"
  by (cases s) simp_all

function log_chunks :: "string \<Rightarrow> string list" where
  "log_chunks message =
     (if message = [] then []
      else py_take MAX_LOG_LINE_BYTES message # log_chunks (drop (length (py_take MAX_LOG_LINE_BYTES message)) message))"
  by pat_completeness auto
termination
  by (relation "measure length") (use py_take_pos[of _ 16383] in \<open>auto simp: MAX_LOG_LINE_BYTES_def diff_less\<close>)

declare log_chunks.simps [simp del]

definition log_update :: "ledger_run \<Rightarrow> string \<Rightarrow> dict" where
  "log_update run chunk = [(''kind'', JStr ''log''), (''stage_ref'', opt_json (w_stage_ref run)),
     (''level'', JStr ''info''), (''message'', JStr chunk)]"

text \<open>The public text of a batch, and the updates the batch becomes.\<close>

definition public_text :: "(string \<times> dict option) list \<Rightarrow> string" where
  "public_text records = join_with [NL] (filter (\<lambda>t. t \<noteq> []) (map fst records))"

definition batch_updates :: "ledger_run \<Rightarrow> (string \<times> dict option) list \<Rightarrow> dict list" where
  "batch_updates run records =
     map (log_update run) (log_chunks (public_text records)) @
     map (dict_set ''stage_ref'' (opt_json (w_stage_ref run))) (List.map_filter snd records)"

text \<open>The offset a collection reads from.\<close>

definition log_start :: "ledger_run \<Rightarrow> string \<Rightarrow> nat" where
  "log_start run content = (if int (length content) < w_log_offset run then 0 else nat (w_log_offset run))"

definition collect_log :: "log_env \<Rightarrow> (string \<Rightarrow> string option) \<Rightarrow> ledger_run \<Rightarrow> int \<Rightarrow> ledger \<Rightarrow> ledger res" where
  "collect_log L files run now l =
     (case Option.bind (w_stdout_path run) files of
        None \<Rightarrow> Inr l
      | Some content \<Rightarrow>
          (let offset = log_start run content;
               lines = read_lines MAX_LOG_BATCH_LINES 0 (drop offset content) in
           if lines = [] then Inr l
           else rbind (rmap (log_record L run) lines) (\<lambda>records.
             if list_all (\<lambda>r. fst r = []) records then Inr l
             else rbind (update_log_offset (w_run_ref run) (int (offset + length (concat lines))) now l)
               (rfold (\<lambda>u. queue_update run u now) (batch_updates run records)))))"

end
