(* ===== verification/Log_Properties.thy ===== *)
theory Log_Properties
  imports Worker_Logs
begin

text \<open>
  What the log collector of the Worker guarantees: the bytes it reads, the text it decodes,
  the updates it queues, which of them the centre accepts, and when it makes no progress.
\<close>

section \<open>Reading\<close>

lemma readline_prefix: "readline n s = take (length (readline n s)) s"
  by (induction n s rule: readline.induct) auto

lemma readline_bound: "length (readline n s) \<le> n"
  by (induction n s rule: readline.induct) auto

lemma readline_Nil [simp]: "readline n s = [] \<longleftrightarrow> n = 0 \<or> s = []"
  by (induction n s rule: readline.induct) auto

lemma read_lines_prefix: "concat (read_lines k batch s) = take (length (concat (read_lines k batch s))) s"
proof (induction k batch s rule: read_lines.induct)
  case (2 k batch s)
  let ?line = "readline (min (MAX_LOG_LINE_BYTES + 1) (MAX_LOG_BATCH_BYTES - batch)) s"
  show ?case
  proof (cases "MAX_LOG_BATCH_BYTES \<le> batch \<or> ?line = []")
    case False
    then have "concat (read_lines k (batch + length ?line) (drop (length ?line) s)) =
        take (length (concat (read_lines k (batch + length ?line) (drop (length ?line) s)))) (drop (length ?line) s)"
      using 2 by simp
    moreover have "take (length ?line + n) s = ?line @ take n (drop (length ?line) s)" for n
      using readline_prefix[of _ s] by (metis take_add)
    ultimately show ?thesis using False by (simp add: Let_def)
  qed (auto simp: Let_def)
qed simp

lemma read_lines_bound: "batch \<le> MAX_LOG_BATCH_BYTES \<Longrightarrow> batch + length (concat (read_lines k batch s)) \<le> MAX_LOG_BATCH_BYTES"
proof (induction k batch s rule: read_lines.induct)
  case (2 k batch s)
  let ?line = "readline (min (MAX_LOG_LINE_BYTES + 1) (MAX_LOG_BATCH_BYTES - batch)) s"
  have "length ?line \<le> MAX_LOG_BATCH_BYTES - batch" by (rule order.trans[OF readline_bound]) simp
  then have "batch + length ?line \<le> MAX_LOG_BATCH_BYTES" using 2(2) by linarith
  then show ?case using 2 by (auto simp: Let_def add.assoc[symmetric] simp del: readline_Nil)
qed simp

section \<open>Decoding\<close>

text \<open>A code point: a lead byte and exactly the continuation bytes it asks for.\<close>

definition code_point :: "string \<Rightarrow> bool" where
  "code_point p \<longleftrightarrow> p \<noteq> [] \<and> utf8_unit p = (True, length p)"

lemma count_cont_iff: "count_cont n ds = n \<longleftrightarrow> n \<le> length ds \<and> (\<forall>c \<in> set (take n ds). is_cont c)"
proof (induction ds arbitrary: n)
  case (Cons d ds)
  then show ?case by (cases n) auto
qed auto

lemma count_cont_append: "count_cont n ds = n \<Longrightarrow> count_cont n (ds @ rest) = n"
  by (simp add: count_cont_iff)

lemma count_cont_take: "count_cont n ds = n \<Longrightarrow> count_cont n (take n ds) = n \<and> length (take n ds) = n"
  by (simp add: count_cont_iff)

lemma count_cont_all: "count_cont n ds = n \<Longrightarrow> \<forall>c \<in> set (take n ds). is_cont c"
  by (simp add: count_cont_iff)

lemma utf8_unit_append:
  assumes "code_point p"
  shows "utf8_unit (p @ rest) = (True, length p)"
proof -
  from assms obtain c cs n lo hi where p: "p = c # cs" and lead: "utf8_lead c = Some (n, lo, hi)"
    by (cases p) (auto simp: code_point_def utf8_unit_def split: option.splits)
  show ?thesis
  proof (cases "n = 0")
    case True
    then show ?thesis using assms p lead by (simp add: code_point_def utf8_unit_def)
  next
    case False
    then obtain d ds where cs: "cs = d # ds" "lo \<le> (of_char d :: nat)" "(of_char d :: nat) \<le> hi" "count_cont (n - 1) ds = n - 1"
      using assms p lead by (auto simp: code_point_def utf8_unit_def Let_def split: list.splits if_splits)
    then show ?thesis using assms p lead False count_cont_append[OF cs(4)]
      by (simp add: code_point_def utf8_unit_def Let_def)
  qed
qed

lemma utf8_unit_take:
  assumes "s \<noteq> []" "utf8_unit s = (True, n)"
  shows "code_point (take n s) \<and> length (take n s) = n"
proof -
  from assms obtain c cs k lo hi where s: "s = c # cs" and lead: "utf8_lead c = Some (k, lo, hi)"
    by (cases s) (auto simp: utf8_unit_def split: option.splits)
  show ?thesis
  proof (cases "k = 0")
    case True
    then show ?thesis using assms s lead by (auto simp: code_point_def utf8_unit_def)
  next
    case False
    then obtain d ds where cs: "cs = d # ds" "lo \<le> (of_char d :: nat)" "(of_char d :: nat) \<le> hi" "count_cont (k - 1) ds = k - 1" "n = k + 1"
      using assms(2) s lead by (auto simp: utf8_unit_def Let_def split: list.splits if_splits)
    then have "take n s = c # d # take (k - 1) ds" using s False by (simp add: take_Cons')
    then show ?thesis using cs lead False count_cont_take[OF cs(4)]
      by (simp add: code_point_def utf8_unit_def Let_def)
  qed
qed

lemma code_point_REPLACEMENT: "code_point REPLACEMENT"
  by (simp add: code_point_def REPLACEMENT_def utf8_unit_def utf8_lead_def is_cont_def Let_def)

lemma code_point_bytes:
  assumes "code_point p"
  obtains c cs where "p = c # cs" "\<not> is_cont c" "\<forall>d \<in> set cs. is_cont d" "length cs \<le> 3"
proof -
  from assms obtain c cs n lo hi where p: "p = c # cs" and lead: "utf8_lead c = Some (n, lo, hi)"
    by (cases p) (auto simp: code_point_def utf8_unit_def split: option.splits)
  have lh: "128 \<le> lo" "hi < 192" "n \<le> 3" "\<not> is_cont c"
    using lead by (auto simp: utf8_lead_def Let_def is_cont_def split: if_splits)
  show ?thesis
  proof (cases "n = 0")
    case True
    then show ?thesis using assms p lead lh that by (auto simp: code_point_def utf8_unit_def)
  next
    case False
    then obtain d ds where cs: "cs = d # ds" "lo \<le> (of_char d :: nat)" "(of_char d :: nat) \<le> hi" "count_cont (n - 1) ds = n - 1"
      "length ds = n - 1"
      using assms p lead by (auto simp: code_point_def utf8_unit_def Let_def split: list.splits if_splits)
    then have "\<forall>c \<in> set ds. is_cont c" using count_cont_all[OF cs(4)] by simp
    then show ?thesis using that[of c cs] p lh cs by (simp add: is_cont_def)
  qed
qed

lemma utf8_decode_code_points: "\<exists>ps. utf8_decode s = concat ps \<and> (\<forall>p \<in> set ps. code_point p)"
proof (induction s rule: utf8_decode.induct)
  case (2 c cs)
  then obtain ps where ps: "utf8_decode (drop (snd (utf8_unit (c # cs))) (c # cs)) = concat ps" "\<forall>p \<in> set ps. code_point p"
    by blast
  let ?p = "if fst (utf8_unit (c # cs)) then take (snd (utf8_unit (c # cs))) (c # cs) else REPLACEMENT"
  have "code_point ?p"
    using utf8_unit_take[of "c # cs" "snd (utf8_unit (c # cs))"] code_point_REPLACEMENT
    by (cases "fst (utf8_unit (c # cs))") (simp_all add: prod_eq_iff)
  then show ?case using ps by (intro exI[of _ "?p # ps"]) simp
qed (intro exI[of _ "[]"], simp)

lemma utf8_decode_concat: "\<forall>p \<in> set ps. code_point p \<Longrightarrow> utf8_decode (concat ps) = concat ps"
proof (induction ps)
  case (Cons p ps)
  then obtain c cs where p: "p = c # cs" by (cases p) (auto simp: code_point_def)
  have "utf8_unit (p @ concat ps) = (True, length p)" using Cons.prems by (intro utf8_unit_append) simp
  then show ?case using Cons p by simp
qed simp

section \<open>Chunks\<close>

lemma py_take_prefix: "py_take n s @ drop (length (py_take n s)) s = s"
  by (induction n s rule: py_take.induct) (auto split: nat.splits)

lemma py_take_len: "py_len (py_take n s) \<le> n"
  by (induction n s rule: py_take.induct) (auto simp: py_len_def split: nat.splits)

lemma log_chunks_Nil [simp]: "log_chunks [] = []"
  by (simp add: log_chunks.simps[of "[]"])

lemma concat_log_chunks: "concat (log_chunks m) = m"
proof (induction m rule: log_chunks.induct)
  case (1 m)
  then show ?case using py_take_prefix[of MAX_LOG_LINE_BYTES m] by (cases "m = []") (simp_all add: log_chunks.simps[of m])
qed

lemma log_chunks_bound: "c \<in> set (log_chunks m) \<Longrightarrow> c \<noteq> [] \<and> py_len c \<le> 16384"
proof (induction m rule: log_chunks.induct)
  case (1 m)
  then show ?case using py_take_len[of MAX_LOG_LINE_BYTES m] py_take_pos[of m 16383]
    by (cases "m = []") (auto simp: log_chunks.simps[of m] MAX_LOG_LINE_BYTES_def)
qed

lemma log_chunks_subset: "c \<in> set (log_chunks m) \<Longrightarrow> set c \<subseteq> set m"
  using concat_log_chunks[of m] by (metis UN_upper set_concat)

definition ascii :: "string \<Rightarrow> bool" where
  "ascii s \<longleftrightarrow> (\<forall>c \<in> set s. (of_char c :: nat) < 128)"

lemma py_len_ascii: "ascii s \<Longrightarrow> py_len s = length s"
  unfolding py_len_def ascii_def by (subst filter_True) (auto simp: is_cont_def)

lemma py_take_conts: "\<forall>d \<in> set cs. is_cont d \<Longrightarrow> py_take n (cs @ s) = cs @ py_take n s"
  by (induction cs) auto

lemma py_take_0: "py_take 0 (concat ps) = []" if "\<forall>p \<in> set ps. code_point p"
proof (cases ps)
  case (Cons p ps')
  with that have "code_point p" by simp
  then show ?thesis by (rule code_point_bytes) (simp add: Cons)
qed simp

lemma py_take_code_points: "\<forall>p \<in> set ps. code_point p \<Longrightarrow> py_take n (concat ps) = concat (take n ps)"
proof (induction ps arbitrary: n)
  case (Cons p ps)
  from Cons.prems have "code_point p" by simp
  then obtain c cs where p: "p = c # cs" "\<not> is_cont c" "\<forall>d \<in> set cs. is_cont d" by (rule code_point_bytes)
  show ?case
  proof (cases n)
    case 0
    then show ?thesis using py_take_0[OF Cons.prems] by simp
  next
    case (Suc m)
    then show ?thesis using Cons p by (simp add: py_take_conts)
  qed
qed simp

lemma sum_list_lower: "\<forall>p \<in> set ps. k \<le> length p \<Longrightarrow> k * length ps \<le> length (concat ps)"
  by (induction ps) auto

text \<open>A text of more than 8192 code points of two bytes or more has a first chunk that is too large.\<close>

lemma wide_chunk:
  assumes "\<forall>p \<in> set ps. code_point p \<and> 2 \<le> length p" "8192 < length ps"
  shows "\<exists>c cs. log_chunks (concat ps) = c # cs \<and> 16384 < length c"
proof -
  have "2 * length (take 16384 ps) \<le> length (concat (take 16384 ps))"
    using assms(1) by (intro sum_list_lower) (auto dest: in_set_takeD)
  then have "16384 < length (concat (take 16384 ps))" using assms(2) by simp
  moreover have "py_take MAX_LOG_LINE_BYTES (concat ps) = concat (take 16384 ps)"
    using assms(1) by (simp add: py_take_code_points MAX_LOG_LINE_BYTES_def)
  moreover have "concat ps \<noteq> []" using calculation(1) by (metis concat.simps(1) concat_eq_Nil_conv in_set_takeD less_nat_zero_code list.size(3))
  ultimately show ?thesis by (simp add: log_chunks.simps[of "concat ps"])
qed

section \<open>What the centre says to a collected update\<close>

definition stage_ok :: "ledger_run \<Rightarrow> bool" where
  "stage_ok run \<longleftrightarrow> (case w_stage_ref run of None \<Rightarrow> True | Some s \<Rightarrow> api_safe_ref s)"

lemma opt_json_stage: "stage_ok run \<Longrightarrow> opt_json (w_stage_ref run) \<noteq> JNull \<Longrightarrow>
    is_text (opt_json (w_stage_ref run)) \<and> api_safe_ref (text_of (opt_json (w_stage_ref run)))"
  by (auto simp: stage_ok_def opt_json_def split: option.splits)

lemma validate_known_kind:
  assumes "stage_ok run" "dict_get u ''stage_ref'' = opt_json (w_stage_ref run)" "dict_get u ''kind'' = JStr k" "k \<in> set UPDATE_KINDS"
  shows "validate_update E u = (if k = ''log'' then validate_log u else if k = ''metric'' then validate_metric E u
    else if k = ''checkpoint'' then validate_checkpoint u else Inr ())"
proof -
  have "\<not> (dict_get u ''stage_ref'' \<noteq> JNull \<and>
      \<not> (is_text (dict_get u ''stage_ref'') \<and> api_safe_ref (text_of (dict_get u ''stage_ref''))))"
    using opt_json_stage[OF assms(1)] assms(2) by auto
  then show ?thesis
    unfolding validate_update_def update_kind_error_def assms(3) json.case raise_if_def using assms(4)
    by (simp only: if_False if_True rbind_simps option.case json.inject)
qed

lemma log_update_accepted:
  assumes "stage_ok run"
  shows "validate_update E (log_update run c) = Inr () \<longleftrightarrow> length c \<le> 16384"
proof -
  have "dict_get (log_update run c) ''kind'' = JStr ''log''" "dict_get (log_update run c) ''stage_ref'' = opt_json (w_stage_ref run)"
    "dict_get (log_update run c) ''message'' = JStr c" "dict_get (log_update run c) ''lines'' = JNull"
    by (simp_all add: log_update_def dict_get_def)
  then show ?thesis using validate_known_kind[OF assms, where u = "log_update run c" and k = "''log''" and E = E]
    by (auto simp: UPDATE_KINDS_def validate_log_def log_messages_def rbind_eq_Inr)
qed

section \<open>Events\<close>

lemma dict_set_keys: "fst ` set (dict_set k v d) = insert k (fst ` set d)"
  by (induction k v d rule: dict_set.induct) auto

lemma dict_set_distinct: "distinct (map fst d) \<Longrightarrow> distinct (map fst (dict_set k v d))"
  by (induction k v d rule: dict_set.induct) (auto simp flip: image_set simp: dict_set_keys)

definition METRIC_FLOATS :: "string list" where
  "METRIC_FLOATS = [''epoch'', ''loss'', ''learning_rate'', ''grad_norm'']"

definition METRIC_STEPS :: "string list" where
  "METRIC_STEPS = [''step'', ''total_steps'']"

text \<open>The fields of a metric event: counters and finite numbers under the known keys, each once.\<close>

definition metric_fields :: "log_env \<Rightarrow> dict \<Rightarrow> bool" where
  "metric_fields L m \<longleftrightarrow> distinct (map fst m) \<and> fst ` set m \<subseteq> set METRIC_STEPS \<union> set METRIC_FLOATS \<and>
     (\<forall>k \<in> set METRIC_STEPS. dict_get m k = JNull \<or> nonneg_int (dict_get m k)) \<and>
     (\<forall>k \<in> set METRIC_FLOATS. dict_get m k = JNull \<or>
        is_number (dict_get m k) \<and> (\<exists>f. le_float L (dict_get m k) = Inr f \<and> is_finite f))"

lemma metric_fields_Nil: "metric_fields L []"
  by (simp add: metric_fields_def dict_get_def)

lemma metric_fields_step:
  "metric_fields L m \<Longrightarrow> k \<in> set METRIC_STEPS \<Longrightarrow> nonneg_int v \<Longrightarrow> metric_fields L (dict_set k v m)"
  unfolding metric_fields_def
  by (auto simp: dict_get_set dict_set_keys dict_set_distinct) (auto simp: METRIC_STEPS_def METRIC_FLOATS_def)

lemma metric_fields_float:
  "metric_fields L m \<Longrightarrow> k \<in> set METRIC_FLOATS \<Longrightarrow> is_number v \<Longrightarrow> le_float L v = Inr f \<Longrightarrow> is_finite f \<Longrightarrow>
   metric_fields L (dict_set k v m)"
  unfolding metric_fields_def
  by (auto simp: dict_get_set dict_set_keys dict_set_distinct) (auto simp: METRIC_STEPS_def METRIC_FLOATS_def)

lemma metric_numbers_fields:
  "rfold (metric_number L parsed) ks m = Inr m' \<Longrightarrow> set ks \<subseteq> set METRIC_FLOATS \<Longrightarrow> metric_fields L m \<Longrightarrow> metric_fields L m'"
proof (induction ks arbitrary: m)
  case (Cons k ks)
  then obtain m1 where m1: "metric_number L parsed k m = Inr m1" "rfold (metric_number L parsed) ks m1 = Inr m'"
    by (auto simp: rbind_eq_Inr)
  have "metric_fields L m1"
    using m1(1) Cons.prems by (auto simp: metric_number_def Let_def rbind_eq_Inr intro: metric_fields_float split: if_split_asm)
  then show ?case using Cons m1(2) by simp
qed simp

lemma metric_event_fields:
  assumes "metric_event L fmt text parsed = Inr (Some e)"
  shows "\<exists>m. metric_fields L m \<and> e = (''kind'', JStr ''metric'') # m"
proof -
  let ?f = "\<lambda>k m. if nonneg_int (dict_get parsed k) then dict_set k (dict_get parsed k) m else m"
  have s: "metric_fields L (fold ?f ks m)" if "metric_fields L m" "set ks \<subseteq> set METRIC_STEPS" for ks m
    using that by (induction ks arbitrary: m) (auto intro: metric_fields_step)
  have s0: "metric_fields L (fold ?f METRIC_STEPS [])" by (rule s[OF metric_fields_Nil]) simp
  from assms obtain m1 m where m1: "rfold (metric_number L parsed) METRIC_FLOATS (fold ?f METRIC_STEPS []) = Inr m1"
    and m: "(if fmt = ''transformers'' \<and> map_of m1 ''step'' = None then metric_progress text m1 else Inr m1) = Inr m"
    and e: "(if m = [] then None else Some (dict_merge [(''kind'', JStr ''metric'')] m)) = Some e"
    by (auto simp: metric_event_def Let_def rbind_eq_Inr METRIC_FLOATS_def METRIC_STEPS_def)
  have "metric_fields L m1" by (rule metric_numbers_fields[OF m1 _ s0]) simp
  moreover have "metric_fields L m2" if "metric_progress text m1 = Inr m2" "metric_fields L m1" for m2
    using that by (auto simp: metric_progress_def rbind_eq_Inr int_of_digits_def METRIC_STEPS_def
        intro!: metric_fields_step split: list.splits prod.splits if_split_asm)
  ultimately have f: "metric_fields L m" using m by (simp split: if_split_asm)
  then have "dict_merge [(''kind'', JStr ''metric'')] m = [(''kind'', JStr ''metric'')] @ m"
    by (intro dict_merge_disjoint) (auto simp: metric_fields_def METRIC_STEPS_def METRIC_FLOATS_def)
  then show ?thesis using f e by (auto split: if_split_asm)
qed

lemma parse_event_cases:
  assumes "parse_event L line fmt = Inr (Some e)"
  obtains (checkpoint) parsed where "checkpoint_event parsed = Some e"
  | (metric) m where "metric_fields L m" "e = (''kind'', JStr ''metric'') # m"
proof -
  from assms obtain parsed where "checkpoint_event parsed = Some e \<or> metric_event L fmt (event_text line) parsed = Inr (Some e)"
    by (auto simp: parse_event_def Let_def rbind_eq_Inr split: if_split_asm option.splits)
  then show ?thesis using metric_event_fields checkpoint metric by blast
qed

section \<open>Every collected update, and the validators\<close>

lemma checkpoint_event_shape:
  assumes "checkpoint_event parsed = Some e"
  obtains p x where "e = [(''kind'', JStr ''checkpoint''), (''relative_path'', JStr p)] @ x" "x = [] \<or> (\<exists>v. x = [(''step'', v)] \<and> nonneg_int v)"
  using assms unfolding checkpoint_event_def
  by (auto split: json.splits if_split_asm)

lemma collected_update_cases:
  assumes "rmap (log_record L run) lines = Inr records" "u \<in> set (batch_updates run records)"
  obtains (log) c where "u = log_update run c" "c \<in> set (log_chunks (public_text records))"
  | (checkpoint) parsed e where "checkpoint_event parsed = Some e" "u = dict_set ''stage_ref'' (opt_json (w_stage_ref run)) e"
  | (metric) m where "metric_fields L m" "u = (''kind'', JStr ''metric'') # dict_set ''stage_ref'' (opt_json (w_stage_ref run)) m"
proof -
  have parsed: "\<exists>line fmt. parse_event L line fmt = Inr (Some e)" if "e \<in> set (List.map_filter snd records)" for e
  proof -
    have "\<exists>line fmt. parse_event L line fmt = Inr (Some e)"
      if "rmap (log_record L run) ls = Inr rs" "(t, Some e) \<in> set rs" for ls rs t
      using that
    proof (induction ls arbitrary: rs)
      case (Cons l ls)
      then obtain r rs' where r: "log_record L run l = Inr r" "rmap (log_record L run) ls = Inr rs'" "rs = r # rs'"
        by (auto simp: rbind_eq_Inr)
      show ?case
      proof (cases "r = (t, Some e)")
        case True
        then show ?thesis using r(1) by (auto simp: log_record_def rbind_eq_Inr split: option.splits if_split_asm)
      next
        case False
        then show ?thesis using Cons r by auto
      qed
    qed simp
    moreover from that obtain t where "(t, Some e) \<in> set records" by (auto simp: List.map_filter_def)
    ultimately show ?thesis using assms(1) by blast
  qed
  from assms(2) consider c where "u = log_update run c" "c \<in> set (log_chunks (public_text records))"
    | e where "e \<in> set (List.map_filter snd records)" "u = dict_set ''stage_ref'' (opt_json (w_stage_ref run)) e"
    unfolding batch_updates_def by auto
  then show ?thesis
  proof cases
    case (2 e)
    from parsed[OF 2(1)] obtain line fmt where "parse_event L line fmt = Inr (Some e)" by blast
    then show ?thesis by (cases rule: parse_event_cases) (use 2(2) checkpoint metric in auto)
  qed (rule log)
qed

lemma finite_or_none_Inr: "finite_or_none E e v = Inr () \<longleftrightarrow> v = JNull \<or> is_number v \<and> (\<exists>f. float_of E v = Inr f \<and> is_finite f)"
  by (auto simp: finite_or_none_def rbind_eq_Inr)

lemma nonneg_is_number: "nonneg_int v \<Longrightarrow> is_number v"
  by (cases v) auto

text \<open>What the route asks of an update the collector built.\<close>

definition deliverable :: "env \<Rightarrow> dict \<Rightarrow> bool" where
  "deliverable E u \<longleftrightarrow>
     (if dict_get u ''kind'' = JStr ''log'' then length (text_of (dict_get u ''message'')) \<le> 16384
      else if dict_get u ''kind'' = JStr ''checkpoint'' then py_len (text_of (dict_get u ''relative_path'')) \<le> 1024
      else \<forall>k \<in> set METRIC_STEPS. dict_get u k = JNull \<or> (\<exists>f. float_of E (dict_get u k) = Inr f \<and> is_finite f))"

lemma metric_update_accepted:
  assumes "metric_fields L m" "le_float L = float_of E" "stage_ok run"
    and u: "u = (''kind'', JStr ''metric'') # dict_set ''stage_ref'' (opt_json (w_stage_ref run)) m"
  shows "validate_update E u = Inr () \<longleftrightarrow> deliverable E u"
proof -
  have kind: "dict_get u ''kind'' = JStr ''metric''" and stage: "dict_get u ''stage_ref'' = opt_json (w_stage_ref run)"
    by (simp_all add: u dict_get_def dict_get_set[unfolded dict_get_def])
  have get: "dict_get u k = dict_get m k" if "k \<noteq> ''kind''" "k \<noteq> ''stage_ref''" for k
    using that by (simp_all add: u dict_get_def dict_get_set[unfolded dict_get_def])
  have "map_of u k = None" if "k \<notin> {''kind'', ''stage_ref''} \<union> set METRIC_STEPS \<union> set METRIC_FLOATS" for k
    using that assms(1) unfolding u map_of_eq_None_iff metric_fields_def by (simp add: dict_set_keys) blast
  then have absent: "dict_get u ''elapsed_seconds'' = JNull" "dict_get_default u ''gpus'' (JList []) = JList []"
    by (simp_all add: dict_get_def dict_get_default_def METRIC_STEPS_def METRIC_FLOATS_def)
  have steps: "dict_get u k = JNull \<or> nonneg_int (dict_get u k)" if "k \<in> set METRIC_STEPS" for k
    using that assms(1) get[of k] by (auto simp: metric_fields_def METRIC_STEPS_def)
  have floats: "finite_or_none E e (dict_get u k) = Inr ()" if "k \<in> set METRIC_FLOATS" for k e
    using that assms(1,2) get[of k] by (auto simp: metric_fields_def METRIC_FLOATS_def finite_or_none_Inr)
  have stepf: "finite_or_none E e (dict_get u k) = Inr () \<longleftrightarrow> dict_get u k = JNull \<or> (\<exists>f. float_of E (dict_get u k) = Inr f \<and> is_finite f)"
    if "k \<in> set METRIC_STEPS" for k e
    using steps[OF that] nonneg_is_number by (auto simp: finite_or_none_Inr)
  have "validate_update E u = validate_metric E u"
    using validate_known_kind[OF assms(3) stage kind, where E = E] by (simp add: UPDATE_KINDS_def)
  moreover have "validate_metric E u = Inr () \<longleftrightarrow>
      (\<forall>k \<in> set METRIC_STEPS. dict_get u k = JNull \<or> (\<exists>f. float_of E (dict_get u k) = Inr f \<and> is_finite f))"
    using steps floats stepf absent
    by (simp add: validate_metric_def rbind_eq_Inr rfold_unit METRIC_STEPS_def METRIC_FLOATS_def) (auto simp: finite_or_none_Inr)
  ultimately show ?thesis by (simp add: deliverable_def kind)
qed

lemma plain_set: "plain_payload p \<Longrightarrow> plain_payload (dict_set ''stage_ref'' v p)"
  by (auto simp: plain_payload_def dict_set_keys dict_set_distinct)

lemma plain_metric: "metric_fields L m \<Longrightarrow> plain_payload ((''kind'', JStr ''metric'') # dict_set ''stage_ref'' v m)"
  by (auto simp: plain_payload_def metric_fields_def dict_set_keys dict_set_distinct METRIC_STEPS_def METRIC_FLOATS_def
      simp flip: image_set)

lemma checkpoint_update_accepted:
  assumes "checkpoint_event parsed = Some e" "stage_ok run" and u: "u = dict_set ''stage_ref'' (opt_json (w_stage_ref run)) e"
  shows "validate_update E u = Inr () \<longleftrightarrow> deliverable E u" and "plain_payload u"
proof -
  from assms(1) obtain p x where e: "e = [(''kind'', JStr ''checkpoint''), (''relative_path'', JStr p)] @ x"
    and x: "x = [] \<or> (\<exists>v. x = [(''step'', v)] \<and> nonneg_int v)" by (rule checkpoint_event_shape)
  have get: "dict_get u ''kind'' = JStr ''checkpoint''" "dict_get u ''relative_path'' = JStr p"
    "dict_get u ''stage_ref'' = opt_json (w_stage_ref run)"
    unfolding u dict_get_set e by (simp_all add: dict_get_def)
  then show "validate_update E u = Inr () \<longleftrightarrow> deliverable E u"
    using validate_known_kind[OF assms(2) get(3,1), where E = E]
    by (simp add: UPDATE_KINDS_def validate_checkpoint_def deliverable_def not_less)
  show "plain_payload u" unfolding u using x e by (intro plain_set) (auto simp: plain_payload_def)
qed

lemma plain_log: "plain_payload (log_update run c)"
  by (simp add: plain_payload_def log_update_def)

section \<open>The effect of a collection\<close>

lemma queue_batch:
  assumes "owned ref epoch l" "w_run_ref run = ref" "w_owner_epoch run = epoch" "ref \<noteq> []" "0 \<le> epoch"
  shows "\<exists>l'. rfold (\<lambda>u. queue_update run u now) us l = Inr l' \<and> owned ref epoch l' \<and>
    map snd (ref_pending ref l') = map snd (ref_pending ref l) @ us \<and>
    map_option w_log_offset (get_run ref l') = map_option w_log_offset (get_run ref l)"
  using assms(1)
proof (induction us arbitrary: l)
  case (Cons u us)
  from Cons.prems obtain r where r: "get_run ref l = Some r" and ok: "ledger_ok l" by (auto simp: owned_def)
  obtain n l1 where q: "enqueue_update ref epoch u now l = Inr (n, l1)"
    using enqueue_update_spec[OF ok r assms(4,5)] by blast
  have l1: "worker_runs l1 = sql_update (\<lambda>r. w_run_ref r = ref)
      (\<lambda>q. q\<lparr>w_worker_seq := w_worker_seq r + 1, w_updated_at := now\<rparr>) (worker_runs l)"
    using q enqueue_update_spec[OF ok r assms(4,5), of u now] by auto
  have off: "map_option w_log_offset (get_run ref l1) = map_option w_log_offset (get_run ref l)"
    unfolding get_run_def l1
    by (subst fetchone_key_update[where k = w_run_ref]) (simp_all add: option.map_comp comp_def if_distrib[of w_log_offset] cong: if_cong)
  note e = enqueue_owned[OF Cons.prems q]
  from Cons.IH[OF e(3)] obtain l' where l': "rfold (\<lambda>u. queue_update run u now) us l1 = Inr l'" "owned ref epoch l'"
    "map snd (ref_pending ref l') = map snd (ref_pending ref l1) @ us"
    "map_option w_log_offset (get_run ref l') = map_option w_log_offset (get_run ref l1)" by blast
  have "queue_update run u now l = Inr l1" using q assms(2,3) by (simp add: queue_update_def)
  then show ?case using l' e off by simp
qed simp

lemma collect_log_batch:
  assumes "owned (w_run_ref run) (w_owner_epoch run) l" "get_run (w_run_ref run) l = Some run"
    and "Option.bind (w_stdout_path run) files = Some content"
    and "lines = read_lines MAX_LOG_BATCH_LINES 0 (drop (log_start run content) content)" "lines \<noteq> []"
    and "rmap (log_record L run) lines = Inr records" "\<exists>r \<in> set records. fst r \<noteq> []"
  shows "\<exists>l'. collect_log L files run now l = Inr l' \<and> owned (w_run_ref run) (w_owner_epoch run) l' \<and>
    map snd (ref_pending (w_run_ref run) l') = map snd (ref_pending (w_run_ref run) l) @ batch_updates run records \<and>
    map_option w_log_offset (get_run (w_run_ref run) l') = Some (int (log_start run content + length (concat lines)))"
proof -
  let ?ref = "w_run_ref run" and ?stop = "log_start run content + length (concat lines)"
  from assms(1) have ok: "ledger_ok l" by (simp add: owned_def)
  then have row: "row_ok run" using get_run_Some[OF assms(2)] ledger_okD(2) by blast
  then have ne: "?ref \<noteq> []" "0 \<le> w_owner_epoch run" by (simp_all add: row_ok_def)
  obtain l1 where l1: "update_log_offset ?ref (int ?stop) now l = Inr l1"
    by (simp add: update_log_offset_def)
  have step: "worker_runs l1 = sql_update (\<lambda>r. w_run_ref r = ?ref) (\<lambda>r. r\<lparr>w_log_offset := int ?stop, w_updated_at := now\<rparr>) (worker_runs l)"
    "worker_run_updates l1 = worker_run_updates l"
    using l1 by (auto simp: update_log_offset_def)
  have own1: "owned ?ref (w_owner_epoch run) l1" "ref_pending ?ref l1 = ref_pending ?ref l"
    using other_owned[OF ledger_other.set_offset[OF l1] assms(1)] by auto
  have off1: "map_option w_log_offset (get_run ?ref l1) = Some (int ?stop)"
    using assms(2) unfolding get_run_def step(1)
    by (subst fetchone_key_update[where k = w_run_ref]) simp_all
  from queue_batch[OF own1(1) refl refl ne, of now "batch_updates run records"] obtain l' where
    l': "rfold (\<lambda>u. queue_update run u now) (batch_updates run records) l1 = Inr l'" "owned ?ref (w_owner_epoch run) l'"
      "map snd (ref_pending ?ref l') = map snd (ref_pending ?ref l1) @ batch_updates run records"
      "map_option w_log_offset (get_run ?ref l') = map_option w_log_offset (get_run ?ref l1)" by blast
  have "\<not> list_all (\<lambda>r. fst r = []) records" using assms(7) by (auto simp: list_all_iff)
  then have "collect_log L files run now l = Inr l'"
    using assms(3-6) l1 l'(1) by (simp add: collect_log_def Let_def log_start_def)
  then show ?thesis using l' own1 off1 by simp
qed

section \<open>Blank lines\<close>

lemma readline_NL: "readline (Suc n) (NL # s) = [NL]"
  by simp

lemma read_blank: "batch + k < MAX_LOG_BATCH_BYTES \<Longrightarrow> read_lines k batch (replicate k NL @ s) = replicate k [NL]"
proof (induction k arbitrary: batch)
  case (Suc k)
  have "\<exists>n. min (MAX_LOG_LINE_BYTES + 1) (MAX_LOG_BATCH_BYTES - batch) = Suc n"
    using Suc.prems by (intro exI[of _ "min (MAX_LOG_LINE_BYTES + 1) (MAX_LOG_BATCH_BYTES - batch) - 1"]) simp
  then obtain n where n: "min (MAX_LOG_LINE_BYTES + 1) (MAX_LOG_BATCH_BYTES - batch) = Suc n" by blast
  show ?case using Suc.IH[of "Suc batch"] Suc.prems unfolding read_lines.simps n by (simp add: Let_def)
qed simp

lemma redact_Nil: "redact secrets [] = []"
proof -
  have "fold (\<lambda>x t. if x \<noteq> [] then str_replace x ''********'' t else t) secrets [] = []"
    by (induction secrets) auto
  then show ?thesis by (simp add: redact_def)
qed

lemma raw_text_blank: "raw_text run [NL] = []"
  by (simp add: raw_text_def rstrip_newline_def redact_Nil)

lemma strip_text_Nil: "strip_text [] = []"
  by (simp add: strip_text_def lstrip_by.simps)

lemma parse_event_blank:
  assumes "le_json L [] = Inl (ValueError ''JSONDecodeError'')" "le_literal L [] = Inl (ValueError msg)"
  shows "parse_event L [] fmt = Inr None"
  using assms by (simp add: parse_event_def event_text_def strip_text_Nil EVENT_PREFIX_def is_decode_error_def is_value_error_def Let_def)

lemma rmap_replicate: "f x = Inr y \<Longrightarrow> rmap f (replicate n x) = Inr (replicate n y)"
  by (induction n) simp_all

section \<open>Properties\<close>



definition ex_log_run :: ledger_run where
  "ex_log_run = (ex_row ''running'' (Some 5) 0)\<lparr>w_stdout_path := Some ''log''\<rparr>"

definition ex_log_ledger :: ledger where
  "ex_log_ledger = \<lparr>worker_runs = [ex_log_run], worker_run_updates = []\<rparr>"

definition ex_log_env :: log_env where
  "ex_log_env = \<lparr>le_json = (\<lambda>s. Inl (ValueError ''JSONDecodeError'')), le_literal = (\<lambda>s. Inl (ValueError ''SyntaxError'')),
     le_float = Inr, le_checkpoint_ok = (\<lambda>_ _. False)\<rparr>"

definition ex_log_file :: string where
  "ex_log_file = ''ab'' @ [NL] @ ''c'' @ [CR] @ ''d'' @ [NL]"

lemma ex_log_owned: "owned (w_run_ref ex_log_run) (w_owner_epoch ex_log_run) ex_log_ledger"
  "get_run (w_run_ref ex_log_run) ex_log_ledger = Some ex_log_run"
  by (simp_all add: owned_def ledger_ok_def row_ok_def outbox_ok_def get_run_def ref_updates_def ex_log_ledger_def
      ex_log_run_def ex_row_def KNOWN_RUN_STATES_def)


text \<open>
  C24: The centre's route accepts exactly those of the collected updates that keep three
  limits: a log text of at most 16384 bytes, a checkpoint path of at most 1024 code points, and
  step counters that are finite as floats.  Every one of them can be numbered and sent, and a
  log text of ASCII characters always keeps its limit.
\<close>

theorem collected_updates_accepted:
  assumes "rmap (log_record L run) lines = Inr records" "u \<in> set (batch_updates run records)"
    and "stage_ok run" "le_float L = float_of E"
  shows "plain_payload u \<and> (validate_update E u = Inr () \<longleftrightarrow> deliverable E u) \<and>
    (dict_get u ''kind'' = JStr ''log'' \<and> ascii (text_of (dict_get u ''message'')) \<longrightarrow> deliverable E u)"
  using assms(1,2)
proof (cases rule: collected_update_cases)
  case (log c)
  have get: "dict_get u ''kind'' = JStr ''log''" "text_of (dict_get u ''message'') = c"
    by (simp_all add: log(1) log_update_def dict_get_def)
  have "length c \<le> 16384" if "ascii c" using log_chunks_bound[OF log(2)] py_len_ascii[OF that] by simp
  then show ?thesis using plain_log log_update_accepted[OF assms(3), of E c] get by (simp add: deliverable_def log(1))
next
  case (checkpoint parsed e)
  obtain p x where "e = [(''kind'', JStr ''checkpoint''), (''relative_path'', JStr p)] @ x"
    by (rule checkpoint_event_shape[OF checkpoint(1)])
  then have "dict_get u ''kind'' = JStr ''checkpoint''" unfolding checkpoint(2) dict_get_set by (simp add: dict_get_def)
  then show ?thesis using checkpoint_update_accepted(1)[OF checkpoint(1) assms(3) checkpoint(2), of E]
      checkpoint_update_accepted(2)[OF checkpoint(1) assms(3) checkpoint(2)] by simp
next
  case (metric m)
  have "dict_get u ''kind'' = JStr ''metric''" by (simp add: metric(2) dict_get_def)
  then show ?thesis using metric_update_accepted[OF metric(1) assms(4,3) metric(2)] plain_metric[OF metric(1)] metric(2) by simp
qed

theorem collected_updates_accepted_witness:
  "validate_update ex_env (log_update ex_log_run ''ab'') = Inr ()"
proof -
  have records: "rmap (log_record ex_log_env ex_log_run) [''ab'' @ [NL]] = Inr [(''ab'', None)]" by code_simp
  have mem: "log_update ex_log_run ''ab'' \<in> set (batch_updates ex_log_run [(''ab'', None)])" by code_simp
  have "stage_ok ex_log_run" "le_float ex_log_env = float_of ex_env" by (code_simp, simp add: ex_log_env_def ex_env_def)
  note accepted = collected_updates_accepted[OF records mem this]
  have "dict_get (log_update ex_log_run ''ab'') ''kind'' = JStr ''log'' \<and>
      ascii (text_of (dict_get (log_update ex_log_run ''ab'') ''message''))" by code_simp
  with accepted show ?thesis by blast
qed

text \<open>
  A batch whose public text has more than 8192 characters outside ASCII and no others is
  queued as an update the centre's route refuses: the Worker cuts at 16384 code points, the
  route counts bytes.
\<close>

theorem wide_log_refused:
  assumes "public_text records = concat ps"
    and "\<forall>p \<in> set ps. code_point p \<and> 2 \<le> length p" "8192 < length ps" "stage_ok run"
  shows "\<exists>u us. batch_updates run records = u # us \<and> validate_update E u \<noteq> Inr () \<and> plain_payload u"
proof -
  from wide_chunk[OF assms(2,3)] obtain c cs where c: "log_chunks (concat ps) = c # cs" "16384 < length c" by blast
  then show ?thesis using log_update_accepted[OF assms(4), of E c] plain_log by (simp add: batch_updates_def assms(1))
qed

theorem wide_log_refused_witness:
  "\<exists>u us. batch_updates ex_log_run [(concat (replicate 8193 (map char_of [0xE8, 0xAE, 0xAD :: nat])), None)] = u # us \<and>
     validate_update ex_env u \<noteq> Inr () \<and> plain_payload u"
proof -
  let ?p = "map char_of [0xE8, 0xAE, 0xAD :: nat]"
  have "code_point ?p" by code_simp
  moreover have "concat (replicate 8193 ?p) \<noteq> []" by simp
  then have "public_text [(concat (replicate 8193 ?p), None)] = concat (replicate 8193 ?p)"
    by (simp add: public_text_def del: concat_replicate_trivial concat_eq_Nil_conv)
  moreover have "stage_ok ex_log_run" by code_simp
  ultimately show ?thesis by (intro wide_log_refused[where ps = "replicate 8193 ?p"]) simp_all
qed

text \<open>
  Two hundred empty lines stop the collection of a log for good: they are read, nothing of
  them is reported, and because the offset is recorded only when something is, they are read
  again each time, whatever the process writes after them.
\<close>

theorem blank_lines_stall:
  assumes "Option.bind (w_stdout_path run) files = Some (before @ replicate 200 NL @ later)"
    and "w_log_offset run = int (length before)"
    and "le_json L [] = Inl (ValueError ''JSONDecodeError'')" "le_literal L [] = Inl (ValueError msg)"
  shows "collect_log L files run now l = Inr l"
proof -
  have lines: "read_lines MAX_LOG_BATCH_LINES 0 (replicate 200 NL @ later) = replicate 200 [NL]"
    using read_blank[of 0 200 later] by (simp add: MAX_LOG_BATCH_LINES_def MAX_LOG_BATCH_BYTES_def)
  have "log_record L run [NL] = Inr ([], None)"
    using parse_event_blank[OF assms(3,4)] by (simp add: log_record_def raw_text_blank normalise_terminal_record_def after_last_cr_def)
  then have records: "rmap (log_record L run) (replicate 200 [NL]) = Inr (replicate 200 ([], None))" by (rule rmap_replicate)
  have "list_all (\<lambda>r. fst r = []) (replicate 200 ([] :: string, None :: dict option))" by (simp add: list_all_iff)
  moreover have "log_start run (before @ replicate 200 NL @ later) = length before" using assms(2) by (simp add: log_start_def)
  ultimately show ?thesis using assms(1) lines records by (simp add: collect_log_def Let_def)
qed

theorem blank_lines_stall_witness:
  "collect_log ex_log_env (\<lambda>p. Some (replicate 200 NL @ ''Traceback'')) ex_log_run 7 ex_log_ledger = Inr ex_log_ledger"
  by (rule blank_lines_stall[where before = "[]" and later = "''Traceback''" and msg = "''SyntaxError''"])
    (simp_all add: ex_log_run_def ex_row_def ex_log_env_def)

end
