(* ===== verification/Worker_Execution.thy ===== *)
theory Worker_Execution
  imports Worker_Logs "HOL-Library.AList"
begin

text \<open>
  The Worker's monitoring thread (\<open>TrainingExecutionManager\<close> in
  \<open>training_worker/execution.py\<close>): every second it collects the log of each active run,
  looks at the state its supervisor left, queues heartbeats, and sends what is pending; and the
  reconciliation it does once after a restart.

  What the node's operating system answers is a record: the JSON files by path, which
  processes exist, the log files, and the resources the collector samples.
\<close>

record node_os =
  os_json :: "string \<Rightarrow> dict option"
  os_exists :: "string \<Rightarrow> bool"
  os_alive :: "int \<Rightarrow> bool"
  os_log :: "string \<Rightarrow> string option"
  os_resources :: dict

definition SUPERVISOR_CONTRACT :: string where
  "SUPERVISOR_CONTRACT = ''datapilot_training_supervisor_v1''"

text \<open>\<open>isinstance(x, int)\<close>: a boolean is an integer.\<close>

fun as_int :: "json \<Rightarrow> int option" where
  "as_int (JInt i) = Some i"
| "as_int (JBool b) = Some (if b then 1 else 0)"
| "as_int _ = None"

section \<open>The supervisor's state\<close>

text \<open>An update queued for the row as it is now.\<close>

definition queue_latest :: "string \<Rightarrow> (ledger_run \<Rightarrow> dict) \<Rightarrow> int \<Rightarrow> ledger \<Rightarrow> ledger res" where
  "queue_latest ref payload now l =
     (case get_run ref l of
        None \<Rightarrow> Inl AssertionError
      | Some latest \<Rightarrow> queue_update latest (payload latest) now l)"

definition set_and_queue :: "string \<Rightarrow> string \<Rightarrow> (ledger_run \<Rightarrow> dict) \<Rightarrow> int \<Rightarrow> ledger \<Rightarrow> ledger res" where
  "set_and_queue ref state payload now l =
     rbind (update_run_state ref state now l) (queue_latest ref payload now)"

definition supervisor_missing_update :: "bool \<Rightarrow> ledger_run \<Rightarrow> dict" where
  "supervisor_missing_update child_exists latest =
     [(''kind'', JStr ''reconciliation''), (''stage_ref'', opt_json (w_stage_ref latest)),
      (''status'', JStr (if child_exists then ''unresolved'' else ''lost'')), (''reason'', JStr ''supervisor_missing'')]"

fun exit_text :: "json \<Rightarrow> string" where
  "exit_text (JBool b) = (if b then ''True'' else ''False'')"
| "exit_text (JInt i) = int_str i"
| "exit_text _ = []"

definition exited_update :: "json \<Rightarrow> int \<Rightarrow> ledger_run \<Rightarrow> dict" where
  "exited_update exit_code code latest =
     [(''kind'', JStr ''exited''), (''stage_ref'', opt_json (w_stage_ref latest)),
      (''status'', JStr (if code = 0 then ''succeeded'' else ''failed'')), (''exit_code'', exit_code)] @
     (if code = 0 then []
      else [(''failure_code'', JStr ''training_process_exit''),
            (''failure_message'', JStr (''Training process exited with status '' @ exit_text exit_code @ ''.''))])"

definition child_exists :: "node_os \<Rightarrow> dict \<Rightarrow> bool" where
  "child_exists os state = (case as_int (dict_get state ''child_pid'') of None \<Rightarrow> False | Some pid \<Rightarrow> os_alive os pid)"

definition observe_supervisor :: "node_os \<Rightarrow> ledger_run \<Rightarrow> int \<Rightarrow> ledger \<Rightarrow> ledger res" where
  "observe_supervisor os run now l =
     (case Option.bind (w_supervisor_state_path run) (os_json os) of
        None \<Rightarrow> Inr l
      | Some state \<Rightarrow>
          (if dict_get state ''contract'' \<noteq> JStr SUPERVISOR_CONTRACT then Inr l
           else if dict_get state ''status'' \<noteq> JStr ''exited'' then
             (case as_int (dict_get state ''supervisor_pid'') of
                None \<Rightarrow> Inr l
              | Some pid \<Rightarrow>
                  (if os_alive os pid then Inr l
                   else set_and_queue (w_run_ref run) ''unknown'' (supervisor_missing_update (child_exists os state)) now l))
           else
             (case as_int (dict_get state ''exit_code'') of
                None \<Rightarrow> Inr l
              | Some code \<Rightarrow>
                  set_and_queue (w_run_ref run) (if code = 0 then ''succeeded'' else ''failed'')
                    (exited_update (dict_get state ''exit_code'') code) now l)))"

section \<open>Samples of the leased GPUs\<close>

definition finite_number :: "log_env \<Rightarrow> json \<Rightarrow> json option res" where
  "finite_number L v =
     (if \<not> is_number v then Inr None
      else rbind (le_float L v) (\<lambda>f. Inr (if is_finite f then Some f else None)))"

definition optional_field :: "string \<Rightarrow> json option \<Rightarrow> dict" where
  "optional_field k v = (case v of None \<Rightarrow> [] | Some x \<Rightarrow> [(k, x)])"

text \<open>The memory quotient is exact below \<open>2 ^ 53\<close> bytes.\<close>

definition gpu_memory_mib :: "json \<Rightarrow> json option" where
  "gpu_memory_mib v = (case v of JInt i \<Rightarrow> (if 0 \<le> i then Some (JFloat (Fin (rat_of_int i / 1048576))) else None) | _ \<Rightarrow> None)"

definition gpu_sample :: "log_env \<Rightarrow> string list \<Rightarrow> json \<Rightarrow> json list \<Rightarrow> json list res" where
  "gpu_sample L requested v samples =
     (case v of
        JObj d \<Rightarrow>
          (case dict_get d ''uuid'' of
             JStr uuid \<Rightarrow>
               (if uuid \<notin> set requested then Inr samples
                else
                  rbind (finite_number L (dict_get d ''utilization_percent'')) (\<lambda>utilization.
                  rbind (finite_number L (dict_get d ''temperature_celsius'')) (\<lambda>temperature.
                    Inr (samples @ [JObj ([(''uuid'', JStr uuid), (''index'', dict_get d ''index'')] @
                      optional_field ''utilization_percent'' utilization @
                      optional_field ''gpu_memory_mib'' (gpu_memory_mib (dict_get d ''memory_used_bytes'')) @
                      optional_field ''temperature_celsius'' temperature)]))))
           | JList _ \<Rightarrow> Inl TypeError
           | JObj _ \<Rightarrow> Inl TypeError
           | _ \<Rightarrow> Inr samples)
      | _ \<Rightarrow> Inr samples)"

definition gpu_samples :: "log_env \<Rightarrow> dict \<Rightarrow> string list \<Rightarrow> json list res" where
  "gpu_samples L resources requested =
     (case dict_get resources ''gpus'' of
        JList vs \<Rightarrow> rfold (gpu_sample L requested) vs []
      | _ \<Rightarrow> Inr [])"

section \<open>One round of the monitoring thread\<close>

text \<open>The ledger with the time of each run's last heartbeat.\<close>

record monitor =
  mo_ledger :: ledger
  mo_beats :: "(string \<times> rat) list"

definition last_beat :: "string \<Rightarrow> (string \<times> rat) list \<Rightarrow> rat" where
  "last_beat ref beats = (case map_of beats ref of None \<Rightarrow> -10000 | Some t \<Rightarrow> t)"

definition heartbeat_update :: "ledger_run \<Rightarrow> dict" where
  "heartbeat_update run = [(''kind'', JStr ''heartbeat''), (''stage_ref'', opt_json (w_stage_ref run))]"

definition gpu_update :: "ledger_run \<Rightarrow> json list \<Rightarrow> dict" where
  "gpu_update run samples = [(''kind'', JStr ''metric''), (''stage_ref'', opt_json (w_stage_ref run)), (''gpus'', JList samples)]"

definition heartbeat_run :: "log_env \<Rightarrow> node_os \<Rightarrow> rat \<Rightarrow> int \<Rightarrow> string \<Rightarrow> monitor \<Rightarrow> unit res \<times> monitor" where
  "heartbeat_run L os clock now ref m =
     (case get_run ref (mo_ledger m) of
        None \<Rightarrow> (Inr (), m)
      | Some current \<Rightarrow>
          (if w_state current \<notin> {''running'', ''stopping''} \<or> clock - last_beat ref (mo_beats m) < 5 then (Inr (), m)
           else case queue_update current (heartbeat_update current) now (mo_ledger m) of
             Inl e \<Rightarrow> (Inl e, m)
           | Inr l1 \<Rightarrow>
               (case gpu_samples L (os_resources os) (w_gpu_uuids current) of
                  Inl e \<Rightarrow> (Inl e, m\<lparr>mo_ledger := l1\<rparr>)
                | Inr samples \<Rightarrow>
                    (case (if samples = [] then Inr l1 else queue_update current (gpu_update current samples) now l1) of
                       Inl e \<Rightarrow> (Inl e, m\<lparr>mo_ledger := l1\<rparr>)
                     | Inr l2 \<Rightarrow> (Inr (), m\<lparr>mo_ledger := l2, mo_beats := AList.update ref clock (mo_beats m)\<rparr>)))))"

definition tick_run :: "log_env \<Rightarrow> node_os \<Rightarrow> rat \<Rightarrow> int \<Rightarrow> ledger_run \<Rightarrow> monitor \<Rightarrow> unit res \<times> monitor" where
  "tick_run L os clock now run m =
     (case collect_log L (os_log os) run now (mo_ledger m) of
        Inl e \<Rightarrow> (Inl e, m)
      | Inr l1 \<Rightarrow>
          (case observe_supervisor os run now l1 of
             Inl e \<Rightarrow> (Inl e, m\<lparr>mo_ledger := l1\<rparr>)
           | Inr l2 \<Rightarrow> heartbeat_run L os clock now (w_run_ref run) (m\<lparr>mo_ledger := l2\<rparr>)))"

fun tick_runs :: "log_env \<Rightarrow> node_os \<Rightarrow> rat \<Rightarrow> int \<Rightarrow> ledger_run list \<Rightarrow> monitor \<Rightarrow> unit res \<times> monitor" where
  "tick_runs L os clock now [] m = (Inr (), m)"
| "tick_runs L os clock now (run # runs) m =
     (case tick_run L os clock now run m of
        (Inl e, m') \<Rightarrow> (Inl e, m')
      | (Inr _, m') \<Rightarrow> tick_runs L os clock now runs m')"

text \<open>What is pending is sent run by run; the connection is given by a list per run.\<close>

fun flush_refs ::
  "env \<Rightarrow> worker_identity \<Rightarrow> int \<Rightarrow> (string \<Rightarrow> channel list) \<Rightarrow> string list \<Rightarrow> ledger \<times> tdb \<Rightarrow> (ledger \<times> tdb) res" where
  "flush_refs E i now chs [] w = Inr w"
| "flush_refs E i now chs (ref # refs) w = rbind (flush_run E i ref now (chs ref) w) (flush_refs E i now chs refs)"

definition tick ::
  "log_env \<Rightarrow> env \<Rightarrow> worker_identity \<Rightarrow> node_os \<Rightarrow> rat \<Rightarrow> int \<Rightarrow> (string \<Rightarrow> channel list) \<Rightarrow> monitor \<times> tdb \<Rightarrow> unit res \<times> monitor \<times> tdb" where
  "tick L E i os clock now chs = (\<lambda>(m, db).
     case tick_runs L os clock now (list_active_runs (mo_ledger m)) m of
       (Inl e, m') \<Rightarrow> (Inl e, m', db)
     | (Inr _, m') \<Rightarrow>
         (case flush_refs E i now chs (pending_run_refs (mo_ledger m')) (mo_ledger m', db) of
            Inl e \<Rightarrow> (Inl e, m', db)
          | Inr (l, db') \<Rightarrow> (Inr (), m'\<lparr>mo_ledger := l\<rparr>, db')))"

section \<open>Reconciliation after a restart\<close>

text \<open>Each step is committed on its own: the ledger is returned beside an error.\<close>

fun observe_rows :: "log_env \<Rightarrow> node_os \<Rightarrow> int \<Rightarrow> ledger_run list \<Rightarrow> ledger \<Rightarrow> unit res \<times> ledger" where
  "observe_rows L os now [] l = (Inr (), l)"
| "observe_rows L os now (row # rows) l =
     (case collect_log L (os_log os) row now l of
        Inl e \<Rightarrow> (Inl e, l)
      | Inr l1 \<Rightarrow>
          (case observe_supervisor os row now l1 of
             Inl e \<Rightarrow> (Inl e, l1)
           | Inr l2 \<Rightarrow> observe_rows L os now rows l2))"

definition reconciliation_status :: "node_os \<Rightarrow> probe_status \<Rightarrow> ledger_run \<Rightarrow> string" where
  "reconciliation_status os status row =
     (if status = Matched then ''running''
      else if status = Missing \<and>
        \<not> (case w_supervisor_state_path row of None \<Rightarrow> False
           | Some path \<Rightarrow> child_exists os (case os_json os path of None \<Rightarrow> [] | Some d \<Rightarrow> d))
      then ''lost'' else ''unresolved'')"

definition reconciliation_update :: "node_os \<Rightarrow> probe_status \<Rightarrow> ledger_run \<Rightarrow> dict" where
  "reconciliation_update os status row =
     [(''kind'', JStr ''reconciliation''), (''stage_ref'', opt_json (w_stage_ref row)),
      (''status'', JStr (reconciliation_status os status row)), (''reason'', JStr (probe_name status))]"

definition queue_reconciliation :: "node_os \<Rightarrow> int \<Rightarrow> reconciliation_result \<Rightarrow> ledger \<Rightarrow> ledger res" where
  "queue_reconciliation os now r l =
     (case get_run (rc_run_ref r) l of
        None \<Rightarrow> Inr l
      | Some row \<Rightarrow> queue_update row (reconciliation_update os (rc_status r) row) now l)"

fun queue_reconciliations :: "node_os \<Rightarrow> int \<Rightarrow> reconciliation_result list \<Rightarrow> ledger \<Rightarrow> unit res \<times> ledger" where
  "queue_reconciliations os now [] l = (Inr (), l)"
| "queue_reconciliations os now (r # rs) l =
     (case queue_reconciliation os now r l of
        Inl e \<Rightarrow> (Inl e, l)
      | Inr l1 \<Rightarrow> queue_reconciliations os now rs l1)"

definition reconciliation_updates ::
  "log_env \<Rightarrow> node_os \<Rightarrow> (process_observation \<Rightarrow> probe_status) \<Rightarrow> int \<Rightarrow> ledger \<Rightarrow> unit res \<times> ledger" where
  "reconciliation_updates L os probe now l =
     (case observe_rows L os now (list_active_runs l) l of
        (Inl e, l1) \<Rightarrow> (Inl e, l1)
      | (Inr _, l1) \<Rightarrow>
          (case reconcile_active_runs probe now l1 of
             (Inl e, l2) \<Rightarrow> (Inl e, l2)
           | (Inr rs, l2) \<Rightarrow> queue_reconciliations os now rs l2))"

end
