(* ===== verification/Worker_Start.thy ===== *)
theory Worker_Start
  imports Worker_Execution
begin

text \<open>
  Start actions as they arrive at a Worker (\<open>TrainingExecutionManager._parse_start\<close> in
  \<open>training_worker/execution.py\<close>): the checks of every field of the action and the request
  they yield.  Resolving the working directory and the entry point is a parameter.
\<close>

section \<open>Start actions\<close>

record start_request =
  sr_run_ref :: string
  sr_stage_ref :: string
  sr_stage_number :: int
  sr_owner_epoch :: int
  sr_version_label :: string
  sr_family_ref :: string
  sr_working_directory :: ppath
  sr_entrypoint :: ppath
  sr_output_root :: ppath
  sr_output_directory :: ppath
  sr_argv :: "string list"
  sr_gpu_uuids :: "string list"
  sr_runtime :: dict
  sr_monitoring_format :: string
  sr_manifest_path :: "ppath option"
  sr_manifest :: "dict option"
  sr_replicas :: "dict list"
  sr_redactions :: "string list"

text \<open>Resolving an existing directory, and an entry point below it.\<close>

record path_env =
  pe_directory :: "ppath \<Rightarrow> ppath res"
  pe_entrypoint :: "ppath \<Rightarrow> string \<Rightarrow> ppath res"

definition invalid_action :: py_error where "invalid_action = ExecutionError ''training_action_invalid''"

definition action_ref_of :: "json \<Rightarrow> string res" where
  "action_ref_of v = (case v of JStr s \<Rightarrow> (if safe_ref s then Inr s else Inl invalid_action) | _ \<Rightarrow> Inl invalid_action)"

definition control_free :: "string \<Rightarrow> bool" where
  "control_free s \<longleftrightarrow> char_of (0 :: nat) \<notin> set s \<and> CR \<notin> set s \<and> NL \<notin> set s"

definition absolute_path :: "json \<Rightarrow> ppath res" where
  "absolute_path v =
     (case v of
        JStr s \<Rightarrow>
          (if take 1 s \<noteq> ''/'' \<or> 4096 < py_len s \<or> \<not> control_free s \<or> ''..'' \<in> set (snd (parse_path s))
           then Inl (ExecutionError ''training_path_invalid'') else Inr (parse_path s))
      | _ \<Rightarrow> Inl (ExecutionError ''training_path_invalid''))"

text \<open>\<open>path.relative_to(root)\<close> succeeds and the two differ.\<close>

definition is_within :: "ppath \<Rightarrow> ppath \<Rightarrow> bool" where
  "is_within p base \<longleftrightarrow> fst p = fst base \<and> prefix (snd base) (snd p) \<and> p \<noteq> base"

text \<open>\<open>root / a / b\<close> for names without slashes.\<close>

definition path_join :: "ppath \<Rightarrow> string list \<Rightarrow> ppath" where
  "path_join p names = (fst p, snd p @ filter (\<lambda>n. n \<noteq> ''.'') names)"

definition strict_int :: "json \<Rightarrow> int option" where
  "strict_int v = (case v of JInt i \<Rightarrow> Some i | _ \<Rightarrow> None)"

definition epoch_of :: "json \<Rightarrow> int res" where
  "epoch_of v = (case strict_int v of Some i \<Rightarrow> (if 1 \<le> i then Inr i else Inl invalid_action) | None \<Rightarrow> Inl invalid_action)"

definition stage_number_of :: "json \<Rightarrow> int res" where
  "stage_number_of v = (case strict_int v of
     Some i \<Rightarrow> (if 1 \<le> i \<and> i \<le> 10 then Inr i else Inl invalid_action) | None \<Rightarrow> Inl invalid_action)"

text \<open>\<open>f"{n:02d}"\<close>.\<close>

definition two_digits :: "int \<Rightarrow> string" where
  "two_digits n = (if n < 10 then CHR ''0'' # int_str n else int_str n)"

definition argv_of :: "json \<Rightarrow> string list res" where
  "argv_of v =
     (case v of
        JList vs \<Rightarrow>
          (if 1 \<le> length vs \<and> length vs \<le> 4096 \<and>
              list_all (\<lambda>x. is_text x \<and> text_of x \<noteq> [] \<and> py_len (text_of x) \<le> 16384 \<and> control_free (text_of x)) vs
           then Inr (map text_of vs) else Inl (ExecutionError ''training_argv_invalid''))
      | _ \<Rightarrow> Inl (ExecutionError ''training_argv_invalid''))"

definition hashable :: "json \<Rightarrow> bool" where
  "hashable v = (case v of JList _ \<Rightarrow> False | JObj _ \<Rightarrow> False | _ \<Rightarrow> True)"

definition gpu_uuids_of :: "json \<Rightarrow> string list res" where
  "gpu_uuids_of v =
     (case v of
        JList vs \<Rightarrow>
          (if \<not> (1 \<le> length vs \<and> length vs \<le> 8) then Inl (ExecutionError ''training_gpu_invalid'')
           else if \<not> list_all hashable vs then Inl TypeError
           else if list_all (\<lambda>x. is_text x \<and> safe_ref (text_of x)) vs \<and> distinct (map text_of vs) then Inr (map text_of vs)
           else Inl (ExecutionError ''training_gpu_invalid''))
      | _ \<Rightarrow> Inl (ExecutionError ''training_gpu_invalid''))"

definition monitoring_of :: "json \<Rightarrow> string res" where
  "monitoring_of v =
     (case v of
        JObj d \<Rightarrow>
          (let fmt = dict_get_default d ''format'' (JStr ''plain'') in
           if \<not> hashable fmt then Inl TypeError
           else if is_text fmt \<and> text_of fmt \<in> {''plain'', ''transformers'', ''jsonl''} then Inr (text_of fmt)
           else Inl (ExecutionError ''training_monitoring_invalid''))
      | _ \<Rightarrow> Inl (ExecutionError ''training_monitoring_invalid''))"

definition manifest_of :: "ppath \<Rightarrow> dict \<Rightarrow> (ppath option \<times> dict option) res" where
  "manifest_of version_root payload =
     (if dict_get payload ''dataset_manifest_path'' \<noteq> JNull then
        rbind (absolute_path (dict_get payload ''dataset_manifest_path'')) (\<lambda>p.
          case dict_get payload ''dataset_manifest'' of
            JObj d \<Rightarrow> (if p = path_join version_root [''dataset-manifest.json''] then Inr (Some p, Some d)
                       else Inl (ExecutionError ''training_manifest_invalid''))
          | _ \<Rightarrow> Inl (ExecutionError ''training_manifest_invalid''))
      else if dict_get payload ''dataset_manifest'' \<noteq> JNull then Inl (ExecutionError ''training_manifest_invalid'')
      else Inr (None, None))"

definition replicas_of :: "json \<Rightarrow> dict list res" where
  "replicas_of v =
     (case v of
        JList vs \<Rightarrow> (if list_all (\<lambda>x. is_ok (as_dict x)) vs then Inr (map (\<lambda>x. case x of JObj d \<Rightarrow> d | _ \<Rightarrow> []) vs)
                     else Inl (ExecutionError ''training_manifest_invalid''))
      | _ \<Rightarrow> Inl (ExecutionError ''training_manifest_invalid''))"

definition redactions_of :: "json \<Rightarrow> string list res" where
  "redactions_of v =
     (case v of
        JList vs \<Rightarrow>
          (if length vs \<le> 64 \<and> list_all (\<lambda>x. is_text x \<and> text_of x \<noteq> [] \<and> py_len (text_of x) \<le> 4096) vs
           then Inr (map text_of vs) else Inl invalid_action)
      | _ \<Rightarrow> Inl invalid_action)"

text \<open>The entry point: a relative path the argv names, resolved below the working directory.\<close>

definition entrypoint_of :: "path_env \<Rightarrow> ppath \<Rightarrow> json \<Rightarrow> (string \<times> ppath) res" where
  "entrypoint_of P wd v =
     (case v of
        JStr s \<Rightarrow>
          (if \<not> relative_inside s then Inl (ExecutionError ''training_entrypoint_invalid'')
           else rbind (pe_entrypoint P wd s) (\<lambda>p.
             if is_within p wd then Inr (s, p) else Inl (ExecutionError ''training_entrypoint_unsafe'')))
      | _ \<Rightarrow> Inl (ExecutionError ''training_entrypoint_invalid''))"

definition parse_start :: "path_env \<Rightarrow> dict \<Rightarrow> start_request res" where
  "parse_start P action =
     (case dict_get action ''payload'' of
        JObj payload \<Rightarrow>
          rbind (action_ref_of (dict_get action ''run_ref'')) (\<lambda>run_ref.
          rbind (action_ref_of (dict_get payload ''stage_ref'')) (\<lambda>stage_ref.
          rbind (epoch_of (dict_get action ''owner_epoch'')) (\<lambda>epoch.
          rbind (stage_number_of (dict_get payload ''stage_number'')) (\<lambda>number.
          rbind (action_ref_of (dict_get payload ''version_label'')) (\<lambda>label.
          rbind (action_ref_of (dict_get payload ''family_ref'')) (\<lambda>family.
          rbind (rbind (absolute_path (dict_get payload ''working_directory'')) (pe_directory P)) (\<lambda>wd.
          rbind (entrypoint_of P wd (dict_get payload ''entrypoint'')) (\<lambda>(raw_entrypoint, entrypoint).
          rbind (absolute_path (dict_get payload ''output_root'')) (\<lambda>output_root.
          rbind (absolute_path (dict_get payload ''output_directory'')) (\<lambda>output_directory.
          let version_root = path_join output_root [family, label] in
          rbind (raise_if (\<not> is_within output_directory output_root) (ExecutionError ''training_output_unsafe'')) (\<lambda>_.
          rbind (raise_if (output_directory \<noteq> path_join version_root [''stage-'' @ two_digits number])
                   (ExecutionError ''training_output_unsafe'')) (\<lambda>_.
          rbind (argv_of (dict_get payload ''argv'')) (\<lambda>argv.
          rbind (raise_if (raw_entrypoint \<notin> set argv) (ExecutionError ''training_entrypoint_invalid'')) (\<lambda>_.
          rbind (gpu_uuids_of (dict_get payload ''gpu_uuids'')) (\<lambda>gpus.
          rbind (case dict_get_default payload ''runtime_environment'' (JObj [(''kind'', JStr ''system'')]) of
                   JObj d \<Rightarrow> Inr d | _ \<Rightarrow> Inl (ExecutionError ''training_runtime_invalid'')) (\<lambda>runtime.
          rbind (monitoring_of (dict_get_default payload ''monitoring'' (JObj [(''format'', JStr ''plain'')]))) (\<lambda>fmt.
          rbind (manifest_of version_root payload) (\<lambda>(manifest_path, manifest).
          rbind (replicas_of (dict_get_default payload ''dataset_replicas'' (JList []))) (\<lambda>replicas.
          rbind (redactions_of (dict_get_default payload ''redactions'' (JList []))) (\<lambda>redactions.
            Inr \<lparr>sr_run_ref = run_ref, sr_stage_ref = stage_ref, sr_stage_number = number, sr_owner_epoch = epoch,
              sr_version_label = label, sr_family_ref = family, sr_working_directory = wd, sr_entrypoint = entrypoint,
              sr_output_root = output_root, sr_output_directory = output_directory, sr_argv = argv, sr_gpu_uuids = gpus,
              sr_runtime = runtime, sr_monitoring_format = fmt, sr_manifest_path = manifest_path,
              sr_manifest = manifest, sr_replicas = replicas, sr_redactions = redactions\<rparr>))))))))))))))))))))
      | _ \<Rightarrow> Inl invalid_action)"

end
