(* ===== verification/Worker_Prepare.thy ===== *)
theory Worker_Prepare
  imports Worker_Start Worker_Datasets "HOL-Library.AList"
begin

text \<open>
  What a Worker does on the node before it launches a stage (\<open>training_worker/execution.py\<close>): the
  GPU indexes, the output root, the version directory with its marker, the data set manifest
  with the replicas it names, the stage directory and the command.

  The file system is the tree of a node: directories, symbolic links and files by their absolute
  path.  Permissions, the search for an executable and whether one can be run are parameters.
\<close>

section \<open>The files of a node\<close>

text \<open>A file is known by the JSON it holds; \<open>None\<close> when it is too large or holds none.\<close>

datatype fs_node =
    FDir
  | FLink ppath
  | FFile "json option"

text \<open>Paths are the parts below the root, which is a directory of its own.\<close>

type_synonym fs_entries = "(string list \<times> fs_node) list"

record node_files =
  nf_entries :: fs_entries
  nf_writable :: "string list \<Rightarrow> bool"

definition fs_at :: "fs_entries \<Rightarrow> string list \<Rightarrow> fs_node option" where
  "fs_at t p = (if p = [] then Some FDir else map_of t p)"

definition MAX_LINKS :: nat where "MAX_LINKS = 40"

text \<open>
  Following a path from a directory that is free of links: each link uses up one of the links
  that may be followed.
\<close>

function walk :: "fs_entries \<Rightarrow> nat \<Rightarrow> string list \<Rightarrow> string list \<Rightarrow> string list option" where
  "walk t n here [] = Some here"
| "walk t n here (p # ps) =
     (if p = ''..'' then walk t n (butlast here) ps
      else case fs_at t (here @ [p]) of
        None \<Rightarrow> None
      | Some FDir \<Rightarrow> walk t n (here @ [p]) ps
      | Some (FFile _) \<Rightarrow> (if ps = [] then Some (here @ [p]) else None)
      | Some (FLink to) \<Rightarrow>
          (if n = 0 then None else walk t (n - 1) (if path_is_absolute to then [] else here) (snd to @ ps)))"
  by pat_completeness auto
termination
  by (relation "measures [\<lambda>(t, n, here, ps). n, \<lambda>(t, n, here, ps). length ps]") auto

definition resolve_path :: "node_files \<Rightarrow> ppath \<Rightarrow> string list option" where
  "resolve_path F p = walk (nf_entries F) MAX_LINKS [] (snd p)"

definition stat_path :: "node_files \<Rightarrow> ppath \<Rightarrow> fs_node option" where
  "stat_path F p = Option.bind (resolve_path F p) (fs_at (nf_entries F))"

definition path_exists :: "node_files \<Rightarrow> ppath \<Rightarrow> bool" where
  "path_exists F p \<longleftrightarrow> stat_path F p \<noteq> None"

definition path_is_dir :: "node_files \<Rightarrow> ppath \<Rightarrow> bool" where
  "path_is_dir F p \<longleftrightarrow> stat_path F p = Some FDir"

text \<open>The entry itself, without following it.\<close>

definition entry_place :: "node_files \<Rightarrow> ppath \<Rightarrow> string list option" where
  "entry_place F p = (if snd p = [] then Some [] else
     map_option (\<lambda>d. d @ [path_name p]) (resolve_path F (path_parent p)))"

definition path_is_symlink :: "node_files \<Rightarrow> ppath \<Rightarrow> bool" where
  "path_is_symlink F p = (case Option.bind (entry_place F p) (fs_at (nf_entries F)) of Some (FLink _) \<Rightarrow> True | _ \<Rightarrow> False)"

definition has_entries :: "node_files \<Rightarrow> string list \<Rightarrow> bool" where
  "has_entries F d \<longleftrightarrow> list_ex (\<lambda>(p, x). p \<noteq> [] \<and> butlast p = d) (nf_entries F)"

definition put_node :: "string list \<Rightarrow> fs_node \<Rightarrow> node_files \<Rightarrow> node_files" where
  "put_node p x F = F\<lparr>nf_entries := AList.update p x (nf_entries F)\<rparr>"

text \<open>\<open>path.mkdir(exist_ok=...)\<close>; a missing parent, an existing entry and a refused write are \<open>OSError\<close>.\<close>

definition make_dir :: "bool \<Rightarrow> ppath \<Rightarrow> (unit, node_files) stateful" where
  "make_dir exist_ok p F =
     (if exist_ok \<and> path_is_dir F p then (Inr (), F)
      else case entry_place F p of
        None \<Rightarrow> (Inl OSError, F)
      | Some q \<Rightarrow>
          (if fs_at (nf_entries F) q \<noteq> None \<or> fs_at (nf_entries F) (butlast q) \<noteq> Some FDir \<or> \<not> nf_writable F (butlast q)
           then (Inl OSError, F) else (Inr (), put_node q FDir F)))"

text \<open>\<open>path.mkdir(parents=True, exist_ok=True)\<close>.\<close>

fun make_dirs :: "string \<Rightarrow> string list \<Rightarrow> string list \<Rightarrow> (unit, node_files) stateful" where
  "make_dirs anchor here [] = sret ()"
| "make_dirs anchor here (p # ps) = sbind (make_dir True (anchor, here @ [p])) (\<lambda>_. make_dirs anchor (here @ [p]) ps)"

definition make_path :: "ppath \<Rightarrow> (unit, node_files) stateful" where
  "make_path p = make_dirs (fst p) [] (snd p)"

definition write_failed :: py_error where "write_failed = ExecutionError ''training_output_write_failed''"

text \<open>\<open>_atomic_json\<close>: the temporary file takes the place of whatever is there, except a directory.\<close>

definition write_json :: "ppath \<Rightarrow> json \<Rightarrow> (unit, node_files) stateful" where
  "write_json p v =
     sbind (make_path (path_parent p)) (\<lambda>_ F.
       case entry_place F p of
         None \<Rightarrow> (Inl write_failed, F)
       | Some q \<Rightarrow>
           (if fs_at (nf_entries F) q = Some FDir \<or> fs_at (nf_entries F) (butlast q) \<noteq> Some FDir \<or> \<not> nf_writable F (butlast q)
            then (Inl write_failed, F)
            else (Inr (), put_node q (FFile (Some v)) F)))"

definition marker_invalid :: py_error where "marker_invalid = ExecutionError ''training_marker_invalid''"

definition read_json_file :: "ppath \<Rightarrow> (dict, node_files) stateful" where
  "read_json_file p F =
     (if path_is_symlink F p then (Inl marker_invalid, F)
      else case stat_path F p of
        Some (FFile (Some (JObj d))) \<Rightarrow> (Inr d, F)
      | _ \<Rightarrow> (Inl marker_invalid, F))"

text \<open>A value read from the files as they are.\<close>

definition looked_up :: "(node_files \<Rightarrow> 'a res) \<Rightarrow> ('a, node_files) stateful" where
  "looked_up f F = (f F, F)"

section \<open>Output directories\<close>

definition unsafe_output :: py_error where "unsafe_output = ExecutionError ''training_output_unsafe''"

text \<open>The prefixes of a path, the shortest first, without the root.\<close>

definition path_prefixes :: "ppath \<Rightarrow> ppath list" where
  "path_prefixes p = map (\<lambda>i. (fst p, take (Suc i) (snd p))) [0..<length (snd p)]"

definition assert_no_symlink_components :: "ppath \<Rightarrow> (unit, node_files) stateful" where
  "assert_no_symlink_components p =
     looked_up (\<lambda>F. if list_ex (path_is_symlink F) (path_prefixes p) then Inl unsafe_output else Inr ())"

definition resolve_strict :: "py_error \<Rightarrow> ppath \<Rightarrow> (ppath, node_files) stateful" where
  "resolve_strict e p = looked_up (\<lambda>F. case resolve_path F p of None \<Rightarrow> Inl e | Some q \<Rightarrow> Inr (''/'', q))"

definition mapped_error :: "py_error \<Rightarrow> (unit, node_files) stateful \<Rightarrow> (unit, node_files) stateful" where
  "mapped_error e m F = (case m F of (Inl OSError, F') \<Rightarrow> (Inl e, F') | r \<Rightarrow> r)"

definition prepare_output_root :: "ppath \<Rightarrow> (ppath, node_files) stateful" where
  "prepare_output_root p =
     sbind (assert_no_symlink_components p) (\<lambda>_.
     sbind (mapped_error write_failed (make_path p)) (\<lambda>_.
     sbind (assert_no_symlink_components p) (\<lambda>_.
     sbind (resolve_strict unsafe_output p) (\<lambda>resolved F.
       if path_is_symlink F p \<or> \<not> path_is_dir F resolved \<or> \<not> nf_writable F (snd resolved)
       then (Inl unsafe_output, F) else (Inr resolved, F)))))"

section \<open>The version directory\<close>

definition VERSION_MARKER :: string where "VERSION_MARKER = ''.datapilot-training-version.json''"

definition version_marker :: "start_request \<Rightarrow> dict" where
  "version_marker req = [(''contract'', JStr ''datapilot_training_version_v1''), (''run_ref'', JStr (sr_run_ref req)),
     (''family_ref'', JStr (sr_family_ref req)), (''version_label'', JStr (sr_version_label req))]"

definition marker_matches :: "start_request \<Rightarrow> dict \<Rightarrow> bool" where
  "marker_matches req marker \<longleftrightarrow> dict_get marker ''contract'' = JStr ''datapilot_training_version_v1'' \<and>
     dict_get marker ''run_ref'' = JStr (sr_run_ref req) \<and> dict_get marker ''version_label'' = JStr (sr_version_label req)"

definition check_version_root :: "start_request \<Rightarrow> ppath \<Rightarrow> (unit, node_files) stateful" where
  "check_version_root req version_root F =
     (let marker_path = path_join version_root [VERSION_MARKER] in
      if \<not> path_exists F version_root then
        sbind (make_path (path_parent version_root)) (\<lambda>_. make_dir False version_root) F
      else if path_is_symlink F version_root \<or> \<not> path_is_dir F version_root then (Inl unsafe_output, F)
      else if path_exists F marker_path then
        sbind (read_json_file marker_path) (\<lambda>marker.
          refuse (\<not> marker_matches req marker) (ExecutionError ''training_output_marker_mismatch'')) F
      else case resolve_path F version_root of
        Some d \<Rightarrow> (if has_entries F d then (Inl (ExecutionError ''training_output_not_managed''), F) else (Inr (), F))
      | None \<Rightarrow> (Inl OSError, F))"

section \<open>Data set replicas\<close>

definition manifest_bad :: py_error where "manifest_bad = ExecutionError ''training_manifest_invalid''"

type_synonym replica_key = "string \<times> string \<times> string \<times> string"

definition manifest_item :: "json \<Rightarrow> replica_key res" where
  "manifest_item v =
     (case v of
        JObj d \<Rightarrow>
          (if is_text (dict_get d ''local_root'') \<and> is_text (dict_get d ''release_ref'') \<and>
              is_text (dict_get d ''dataset_date'') \<and> is_text (dict_get d ''inventory_sha256'')
           then Inr (text_of (dict_get d ''local_root''), text_of (dict_get d ''release_ref''),
             text_of (dict_get d ''dataset_date''), text_of (dict_get d ''inventory_sha256''))
           else Inl manifest_bad)
      | _ \<Rightarrow> Inl manifest_bad)"

definition split_items :: "dict \<Rightarrow> string \<Rightarrow> replica_key list res" where
  "split_items splits name =
     (case dict_get_default splits name (JList []) of JList vs \<Rightarrow> rmap manifest_item vs | _ \<Rightarrow> Inl manifest_bad)"

text \<open>A dictionary by root: later items replace earlier ones.\<close>

definition by_root :: "replica_key list \<Rightarrow> (string \<times> string \<times> string \<times> string) list" where
  "by_root items = fold (\<lambda>(k, v). AList.update k v) items []"

definition expected_replicas :: "dict \<Rightarrow> replica_key list res" where
  "expected_replicas manifest =
     (case dict_get manifest ''splits'' of
        JObj splits \<Rightarrow>
          rbind (split_items splits ''train'') (\<lambda>train.
          rbind (split_items splits ''test'') (\<lambda>test. Inr (by_root (train @ test))))
      | _ \<Rightarrow> Inl manifest_bad)"

definition supplied_replicas :: "env \<Rightarrow> dict list \<Rightarrow> replica_key list" where
  "supplied_replicas E replicas = by_root (map (\<lambda>d.
     (py_str E (dict_get d ''local_root''), py_str E (dict_get d ''release_ref''),
      py_str E (dict_get d ''dataset_date''), py_str E (dict_get d ''inventory_sha256''))) replicas)"

definition existing_directory :: "json \<Rightarrow> (ppath, node_files) stateful" where
  "existing_directory v =
     sbind (slift (absolute_path v)) (\<lambda>p.
     sbind (resolve_strict (ExecutionError ''training_path_missing'') p) (\<lambda>resolved F.
       if \<not> path_is_dir F resolved \<or> path_is_symlink F p
       then (Inl (ExecutionError ''training_path_unsafe''), F) else (Inr resolved, F)))"

definition DATASET_MARKER_NAME :: string where "DATASET_MARKER_NAME = ''.datapilot-dataset.json''"
definition DATASET_MARKER_CONTRACT :: string where "DATASET_MARKER_CONTRACT = ''datapilot_dataset_replica_v1''"

definition replica_marker_ok :: "string \<times> string \<times> string \<Rightarrow> dict \<Rightarrow> bool" where
  "replica_marker_ok key marker = (case key of (release, date, digest) \<Rightarrow>
     dict_get marker ''contract'' = JStr DATASET_MARKER_CONTRACT \<and> dict_get marker ''release_ref'' = JStr release \<and>
     dict_get marker ''dataset_date'' = JStr date \<and> dict_get marker ''inventory_sha256'' = JStr digest \<and> is_sha256 digest)"

fun verify_markers :: "replica_key list \<Rightarrow> (unit, node_files) stateful" where
  "verify_markers [] = sret ()"
| "verify_markers ((raw_root, key) # items) =
     sbind (existing_directory (JStr raw_root)) (\<lambda>root.
     sbind (read_json_file (path_join root [DATASET_MARKER_NAME])) (\<lambda>marker.
     sbind (refuse (\<not> replica_marker_ok key marker) (ExecutionError ''training_dataset_replica_invalid'')) (\<lambda>_.
       verify_markers items)))"

definition verify_replicas :: "env \<Rightarrow> dict list \<Rightarrow> dict \<Rightarrow> (unit, node_files) stateful" where
  "verify_replicas E replicas manifest =
     sbind (slift (expected_replicas manifest)) (\<lambda>expected.
     sbind (refuse (set (supplied_replicas E replicas) \<noteq> set expected) manifest_bad) (\<lambda>_. verify_markers expected))"

section \<open>Preparing the version directory\<close>

definition manifest_identity_ok :: "start_request \<Rightarrow> dict \<Rightarrow> bool" where
  "manifest_identity_ok req manifest \<longleftrightarrow> dict_get manifest ''contract'' = JStr ''datapilot_dataset_manifest_v1'' \<and>
     dict_get manifest ''run_ref'' = JStr (sr_run_ref req) \<and> dict_get manifest ''family_ref'' = JStr (sr_family_ref req)"

text \<open>Two values read from JSON are equal as Python values when their objects agree up to the order of the keys.\<close>

fun json_same :: "json \<Rightarrow> json \<Rightarrow> bool" where
  "json_same (JObj a) (JObj b) \<longleftrightarrow> length a = length b \<and>
     list_all (\<lambda>(k, v). case map_of b k of Some w \<Rightarrow> json_same v w | None \<Rightarrow> False) a"
| "json_same (JList a) (JList b) \<longleftrightarrow> list_all2 json_same a b"
| "json_same v w \<longleftrightarrow> v = w"

definition store_manifest :: "ppath \<Rightarrow> dict \<Rightarrow> (unit, node_files) stateful" where
  "store_manifest path manifest F =
     (if path_exists F path then
        sbind (read_json_file path) (\<lambda>current. refuse (\<not> json_same (JObj current) (JObj manifest)) (ExecutionError ''training_manifest_changed'')) F
      else write_json path (JObj manifest) F)"

definition prepare_manifest :: "env \<Rightarrow> start_request \<Rightarrow> (unit, node_files) stateful" where
  "prepare_manifest E req =
     (case (sr_manifest req, sr_manifest_path req) of
        (Some manifest, Some path) \<Rightarrow>
          sbind (refuse (\<not> manifest_identity_ok req manifest) manifest_bad) (\<lambda>_.
          sbind (verify_replicas E (sr_replicas req) manifest) (\<lambda>_. store_manifest path manifest))
      | _ \<Rightarrow> sret ())"

definition write_marker :: "start_request \<Rightarrow> ppath \<Rightarrow> (unit, node_files) stateful" where
  "write_marker req version_root F =
     (let marker_path = path_join version_root [VERSION_MARKER] in
      if path_exists F marker_path then (Inr (), F) else write_json marker_path (JObj (version_marker req)) F)"

definition prepare_version_root :: "env \<Rightarrow> start_request \<Rightarrow> ppath \<Rightarrow> (unit, node_files) stateful" where
  "prepare_version_root E req version_root =
     sbind (assert_no_symlink_components version_root) (\<lambda>_.
     sbind (check_version_root req version_root) (\<lambda>_.
     sbind (assert_no_symlink_components version_root) (\<lambda>_.
     sbind (write_marker req version_root) (\<lambda>_. prepare_manifest E req))))"

section \<open>GPUs and the command\<close>

definition gpu_not_found :: py_error where "gpu_not_found = ExecutionError ''training_gpu_not_found''"

definition gpus_by_uuid :: "env \<Rightarrow> dict \<Rightarrow> (string \<times> json) list" where
  "gpus_by_uuid E resources =
     (case dict_get resources ''gpus'' of
        JList vs \<Rightarrow> fold (\<lambda>v acc. case v of
            JObj d \<Rightarrow> AList.update (py_str E (dict_get d ''uuid'')) (dict_get d ''index'') acc
          | _ \<Rightarrow> acc) vs []
      | _ \<Rightarrow> [])"

definition gpu_indexes :: "env \<Rightarrow> dict \<Rightarrow> string list \<Rightarrow> int list res" where
  "gpu_indexes E resources requested =
     rmap (\<lambda>u. case map_of (gpus_by_uuid E resources) u of
         Some (JInt i) \<Rightarrow> (if 0 \<le> i then Inr i else Inl gpu_not_found)
       | _ \<Rightarrow> Inl gpu_not_found) requested"

text \<open>
  The search path, whether a path is an executable file, and the configured Conda (from the
  environment or the search path) with whether it is absolute and executable.
\<close>

record host_env =
  he_which :: "string \<Rightarrow> string option"
  he_runnable :: "string \<Rightarrow> bool"
  he_conda :: "string option"
  he_conda_ok :: "string \<Rightarrow> bool"

definition environment_char :: "char \<Rightarrow> bool" where
  "environment_char c \<longleftrightarrow> is_alnum c \<or> c \<in> set ''_.-''"

definition safe_environment :: "string \<Rightarrow> bool" where
  "safe_environment s \<longleftrightarrow> 1 \<le> length s \<and> length s \<le> 128 \<and> list_all environment_char s"

definition unsafe_executable :: py_error where "unsafe_executable = ExecutionError ''training_executable_unsafe''"

text \<open>\<open>candidate.resolve(strict=True)\<close>, and the candidate itself when that fails.\<close>

definition resolved_or_same :: "node_files \<Rightarrow> ppath \<Rightarrow> ppath" where
  "resolved_or_same F p = (case resolve_path F p of None \<Rightarrow> p | Some q \<Rightarrow> (''/'', q))"

definition system_executable :: "host_env \<Rightarrow> node_files \<Rightarrow> string \<Rightarrow> ppath \<Rightarrow> string option res" where
  "system_executable H F raw wd =
     (if CHR ''/'' \<notin> set raw then Inr (he_which H raw)
      else
        let candidate = parse_path raw in
        if path_is_absolute candidate then Inr (Some (path_str (resolved_or_same F candidate)))
        else if ''..'' \<in> set (snd candidate) then Inl unsafe_executable
        else
          let resolved = resolved_or_same F (fst wd, snd wd @ snd candidate) in
          if is_within resolved (resolved_or_same F wd) then Inr (Some (path_str resolved)) else Inl unsafe_executable)"

definition runtime_argv :: "host_env \<Rightarrow> dict \<Rightarrow> string list \<Rightarrow> ppath \<Rightarrow> node_files \<Rightarrow> string list res" where
  "runtime_argv H runtime argv wd F =
     (let kind = dict_get_default runtime ''kind'' (JStr ''system'') in
      if kind = JStr ''system'' then
        (case argv of
           [] \<Rightarrow> Inl (KeyError ''argv'')
         | raw # rest \<Rightarrow>
             rbind (system_executable H F raw wd) (\<lambda>found.
               case found of
                 Some executable \<Rightarrow>
                   (if executable \<noteq> [] \<and> he_runnable H executable then Inr (executable # rest)
                    else Inl (ExecutionError ''training_executable_missing''))
               | None \<Rightarrow> Inl (ExecutionError ''training_executable_missing'')))
      else if kind \<noteq> JStr ''conda'' then Inl (ExecutionError ''training_runtime_invalid'')
      else case dict_get runtime ''conda_environment'' of
        JStr name \<Rightarrow>
          (if \<not> safe_environment name then Inl (ExecutionError ''training_runtime_invalid'')
           else case he_conda H of
             Some conda \<Rightarrow>
               (if conda \<noteq> [] \<and> he_conda_ok H conda
                then Inr ([conda, ''run'', ''--no-capture-output'', ''-n'', name] @ argv)
                else Inl (ExecutionError ''training_conda_missing''))
           | None \<Rightarrow> Inl (ExecutionError ''training_conda_missing''))
      | _ \<Rightarrow> Inl (ExecutionError ''training_runtime_invalid''))"

section \<open>Preparing a launch\<close>

definition stage_directory_ok :: "ppath \<Rightarrow> ppath \<Rightarrow> ppath \<Rightarrow> (unit, node_files) stateful" where
  "stage_directory_ok output_directory resolved resolved_root F =
     (if path_is_symlink F output_directory \<or> \<not> path_is_dir F resolved \<or> \<not> is_within resolved resolved_root
      then (Inl unsafe_output, F) else (Inr (), F))"

definition prepare_launch ::
  "env \<Rightarrow> host_env \<Rightarrow> dict \<Rightarrow> start_request \<Rightarrow> (int list \<times> string list, node_files) stateful" where
  "prepare_launch E H resources req =
     (let output_directory = sr_output_directory req; version_root = path_parent output_directory in
      sbind (slift (gpu_indexes E resources (sr_gpu_uuids req))) (\<lambda>indexes.
      sbind (prepare_output_root (sr_output_root req)) (\<lambda>resolved_root.
      sbind (prepare_version_root E req version_root) (\<lambda>_.
      sbind (make_dir True output_directory) (\<lambda>_.
      sbind (assert_no_symlink_components output_directory) (\<lambda>_.
      sbind (resolve_strict OSError output_directory) (\<lambda>resolved.
      sbind (stage_directory_ok output_directory resolved resolved_root) (\<lambda>_.
      sbind (looked_up (runtime_argv H (sr_runtime req) (sr_argv req) (sr_working_directory req))) (\<lambda>argv.
      sbind (make_dir True (path_join version_root [''.datapilot''])) (\<lambda>_.
        sret (indexes, argv)))))))))))"

end
