(* ===== verification/Worker_Launch.thy ===== *)
theory Worker_Launch
  imports Worker_Prepare
begin

text \<open>
  The actions of the centre on a Worker (\<open>TrainingExecutionManager.handle_action\<close> in
  \<open>training_worker/execution.py\<close>): launching a stage under a supervisor behind a durable
  intent, resuming an intent that a restart interrupted, and stopping a run.

  Starting the supervisor and what its state file says while the Worker waits are inputs;
  writing the specification and the decision and signalling processes are recorded as effects.
\<close>

section \<open>Effects and their sequence\<close>

datatype node_effect =
    WriteSpec string
  | StartSupervisor int
  | WriteDecision string string
  | RemoveState string
  | KillGroup int
  | TerminateSupervisor int

text \<open>
  The Worker while it handles an action: its ledger, the centre it flushes to, the files of the
  node, and what else it did to the node.
\<close>

record action_state =
  as_ledger :: ledger
  as_center :: tdb
  as_files :: node_files
  as_effects :: "node_effect list"

type_synonym 'a act = "('a, action_state) stateful"

definition effect :: "node_effect \<Rightarrow> unit act" where
  "effect x s = (Inr (), s\<lparr>as_effects := as_effects s @ [x]\<rparr>)"

definition on_ledger :: "(ledger \<Rightarrow> ledger res) \<Rightarrow> unit act" where
  "on_ledger f s = (case f (as_ledger s) of Inl e \<Rightarrow> (Inl e, s) | Inr l \<Rightarrow> (Inr (), s\<lparr>as_ledger := l\<rparr>))"

definition row_of :: "string \<Rightarrow> ledger_run option act" where
  "row_of ref s = (Inr (get_run ref (as_ledger s)), s)"

definition latest_row :: "string \<Rightarrow> ledger_run act" where
  "latest_row ref = sbind (row_of ref) (\<lambda>r. case r of None \<Rightarrow> sfail AssertionError | Some row \<Rightarrow> sret row)"

definition on_files :: "('a, node_files) stateful \<Rightarrow> 'a act" where
  "on_files m s = (case m (as_files s) of (r, files) \<Rightarrow> (r, s\<lparr>as_files := files\<rparr>))"

text \<open>What the node answers during one action.\<close>

record action_io =
  ai_now :: int
  ai_os :: node_os
  ai_log_env :: log_env
  ai_env :: env
  ai_identity :: worker_identity
  ai_channels :: "channel list"
  ai_host :: host_env
  ai_token :: string
  ai_spec_written :: bool
  ai_pid :: "int option"
  ai_first_polls :: "(node_os \<times> int option) list"
  ai_process :: "(string option \<times> string option) option"
  ai_command_digest :: string
  ai_decision_written :: bool
  ai_second_polls :: "(node_os \<times> int option) list"
  ai_os_after :: node_os
  ai_survives :: bool

text \<open>
  Waiting for the supervisor's state file: what the node shows at each poll, with the exit code
  of the started process once it has one; the list ends at the deadline.
\<close>

definition poll_exited :: "int \<Rightarrow> dict" where
  "poll_exited code = [(''status'', JStr ''exited''), (''exit_code'', JInt code)]"

definition poll_timeout :: dict where
  "poll_timeout = [(''status'', JStr ''timeout'')]"

definition read_marker :: "node_os \<Rightarrow> string \<Rightarrow> dict res" where
  "read_marker os path = (case os_json os path of
     None \<Rightarrow> Inl (ExecutionError ''training_marker_invalid'') | Some d \<Rightarrow> Inr d)"

fun wait_for_supervisor :: "string \<Rightarrow> (node_os \<times> int option) list \<Rightarrow> dict res" where
  "wait_for_supervisor path [] = Inr poll_timeout"
| "wait_for_supervisor path ((os, code) # polls) =
     (if os_exists os path then read_marker os path
      else case code of Some c \<Rightarrow> Inr (poll_exited c) | None \<Rightarrow> wait_for_supervisor path polls)"

definition started_status :: "dict \<Rightarrow> bool" where
  "started_status state \<longleftrightarrow> dict_get state ''status'' \<in> {JStr ''running'', JStr ''exited''}"

definition own_state :: "string \<Rightarrow> dict \<Rightarrow> bool" where
  "own_state token state \<longleftrightarrow> dict_get state ''contract'' = JStr SUPERVISOR_CONTRACT \<and> dict_get state ''launch_token'' = JStr token"

fun wait_for_training_start :: "string \<Rightarrow> string \<Rightarrow> (node_os \<times> int option) list \<Rightarrow> dict res" where
  "wait_for_training_start path token [] = Inr poll_timeout"
| "wait_for_training_start path token ((os, code) # polls) =
     rbind (if os_exists os path then rbind (read_marker os path) (\<lambda>d. Inr (Some d)) else Inr None) (\<lambda>found.
       case found of
         Some d \<Rightarrow>
           (if own_state token d \<and> started_status d then Inr d
            else case code of Some c \<Rightarrow> Inr (poll_exited c) | None \<Rightarrow> wait_for_training_start path token polls)
       | None \<Rightarrow> (case code of Some c \<Rightarrow> Inr (poll_exited c) | None \<Rightarrow> wait_for_training_start path token polls))"

definition flush_action :: "action_io \<Rightarrow> string \<Rightarrow> unit act" where
  "flush_action A ref s =
     (case flush_run (ai_env A) (ai_identity A) ref (ai_now A) (ai_channels A) (as_ledger s, as_center s) of
        Inl e \<Rightarrow> (Inl e, s)
      | Inr (l, db) \<Rightarrow> (Inr (), s\<lparr>as_ledger := l, as_center := db\<rparr>))"

definition write_decision :: "action_io \<Rightarrow> string \<Rightarrow> string \<Rightarrow> unit act" where
  "write_decision A token decision =
     (if ai_decision_written A then effect (WriteDecision token decision)
      else sfail (ExecutionError ''training_output_write_failed''))"

definition terminate_supervisor :: "int \<Rightarrow> dict \<Rightarrow> unit act" where
  "terminate_supervisor pid state =
     sbind (case as_int (dict_get state ''child_pid'') of
            Some child \<Rightarrow> (if 0 < child then effect (KillGroup child) else sret ())
          | None \<Rightarrow> sret ()) (\<lambda>_. effect (TerminateSupervisor pid))"

section \<open>Launching a stage\<close>

definition accepted_update :: "start_request \<Rightarrow> dict" where
  "accepted_update req = [(''kind'', JStr ''accepted''), (''stage_ref'', JStr (sr_stage_ref req))]"

definition started_update :: "start_request \<Rightarrow> dict" where
  "started_update req = [(''kind'', JStr ''started''), (''stage_ref'', JStr (sr_stage_ref req)), (''stage_number'', JInt (sr_stage_number req))]"

definition started_gpu_update :: "start_request \<Rightarrow> json list \<Rightarrow> dict" where
  "started_gpu_update req samples = [(''kind'', JStr ''metric''), (''stage_ref'', JStr (sr_stage_ref req)), (''gpus'', JList samples)]"

definition queue_launch_started :: "action_io \<Rightarrow> ledger_run \<Rightarrow> start_request \<Rightarrow> unit act" where
  "queue_launch_started A row req =
     sbind (on_ledger (queue_update row (accepted_update req) (ai_now A))) (\<lambda>_.
     sbind (on_ledger (queue_update row (started_update req) (ai_now A))) (\<lambda>_.
     sbind (slift (gpu_samples (ai_log_env A) (os_resources (ai_os A)) (sr_gpu_uuids req))) (\<lambda>samples.
       if samples = [] then sret ()
       else on_ledger (queue_update row (started_gpu_update req samples) (ai_now A)))))"

definition mark_started :: "action_io \<Rightarrow> start_request \<Rightarrow> ledger_run act" where
  "mark_started A req =
     sbind (on_ledger (update_run_state (sr_run_ref req) ''running'' (ai_now A))) (\<lambda>_.
     sbind (latest_row (sr_run_ref req)) (\<lambda>row.
     sbind (queue_launch_started A row req) (\<lambda>_. sret row)))"

definition supervisor_state :: "action_io \<Rightarrow> string \<Rightarrow> dict act" where
  "supervisor_state A path = slift (read_marker (ai_os A) path)"

definition intent_matches :: "start_request \<Rightarrow> ledger_run \<Rightarrow> bool" where
  "intent_matches req row \<longleftrightarrow>
     w_working_directory row = Some (path_str (sr_working_directory req)) \<and>
     w_output_directory row = Some (path_str (sr_output_directory req)) \<and>
     w_version_label row = Some (sr_version_label req) \<and> w_gpu_uuids row = sort (sr_gpu_uuids req)"

definition unresolved :: py_error where "unresolved = ExecutionError ''training_launch_unresolved''"

text \<open>The intent of an interrupted launch: true when the launch was taken over, false when nothing was started.\<close>

definition resume_commit :: "action_io \<Rightarrow> start_request \<Rightarrow> string \<Rightarrow> string \<Rightarrow> int \<Rightarrow> bool act" where
  "resume_commit A req path token supervisor_pid =
     sbind (on_ledger (attach_launch_supervisor (sr_run_ref req) supervisor_pid
            (Option.bind (ai_process A) fst) (Option.bind (ai_process A) snd) (ai_now A))) (\<lambda>_.
     sbind (write_decision A token ''commit'') (\<lambda>_.
     sbind (slift (wait_for_training_start path token (ai_second_polls A))) (\<lambda>state.
       if \<not> started_status state then sfail unresolved
       else
         sbind (mark_started A req) (\<lambda>row.
         sbind (on_ledger (observe_supervisor (ai_os_after A) row (ai_now A))) (\<lambda>_.
         sbind (flush_action A (sr_run_ref req)) (\<lambda>_. sret True))))))"

definition resume_launch_intent :: "action_io \<Rightarrow> start_request \<Rightarrow> ledger_run \<Rightarrow> bool act" where
  "resume_launch_intent A req existing =
     (if \<not> intent_matches req existing then sfail (ExecutionError ''training_launch_intent_mismatch'')
      else case (w_launch_token existing, w_supervisor_state_path existing) of
        (Some token, Some path) \<Rightarrow>
          (if \<not> os_exists (ai_os A) path then
             (if (case w_pid existing of None \<Rightarrow> False | Some pid \<Rightarrow> os_alive (ai_os A) pid) then sfail unresolved else sret False)
           else
             sbind (supervisor_state A path) (\<lambda>state.
               if \<not> own_state token state then sfail unresolved
               else if dict_get state ''status'' = JStr ''exited'' then
                 sbind (mark_started A req) (\<lambda>row.
                 sbind (on_ledger (observe_supervisor (ai_os A) row (ai_now A))) (\<lambda>_.
                 sbind (flush_action A (sr_run_ref req)) (\<lambda>_. sret True)))
               else case as_int (dict_get state ''supervisor_pid'') of
                 Some pid \<Rightarrow>
                   (if os_alive (ai_os A) pid then resume_commit A req path token pid
                    else if child_exists (ai_os A) state then sfail unresolved
                    else if dict_get state ''status'' = JStr ''waiting'' then sbind (effect (RemoveState path)) (\<lambda>_. sret False)
                    else sfail unresolved)
               | None \<Rightarrow>
                   (if child_exists (ai_os A) state then sfail unresolved
                    else if dict_get state ''status'' = JStr ''waiting'' then sbind (effect (RemoveState path)) (\<lambda>_. sret False)
                    else sfail unresolved)))
      | _ \<Rightarrow> sfail unresolved)"

definition stage_file :: "start_request \<Rightarrow> string \<Rightarrow> string" where
  "stage_file req ending = path_str (path_join (path_parent (sr_output_directory req))
     [''.datapilot'', ''stage-'' @ two_digits (sr_stage_number req) @ ending])"

definition launch_observation :: "start_request \<Rightarrow> string \<Rightarrow> observation" where
  "launch_observation req token =
     (let log = path_str (path_join (sr_output_directory req) [''.datapilot-training.log'']) in
      \<lparr>w_run_ref = sr_run_ref req, w_state = ''accepted'', w_pid = None, w_start_marker = None, w_argv_digest = None,
       w_gpu_uuids = sr_gpu_uuids req, w_working_directory = Some (path_str (sr_working_directory req)),
       w_stdout_path = Some log, w_stderr_path = Some log, w_stage_ref = Some (sr_stage_ref req),
       w_stage_number = Some (sr_stage_number req), w_owner_epoch = sr_owner_epoch req,
       w_version_label = Some (sr_version_label req), w_output_directory = Some (path_str (sr_output_directory req)),
       w_supervisor_state_path = Some (stage_file req ''-supervisor.json''),
       w_monitoring_format = sr_monitoring_format req, w_log_offset = 0, w_redactions = sr_redactions req,
       w_launch_token = Some token\<rparr>)"

definition start_failed :: py_error where "start_failed = ExecutionError ''training_process_start_failed''"

definition first_state_ok :: "string \<Rightarrow> int \<Rightarrow> dict \<Rightarrow> bool" where
  "first_state_ok token pid state \<longleftrightarrow>
     own_state token state \<and> as_int (dict_get state ''supervisor_pid'') = Some pid \<and>
     dict_get state ''status'' \<in> {JStr ''waiting'', JStr ''running'', JStr ''exited''}"

text \<open>Any exception of the ledger ends the launch: the supervisor is not left behind.\<close>

definition attach_or_terminate :: "action_io \<Rightarrow> start_request \<Rightarrow> int \<Rightarrow> dict \<Rightarrow> unit act" where
  "attach_or_terminate A req pid state s =
     (case attach_launch_supervisor (sr_run_ref req) pid
         (case ai_process A of None \<Rightarrow> None | Some p \<Rightarrow> fst p)
         (case ai_process A of None \<Rightarrow> Some (ai_command_digest A) | Some p \<Rightarrow> snd p) (ai_now A) (as_ledger s) of
        Inr l \<Rightarrow> (Inr (), s\<lparr>as_ledger := l\<rparr>)
      | Inl e \<Rightarrow> sbind (terminate_supervisor pid state) (\<lambda>_. sfail (ExecutionError ''training_ledger_write_failed'')) s)"

definition run_supervisor_launch :: "action_io \<Rightarrow> start_request \<Rightarrow> string \<Rightarrow> int \<Rightarrow> unit act" where
  "run_supervisor_launch A req token pid =
     sbind (effect (StartSupervisor pid)) (\<lambda>_.
     sbind (slift (wait_for_supervisor (stage_file req ''-supervisor.json'') (ai_first_polls A))) (\<lambda>state.
       if \<not> first_state_ok token pid state then sbind (terminate_supervisor pid state) (\<lambda>_. sfail start_failed)
       else
         sbind (attach_or_terminate A req pid state) (\<lambda>_.
         sbind (write_decision A token ''commit'') (\<lambda>_.
         sbind (slift (wait_for_training_start (stage_file req ''-supervisor.json'') token (ai_second_polls A))) (\<lambda>state2.
           if \<not> started_status state2 then sbind (terminate_supervisor pid state2) (\<lambda>_. sfail start_failed)
           else
             sbind (mark_started A req) (\<lambda>_. flush_action A (sr_run_ref req)))))))"

definition launch_stage :: "action_io \<Rightarrow> start_request \<Rightarrow> ledger_run option \<Rightarrow> unit act" where
  "launch_stage A req existing =
     (let token = (case existing of
         Some row \<Rightarrow> (if w_state row = ''accepted'' then (case w_launch_token row of Some t \<Rightarrow> t | None \<Rightarrow> ai_token A) else ai_token A)
       | None \<Rightarrow> ai_token A) in
      sbind (on_files (prepare_launch (ai_env A) (ai_host A) (os_resources (ai_os A)) req)) (\<lambda>_.
      sbind (on_ledger (record_process_observation (launch_observation req token) (ai_now A))) (\<lambda>_.
      if \<not> ai_spec_written A then sfail (ExecutionError ''training_output_write_failed'')
      else
        sbind (effect (WriteSpec token)) (\<lambda>_.
          case ai_pid A of
            None \<Rightarrow> sfail start_failed
          | Some pid \<Rightarrow> run_supervisor_launch A req token pid))))"

definition same_launch :: "start_request \<Rightarrow> ledger_run \<Rightarrow> bool" where
  "same_launch req row \<longleftrightarrow> w_stage_ref row = Some (sr_stage_ref req) \<and> w_owner_epoch row = sr_owner_epoch req"

definition start_stage :: "action_io \<Rightarrow> start_request \<Rightarrow> unit act" where
  "start_stage A req =
     sbind (row_of (sr_run_ref req)) (\<lambda>existing.
       case existing of
         None \<Rightarrow> launch_stage A req None
       | Some row \<Rightarrow>
           (if same_launch req row \<and> w_state row = ''running'' then sret ()
            else
              sbind (if same_launch req row \<and> w_state row = ''accepted'' then resume_launch_intent A req row else sret False) (\<lambda>resumed.
                if resumed then sret ()
                else if w_state row \<in> {''running'', ''stopping''} then sfail (ExecutionError ''training_run_already_active'')
                else launch_stage A req (Some row))))"

section \<open>Stopping a run\<close>

definition cancelled_update :: "ledger_run \<Rightarrow> dict" where
  "cancelled_update row = [(''kind'', JStr ''exited''), (''stage_ref'', opt_json (w_stage_ref row)),
     (''status'', JStr ''cancelled''), (''exit_code'', JNull)]"

definition cancel_launch :: "action_io \<Rightarrow> ledger_run \<Rightarrow> unit act" where
  "cancel_launch A row =
     (case (w_launch_token row, w_supervisor_state_path row) of
        (Some token, Some path) \<Rightarrow>
          (if path = [] then sbind (on_ledger (update_run_state (w_run_ref row) ''unknown'' (ai_now A)))
                               (\<lambda>_. sfail (ExecutionError ''training_stop_unresolved''))
           else write_decision A token ''cancel'')
      | _ \<Rightarrow> sbind (on_ledger (update_run_state (w_run_ref row) ''unknown'' (ai_now A)))
               (\<lambda>_. sfail (ExecutionError ''training_stop_unresolved'')))"

definition kill_child :: "action_io \<Rightarrow> dict \<Rightarrow> unit act" where
  "kill_child A state =
     (case as_int (dict_get state ''child_pid'') of
        Some pid \<Rightarrow>
          (if 0 < pid then sbind (effect (KillGroup pid)) (\<lambda>_. if ai_survives A then effect (KillGroup pid) else sret ())
           else sret ())
      | None \<Rightarrow> sret ())"

definition stop_stage :: "action_io \<Rightarrow> string \<Rightarrow> int \<Rightarrow> unit act" where
  "stop_stage A ref owner_epoch =
     sbind (row_of ref) (\<lambda>found.
       case found of
         None \<Rightarrow> sfail (ExecutionError ''training_stop_unresolved'')
       | Some row \<Rightarrow>
           (if w_state row = ''cancelled'' then sret ()
            else if w_state row \<notin> {''accepted'', ''running'', ''stopping''} then sfail (ExecutionError ''training_stop_unresolved'')
            else if w_owner_epoch row \<noteq> owner_epoch then sfail (ExecutionError ''training_stop_owner_epoch_mismatch'')
            else
              sbind (on_ledger (update_run_state ref ''stopping'' (ai_now A))) (\<lambda>_.
              sbind (case w_supervisor_state_path row of
                     Some path \<Rightarrow> (if path \<noteq> [] \<and> os_exists (ai_os A) path then supervisor_state A path else sret [])
                   | None \<Rightarrow> sret []) (\<lambda>state.
              sbind (if w_state row = ''accepted'' then cancel_launch A row else sret ()) (\<lambda>_.
              sbind (kill_child A state) (\<lambda>_.
              sbind (on_ledger (update_run_state ref ''cancelled'' (ai_now A))) (\<lambda>_.
              sbind (latest_row ref) (\<lambda>latest.
              sbind (on_ledger (collect_log (ai_log_env A) (os_log (ai_os_after A)) latest (ai_now A))) (\<lambda>_.
              sbind (on_ledger (queue_update latest (cancelled_update latest) (ai_now A))) (\<lambda>_.
                flush_action A ref))))))))))"

section \<open>One action\<close>

definition run_action :: "path_env \<Rightarrow> action_io \<Rightarrow> dict \<Rightarrow> unit act" where
  "run_action P A action =
     (if dict_get action ''kind'' = JStr ''start_training_stage'' then
        sbind (slift (parse_start P action)) (start_stage A)
      else if dict_get action ''kind'' = JStr ''stop_training_run'' then
        sbind (slift (epoch_of (dict_get action ''owner_epoch''))) (\<lambda>epoch.
        sbind (slift (action_ref_of (dict_get action ''run_ref''))) (\<lambda>ref. stop_stage A ref epoch))
      else sfail (ExecutionError ''training_action_unsupported''))"

definition claim_token_ok :: "json \<Rightarrow> bool" where
  "claim_token_ok v = (case v of JStr s \<Rightarrow> 32 \<le> py_len s \<and> py_len s \<le> 512 \<and> control_free s | _ \<Rightarrow> False)"

text \<open>The result reported to the centre; only the execution errors become results.\<close>

definition handle_action :: "path_env \<Rightarrow> action_io \<Rightarrow> dict \<Rightarrow> dict act" where
  "handle_action P A action =
     sbind (slift (action_ref_of (dict_get action ''action_ref''))) (\<lambda>action_ref.
       if \<not> claim_token_ok (dict_get action ''claim_token'') then sfail invalid_action
       else (\<lambda>s.
         let head = [(''action_ref'', JStr action_ref), (''claim_token'', dict_get action ''claim_token'')] in
         case run_action P A action s of
           (Inr _, s') \<Rightarrow> (Inr (head @ [(''status'', JStr ''succeeded'')]), s')
         | (Inl (ExecutionError code), s') \<Rightarrow>
             (Inr (head @ [(''status'', JStr ''failed''), (''error'', JObj [(''code'', JStr code)])]), s')
         | (Inl e, s') \<Rightarrow> (Inl e, s')))"

end
