(* ===== verification/Monitor_Properties.thy ===== *)
theory Monitor_Properties
  imports Worker_Launch Log_Properties "HOL-Library.Code_Target_Nat"
begin

text \<open>
  What the monitoring thread of the Worker does to a run it does not look at (nothing), and
  what follows from it: an exit whose report is interrupted is never reported, and a log line
  that cannot be parsed stops the reports of every run of the node.
\<close>

section \<open>The ledger stays well formed\<close>

lemma queue_update_ok: "queue_update run p now l = Inr l' \<Longrightarrow> ledger_ok l \<Longrightarrow> ledger_ok l'"
  by (auto simp: queue_update_def rbind_eq_Inr intro: enqueue_update_ok)

lemma queue_updates_ok: "rfold (\<lambda>u. queue_update run u now) us l = Inr l' \<Longrightarrow> ledger_ok l \<Longrightarrow> ledger_ok l'"
  by (induction us arbitrary: l) (auto simp: rbind_eq_Inr intro: queue_update_ok)

lemma collect_log_ok: "collect_log L files run now l = Inr l' \<Longrightarrow> ledger_ok l \<Longrightarrow> ledger_ok l'"
  by (auto simp: collect_log_def Let_def rbind_eq_Inr split: option.splits if_splits
      intro: queue_updates_ok update_log_offset_ok)

lemma set_and_queue_ok: "set_and_queue r st payload now l = Inr l' \<Longrightarrow> ledger_ok l \<Longrightarrow> ledger_ok l'"
  by (auto simp: set_and_queue_def queue_latest_def rbind_eq_Inr split: option.splits
      intro: queue_update_ok update_run_state_ok)

lemma observe_supervisor_ok: "observe_supervisor os run now l = Inr l' \<Longrightarrow> ledger_ok l \<Longrightarrow> ledger_ok l'"
  by (auto simp: observe_supervisor_def split: option.splits if_splits intro: set_and_queue_ok)

lemma heartbeat_run_ok: "heartbeat_run L os clock now r m = (x, m') \<Longrightarrow> ledger_ok (mo_ledger m) \<Longrightarrow> ledger_ok (mo_ledger m')"
  by (auto simp: heartbeat_run_def split: option.splits if_splits sum.splits intro: queue_update_ok)

lemma tick_run_ok: "tick_run L os clock now run m = (x, m') \<Longrightarrow> ledger_ok (mo_ledger m) \<Longrightarrow> ledger_ok (mo_ledger m')"
  using heartbeat_run_ok[of L os clock now "w_run_ref run" "m\<lparr>mo_ledger := l\<rparr>" x m' for l]
  by (auto simp: tick_run_def split: sum.splits dest: collect_log_ok observe_supervisor_ok)

lemma tick_runs_ok: "tick_runs L os clock now runs m = (x, m') \<Longrightarrow> ledger_ok (mo_ledger m) \<Longrightarrow> ledger_ok (mo_ledger m')"
  by (induction runs arbitrary: m) (auto split: prod.splits sum.splits dest: tick_run_ok)

lemma flush_updates_ok: "flush_updates E i r now us chs (l, db) = Inr (l', db') \<Longrightarrow> ledger_ok l \<Longrightarrow> ledger_ok l'"
proof (induction us arbitrary: chs l db)
  case (Cons u us)
  let ?ch = "case chs of [] \<Rightarrow> RequestLost | ch # _ \<Rightarrow> ch"
  from Cons.prems(1) obtain epoch seq where nums: "py_int (dict_get u ''owner_epoch'') = Inr epoch" "py_int (dict_get u ''worker_seq'') = Inr seq"
    by (auto simp: rbind_eq_Inr)
  obtain ok d where pub: "publish_run_updates E i ?ch r epoch seq [dict_del ''worker_seq'' (dict_del ''owner_epoch'' u)] now db = (ok, d)"
    by force
  show ?case using Cons acknowledge_updates_ok[of l r epoch "nat seq"] nums pub by (cases ok) auto
qed simp

lemma flush_refs_ok: "flush_refs E i now chs refs (l, db) = Inr (l', db') \<Longrightarrow> ledger_ok l \<Longrightarrow> ledger_ok l'"
proof (induction refs arbitrary: l db)
  case (Cons r refs)
  then obtain l1 d where "flush_run E i r now (chs r) (l, db) = Inr (l1, d)" "flush_refs E i now chs refs (l1, d) = Inr (l', db')"
    by (auto simp: rbind_eq_Inr)
  then show ?case using Cons by (auto simp: flush_run_def rbind_eq_Inr dest: flush_updates_ok)
qed simp

lemma tick_ok: "tick L E i os clock now chs (m, db) = (x, m', db') \<Longrightarrow> ledger_ok (mo_ledger m) \<Longrightarrow> ledger_ok (mo_ledger m')"
  by (auto simp: tick_def split: prod.splits sum.splits dest: tick_runs_ok flush_refs_ok)

lemma observe_rows_ok: "observe_rows L os now rows l = (x, l') \<Longrightarrow> ledger_ok l \<Longrightarrow> ledger_ok l'"
  by (induction rows arbitrary: l) (auto split: sum.splits dest: collect_log_ok observe_supervisor_ok)

lemma queue_reconciliations_ok: "queue_reconciliations os now rs l = (x, l') \<Longrightarrow> ledger_ok l \<Longrightarrow> ledger_ok l'"
  by (induction rs arbitrary: l) (auto simp: queue_reconciliation_def split: sum.splits option.splits dest: queue_update_ok)

lemma reconciliation_updates_ok: "reconciliation_updates L os probe now l = (x, l') \<Longrightarrow> ledger_ok l \<Longrightarrow> ledger_ok l'"
proof -
  assume l: "reconciliation_updates L os probe now l = (x, l')" "ledger_ok l"
  obtain y l1 where l1: "observe_rows L os now (list_active_runs l) l = (y, l1)" by force
  obtain z l2 where l2: "reconcile_active_runs probe now l1 = (z, l2)" by force
  have "ledger_ok l1" by (rule observe_rows_ok[OF l1 l(2)])
  then have "ledger_ok l1" "ledger_ok l2" using reconcile_active_runs_ok[of l1 probe now] l2 by simp_all
  then show "ledger_ok l'" using l(1) l1 l2
    by (cases y; cases z) (auto simp: reconciliation_updates_def dest: queue_reconciliations_ok)
qed

section \<open>Runs that are left alone\<close>

definition untouched :: "string \<Rightarrow> ledger \<Rightarrow> ledger \<Rightarrow> bool" where
  "untouched ref l l' \<longleftrightarrow> get_run ref l' = get_run ref l \<and> ref_updates ref l' = ref_updates ref l"

lemma untouched_refl [simp]: "untouched ref l l"
  by (simp add: untouched_def)

lemma untouched_trans: "untouched ref l l' \<Longrightarrow> untouched ref l' l'' \<Longrightarrow> untouched ref l l''"
  by (simp add: untouched_def)

lemma untouched_rewrite:
  assumes "\<And>r. P r \<Longrightarrow> w_run_ref r \<noteq> ref \<and> w_run_ref (f r) \<noteq> ref"
  shows "untouched ref l (l\<lparr>worker_runs := sql_update P f (worker_runs l)\<rparr>)"
proof -
  have "filter (\<lambda>r. w_run_ref r = ref) (sql_update P f t) = filter (\<lambda>r. w_run_ref r = ref) t" for t
    using assms by (induction t) auto
  then show ?thesis by (simp add: untouched_def get_run_def ref_updates_def)
qed

lemma untouched_state: "update_run_state r st now l = Inr l' \<Longrightarrow> r \<noteq> ref \<Longrightarrow> untouched ref l l'"
  by (auto simp: update_run_state_def Let_def split: if_splits intro!: untouched_rewrite)

lemma untouched_offset: "update_log_offset r off now l = Inr l' \<Longrightarrow> r \<noteq> ref \<Longrightarrow> untouched ref l l'"
  by (auto simp: update_log_offset_def split: if_splits intro!: untouched_rewrite)

lemma untouched_enqueue:
  assumes "enqueue_update r epoch p now l = Inr (n, l')" "r \<noteq> ref"
  shows "untouched ref l l'"
proof -
  from assms(1) obtain u f where l': "l' = (l\<lparr>worker_runs := sql_update (\<lambda>q. w_run_ref q = r) f (worker_runs l)\<rparr>)
      \<lparr>worker_run_updates := worker_run_updates l @ [u]\<rparr>" "u_run_ref u = r" "\<And>q. w_run_ref (f q) = w_run_ref q"
    by (auto simp: enqueue_update_def Let_def split: if_splits option.splits)
  have "untouched ref l (l\<lparr>worker_runs := sql_update (\<lambda>q. w_run_ref q = r) f (worker_runs l)\<rparr>)"
    using assms(2) l'(3) by (intro untouched_rewrite) simp
  then show ?thesis using assms(2) l'(1,2) by (simp add: untouched_def get_run_def ref_updates_def)
qed

lemma untouched_queue: "queue_update run p now l = Inr l' \<Longrightarrow> w_run_ref run \<noteq> ref \<Longrightarrow> untouched ref l l'"
  by (auto simp: queue_update_def rbind_eq_Inr intro: untouched_enqueue)

lemma untouched_queue2:
  "queue_update run p now l = Inr l1 \<Longrightarrow> queue_update run q now l1 = Inr l2 \<Longrightarrow> w_run_ref run \<noteq> ref \<Longrightarrow> untouched ref l l2"
  by (rule untouched_trans[OF untouched_queue untouched_queue])

lemma untouched_queues:
  "rfold (\<lambda>u. queue_update run u now) us l = Inr l' \<Longrightarrow> w_run_ref run \<noteq> ref \<Longrightarrow> untouched ref l l'"
proof (induction us arbitrary: l)
  case (Cons u us)
  then show ?case by (auto simp: rbind_eq_Inr intro: untouched_trans untouched_queue)
qed simp

lemma untouched_collect: "collect_log L files run now l = Inr l' \<Longrightarrow> w_run_ref run \<noteq> ref \<Longrightarrow> untouched ref l l'"
  by (auto simp: collect_log_def Let_def rbind_eq_Inr split: option.splits if_splits
      intro: untouched_trans untouched_offset untouched_queues)

lemma untouched_set_and_queue:
  assumes "set_and_queue r st payload now l = Inr l'" "r \<noteq> ref"
  shows "untouched ref l l'"
proof -
  from assms(1) obtain l1 row where "update_run_state r st now l = Inr l1" "get_run r l1 = Some row"
    "queue_update row (payload row) now l1 = Inr l'"
    by (auto simp: set_and_queue_def queue_latest_def rbind_eq_Inr split: option.splits)
  then show ?thesis using assms(2) get_run_Some[of r l1 row] untouched_state untouched_queue untouched_trans by metis
qed

lemma untouched_observe: "observe_supervisor os run now l = Inr l' \<Longrightarrow> w_run_ref run \<noteq> ref \<Longrightarrow> untouched ref l l'"
  by (auto simp: observe_supervisor_def split: option.splits if_splits intro: untouched_set_and_queue)

lemma untouched_heartbeat:
  assumes "heartbeat_run L os clock now r m = (x, m')" "r \<noteq> ref"
  shows "untouched ref (mo_ledger m) (mo_ledger m')"
proof (cases "get_run r (mo_ledger m)")
  case (Some row)
  then have "w_run_ref row \<noteq> ref" using get_run_Some assms(2) by blast
  then show ?thesis using assms(1) Some
    by (auto simp: heartbeat_run_def split: if_splits sum.splits intro: untouched_queue untouched_queue2)
qed (use assms in \<open>simp add: heartbeat_run_def\<close>)

lemma untouched_tick_run:
  assumes "tick_run L os clock now run m = (x, m')" "w_run_ref run \<noteq> ref"
  shows "untouched ref (mo_ledger m) (mo_ledger m')"
proof (cases "collect_log L (os_log os) run now (mo_ledger m)")
  case (Inl e)
  then show ?thesis using assms by (simp add: tick_run_def)
next
  case (Inr l1)
  note u1 = untouched_collect[OF Inr assms(2)]
  show ?thesis
  proof (cases "observe_supervisor os run now l1")
    case (Inl e)
    then show ?thesis using assms Inr u1 by (auto simp: tick_run_def)
  next
    case (Inr l2)
    then have "heartbeat_run L os clock now (w_run_ref run) (m\<lparr>mo_ledger := l2\<rparr>) = (x, m')"
      using assms(1) \<open>collect_log L (os_log os) run now (mo_ledger m) = Inr l1\<close> by (simp add: tick_run_def)
    from untouched_heartbeat[OF this assms(2)] untouched_observe[OF Inr assms(2)] u1 show ?thesis
      by (auto intro: untouched_trans)
  qed
qed

lemma untouched_tick_runs:
  "tick_runs L os clock now runs m = (x, m') \<Longrightarrow> \<forall>r \<in> set runs. w_run_ref r \<noteq> ref \<Longrightarrow> untouched ref (mo_ledger m) (mo_ledger m')"
proof (induction runs arbitrary: m)
  case (Cons r rs)
  obtain y m1 where m1: "tick_run L os clock now r m = (y, m1)" by (cases "tick_run L os clock now r m")
  have u: "untouched ref (mo_ledger m) (mo_ledger m1)" by (rule untouched_tick_run[OF m1]) (use Cons.prems(2) in simp)
  show ?case
  proof (cases y)
    case (Inl e)
    then show ?thesis using Cons.prems(1) m1 u by simp
  next
    case (Inr z)
    then have "tick_runs L os clock now rs m1 = (x, m')" using Cons.prems(1) m1 by simp
    then show ?thesis using Cons.IH Cons.prems(2) u by (auto intro: untouched_trans)
  qed
qed simp

lemma untouched_ack: "r \<noteq> ref \<Longrightarrow> untouched ref l (acknowledge_updates r epoch n l)"
proof -
  assume "r \<noteq> ref"
  then have "ref_updates ref (acknowledge_updates r epoch n l) = ref_updates ref l"
    unfolding ref_updates_def acknowledged_rows filter_filter by (intro filter_cong) auto
  then show ?thesis by (simp add: untouched_def get_run_def acknowledge_updates_def)
qed

lemma untouched_flush:
  "flush_updates E i r now us chs (l, db) = Inr (l', db') \<Longrightarrow> r \<noteq> ref \<Longrightarrow> untouched ref l l'"
proof (induction us arbitrary: chs l db)
  case (Cons u us)
  let ?ch = "case chs of [] \<Rightarrow> RequestLost | ch # _ \<Rightarrow> ch"
  from Cons.prems(1) obtain epoch seq where nums: "py_int (dict_get u ''owner_epoch'') = Inr epoch" "py_int (dict_get u ''worker_seq'') = Inr seq"
    by (auto simp: rbind_eq_Inr)
  obtain ok d where pub: "publish_run_updates E i ?ch r epoch seq [dict_del ''worker_seq'' (dict_del ''owner_epoch'' u)] now db = (ok, d)"
    by force
  show ?case
  proof (cases ok)
    case True
    then have "flush_updates E i r now us (drop 1 chs) (acknowledge_updates r epoch (nat seq) l, d) = Inr (l', db')"
      using Cons.prems(1) nums pub by simp
    from Cons.IH[OF this Cons.prems(2)] show ?thesis by (rule untouched_trans[OF untouched_ack[OF Cons.prems(2)]])
  qed (use Cons.prems(1) nums pub in simp)
qed simp

lemma untouched_flush_run: "flush_run E i r now chs (l, db) = Inr (l', db') \<Longrightarrow> r \<noteq> ref \<Longrightarrow> untouched ref l l'"
  by (auto simp: flush_run_def rbind_eq_Inr intro: untouched_flush)

section \<open>A log line that cannot be parsed\<close>

text \<open>The first line the collector has not read yet is complete, and parsing it raises.\<close>

definition poisoned :: "log_env \<Rightarrow> node_os \<Rightarrow> ledger_run \<Rightarrow> bool" where
  "poisoned L os run \<longleftrightarrow> (\<exists>content line rest e. Option.bind (w_stdout_path run) (os_log os) = Some content \<and>
     drop (log_start run content) content = line @ NL # rest \<and> NL \<notin> set line \<and> length line < MAX_LOG_LINE_BYTES \<and>
     log_record L run (line @ [NL]) = Inl e)"

lemma readline_line: "NL \<notin> set line \<Longrightarrow> length line < n \<Longrightarrow> readline n (line @ NL # rest) = line @ [NL]"
  by (induction line arbitrary: n) auto

lemma read_lines_step:
  "readline (min (MAX_LOG_LINE_BYTES + 1) MAX_LOG_BATCH_BYTES) s = raw \<Longrightarrow> raw \<noteq> [] \<Longrightarrow> 0 < MAX_LOG_BATCH_BYTES \<Longrightarrow>
    0 < k \<Longrightarrow> \<exists>rest. read_lines k 0 s = raw # rest"
  by (cases k) (auto simp: Let_def)

lemma poisoned_collect: "poisoned L os run \<Longrightarrow> \<exists>e. collect_log L (os_log os) run now l = Inl e"
proof -
  assume "poisoned L os run"
  then obtain content line rest e where log: "Option.bind (w_stdout_path run) (os_log os) = Some content"
    and start: "drop (log_start run content) content = line @ NL # rest" "NL \<notin> set line" "length line < MAX_LOG_LINE_BYTES"
    and bad: "log_record L run (line @ [NL]) = Inl e" by (auto simp: poisoned_def)
  have "readline (min (MAX_LOG_LINE_BYTES + 1) (MAX_LOG_BATCH_BYTES - 0)) (line @ NL # rest) = line @ [NL]"
    using start(2,3) by (intro readline_line) (simp_all add: MAX_LOG_BATCH_BYTES_def MAX_LOG_LINE_BYTES_def)
  then obtain rest' where lines: "read_lines MAX_LOG_BATCH_LINES 0 (line @ NL # rest) = (line @ [NL]) # rest'"
    using read_lines_step[of "line @ NL # rest" "line @ [NL]" MAX_LOG_BATCH_LINES]
    by (auto simp: MAX_LOG_BATCH_LINES_def MAX_LOG_BATCH_BYTES_def)
  then show ?thesis using log start bad by (simp add: collect_log_def Let_def log_start_def)
qed

lemma list_active_mem: "get_run ref l = Some run \<Longrightarrow> w_state run \<in> {''running'', ''stopping''} \<Longrightarrow> run \<in> set (list_active_runs l)"
  using get_run_Some[of ref l run] by (auto simp: list_active_runs_def order_by_def)

lemma tick_runs_poisoned:
  assumes "run \<in> set runs" "distinct (map w_run_ref runs)" "poisoned L os run" "tick_runs L os clock now runs m = (x, m')"
  shows "(\<exists>e. x = Inl e) \<and> untouched (w_run_ref run) (mo_ledger m) (mo_ledger m')"
  using assms(1,2,4)
proof (induction runs arbitrary: m)
  case (Cons r rs)
  obtain y m1 where m1: "tick_run L os clock now r m = (y, m1)" by (cases "tick_run L os clock now r m")
  show ?case
  proof (cases "r = run")
    case True
    from poisoned_collect[OF assms(3)] obtain e where "collect_log L (os_log os) run now (mo_ledger m) = Inl e" by blast
    then show ?thesis using Cons.prems(3) True by (auto simp: tick_run_def)
  next
    case False
    then have ne: "w_run_ref r \<noteq> w_run_ref run" and mem: "run \<in> set rs" using Cons.prems(1,2) by auto
    note u = untouched_tick_run[OF m1 ne]
    show ?thesis
    proof (cases y)
      case (Inl e)
      then show ?thesis using Cons.prems(3) m1 u by auto
    next
      case (Inr z)
      then have "tick_runs L os clock now rs m1 = (x, m')" using Cons.prems(3) m1 by simp
      then show ?thesis using Cons.IH[OF mem] Cons.prems(2) u by (auto intro: untouched_trans)
    qed
  qed
qed simp

lemma tick_poisoned:
  assumes "ledger_ok (mo_ledger m)" "get_run ref (mo_ledger m) = Some run" "w_state run \<in> {''running'', ''stopping''}"
    and "poisoned L os run" "tick L E i os clock now chs (m, db) = (x, m', db')"
  shows "(\<exists>e. x = Inl e) \<and> db' = db \<and> get_run ref (mo_ledger m') = Some run"
proof -
  obtain y m1 where m1: "tick_runs L os clock now (list_active_runs (mo_ledger m)) m = (y, m1)"
    by (cases "tick_runs L os clock now (list_active_runs (mo_ledger m)) m")
  from tick_runs_poisoned[OF list_active_mem[OF assms(2,3)] distinct_list_active[OF ledger_okD(1)[OF assms(1)]] assms(4) m1]
  obtain e where "y = Inl e" "untouched (w_run_ref run) (mo_ledger m) (mo_ledger m1)" by blast
  moreover have "w_run_ref run = ref" using get_run_Some[OF assms(2)] by simp
  ultimately show ?thesis using assms(2,5) m1 by (auto simp: tick_def untouched_def)
qed

section \<open>Rounds\<close>

text \<open>Rounds of the monitoring thread and restarts of the Worker, with anything the node and the centre do between them.\<close>

inductive monitor_step :: "log_env \<Rightarrow> env \<Rightarrow> worker_identity \<Rightarrow> ledger \<Rightarrow> ledger \<Rightarrow> bool"
  for L E i where
  round: "tick L E i os clock now chs (m, db) = (x, m', db') \<Longrightarrow> monitor_step L E i (mo_ledger m) (mo_ledger m')"
| restart: "reconciliation_updates L os probe now l = (x, l') \<Longrightarrow> monitor_step L E i l l'"

lemma untouched_reconcile_row: "reconcile_row probe now r l = Inr (x, l') \<Longrightarrow> w_run_ref r \<noteq> ref \<Longrightarrow> untouched ref l l'"
  by (auto simp: reconcile_row_def Let_def split: option.splits intro!: untouched_rewrite)

lemma untouched_reconcile:
  "\<forall>r \<in> set rs. w_run_ref r \<noteq> ref \<Longrightarrow> untouched ref l (snd (reconcile_rows probe now rs l))"
proof (induction rs arbitrary: l)
  case (Cons r rs)
  show ?case
  proof (cases "reconcile_row probe now r l")
    case (Inr p)
    then obtain x l' where p: "reconcile_row probe now r l = Inr (x, l')" by (cases p) auto
    have "untouched ref l l'" "untouched ref l' (snd (reconcile_rows probe now rs l'))"
      using untouched_reconcile_row[OF p] Cons by simp_all
    then have "untouched ref l (snd (reconcile_rows probe now rs l'))" by (rule untouched_trans)
    then show ?thesis using p by (cases "reconcile_rows probe now rs l'"; cases "fst (reconcile_rows probe now rs l')") simp_all
  qed simp
qed simp

lemma reconcile_result_refs:
  "reconcile_rows probe now rs l = (Inr ress, l') \<Longrightarrow> \<forall>r \<in> set ress. rc_run_ref r \<in> w_run_ref ` set rs"
proof (induction rs arbitrary: l ress)
  case (Cons r rs)
  then obtain x l1 ress' where "reconcile_row probe now r l = Inr (x, l1)" "reconcile_rows probe now rs l1 = (Inr ress', l')" "ress = x # ress'"
    by (auto split: sum.splits prod.splits)
  then show ?case using Cons.IH by (auto simp: reconcile_row_def Let_def split: option.splits)
qed simp

lemma untouched_observe_rows:
  "observe_rows L os now rows l = (x, l') \<Longrightarrow> \<forall>r \<in> set rows. w_run_ref r \<noteq> ref \<Longrightarrow> untouched ref l l'"
proof (induction rows arbitrary: l)
  case (Cons r rs)
  show ?case
  proof (cases "collect_log L (os_log os) r now l")
    case (Inl e)
    then show ?thesis using Cons.prems(1) by simp
  next
    case c: (Inr l1)
    have u1: "untouched ref l l1" by (rule untouched_collect[OF c]) (use Cons.prems(2) in simp)
    show ?thesis
    proof (cases "observe_supervisor os r now l1")
      case (Inl e)
      then show ?thesis using Cons.prems(1) c u1 by simp
    next
      case (Inr l2)
      have u2: "untouched ref l1 l2" by (rule untouched_observe[OF Inr]) (use Cons.prems(2) in simp)
      have "untouched ref l2 l'" using Cons.IH[of l2] Cons.prems Inr c by simp
      then show ?thesis using u1 u2 untouched_trans by blast
    qed
  qed
qed simp

lemma untouched_queue_reconciliations:
  "queue_reconciliations os now rs l = (x, l') \<Longrightarrow> \<forall>r \<in> set rs. rc_run_ref r \<noteq> ref \<Longrightarrow> untouched ref l l'"
proof (induction rs arbitrary: l)
  case (Cons r rs)
  show ?case
  proof (cases "queue_reconciliation os now r l")
    case (Inl e)
    then show ?thesis using Cons.prems(1) by simp
  next
    case (Inr l1)
    have "untouched ref l l1"
    proof (cases "get_run (rc_run_ref r) l")
      case (Some row)
      then have "w_run_ref row \<noteq> ref" using get_run_Some[OF Some] Cons.prems(2) by simp
      then show ?thesis using Inr Some untouched_queue by (simp add: queue_reconciliation_def)
    qed (use Inr in \<open>simp add: queue_reconciliation_def\<close>)
    then show ?thesis using Cons.IH[of l1] Cons.prems Inr by (auto intro: untouched_trans)
  qed
qed simp

lemma inactive_not_listed: "get_run ref l = Some run \<Longrightarrow> w_state run \<notin> {''running'', ''stopping''} \<Longrightarrow> ledger_ok l \<Longrightarrow>
    \<forall>r \<in> set (list_active_runs l). w_run_ref r \<noteq> ref"
proof (intro ballI notI)
  fix r assume run: "get_run ref l = Some run" "w_state run \<notin> {''running'', ''stopping''}" "ledger_ok l"
    and r: "r \<in> set (list_active_runs l)" "w_run_ref r = ref"
  then have "get_run ref l = Some r" using get_run_iff[OF run(3)] by (simp add: list_active_runs_def order_by_def)
  then show False using run r by (simp add: list_active_runs_def order_by_def)
qed

lemma restart_untouched:
  assumes "reconciliation_updates L os probe now l = (x, l')" "get_run ref l = Some run" "w_state run \<notin> {''running'', ''stopping''}"
    and "ledger_ok l"
  shows "untouched ref l l'"
proof -
  obtain y l1 where l1: "observe_rows L os now (list_active_runs l) l = (y, l1)" by force
  have u1: "untouched ref l l1" by (rule untouched_observe_rows[OF l1 inactive_not_listed[OF assms(2-4)]])
  then have g1: "get_run ref l1 = Some run" and idle: "\<forall>r \<in> set (list_active_runs l1). w_run_ref r \<noteq> ref"
    using assms(2) inactive_not_listed[OF _ assms(3) observe_rows_ok[OF l1 assms(4)]] by (simp_all add: untouched_def)
  show ?thesis
  proof (cases y)
    case (Inl e)
    then show ?thesis using assms(1) l1 u1 by (simp add: reconciliation_updates_def)
  next
    case (Inr z)
    obtain z l2 where l2: "reconcile_active_runs probe now l1 = (z, l2)" by force
    have u2: "untouched ref l1 l2" using untouched_reconcile[OF idle, of l1 probe now] l2 by (simp add: reconcile_active_runs_def)
    show ?thesis
    proof (cases z)
      case (Inl e)
      then show ?thesis using assms(1) l1 l2 u1 u2 \<open>y = Inr _\<close> by (auto simp: reconciliation_updates_def intro: untouched_trans)
    next
      case z: (Inr rs)
      then have "\<forall>r \<in> set rs. rc_run_ref r \<noteq> ref"
        using reconcile_result_refs[of probe now "list_active_runs l1" l1 rs l2] l2 idle by (fastforce simp: reconcile_active_runs_def)
      moreover have "queue_reconciliations os now rs l2 = (x, l')"
        using assms(1) l1 l2 z \<open>y = Inr _\<close> by (simp add: reconciliation_updates_def)
      ultimately have "untouched ref l2 l'" using untouched_queue_reconciliations by blast
      then show ?thesis using u1 u2 untouched_trans by blast
    qed
  qed
qed

text \<open>A run the monitoring thread has no reason to look at again keeps its row and its updates.\<close>

lemma untouched_flush_refs:
  "flush_refs E i now chs refs (l, db) = Inr (l', db') \<Longrightarrow> ref \<notin> set refs \<Longrightarrow> untouched ref l l'"
proof (induction refs arbitrary: l db)
  case (Cons r refs)
  then obtain l1 d where f: "flush_run E i r now (chs r) (l, db) = Inr (l1, d)" "flush_refs E i now chs refs (l1, d) = Inr (l', db')"
    by (auto simp: rbind_eq_Inr)
  have "untouched ref l l1" by (rule untouched_flush_run[OF f(1)]) (use Cons.prems(2) in auto)
  moreover have "untouched ref l1 l'" using Cons f(2) by simp
  ultimately show ?case by (rule untouched_trans)
qed simp

lemma tick_idle:
  assumes "tick L E i os clock now chs (m, db) = (x, m', db')" "get_run ref (mo_ledger m) = Some run"
    and "w_state run \<notin> {''running'', ''stopping''}" "ledger_ok (mo_ledger m)" "ref_updates ref (mo_ledger m) = []"
  shows "untouched ref (mo_ledger m) (mo_ledger m')"
proof -
  obtain y m1 where m1: "tick_runs L os clock now (list_active_runs (mo_ledger m)) m = (y, m1)"
    by (cases "tick_runs L os clock now (list_active_runs (mo_ledger m)) m")
  have u1: "untouched ref (mo_ledger m) (mo_ledger m1)" by (rule untouched_tick_runs[OF m1 inactive_not_listed[OF assms(2-4)]])
  show ?thesis
  proof (cases "\<exists>l d. y = Inr () \<and> flush_refs E i now chs (pending_run_refs (mo_ledger m1)) (mo_ledger m1, db) = Inr (l, d)")
    case True
    then obtain l d where f: "y = Inr ()" "flush_refs E i now chs (pending_run_refs (mo_ledger m1)) (mo_ledger m1, db) = Inr (l, d)" by blast
    have "ref_updates ref (mo_ledger m1) = []" using u1 assms(5) by (simp add: untouched_def)
    then have "ref \<notin> set (pending_run_refs (mo_ledger m1))" by (auto simp: ref_updates_def pending_run_refs_def filter_empty_conv)
    from untouched_flush_refs[OF f(2) this] u1 have "untouched ref (mo_ledger m) l" using untouched_trans by blast
    then show ?thesis using assms(1) m1 f by (auto simp: tick_def)
  next
    case False
    then have "m' = m1" using assms(1) m1 by (auto simp: tick_def split: sum.splits prod.splits)
    then show ?thesis using u1 by simp
  qed
qed

lemma idle_forever:
  assumes "(monitor_step L E i)\<^sup>*\<^sup>* l l'" "ledger_ok l" "get_run ref l = Some run"
    and "w_state run \<notin> {''running'', ''stopping''}" "ref_updates ref l = []"
  shows "ledger_ok l' \<and> untouched ref l l'"
  using assms(1)
proof (induction rule: rtranclp_induct)
  case (step l1 l2)
  then have l1: "ledger_ok l1" "get_run ref l1 = Some run" "ref_updates ref l1 = []" and u: "untouched ref l l1"
    using assms(3,5) by (auto simp: untouched_def)
  from step(2) have "ledger_ok l2 \<and> untouched ref l1 l2"
  proof cases
    case (round os clock now chs m db x m' db')
    then show ?thesis using tick_idle[OF round(3)] tick_ok[OF round(3)] l1 assms(4) by simp
  next
    case (restart os probe now x)
    then show ?thesis using restart_untouched[OF restart(1) l1(2) assms(4) l1(1)] reconciliation_updates_ok l1(1) by blast
  qed
  then show ?case using u untouched_trans by blast
qed (use assms(2) in simp)

section \<open>Properties\<close>

text \<open>
  When the Worker sees that a training process has exited it first records the end of the
  run and then, in a second transaction, queues the report.  If it stops between the two, the
  report is lost: no round of the monitoring thread and no restart looks at the run again, so
  nothing about the exit is ever queued for the centre.
\<close>

theorem interrupted_exit_never_reported:
  assumes "get_run ref l = Some run" "ledger_ok l" "ref_updates ref l = []"
    and "Option.bind (w_supervisor_state_path run) (os_json os) = Some state"
    and "dict_get state ''contract'' = JStr SUPERVISOR_CONTRACT" "dict_get state ''status'' = JStr ''exited''"
    and "as_int (dict_get state ''exit_code'') = Some code"
    and "update_run_state ref (if code = 0 then ''succeeded'' else ''failed'') now l = Inr l1"
    and "(monitor_step L E i)\<^sup>*\<^sup>* l1 l'"
  shows "observe_supervisor os run now l = queue_latest ref (exited_update (dict_get state ''exit_code'') code) now l1 \<and>
    ref_updates ref l' = [] \<and> (\<exists>row. get_run ref l' = Some row \<and> w_state row \<in> {''succeeded'', ''failed''})"
proof -
  let ?st = "if code = 0 then ''succeeded'' else ''failed''"
  note ref = get_run_Some[OF assms(1)]
  have l1: "worker_runs l1 = sql_update (\<lambda>r. w_run_ref r = ref) (\<lambda>r. r\<lparr>w_state := ?st, w_updated_at := now\<rparr>) (worker_runs l)"
    "worker_run_updates l1 = worker_run_updates l"
    using assms(8) by (auto simp: update_run_state_def Let_def split: if_split_asm)
  have row: "get_run ref l1 = Some (run\<lparr>w_state := ?st, w_updated_at := now\<rparr>)"
    using assms(1) ref unfolding get_run_def l1(1)
    by (subst fetchone_key_update[where k = w_run_ref]) simp_all
  have "untouched ref l1 l'"
    using idle_forever[OF assms(9) update_run_state_ok[OF assms(2,8)] row] l1(2) assms(3) by (simp add: ref_updates_def)
  then show ?thesis using row l1(2) assms(3-8) ref
    by (simp add: untouched_def ref_updates_def observe_supervisor_def set_and_queue_def cong: if_cong)
qed

definition ex_node_os :: node_os where
  "ex_node_os = \<lparr>os_json = (\<lambda>p. Some [(''contract'', JStr SUPERVISOR_CONTRACT), (''status'', JStr ''exited''), (''exit_code'', JInt 0)]),
     os_exists = (\<lambda>p. True), os_alive = (\<lambda>p. False), os_log = (\<lambda>p. Some (''{[1]: 2}'' @ [NL])), os_resources = []\<rparr>"

definition ex_exit_run :: "string \<Rightarrow> int \<Rightarrow> ledger_run" where
  "ex_exit_run st t = (ex_row st (Some 5) 0)\<lparr>w_supervisor_state_path := Some ''state'', w_stdout_path := Some ''log'',
     w_monitoring_format := ''transformers'', w_updated_at := t\<rparr>"

definition ex_exit_ledger :: "string \<Rightarrow> int \<Rightarrow> ledger" where
  "ex_exit_ledger st t = \<lparr>worker_runs = [ex_exit_run st t], worker_run_updates = []\<rparr>"

lemma ex_exit_ledger:
  "get_run ''r1'' (ex_exit_ledger st t) = Some (ex_exit_run st t)"
  "st \<in> set KNOWN_RUN_STATES \<Longrightarrow> ledger_ok (ex_exit_ledger st t)" "ref_updates ''r1'' (ex_exit_ledger st t) = []"
  by (simp_all add: ledger_ok_def row_ok_def outbox_ok_def get_run_def ref_updates_def ex_exit_ledger_def ex_exit_run_def ex_row_def)

theorem interrupted_exit_never_reported_witness:
  "observe_supervisor ex_node_os (ex_exit_run ''running'' 0) 7 (ex_exit_ledger ''running'' 0)
     = queue_latest ''r1'' (exited_update (JInt 0) 0) 7 (ex_exit_ledger ''succeeded'' 7)"
proof -
  have st: "Option.bind (w_supervisor_state_path (ex_exit_run ''running'' 0)) (os_json ex_node_os) =
      Some [(''contract'', JStr SUPERVISOR_CONTRACT), (''status'', JStr ''exited''), (''exit_code'', JInt 0)]"
    by (simp add: ex_exit_run_def ex_node_os_def)
  have run: "''running'' \<in> set KNOWN_RUN_STATES" by (simp add: KNOWN_RUN_STATES_def)
  have upd: "update_run_state ''r1'' (if (0 :: int) = 0 then ''succeeded'' else ''failed'') 7 (ex_exit_ledger ''running'' 0) =
      Inr (ex_exit_ledger ''succeeded'' 7)"
    by (simp add: update_run_state_def Let_def rowcount_def ex_exit_ledger_def ex_exit_run_def ex_row_def KNOWN_RUN_STATES_def)
  show ?thesis
    using interrupted_exit_never_reported[OF ex_exit_ledger(1) ex_exit_ledger(2)[OF run] ex_exit_ledger(3) st _ _ _ upd
        rtranclp.rtrancl_refl] by (simp add: dict_get_def)
qed

text \<open>
  C27: One log line that makes the event parser raise stops the reports of the whole node: as
  long as it is the first line the collector has not read, every round of the monitoring thread
  ends with the exception before anything is sent, for every run, and the offset stays before
  the line.
\<close>

theorem poison_line_stops_node:
  assumes "ledger_ok (mo_ledger m)" "get_run ref (mo_ledger m) = Some run" "w_state run \<in> {''running'', ''stopping''}"
    and "poisoned L os run" "tick L E i os clock now chs (m, db) = (x, m', db')"
  shows "(\<exists>e. x = Inl e) \<and> db' = db \<and> get_run ref (mo_ledger m') = Some run \<and> ledger_ok (mo_ledger m') \<and>
    (\<forall>os2 clock2 now2 chs2 db2. poisoned L os2 run \<longrightarrow>
       (\<exists>e m2. tick L E i os2 clock2 now2 chs2 (m', db2) = (Inl e, m2, db2)))"
proof -
  note first = tick_poisoned[OF assms]
  have ok: "ledger_ok (mo_ledger m')" by (rule tick_ok[OF assms(5,1)])
  have "\<exists>e m2. tick L E i os2 clock2 now2 chs2 (m', db2) = (Inl e, m2, db2)" if p: "poisoned L os2 run" for os2 clock2 now2 chs2 db2
  proof -
    obtain x2 m2 db3 where t: "tick L E i os2 clock2 now2 chs2 (m', db2) = (x2, m2, db3)" by (cases "tick L E i os2 clock2 now2 chs2 (m', db2)")
    from tick_poisoned[OF ok _ assms(3) p t] first show ?thesis using t by auto
  qed
  with first ok show ?thesis by blast
qed

definition ex_poison_env :: log_env where
  "ex_poison_env = ex_log_env\<lparr>le_literal := (\<lambda>s. if s = ''{[1]: 2}'' then Inl TypeError else Inl (ValueError ''SyntaxError''))\<rparr>"

theorem poison_line_stops_node_witness:
  "\<exists>e m'. tick ex_poison_env ex_env ex_identity ex_node_os 0 7 (\<lambda>_. [])
       (\<lparr>mo_ledger = ex_exit_ledger ''running'' 0, mo_beats = []\<rparr>, ex_db) = (Inl e, m', ex_db)"
proof -
  let ?m = "\<lparr>mo_ledger = ex_exit_ledger ''running'' 0, mo_beats = []\<rparr>"
  obtain x m' db' where t: "tick ex_poison_env ex_env ex_identity ex_node_os 0 7 (\<lambda>_. []) (?m, ex_db) = (x, m', db')"
    by (cases "tick ex_poison_env ex_env ex_identity ex_node_os 0 7 (\<lambda>_. []) (?m, ex_db)")
  have run: "''running'' \<in> set KNOWN_RUN_STATES" by (simp add: KNOWN_RUN_STATES_def)
  have bad: "log_record ex_poison_env (ex_exit_run ''running'' 0) (''{[1]: 2}'' @ [NL]) = Inl TypeError" by code_simp
  have nl: "NL \<notin> set ''{[1]: 2}''" by code_simp
  have poison: "poisoned ex_poison_env ex_node_os (ex_exit_run ''running'' 0)"
    unfolding poisoned_def
    by (rule exI[of _ "''{[1]: 2}'' @ [NL]"], rule exI[of _ "''{[1]: 2}''"], rule exI[of _ "[]"], rule exI[of _ TypeError])
      (use bad nl in \<open>simp add: ex_node_os_def ex_exit_run_def ex_row_def log_start_def MAX_LOG_LINE_BYTES_def\<close>)
  have ok: "ledger_ok (mo_ledger ?m)" "get_run ''r1'' (mo_ledger ?m) = Some (ex_exit_run ''running'' 0)"
    "w_state (ex_exit_run ''running'' 0) \<in> {''running'', ''stopping''}"
    using ex_exit_ledger(1) ex_exit_ledger(2)[OF run] by (simp_all add: ex_exit_run_def ex_row_def)
  have "(\<exists>e. x = Inl e) \<and> db' = ex_db" using poison_line_stops_node[OF ok poison t] by (elim conjE) (rule conjI)
  then show ?thesis using t by blast
qed

end
