(* ===== verification/Supervisor.thy ===== *)
theory Supervisor
  imports Worker_Launch
begin

text \<open>
  The supervisor of a training process (\<open>training_worker/supervisor.py\<close>): its specification, the
  launch decision it waits for, and its life as a sequence of steps between which the Worker,
  the other supervisors of the stage, signals and crashes may come.  The files of the stage
  (lock, state, decision) are shared; the last section closes them into one step relation.
\<close>

section \<open>Specification and decision\<close>

record supervisor_spec =
  ss_argv :: "string list"
  ss_working_directory :: string
  ss_log_path :: string
  ss_state_path :: string
  ss_commit_path :: string
  ss_lock_path :: string
  ss_launch_token :: string
  ss_environment :: "(string \<times> string) list"

definition invalid_spec :: py_error where
  "invalid_spec = RuntimeError ''invalid supervisor specification''"

fun spec_text :: "json \<Rightarrow> string res" where
  "spec_text (JStr s) = Inr s"
| "spec_text _ = Inl invalid_spec"

fun spec_word :: "json \<Rightarrow> string res" where
  "spec_word (JStr s) = (if s = [] then Inl invalid_spec else Inr s)"
| "spec_word _ = Inl invalid_spec"

definition spec_argv :: "json \<Rightarrow> string list res" where
  "spec_argv v = (case v of
     JList items \<Rightarrow> (if items = [] then Inl invalid_spec else rmap spec_word items)
   | _ \<Rightarrow> Inl invalid_spec)"

definition spec_environment :: "json \<Rightarrow> (string \<times> string) list res" where
  "spec_environment v = (case v of
     JObj d \<Rightarrow> rmap (\<lambda>(k, x). rbind (spec_text x) (\<lambda>t. Inr (k, t))) d
   | _ \<Rightarrow> Inl invalid_spec)"

text \<open>\<open>None\<close> is a file that is a link, missing or larger than 4 MiB.\<close>

definition read_spec :: "json res option \<Rightarrow> supervisor_spec res" where
  "read_spec content =
     (case content of
        None \<Rightarrow> Inl invalid_spec
      | Some (Inl e) \<Rightarrow> Inl e
      | Some (Inr (JObj raw)) \<Rightarrow>
          rbind (spec_argv (dict_get raw ''argv'')) (\<lambda>argv.
          rbind (spec_text (dict_get raw ''working_directory'')) (\<lambda>wd.
          rbind (spec_text (dict_get raw ''log_path'')) (\<lambda>log.
          rbind (spec_text (dict_get raw ''state_path'')) (\<lambda>state.
          rbind (spec_text (dict_get raw ''commit_path'')) (\<lambda>commit.
          rbind (spec_text (dict_get raw ''lock_path'')) (\<lambda>lock.
          rbind (spec_word (dict_get raw ''launch_token'')) (\<lambda>token.
          rbind (spec_environment (dict_get raw ''environment'')) (\<lambda>environment.
            Inr \<lparr>ss_argv = argv, ss_working_directory = wd, ss_log_path = log, ss_state_path = state,
                 ss_commit_path = commit, ss_lock_path = lock, ss_launch_token = token,
                 ss_environment = environment\<rparr>))))))))
      | Some (Inr _) \<Rightarrow> Inl invalid_spec)"

text \<open>
  The commit file: \<open>None\<close> when it cannot be read or is no JSON.  Every decision for the own
  token that is not \<open>cancel\<close> counts as a commit.
\<close>

definition launch_decision :: "json option \<Rightarrow> string \<Rightarrow> string option" where
  "launch_decision content token =
     (case content of
        Some (JObj payload) \<Rightarrow>
          (if dict_get payload ''launch_token'' \<noteq> JStr token then None
           else Some (if dict_get payload ''decision'' = JStr ''cancel'' then ''cancel'' else ''commit''))
      | _ \<Rightarrow> None)"

definition supervisor_record :: "string \<Rightarrow> string \<Rightarrow> int \<Rightarrow> json \<Rightarrow> json \<Rightarrow> dict" where
  "supervisor_record status token pid child code =
     [(''contract'', JStr SUPERVISOR_CONTRACT), (''status'', JStr status), (''launch_token'', JStr token),
      (''supervisor_pid'', JInt pid), (''child_pid'', child), (''exit_code'', code)]"

section \<open>One supervisor\<close>

text \<open>
  Where \<open>run_supervisor\<close> stands; \<open>Left n\<close> has returned with status \<open>n\<close>, \<open>Died\<close> was ended by a
  signal or an exception.  From \<open>Announcing\<close> on the process holds the lock.
\<close>

datatype phase =
    Locking
  | Installing
  | Announcing
  | Polling
  | Decided string
  | Spawning
  | Recording int
  | Forwarding int
  | Waiting int
  | Reporting int int
  | Left int
  | Died

record supervisor =
  sv_pid :: int
  sv_token :: string
  sv_phase :: phase
  sv_stopping :: bool

record child =
  ch_pid :: int
  ch_token :: string
  ch_supervisor :: int
  ch_exit :: "int option"
  ch_signals :: nat

text \<open>The files of a stage and the processes started for it.\<close>

record stage_files =
  sf_lock :: "int option"
  sf_state :: "dict option"
  sf_decision :: "json option"
  sf_children :: "child list"

definition goto :: "phase \<Rightarrow> supervisor \<Rightarrow> stage_files \<Rightarrow> supervisor \<times> stage_files" where
  "goto p sv f = (sv\<lparr>sv_phase := p\<rparr>, f)"

text \<open>Leaving closes the lock file, and so does the end of the process.\<close>

definition leave :: "phase \<Rightarrow> supervisor \<Rightarrow> stage_files \<Rightarrow> supervisor \<times> stage_files" where
  "leave p sv f = (sv\<lparr>sv_phase := p\<rparr>, f\<lparr>sf_lock := (if sf_lock f = Some (sv_pid sv) then None else sf_lock f)\<rparr>)"

definition announce :: "string \<Rightarrow> json \<Rightarrow> json \<Rightarrow> supervisor \<Rightarrow> stage_files \<Rightarrow> stage_files" where
  "announce status child code sv f = f\<lparr>sf_state := Some (supervisor_record status (sv_token sv) (sv_pid sv) child code)\<rparr>"

definition exit_of :: "int \<Rightarrow> stage_files \<Rightarrow> int option" where
  "exit_of pid f = Option.bind (find (\<lambda>c. ch_pid c = pid) (sf_children f)) ch_exit"

text \<open>The next step; \<open>spawned\<close> is the process id \<open>Popen\<close> returns, \<open>None\<close> when it raises.\<close>

definition supervisor_step :: "int option \<Rightarrow> supervisor \<Rightarrow> stage_files \<Rightarrow> supervisor \<times> stage_files" where
  "supervisor_step spawned sv f =
     (case sv_phase sv of
        Locking \<Rightarrow>
          (case sf_lock f of
             None \<Rightarrow> goto Installing sv (f\<lparr>sf_lock := Some (sv_pid sv)\<rparr>)
           | Some _ \<Rightarrow> goto (Left 73) sv f)
      | Installing \<Rightarrow> goto Announcing sv f
      | Announcing \<Rightarrow> goto Polling sv (announce ''waiting'' JNull JNull sv f)
      | Polling \<Rightarrow>
          (if sv_stopping sv then leave (Left 143) sv f
           else case launch_decision (sf_decision f) (sv_token sv) of
             None \<Rightarrow> goto Polling sv f
           | Some d \<Rightarrow> goto (Decided d) sv f)
      | Decided d \<Rightarrow>
          (if sv_stopping sv then leave (Left 143) sv f
           else if d = ''cancel'' then leave (Left 0) sv f
           else goto Spawning sv f)
      | Spawning \<Rightarrow>
          (case spawned of
             None \<Rightarrow> leave Died sv f
           | Some pid \<Rightarrow>
               goto (Recording pid) sv (f\<lparr>sf_children := sf_children f @
                 [\<lparr>ch_pid = pid, ch_token = sv_token sv, ch_supervisor = sv_pid sv, ch_exit = None, ch_signals = 0\<rparr>]\<rparr>))
      | Recording pid \<Rightarrow> goto (Forwarding pid) sv (announce ''running'' (JInt pid) JNull sv f)
      | Forwarding pid \<Rightarrow> goto (Waiting pid) sv f
      | Waiting pid \<Rightarrow>
          (case exit_of pid f of None \<Rightarrow> goto (Waiting pid) sv f | Some code \<Rightarrow> goto (Reporting pid code) sv f)
      | Reporting pid code \<Rightarrow> leave (Left 0) sv (announce ''exited'' (JInt pid) (JInt code) sv f)
      | Left n \<Rightarrow> goto (Left n) sv f
      | Died \<Rightarrow> goto Died sv f)"

definition signalled :: "int \<Rightarrow> child \<Rightarrow> child" where
  "signalled pid c = (if ch_pid c = pid then c\<lparr>ch_signals := ch_signals c + 1\<rparr> else c)"

definition signal_child :: "int \<Rightarrow> stage_files \<Rightarrow> stage_files" where
  "signal_child pid f = f\<lparr>sf_children := map (signalled pid) (sf_children f)\<rparr>"

text \<open>
  \<open>SIGTERM\<close>: fatal before a handler is installed; then \<open>wait_signal\<close> only notes it, and from
  \<open>Waiting\<close> on \<open>forward\<close> passes the first one on.
\<close>

definition supervisor_signal :: "supervisor \<Rightarrow> stage_files \<Rightarrow> supervisor \<times> stage_files" where
  "supervisor_signal sv f =
     (case sv_phase sv of
        Locking \<Rightarrow> leave Died sv f
      | Installing \<Rightarrow> leave Died sv f
      | Waiting pid \<Rightarrow>
          (if sv_stopping sv then (sv, f) else (sv\<lparr>sv_stopping := True\<rparr>, signal_child pid f))
      | Reporting pid code \<Rightarrow>
          (if sv_stopping sv then (sv, f) else (sv\<lparr>sv_stopping := True\<rparr>, signal_child pid f))
      | Left n \<Rightarrow> (sv, f)
      | Died \<Rightarrow> (sv, f)
      | _ \<Rightarrow> (sv\<lparr>sv_stopping := True\<rparr>, f))"

definition new_supervisor :: "int \<Rightarrow> string \<Rightarrow> supervisor" where
  "new_supervisor pid token = \<lparr>sv_pid = pid, sv_token = token, sv_phase = Locking, sv_stopping = False\<rparr>"

section \<open>A stage\<close>

record stage =
  sg_supervisors :: "supervisor list"
  sg_files :: stage_files
  sg_decisions :: "json list"

definition new_stage :: stage where
  "new_stage = \<lparr>sg_supervisors = [], sg_files = \<lparr>sf_lock = None, sf_state = None, sf_decision = None, sf_children = []\<rparr>,
     sg_decisions = []\<rparr>"

definition put_supervisor :: "supervisor \<Rightarrow> supervisor list \<Rightarrow> supervisor list" where
  "put_supervisor sv svs = map (\<lambda>x. if sv_pid x = sv_pid sv then sv else x) svs"

definition advance :: "supervisor \<times> stage_files \<Rightarrow> stage \<Rightarrow> stage" where
  "advance r g = g\<lparr>sg_supervisors := put_supervisor (fst r) (sg_supervisors g), sg_files := snd r\<rparr>"

definition ended :: "int \<Rightarrow> int \<Rightarrow> child \<Rightarrow> child" where
  "ended pid code c = (if ch_pid c = pid \<and> ch_exit c = None then c\<lparr>ch_exit := Some code\<rparr> else c)"

definition end_child :: "int \<Rightarrow> int \<Rightarrow> stage_files \<Rightarrow> stage_files" where
  "end_child pid code f = f\<lparr>sf_children := map (ended pid code) (sf_children f)\<rparr>"

definition used_pids :: "stage \<Rightarrow> int list" where
  "used_pids g = map sv_pid (sg_supervisors g) @ map ch_pid (sf_children (sg_files g))"

text \<open>
  What can happen to a stage.  Process ids are not reused.  \<open>crashes\<close> says whether a supervisor
  may be killed (\<open>SIGKILL\<close>, out of memory); the Worker may write any decision and remove the
  state file at any time.
\<close>

inductive stage_step :: "bool \<Rightarrow> stage \<Rightarrow> stage \<Rightarrow> bool" for crashes where
  launch: "pid \<notin> set (used_pids g) \<Longrightarrow>
    stage_step crashes g (g\<lparr>sg_supervisors := sg_supervisors g @ [new_supervisor pid token]\<rparr>)"
| run: "sv \<in> set (sg_supervisors g) \<Longrightarrow> (\<forall>pid. spawned = Some pid \<longrightarrow> pid \<notin> set (used_pids g)) \<Longrightarrow>
    stage_step crashes g (advance (supervisor_step spawned sv (sg_files g)) g)"
| signal: "sv \<in> set (sg_supervisors g) \<Longrightarrow> stage_step crashes g (advance (supervisor_signal sv (sg_files g)) g)"
| crash: "crashes \<Longrightarrow> sv \<in> set (sg_supervisors g) \<Longrightarrow> stage_step crashes g (advance (leave Died sv (sg_files g)) g)"
| child_exit: "stage_step crashes g (g\<lparr>sg_files := end_child pid code (sg_files g)\<rparr>)"
| decide: "stage_step crashes g
    (g\<lparr>sg_files := (sg_files g)\<lparr>sf_decision := Some d\<rparr>, sg_decisions := sg_decisions g @ [d]\<rparr>)"
| remove_state: "stage_step crashes g (g\<lparr>sg_files := (sg_files g)\<lparr>sf_state := None\<rparr>\<rparr>)"

abbreviation stage_reaches :: "bool \<Rightarrow> stage \<Rightarrow> stage \<Rightarrow> bool" where
  "stage_reaches crashes \<equiv> (stage_step crashes)\<^sup>*\<^sup>*"

end
