(* ===== verification/Supervisor_Properties.thy ===== *)
theory Supervisor_Properties
  imports Supervisor
begin

text \<open>
  What the supervisors of a stage guarantee: the invariant of the step relation, one training
  process at a time, no process without a commit, and where a crash or a signal at the wrong
  moment breaks the promise.
\<close>

section \<open>The invariant\<close>

fun holds_lock :: "phase \<Rightarrow> bool" where
  "holds_lock Locking = False"
| "holds_lock (Left n) = False"
| "holds_lock Died = False"
| "holds_lock _ = True"

text \<open>The training process a supervisor still waits for, and the one it would pass a signal to.\<close>

fun awaited :: "phase \<Rightarrow> int option" where
  "awaited (Recording pid) = Some pid"
| "awaited (Forwarding pid) = Some pid"
| "awaited (Waiting pid) = Some pid"
| "awaited _ = None"

fun target :: "phase \<Rightarrow> int option" where
  "target (Reporting pid code) = Some pid"
| "target p = awaited p"

fun past_commit :: "phase \<Rightarrow> bool" where
  "past_commit (Decided d) = (d \<noteq> ''cancel'')"
| "past_commit Spawning = True"
| "past_commit _ = False"

definition committed :: "string \<Rightarrow> json list \<Rightarrow> bool" where
  "committed token ds \<longleftrightarrow> (\<exists>d \<in> set ds. launch_decision (Some d) token = Some ''commit'')"

definition locked :: "supervisor list \<Rightarrow> stage_files \<Rightarrow> bool" where
  "locked svs f \<longleftrightarrow> (\<forall>sv \<in> set svs. holds_lock (sv_phase sv) \<longleftrightarrow> sf_lock f = Some (sv_pid sv)) \<and>
     (\<forall>p. sf_lock f = Some p \<longrightarrow> p \<in> sv_pid ` set svs)"

definition backed :: "supervisor list \<Rightarrow> stage_files \<Rightarrow> json list \<Rightarrow> bool" where
  "backed svs f ds \<longleftrightarrow> (\<forall>d. sf_decision f = Some d \<longrightarrow> d \<in> set ds) \<and>
     (\<forall>sv \<in> set svs. past_commit (sv_phase sv) \<longrightarrow> committed (sv_token sv) ds) \<and>
     (\<forall>c \<in> set (sf_children f). committed (ch_token c) ds)"

definition owned_children :: "supervisor list \<Rightarrow> stage_files \<Rightarrow> bool" where
  "owned_children svs f \<longleftrightarrow> (\<forall>sv \<in> set svs. \<forall>p. target (sv_phase sv) = Some p \<longrightarrow>
     (\<exists>c \<in> set (sf_children f). ch_pid c = p \<and> ch_supervisor c = sv_pid sv)) \<and>
     (\<forall>c \<in> set (sf_children f). ch_supervisor c \<in> sv_pid ` set svs)"

definition watched :: "supervisor list \<Rightarrow> stage_files \<Rightarrow> bool" where
  "watched svs f \<longleftrightarrow> (\<forall>c \<in> set (sf_children f). ch_exit c = None \<longrightarrow>
     (\<exists>sv \<in> set svs. sv_pid sv = ch_supervisor c \<and> awaited (sv_phase sv) = Some (ch_pid c)))"

definition stage_ok :: "bool \<Rightarrow> stage \<Rightarrow> bool" where
  "stage_ok crashes g \<longleftrightarrow> distinct (used_pids g) \<and> locked (sg_supervisors g) (sg_files g) \<and>
     backed (sg_supervisors g) (sg_files g) (sg_decisions g) \<and> owned_children (sg_supervisors g) (sg_files g) \<and>
     (\<not> crashes \<longrightarrow> watched (sg_supervisors g) (sg_files g))"

section \<open>One step of one supervisor\<close>

lemma put_supervisor_mem:
  assumes "distinct (map sv_pid svs)" "sv \<in> set svs" "sv_pid sv' = sv_pid sv"
  shows "x \<in> set (put_supervisor sv' svs) \<longleftrightarrow> x = sv' \<or> (x \<in> set svs \<and> sv_pid x \<noteq> sv_pid sv)"
  using assms by (auto simp: put_supervisor_def)

lemma put_supervisor_pids [simp]: "map sv_pid (put_supervisor sv svs) = map sv_pid svs"
  by (induction svs) (simp_all add: put_supervisor_def)

lemma put_supervisor_pid_set [simp]: "sv_pid ` set (put_supervisor sv svs) = sv_pid ` set svs"
  by (metis put_supervisor_pids list.set_map)

lemma goto_simps [simp]:
  "fst (goto p sv f) = sv\<lparr>sv_phase := p\<rparr>" "snd (goto p sv f) = f"
  by (simp_all add: goto_def)

lemma leave_simps [simp]:
  "fst (leave p sv f) = sv\<lparr>sv_phase := p\<rparr>"
  "snd (leave p sv f) = f\<lparr>sf_lock := (if sf_lock f = Some (sv_pid sv) then None else sf_lock f)\<rparr>"
  by (simp_all add: leave_def)

lemma announce_simps [simp]:
  "sf_lock (announce s c e sv f) = sf_lock f" "sf_decision (announce s c e sv f) = sf_decision f"
  "sf_children (announce s c e sv f) = sf_children f"
  by (simp_all add: announce_def)

lemma signalled_simps [simp]:
  "ch_pid (signalled p c) = ch_pid c" "ch_supervisor (signalled p c) = ch_supervisor c"
  "ch_token (signalled p c) = ch_token c" "ch_exit (signalled p c) = ch_exit c"
  by (simp_all add: signalled_def)

lemma ended_simps [simp]:
  "ch_pid (ended p e c) = ch_pid c" "ch_supervisor (ended p e c) = ch_supervisor c"
  "ch_token (ended p e c) = ch_token c" "ch_signals (ended p e c) = ch_signals c"
  by (simp_all add: ended_def)

lemma end_child_simps [simp]:
  "sf_lock (end_child p e f) = sf_lock f" "sf_decision (end_child p e f) = sf_decision f"
  "sf_children (end_child p e f) = map (ended p e) (sf_children f)"
  by (simp_all add: end_child_def)

lemma signal_child_simps [simp]:
  "sf_lock (signal_child p f) = sf_lock f" "sf_decision (signal_child p f) = sf_decision f"
  "sf_children (signal_child p f) = map (signalled p) (sf_children f)"
  by (simp_all add: signal_child_def)

text \<open>Everything a step, a signal or a crash may do to a supervisor and the files.\<close>

inductive sv_event :: "int list \<Rightarrow> supervisor \<Rightarrow> stage_files \<Rightarrow> supervisor \<times> stage_files \<Rightarrow> bool" for used sv f where
  step: "(\<forall>pid. spawned = Some pid \<longrightarrow> pid \<notin> set used) \<Longrightarrow> sv_event used sv f (supervisor_step spawned sv f)"
| signal: "sv_event used sv f (supervisor_signal sv f)"
| crash: "sv_event used sv f (leave Died sv f)"

lemma event_keeps:
  "sv_event used sv f r \<Longrightarrow> sv_pid (fst r) = sv_pid sv \<and> sv_token (fst r) = sv_token sv \<and> sf_decision (snd r) = sf_decision f"
  by (induction rule: sv_event.induct)
    (simp_all add: supervisor_step_def supervisor_signal_def split: phase.split option.split)

lemma event_lock:
  "sv_event used sv f r \<Longrightarrow> holds_lock (sv_phase sv) \<longleftrightarrow> sf_lock f = Some (sv_pid sv) \<Longrightarrow>
    (holds_lock (sv_phase (fst r)) \<longleftrightarrow> sf_lock (snd r) = Some (sv_pid sv)) \<and>
    (sf_lock (snd r) = sf_lock f \<or> (sf_lock f \<in> {None, Some (sv_pid sv)} \<and> sf_lock (snd r) \<in> {None, Some (sv_pid sv)}))"
  by (induction rule: sv_event.induct; cases "sv_phase sv")
    (auto simp: supervisor_step_def supervisor_signal_def split: option.split)

lemma event_commit:
  "sv_event used sv f r \<Longrightarrow> past_commit (sv_phase (fst r)) \<Longrightarrow>
    past_commit (sv_phase sv) \<or> launch_decision (sf_decision f) (sv_token sv) = Some ''commit''"
  by (induction rule: sv_event.induct; cases "sv_phase sv")
    (simp_all add: supervisor_step_def supervisor_signal_def launch_decision_def split: option.splits if_splits json.splits)

text \<open>The training processes of a stage grow by at most one, and otherwise only collect signals.\<close>

definition spawned_child :: "int \<Rightarrow> supervisor \<Rightarrow> child" where
  "spawned_child pid sv = \<lparr>ch_pid = pid, ch_token = sv_token sv, ch_supervisor = sv_pid sv, ch_exit = None, ch_signals = 0\<rparr>"

lemma event_children:
  "sv_event used sv f r \<Longrightarrow>
    (sf_children (snd r) = sf_children f \<and> (\<forall>p. target (sv_phase (fst r)) = Some p \<longrightarrow> target (sv_phase sv) = Some p)) \<or>
    (\<exists>p. target (sv_phase sv) = Some p \<and> sv_phase (fst r) = sv_phase sv \<and> snd r = signal_child p f) \<or>
    (\<exists>p. p \<notin> set used \<and> past_commit (sv_phase sv) \<and> sv_phase (fst r) = Recording p \<and>
       sf_children (snd r) = sf_children f @ [spawned_child p sv])"
  by (induction rule: sv_event.induct; cases "sv_phase sv")
    (auto simp: supervisor_step_def supervisor_signal_def spawned_child_def split: option.split)

section \<open>Every step keeps the invariant\<close>

lemma locked_event:
  assumes "locked svs f" "sv \<in> set svs" "sv_event used sv f r" "distinct (map sv_pid svs)"
  shows "locked (put_supervisor (fst r) svs) (snd r)"
proof -
  have pid: "sv_pid (fst r) = sv_pid sv" using event_keeps[OF assms(3)] by simp
  note mem = put_supervisor_mem[OF assms(4,2) pid]
  have own: "holds_lock (sv_phase sv) \<longleftrightarrow> sf_lock f = Some (sv_pid sv)" using assms(1,2) by (simp add: locked_def)
  note lock = event_lock[OF assms(3) own]
  have others: "holds_lock (sv_phase x) \<longleftrightarrow> sf_lock (snd r) = Some (sv_pid x)" if "x \<in> set svs" "sv_pid x \<noteq> sv_pid sv" for x
    using assms(1) that lock unfolding locked_def by fastforce
  have "p \<in> sv_pid ` set svs" if "sf_lock (snd r) = Some p" for p
    using assms(1,2) lock that unfolding locked_def by fastforce
  then show ?thesis using lock others pid unfolding locked_def by (auto simp: mem)
qed

lemma backed_event:
  assumes "backed svs f ds" "sv \<in> set svs" "sv_event used sv f r" "distinct (map sv_pid svs)"
  shows "backed (put_supervisor (fst r) svs) (snd r) ds"
proof -
  note keeps = event_keeps[OF assms(3)]
  note mem = put_supervisor_mem[OF assms(4,2) conjunct1[OF keeps]]
  have own: "committed (sv_token sv) ds" if "past_commit (sv_phase (fst r))"
  proof -
    from event_commit[OF assms(3) that] show ?thesis
    proof
      assume l: "launch_decision (sf_decision f) (sv_token sv) = Some ''commit''"
      then obtain d where "sf_decision f = Some d" by (cases "sf_decision f") (simp_all add: launch_decision_def)
      then show ?thesis using l assms(1) by (auto simp: backed_def committed_def)
    qed (use assms(1,2) in \<open>simp add: backed_def\<close>)
  qed
  have "committed (ch_token c) ds" if "c \<in> set (sf_children (snd r))" for c
    using event_children[OF assms(3)] that assms(1,2)
    by (auto simp: backed_def spawned_child_def)
  then show ?thesis using own keeps assms(1) by (auto simp: backed_def mem)
qed

lemma owned_children_event:
  assumes "owned_children svs f" "sv \<in> set svs" "sv_event used sv f r" "distinct (map sv_pid svs)"
  shows "owned_children (put_supervisor (fst r) svs) (snd r)"
proof -
  note keeps = event_keeps[OF assms(3)]
  note mem = put_supervisor_mem[OF assms(4,2) conjunct1[OF keeps]]
  have kept: "\<exists>c' \<in> set (sf_children (snd r)). ch_pid c' = ch_pid c \<and> ch_supervisor c' = ch_supervisor c"
    if "c \<in> set (sf_children f)" for c
    using event_children[OF assms(3)] that by auto
  have "\<exists>c \<in> set (sf_children (snd r)). ch_pid c = p \<and> ch_supervisor c = sv_pid sv"
    if "target (sv_phase (fst r)) = Some p" for p
  proof (cases "target (sv_phase sv) = Some p")
    case True
    then show ?thesis using assms(1,2) kept by (fastforce simp: owned_children_def)
  next
    case False
    then show ?thesis using event_children[OF assms(3)] that by (auto simp: spawned_child_def)
  qed
  moreover have "\<exists>c \<in> set (sf_children (snd r)). ch_pid c = p \<and> ch_supervisor c = sv_pid x"
    if "x \<in> set svs" "target (sv_phase x) = Some p" for x p
    using assms(1) that kept by (fastforce simp: owned_children_def)
  moreover have "ch_supervisor c \<in> sv_pid ` set svs" if "c \<in> set (sf_children (snd r))" for c
    using event_children[OF assms(3)] that assms(1,2) by (auto simp: owned_children_def spawned_child_def)
  ultimately show ?thesis using keeps by (auto simp: owned_children_def mem)
qed

lemma exit_of_eq:
  assumes "distinct (map ch_pid (sf_children f))" "c \<in> set (sf_children f)"
  shows "exit_of (ch_pid c) f = ch_exit c"
proof -
  have "find (\<lambda>x. ch_pid x = ch_pid c) cs = Some c" if "distinct (map ch_pid cs)" "c \<in> set cs" for cs
    using that by (induction cs) auto
  then show ?thesis using assms by (simp add: exit_of_def)
qed

text \<open>A step leaves the training process it waits for only once that has ended.\<close>

lemma step_awaits:
  "awaited (sv_phase sv) = Some p \<Longrightarrow> exit_of p f = None \<Longrightarrow> awaited (sv_phase (fst (supervisor_step x sv f))) = Some p"
  "awaited (sv_phase sv) = Some p \<Longrightarrow> awaited (sv_phase (fst (supervisor_signal sv f))) = Some p"
  by (cases "sv_phase sv"; simp add: supervisor_step_def supervisor_signal_def)+

lemma watched_event:
  assumes "watched svs f" "sv \<in> set svs"
    "r = supervisor_step x sv f \<or> r = supervisor_signal sv f" "distinct (map sv_pid svs)"
    "distinct (map ch_pid (sf_children f))" "sv_event used sv f r"
  shows "watched (put_supervisor (fst r) svs) (snd r)"
proof -
  note keeps = event_keeps[OF assms(6)]
  note mem = put_supervisor_mem[OF assms(4,2) conjunct1[OF keeps]]
  have old: "\<exists>y \<in> set (put_supervisor (fst r) svs). sv_pid y = ch_supervisor c \<and> awaited (sv_phase y) = Some (ch_pid c)"
    if c: "c \<in> set (sf_children f)" "ch_exit c = None" for c
  proof -
    obtain y where y: "y \<in> set svs" "sv_pid y = ch_supervisor c" "awaited (sv_phase y) = Some (ch_pid c)"
      using assms(1) c unfolding watched_def by blast
    show ?thesis
    proof (cases "sv_pid y = sv_pid sv")
      case True
      then have "y = sv" using assms(2,4) y(1) by (simp add: distinct_map inj_on_def)
      moreover have "exit_of (ch_pid c) f = None" using exit_of_eq[OF assms(5) c(1)] c(2) by simp
      ultimately have "awaited (sv_phase (fst r)) = Some (ch_pid c)" using step_awaits assms(3) y(3) by blast
      then show ?thesis using mem keeps y(2) \<open>y = sv\<close> by auto
    qed (use y mem in auto)
  qed
  have new: "fst r \<in> set (put_supervisor (fst r) svs)" using mem by simp
  show ?thesis
    using event_children[OF assms(6)]
  proof (elim disjE exE conjE)
    fix p assume p: "sv_phase (fst r) = Recording p" "sf_children (snd r) = sf_children f @ [spawned_child p sv]"
    show ?thesis unfolding watched_def p(2)
      using old bexI[OF _ new] keeps p(1) by (simp add: spawned_child_def)
  qed (use old in \<open>simp_all add: watched_def\<close>)
qed

lemma used_advance: "map sv_pid (sg_supervisors (advance r g)) = map sv_pid (sg_supervisors g)"
  by (simp add: advance_def)

lemma map_pids [simp]: "map (ch_pid \<circ> ended p e) cs = map ch_pid cs" "map (ch_pid \<circ> signalled p) cs = map ch_pid cs"
  by (induction cs) simp_all

lemma event_pids:
  "sv_event used sv f r \<Longrightarrow> map ch_pid (sf_children (snd r)) = map ch_pid (sf_children f) \<or>
    (\<exists>p. p \<notin> set used \<and> map ch_pid (sf_children (snd r)) = map ch_pid (sf_children f) @ [p])"
  using event_children[of used sv f r] by (auto simp: spawned_child_def)

lemma pids_event:
  assumes "sv_event (used_pids g) sv (sg_files g) r" "distinct (used_pids g)"
  shows "distinct (used_pids (advance r g))"
proof -
  have "used_pids (advance r g) = used_pids g \<or> (\<exists>p. p \<notin> set (used_pids g) \<and> used_pids (advance r g) = used_pids g @ [p])"
    using event_pids[OF assms(1)] unfolding used_pids_def by (elim disjE exE conjE) (simp_all add: advance_def)
  then show ?thesis using assms(2) by auto
qed

lemma stage_ok_event:
  assumes "stage_ok crashes g" "sv \<in> set (sg_supervisors g)" "sv_event (used_pids g) sv (sg_files g) r"
    "\<not> crashes \<Longrightarrow> \<exists>x. r = supervisor_step x sv (sg_files g) \<or> r = supervisor_signal sv (sg_files g)"
  shows "stage_ok crashes (advance r g)"
proof -
  from assms(1) have d: "distinct (map sv_pid (sg_supervisors g))" "distinct (map ch_pid (sf_children (sg_files g)))"
    by (simp_all add: stage_ok_def used_pids_def)
  have "watched (put_supervisor (fst r) (sg_supervisors g)) (snd r)" if c: "\<not> crashes"
  proof -
    obtain x where r: "r = supervisor_step x sv (sg_files g) \<or> r = supervisor_signal sv (sg_files g)" using assms(4) c by blast
    then show ?thesis using watched_event[OF _ assms(2) r d assms(3)] assms(1) c by (simp add: stage_ok_def)
  qed
  then show ?thesis
    using pids_event[OF assms(3)] locked_event[OF _ assms(2,3) d(1)] backed_event[OF _ assms(2,3) d(1)]
      owned_children_event[OF _ assms(2,3) d(1)] assms(1)
    by (simp add: stage_ok_def advance_def)
qed

lemma stage_ok_launch:
  assumes "stage_ok crashes g" "pid \<notin> set (used_pids g)"
  shows "stage_ok crashes (g\<lparr>sg_supervisors := sg_supervisors g @ [new_supervisor pid token]\<rparr>)"
proof -
  have "sf_lock (sg_files g) \<noteq> Some pid" using assms by (auto simp: stage_ok_def locked_def used_pids_def)
  then show ?thesis using assms
    by (auto simp: stage_ok_def used_pids_def locked_def backed_def owned_children_def watched_def new_supervisor_def)
qed

lemma stage_ok_child_exit: "stage_ok crashes g \<Longrightarrow> stage_ok crashes (g\<lparr>sg_files := end_child pid code (sg_files g)\<rparr>)"
proof -
  assume ok: "stage_ok crashes g"
  have "ch_exit (ended pid code c) = None \<Longrightarrow> ch_exit c = None" for c by (simp add: ended_def split: if_splits)
  then show ?thesis using ok
    by (simp add: stage_ok_def used_pids_def locked_def backed_def owned_children_def watched_def)
qed

lemma stage_ok_decide: "stage_ok crashes g \<Longrightarrow>
    stage_ok crashes (g\<lparr>sg_files := (sg_files g)\<lparr>sf_decision := Some d\<rparr>, sg_decisions := sg_decisions g @ [d]\<rparr>)"
  by (auto simp: stage_ok_def used_pids_def locked_def backed_def owned_children_def watched_def committed_def)

lemma stage_ok_remove: "stage_ok crashes g \<Longrightarrow> stage_ok crashes (g\<lparr>sg_files := (sg_files g)\<lparr>sf_state := None\<rparr>\<rparr>)"
  by (simp add: stage_ok_def used_pids_def locked_def backed_def owned_children_def watched_def)

lemma stage_ok_new: "stage_ok crashes new_stage"
  by (simp add: stage_ok_def used_pids_def locked_def backed_def owned_children_def watched_def new_stage_def)

lemma stage_ok_step: "stage_step crashes g g' \<Longrightarrow> stage_ok crashes g \<Longrightarrow> stage_ok crashes g'"
proof (induction rule: stage_step.induct)
  case (run sv g spawned)
  show ?case by (rule stage_ok_event[OF run(3,1) sv_event.step[OF run(2)]]) blast
next
  case (signal sv g)
  show ?case by (rule stage_ok_event[OF signal(2,1) sv_event.signal]) blast
next
  case (crash sv g)
  show ?case by (rule stage_ok_event[OF crash(3,2) sv_event.crash]) (use crash(1) in simp)
qed (simp_all add: stage_ok_launch stage_ok_child_exit stage_ok_decide stage_ok_remove)

interpretation stage: transition_system "stage_step crashes" "stage_ok crashes"
  by unfold_locales (rule stage_ok_step)

lemmas stage_reaches_ok = stage.run_inv[OF _ stage_ok_new]

section \<open>A launch from beginning to end\<close>

definition commit_of :: "string \<Rightarrow> json" where
  "commit_of token = JObj [(''launch_token'', JStr token), (''decision'', JStr ''commit'')]"

definition in_phase :: "int \<Rightarrow> string \<Rightarrow> phase \<Rightarrow> supervisor" where
  "in_phase pid token p = (new_supervisor pid token)\<lparr>sv_phase := p\<rparr>"

lemma in_phase_simps [simp]:
  "sv_pid (in_phase pid token p) = pid" "sv_token (in_phase pid token p) = token"
  "sv_phase (in_phase pid token p) = p" "\<not> sv_stopping (in_phase pid token p)"
  "(in_phase pid token p)\<lparr>sv_phase := q\<rparr> = in_phase pid token q"
  by (simp_all add: in_phase_def new_supervisor_def)

lemma run_last:
  assumes "supervisor_step spawned (in_phase pid token p) f = (in_phase pid token q, f')"
    and "pid \<notin> sv_pid ` set svs" "\<forall>c. spawned = Some c \<longrightarrow> c \<noteq> pid \<and> c \<notin> sv_pid ` set svs \<and> c \<notin> ch_pid ` set (sf_children f)"
  shows "stage_step crashes \<lparr>sg_supervisors = svs @ [in_phase pid token p], sg_files = f, sg_decisions = ds\<rparr>
    \<lparr>sg_supervisors = svs @ [in_phase pid token q], sg_files = f', sg_decisions = ds\<rparr>"
proof -
  let ?g = "\<lparr>sg_supervisors = svs @ [in_phase pid token p], sg_files = f, sg_decisions = ds\<rparr>"
  have put: "put_supervisor (in_phase pid token q) (svs @ [in_phase pid token p]) = svs @ [in_phase pid token q]"
    using assms(2) unfolding put_supervisor_def by (induction svs) auto
  have "stage_step crashes ?g (advance (supervisor_step spawned (in_phase pid token p) (sg_files ?g)) ?g)"
    by (rule stage_step.run) (use assms(3) in \<open>auto simp: used_pids_def\<close>)
  then show ?thesis using put by (simp add: advance_def assms(1))
qed

text \<open>
  With a free lock and a commit for its token, a supervisor runs from its launch to the start of
  the training process.
\<close>

lemma launch_runs:
  assumes "sf_lock f = None" "launch_decision (sf_decision f) token = Some ''commit''"
    and "pid \<notin> sv_pid ` set svs" "c \<notin> sv_pid ` set svs" "pid \<notin> ch_pid ` set (sf_children f)" "c \<notin> ch_pid ` set (sf_children f)" "c \<noteq> pid"
  shows "stage_reaches crashes \<lparr>sg_supervisors = svs, sg_files = f, sg_decisions = ds\<rparr>
    \<lparr>sg_supervisors = svs @ [in_phase pid token (Recording c)],
     sg_files = f\<lparr>sf_lock := Some pid, sf_state := Some (supervisor_record ''waiting'' token pid JNull JNull),
       sf_children := sf_children f @ [\<lparr>ch_pid = c, ch_token = token, ch_supervisor = pid, ch_exit = None, ch_signals = 0\<rparr>]\<rparr>,
     sg_decisions = ds\<rparr>"
proof -
  let ?at = "\<lambda>p f. \<lparr>sg_supervisors = svs @ [in_phase pid token p], sg_files = f, sg_decisions = ds\<rparr>"
  let ?f1 = "f\<lparr>sf_lock := Some pid\<rparr>"
  let ?f2 = "?f1\<lparr>sf_state := Some (supervisor_record ''waiting'' token pid JNull JNull)\<rparr>"
  have start: "stage_step crashes \<lparr>sg_supervisors = svs, sg_files = f, sg_decisions = ds\<rparr> (?at Locking f)"
    using stage_step.launch[of pid "\<lparr>sg_supervisors = svs, sg_files = f, sg_decisions = ds\<rparr>" crashes token] assms(3,5)
    by (simp add: used_pids_def in_phase_def new_supervisor_def)
  note simps = supervisor_step_def goto_def announce_def assms(1,2)
  have "stage_step crashes (?at Locking f) (?at Installing ?f1)"
    by (rule run_last[where spawned = None]) (simp_all add: simps assms(3))
  moreover have "stage_step crashes (?at Installing ?f1) (?at Announcing ?f1)"
    by (rule run_last[where spawned = None]) (simp_all add: simps assms(3))
  moreover have "stage_step crashes (?at Announcing ?f1) (?at Polling ?f2)"
    by (rule run_last[where spawned = None]) (simp_all add: simps assms(3))
  moreover have "stage_step crashes (?at Polling ?f2) (?at (Decided ''commit'') ?f2)"
    by (rule run_last[where spawned = None]) (simp_all add: simps assms(3))
  moreover have "stage_step crashes (?at (Decided ''commit'') ?f2) (?at Spawning ?f2)"
    by (rule run_last[where spawned = None]) (simp_all add: simps assms(3))
  moreover have "stage_step crashes (?at Spawning ?f2) (?at (Recording c) (?f2\<lparr>sf_children := sf_children f @
      [\<lparr>ch_pid = c, ch_token = token, ch_supervisor = pid, ch_exit = None, ch_signals = 0\<rparr>]\<rparr>))"
    by (rule run_last[where spawned = "Some c"]) (simp_all add: simps assms(3-7))
  ultimately show ?thesis
    using start by (simp add: converse_rtranclp_into_rtranclp r_into_rtranclp)
qed

text \<open>The stage after a decision for \<open>t\<close> was written and supervisor 1 started training process 2.\<close>

definition launched :: "string \<Rightarrow> int \<Rightarrow> int \<Rightarrow> stage" where
  "launched token pid c = \<lparr>sg_supervisors = [in_phase pid token (Recording c)],
     sg_files = \<lparr>sf_lock = Some pid, sf_state = Some (supervisor_record ''waiting'' token pid JNull JNull),
       sf_decision = Some (commit_of token),
       sf_children = [\<lparr>ch_pid = c, ch_token = token, ch_supervisor = pid, ch_exit = None, ch_signals = 0\<rparr>]\<rparr>,
     sg_decisions = [commit_of token]\<rparr>"

lemma commit_decision: "launch_decision (Some (commit_of token)) token = Some ''commit''"
  by (simp add: launch_decision_def commit_of_def dict_get_def)

lemma launched_reachable: "c \<noteq> pid \<Longrightarrow> stage_reaches crashes new_stage (launched token pid c)"
proof -
  assume ne: "c \<noteq> pid"
  let ?f = "\<lparr>sf_lock = None, sf_state = None, sf_decision = Some (commit_of token), sf_children = []\<rparr>"
  have "stage_step crashes new_stage \<lparr>sg_supervisors = [], sg_files = ?f, sg_decisions = [commit_of token]\<rparr>"
    using stage_step.decide[of crashes new_stage "commit_of token"] by (simp add: new_stage_def)
  moreover have "stage_reaches crashes \<lparr>sg_supervisors = [], sg_files = ?f, sg_decisions = [commit_of token]\<rparr> (launched token pid c)"
    using launch_runs[of ?f token pid "[]" c crashes "[commit_of token]"] ne commit_decision
    by (simp add: launched_def)
  ultimately show ?thesis by (rule converse_rtranclp_into_rtranclp)
qed

section \<open>Properties\<close>

definition running_children :: "stage \<Rightarrow> child list" where
  "running_children g = filter (\<lambda>c. ch_exit c = None) (sf_children (sg_files g))"

lemma all_equal_length: "distinct xs \<Longrightarrow> (\<And>x y. x \<in> set xs \<Longrightarrow> y \<in> set xs \<Longrightarrow> x = y) \<Longrightarrow> length xs \<le> 1"
proof (cases xs)
  case (Cons x ys)
  assume d: "distinct xs" and eq: "\<And>x y. x \<in> set xs \<Longrightarrow> y \<in> set xs \<Longrightarrow> x = y"
  have "ys = []" using d eq[of x] Cons by (cases ys) auto
  then show ?thesis using Cons by simp
qed simp

lemma running_watched:
  assumes "stage_ok False g" "c \<in> set (running_children g)"
  shows "sf_lock (sg_files g) = Some (ch_supervisor c) \<and>
    (\<exists>sv \<in> set (sg_supervisors g). sv_pid sv = ch_supervisor c \<and> awaited (sv_phase sv) = Some (ch_pid c))"
proof -
  obtain sv where sv: "sv \<in> set (sg_supervisors g)" "sv_pid sv = ch_supervisor c" "awaited (sv_phase sv) = Some (ch_pid c)"
    using assms unfolding stage_ok_def watched_def running_children_def by auto
  then have "holds_lock (sv_phase sv)" by (cases "sv_phase sv") simp_all
  then have "sf_lock (sg_files g) = Some (ch_supervisor c)" using assms(1) sv by (auto simp: stage_ok_def locked_def)
  then show ?thesis using sv by blast
qed

text \<open>
  C17: As long as no supervisor is killed, at most one training process of a stage runs at any
  time, however often the Worker launches supervisors for it, changes its decision, removes the
  state file or sends signals; its supervisor holds the lock of the stage and waits for it.
\<close>

theorem one_training_process:
  assumes "stage_reaches False new_stage g"
  shows "length (running_children g) \<le> 1 \<and>
    (\<forall>c \<in> set (running_children g). sf_lock (sg_files g) = Some (ch_supervisor c) \<and>
      (\<exists>sv \<in> set (sg_supervisors g). sv_pid sv = ch_supervisor c \<and> awaited (sv_phase sv) = Some (ch_pid c)))"
proof -
  have ok: "stage_ok False g" using stage.run_inv[OF assms stage_ok_new] .
  then have d: "distinct (map sv_pid (sg_supervisors g))" "distinct (map ch_pid (running_children g))"
    by (simp_all add: stage_ok_def used_pids_def running_children_def distinct_map_filter)
  have "c = c'" if c: "c \<in> set (running_children g)" "c' \<in> set (running_children g)" for c c'
  proof -
    from running_watched[OF ok c(1)] obtain sv where sv: "sv \<in> set (sg_supervisors g)" "sf_lock (sg_files g) = Some (ch_supervisor c)"
      "sv_pid sv = ch_supervisor c" "awaited (sv_phase sv) = Some (ch_pid c)" by blast
    from running_watched[OF ok c(2)] obtain sv' where sv': "sv' \<in> set (sg_supervisors g)" "sf_lock (sg_files g) = Some (ch_supervisor c')"
      "sv_pid sv' = ch_supervisor c'" "awaited (sv_phase sv') = Some (ch_pid c')" by blast
    have "sv = sv'" using d(1) sv sv' by (simp add: distinct_map inj_on_def)
    then have "ch_pid c = ch_pid c'" using sv sv' by simp
    then show ?thesis using d(2) c by (simp add: distinct_map inj_on_def)
  qed
  then have "length (running_children g) \<le> 1"
    using d(2) by (intro all_equal_length) (auto simp: distinct_map)
  then show ?thesis using running_watched[OF ok] by blast
qed

theorem one_training_process_witness:
  "running_children (launched ''t'' 1 2) \<noteq> [] \<and> length (running_children (launched ''t'' 1 2)) \<le> 1"
proof -
  have "stage_reaches False new_stage (launched ''t'' 1 2)" by (rule launched_reachable) simp
  from one_training_process[OF this] show ?thesis by (simp add: running_children_def launched_def)
qed

text \<open>
  C18: A training process is started only under a token for which a commit was written: while
  every decision written for a launch token is a cancellation, no supervisor ever starts a
  process with that token, killed or not.
\<close>

theorem cancelled_launch_never_starts:
  assumes "stage_reaches crashes new_stage g"
    and "\<forall>d \<in> set (sg_decisions g). launch_decision (Some d) token \<noteq> Some ''commit''"
  shows "\<forall>c \<in> set (sf_children (sg_files g)). ch_token c \<noteq> token"
  using stage.run_inv[OF assms(1) stage_ok_new] assms(2) by (auto simp: stage_ok_def backed_def committed_def)

theorem cancelled_launch_never_starts_witness:
  "sf_children (sg_files (launched ''t'' 1 2)) \<noteq> [] \<and> ''other'' \<notin> ch_token ` set (sf_children (sg_files (launched ''t'' 1 2)))"
proof -
  have "stage_reaches False new_stage (launched ''t'' 1 2)" by (rule launched_reachable) simp
  moreover have "\<forall>d \<in> set (sg_decisions (launched ''t'' 1 2)). launch_decision (Some d) ''other'' \<noteq> Some ''commit''"
    by (simp add: launched_def launch_decision_def commit_of_def dict_get_def)
  ultimately have "\<forall>c \<in> set (sf_children (sg_files (launched ''t'' 1 2))). ch_token c \<noteq> ''other''"
    by (rule cancelled_launch_never_starts)
  then show ?thesis by (auto simp: launched_def)
qed

section \<open>A signal at the wrong moment\<close>

text \<open>From the decision on: the handler that passes signals on is not installed yet, or it has gone past.\<close>

fun launching :: "phase \<Rightarrow> bool" where
  "launching Spawning = True"
| "launching (Recording pid) = True"
| "launching (Forwarding pid) = True"
| "launching p = False"

fun late :: "phase \<Rightarrow> bool" where
  "late (Waiting pid) = True"
| "late (Reporting pid code) = True"
| "late (Left n) = True"
| "late Died = True"
| "late p = False"

definition heard_late :: "stage \<Rightarrow> bool" where
  "heard_late g \<longleftrightarrow> (\<forall>c \<in> set (sf_children (sg_files g)). ch_signals c \<noteq> 0 \<longrightarrow>
     (\<exists>sv \<in> set (sg_supervisors g). sv_pid sv = ch_supervisor c \<and> late (sv_phase sv)))"

definition deaf :: "int \<Rightarrow> stage \<Rightarrow> bool" where
  "deaf p g \<longleftrightarrow> (\<exists>sv \<in> set (sg_supervisors g). sv_pid sv = p \<and> sv_stopping sv \<and> (launching (sv_phase sv) \<or> late (sv_phase sv))) \<and>
     (\<forall>c \<in> set (sf_children (sg_files g)). ch_supervisor c = p \<longrightarrow> ch_signals c = 0)"

lemma deafI:
  "x \<in> set (sg_supervisors g) \<Longrightarrow> sv_pid x = p \<Longrightarrow> sv_stopping x \<Longrightarrow> launching (sv_phase x) \<or> late (sv_phase x) \<Longrightarrow>
    \<forall>c \<in> set (sf_children (sg_files g)). ch_supervisor c = p \<longrightarrow> ch_signals c = 0 \<Longrightarrow> deaf p g"
  unfolding deaf_def by blast

lemma event_late:
  "sv_event used sv f r \<Longrightarrow> late (sv_phase sv) \<Longrightarrow> late (sv_phase (fst r))"
  "sv_event used sv f r \<Longrightarrow> launching (sv_phase sv) \<or> late (sv_phase sv) \<Longrightarrow> launching (sv_phase (fst r)) \<or> late (sv_phase (fst r))"
  "sv_event used sv f r \<Longrightarrow> sv_stopping sv \<Longrightarrow> sv_stopping (fst r)"
  by (induction rule: sv_event.induct; cases "sv_phase sv";
      simp add: supervisor_step_def supervisor_signal_def split: option.split)+

lemma event_deaf:
  "sv_event used sv f r \<Longrightarrow> sv_stopping sv \<Longrightarrow> launching (sv_phase sv) \<or> late (sv_phase sv) \<Longrightarrow>
    \<exists>cs. sf_children (snd r) = sf_children f @ cs \<and> (\<forall>c \<in> set cs. ch_signals c = 0)"
  by (induction rule: sv_event.induct; cases "sv_phase sv")
    (auto simp: supervisor_step_def supervisor_signal_def split: option.split)

text \<open>A new or changed training process of a step belongs to the supervisor that took the step.\<close>

lemma event_others:
  assumes "stage_ok crashes g" "sv \<in> set (sg_supervisors g)" "sv_event (used_pids g) sv (sg_files g) r"
    and "c \<in> set (sf_children (snd r))" "ch_supervisor c \<noteq> sv_pid sv"
  shows "c \<in> set (sf_children (sg_files g))"
  using event_children[OF assms(3)]
proof (elim disjE exE conjE)
  fix p assume p: "target (sv_phase sv) = Some p" "snd r = signal_child p (sg_files g)"
  obtain c0 where c0: "c0 \<in> set (sf_children (sg_files g))" "c = signalled p c0" using assms(4) p(2) by auto
  have "ch_pid c0 \<noteq> p"
  proof
    assume "ch_pid c0 = p"
    moreover obtain c1 where "c1 \<in> set (sf_children (sg_files g))" "ch_pid c1 = p" "ch_supervisor c1 = sv_pid sv"
      using assms(1,2) p(1) by (fastforce simp: stage_ok_def owned_children_def)
    ultimately have "ch_supervisor c0 = sv_pid sv"
      using c0(1) assms(1) by (auto simp: stage_ok_def used_pids_def distinct_map inj_on_def)
    then show False using assms(5) c0(2) by simp
  qed
  then show ?thesis using c0 by (simp add: signalled_def)
qed (use assms(4,5) in \<open>auto simp: spawned_child_def\<close>)

lemma event_first_signal:
  "sv_event used sv f r \<Longrightarrow> sf_children (snd r) = sf_children f @ cs \<or> late (sv_phase (fst r)) \<or> (\<exists>c. sf_children (snd r) = sf_children f @ [c] \<and> ch_signals c = 0)
     \<or> sf_children (snd r) = sf_children f"
  by (induction rule: sv_event.induct; cases "sv_phase sv")
    (auto simp: supervisor_step_def supervisor_signal_def split: option.split)

lemma event_heard:
  assumes "stage_ok crashes g" "heard_late g" "sv \<in> set (sg_supervisors g)" "sv_event (used_pids g) sv (sg_files g) r"
  shows "heard_late (advance r g)"
proof -
  from assms(1) have d: "distinct (map sv_pid (sg_supervisors g))" by (simp add: stage_ok_def used_pids_def)
  note pid = conjunct1[OF event_keeps[OF assms(4)]]
  note mem = put_supervisor_mem[OF d assms(3) pid]
  have "\<exists>x \<in> set (put_supervisor (fst r) (sg_supervisors g)). sv_pid x = ch_supervisor c \<and> late (sv_phase x)"
    if c: "c \<in> set (sf_children (snd r))" "ch_signals c \<noteq> 0" for c
  proof (cases "c \<in> set (sf_children (sg_files g))")
    case True
    then obtain x where x: "x \<in> set (sg_supervisors g)" "sv_pid x = ch_supervisor c" "late (sv_phase x)"
      using assms(2) c(2) unfolding heard_late_def by blast
    show ?thesis
    proof (cases "sv_pid x = sv_pid sv")
      case True
      then have "x = sv" using x(1) assms(3) d by (simp add: distinct_map inj_on_def)
      then show ?thesis using event_late(1)[OF assms(4)] x mem pid by auto
    qed (use x mem in auto)
  next
    case False
    then have own: "ch_supervisor c = sv_pid sv" using event_others[OF assms(1,3,4) c(1)] by blast
    have "late (sv_phase (fst r))" using event_first_signal[OF assms(4), of "[]"] c False by auto
    then show ?thesis using own mem pid by auto
  qed
  then show ?thesis by (simp add: heard_late_def advance_def)
qed

lemma event_keeps_deaf:
  assumes "stage_ok crashes g" "deaf p g" "sv \<in> set (sg_supervisors g)" "sv_event (used_pids g) sv (sg_files g) r"
  shows "deaf p (advance r g)"
proof -
  from assms(1) have d: "distinct (map sv_pid (sg_supervisors g))" by (simp add: stage_ok_def used_pids_def)
  note pid = conjunct1[OF event_keeps[OF assms(4)]]
  note mem = put_supervisor_mem[OF d assms(3) pid]
  from assms(2) obtain x where x: "x \<in> set (sg_supervisors g)" "sv_pid x = p" "sv_stopping x"
      "launching (sv_phase x) \<or> late (sv_phase x)"
    and quiet: "\<forall>c \<in> set (sf_children (sg_files g)). ch_supervisor c = p \<longrightarrow> ch_signals c = 0" unfolding deaf_def by blast
  show ?thesis
  proof (cases "sv_pid sv = p")
    case True
    then have "x = sv" using x(1,2) assms(3) d by (simp add: distinct_map inj_on_def)
    then have x': "sv_stopping sv" "launching (sv_phase sv) \<or> late (sv_phase sv)" using x by simp_all
    have "\<forall>c \<in> set (sf_children (snd r)). ch_supervisor c = p \<longrightarrow> ch_signals c = 0"
      using event_deaf[OF assms(4) x'] quiet by auto
    then show ?thesis
      using mem pid True event_late(2)[OF assms(4) x'(2)] event_late(3)[OF assms(4) x'(1)]
      by (intro deafI[of "fst r"]) (simp_all add: advance_def)
  next
    case False
    have "ch_signals c = 0" if c: "c \<in> set (sf_children (snd r))" "ch_supervisor c = p" for c
      using event_others[OF assms(1,3,4) c(1)] c(2) False quiet by simp
    then show ?thesis using mem x False by (intro deafI[of x]) (simp_all add: advance_def)
  qed
qed

lemma heard_late_step: "stage_step crashes g g' \<Longrightarrow> stage_ok crashes g \<Longrightarrow> heard_late g \<Longrightarrow> heard_late g'"
proof (induction rule: stage_step.induct)
  case (run sv g spawned)
  show ?case by (rule event_heard[OF run(3,4,1) sv_event.step[OF run(2)]])
next
  case (signal sv g)
  show ?case by (rule event_heard[OF signal(2,3,1) sv_event.signal])
next
  case (crash sv g)
  show ?case by (rule event_heard[OF crash(3,4,2) sv_event.crash])
qed (simp_all add: heard_late_def ball_Un)

lemma deaf_step: "stage_step crashes g g' \<Longrightarrow> stage_ok crashes g \<Longrightarrow> deaf p g \<Longrightarrow> deaf p g'"
proof (induction rule: stage_step.induct)
  case (run sv g spawned)
  show ?case by (rule event_keeps_deaf[OF run(3,4,1) sv_event.step[OF run(2)]])
next
  case (signal sv g)
  show ?case by (rule event_keeps_deaf[OF signal(2,3,1) sv_event.signal])
next
  case (crash sv g)
  show ?case by (rule event_keeps_deaf[OF crash(3,4,2) sv_event.crash])
qed (simp_all add: deaf_def)

interpretation heard: transition_system "stage_step crashes" "\<lambda>g. stage_ok crashes g \<and> heard_late g"
  by unfold_locales (blast intro: stage_ok_step heard_late_step)

interpretation deaf: transition_system "stage_step crashes" "\<lambda>g. stage_ok crashes g \<and> deaf p g"
  by unfold_locales (blast intro: stage_ok_step deaf_step)

text \<open>
  A termination signal that reaches a supervisor between its commit and the moment it
  installs the forwarding handler is swallowed: neither it nor any later signal to the
  supervisor ever reaches the training process.
\<close>

theorem early_signal_swallowed:
  assumes "stage_reaches crashes new_stage g" "sv \<in> set (sg_supervisors g)" "launching (sv_phase sv)"
    and "stage_reaches crashes (advance (supervisor_signal sv (sg_files g)) g) g'"
  shows "\<forall>c \<in> set (sf_children (sg_files g')). ch_supervisor c = sv_pid sv \<longrightarrow> ch_signals c = 0"
proof -
  have heard: "stage_ok crashes g \<and> heard_late g"
    using heard.run_inv[OF assms(1)] stage_ok_new by (simp add: heard_late_def new_stage_def)
  then have ok: "stage_ok crashes g" and d: "distinct (map sv_pid (sg_supervisors g))"
    by (simp_all add: stage_ok_def used_pids_def)
  have sig: "supervisor_signal sv (sg_files g) = (sv\<lparr>sv_stopping := True\<rparr>, sg_files g)"
    using assms(3) by (cases "sv_phase sv") (simp_all add: supervisor_signal_def)
  have "\<not> late (sv_phase sv)" using assms(3) by (cases "sv_phase sv") simp_all
  then have quiet: "\<forall>c \<in> set (sf_children (sg_files g)). ch_supervisor c = sv_pid sv \<longrightarrow> ch_signals c = 0"
    using heard assms(2) d unfolding heard_late_def by (metis distinct_map inj_onD)
  have "sv\<lparr>sv_stopping := True\<rparr> \<in> set (put_supervisor (sv\<lparr>sv_stopping := True\<rparr>) (sg_supervisors g))"
    using put_supervisor_mem[OF d assms(2), of "sv\<lparr>sv_stopping := True\<rparr>"] by simp
  then have "deaf (sv_pid sv) (advance (supervisor_signal sv (sg_files g)) g)"
    unfolding sig using assms(3) quiet by (intro deafI[of "sv\<lparr>sv_stopping := True\<rparr>"]) (simp_all add: advance_def)
  moreover have "stage_ok crashes (advance (supervisor_signal sv (sg_files g)) g)"
    by (rule stage_ok_step[OF stage_step.signal[OF assms(2)] ok])
  ultimately have "deaf (sv_pid sv) g'" using deaf.run_inv[OF assms(4)] by blast
  then show ?thesis by (simp add: deaf_def)
qed

definition twice_signalled :: stage where
  "twice_signalled =
     (let sv = in_phase 1 ''t'' (Recording 2); g = advance (supervisor_signal sv (sg_files (launched ''t'' 1 2))) (launched ''t'' 1 2)
      in advance (supervisor_signal (sv\<lparr>sv_stopping := True\<rparr>) (sg_files g)) g)"

theorem early_signal_swallowed_witness:
  "map ch_pid (sf_children (sg_files twice_signalled)) = [2] \<and> map ch_signals (sf_children (sg_files twice_signalled)) = [0]"
proof -
  let ?sv = "in_phase 1 ''t'' (Recording 2)"
  let ?g = "advance (supervisor_signal ?sv (sg_files (launched ''t'' 1 2))) (launched ''t'' 1 2)"
  have reach: "stage_reaches True new_stage (launched ''t'' 1 2)" by (rule launched_reachable) simp
  have sv: "?sv \<in> set (sg_supervisors (launched ''t'' 1 2))" "launching (sv_phase ?sv)" by (simp_all add: launched_def)
  have mem: "?sv\<lparr>sv_stopping := True\<rparr> \<in> set (sg_supervisors ?g)"
    by (simp add: advance_def launched_def put_supervisor_def supervisor_signal_def)
  have second: "stage_reaches True ?g twice_signalled"
    using stage_step.signal[OF mem, of True] by (simp add: twice_signalled_def Let_def r_into_rtranclp)
  have children: "map ch_pid (sf_children (sg_files twice_signalled)) = [2]"
    "map ch_supervisor (sf_children (sg_files twice_signalled)) = [1]"
    by (simp_all add: twice_signalled_def Let_def advance_def launched_def supervisor_signal_def)
  from early_signal_swallowed[OF reach sv second] children show ?thesis by (auto simp: map_eq_Cons_conv)
qed

end
