(* ===== verification/Launch_Properties.thy ===== *)
theory Launch_Properties
  imports Supervisor_Properties Log_Properties "HOL-Library.Code_Target_Nat"
begin

text \<open>
  What starting a stage guarantees and where it fails: a run that is active is left alone, a
  commit is only written once the ledger names the supervisor it is for, and three ways in which
  a retried or unlucky start goes wrong.
\<close>

section \<open>The launch a row of the ledger stands for\<close>

definition launch_key :: "string \<Rightarrow> ledger \<Rightarrow> (string option \<times> int option) option" where
  "launch_key ref l = map_option (\<lambda>r. (w_launch_token r, w_pid r)) (get_run ref l)"

lemma key_rewrite:
  assumes "\<And>r. w_run_ref (f r) = w_run_ref r" "\<And>r. w_launch_token (f r) = w_launch_token r" "\<And>r. w_pid (f r) = w_pid r"
  shows "launch_key ref (l\<lparr>worker_runs := sql_update P f (worker_runs l)\<rparr>) = launch_key ref l"
  using assms
  by (simp add: launch_key_def get_run_def fetchone_key_update[where k = w_run_ref] option.map_comp comp_def if_distrib cong: if_cong)

lemma key_state: "update_run_state r st now l = Inr l' \<Longrightarrow> launch_key ref l' = launch_key ref l"
  by (auto simp: update_run_state_def Let_def key_rewrite split: if_splits)

lemma key_offset: "update_log_offset r off now l = Inr l' \<Longrightarrow> launch_key ref l' = launch_key ref l"
  by (auto simp: update_log_offset_def key_rewrite split: if_splits)

lemma key_updates [simp]: "launch_key ref (l\<lparr>worker_run_updates := us\<rparr>) = launch_key ref l"
  by (simp add: launch_key_def get_run_def)

lemma key_queue: "queue_update run p now l = Inr l' \<Longrightarrow> launch_key ref l' = launch_key ref l"
  by (auto simp: queue_update_def enqueue_update_def rbind_eq_Inr Let_def key_rewrite split: if_splits option.splits)

lemma key_ack: "launch_key ref (acknowledge_updates r epoch n l) = launch_key ref l"
  by (simp add: acknowledge_updates_def)

lemma key_flush_updates:
  "flush_updates E i r now us chs (l, db) = Inr (l', db') \<Longrightarrow> launch_key ref l' = launch_key ref l"
proof (induction us arbitrary: chs l db)
  case (Cons u us)
  let ?ch = "case chs of [] \<Rightarrow> RequestLost | ch # _ \<Rightarrow> ch"
  from Cons.prems(1) obtain epoch seq where nums: "py_int (dict_get u ''owner_epoch'') = Inr epoch" "py_int (dict_get u ''worker_seq'') = Inr seq"
    by (auto simp: rbind_eq_Inr)
  obtain ok d where pub: "publish_run_updates E i ?ch r epoch seq [dict_del ''worker_seq'' (dict_del ''owner_epoch'' u)] now db = (ok, d)"
    by force
  show ?case
  proof (cases ok)
    case True
    then have "flush_updates E i r now us (drop 1 chs) (acknowledge_updates r epoch (nat seq) l, d) = Inr (l', db')"
      using Cons.prems(1) nums pub by simp
    from Cons.IH[OF this] show ?thesis by (simp add: key_ack)
  qed (use Cons.prems(1) nums pub in simp)
qed simp

lemma key_flush_run: "flush_run E i r now chs (l, db) = Inr (l', db') \<Longrightarrow> launch_key ref l' = launch_key ref l"
  by (auto simp: flush_run_def rbind_eq_Inr intro: key_flush_updates)

lemma key_set_and_queue: "set_and_queue r st payload now l = Inr l' \<Longrightarrow> launch_key ref l' = launch_key ref l"
  by (auto simp: set_and_queue_def queue_latest_def rbind_eq_Inr split: option.splits)
    (simp add: key_state key_queue)

lemma key_observe: "observe_supervisor os run now l = Inr l' \<Longrightarrow> launch_key ref l' = launch_key ref l"
  by (auto simp: observe_supervisor_def split: option.splits if_splits dest: key_set_and_queue)

section \<open>Commits follow the ledger\<close>

definition uncommitted :: "action_state \<Rightarrow> bool" where
  "uncommitted s \<longleftrightarrow> (\<forall>t d. WriteDecision t d \<notin> set (as_effects s))"

text \<open>Every commit that was written is for the launch the row of the run names, with its supervisor.\<close>

definition recorded :: "string \<Rightarrow> action_state \<Rightarrow> bool" where
  "recorded ref s \<longleftrightarrow> (\<forall>t. WriteDecision t ''commit'' \<in> set (as_effects s) \<longrightarrow>
     (\<exists>pid. launch_key ref (as_ledger s) = Some (Some t, Some pid)))"

lemma uncommitted_recorded: "uncommitted s \<Longrightarrow> recorded ref s"
  by (simp add: uncommitted_def recorded_def)

text \<open>A step that writes no commit and keeps the row's launch.\<close>

definition keeps_launch :: "string \<Rightarrow> 'a act \<Rightarrow> bool" where
  "keeps_launch ref m \<longleftrightarrow> (\<forall>s r s'. m s = (r, s') \<longrightarrow> launch_key ref (as_ledger s') = launch_key ref (as_ledger s) \<and>
     (\<forall>t. WriteDecision t ''commit'' \<in> set (as_effects s') \<longrightarrow> WriteDecision t ''commit'' \<in> set (as_effects s)))"

named_theorems keeps

lemma keeps_seq [keeps]: "keeps_launch ref m \<Longrightarrow> (\<And>x. keeps_launch ref (f x)) \<Longrightarrow> keeps_launch ref (sbind m f)"
  unfolding keeps_launch_def sbind_def by (simp split: prod.splits sum.splits)

lemma keeps_pure [keeps]: "keeps_launch ref (sret x)" "keeps_launch ref (sfail e)" "keeps_launch ref (slift r)"
  "keeps_launch ref (row_of r')"
  by (simp_all add: keeps_launch_def sret_def sfail_def slift_def row_of_def)

lemma keeps_latest [keeps]: "keeps_launch ref (latest_row r)"
  unfolding latest_row_def by (intro keeps) (simp split: option.split add: keeps)

lemma keeps_effect [keeps]: "\<not> (\<exists>t. x = WriteDecision t ''commit'') \<Longrightarrow> keeps_launch ref (effect x)"
  by (auto simp: keeps_launch_def effect_def)

lemma keeps_on_ledger:
  "(\<And>l l'. f l = Inr l' \<Longrightarrow> launch_key ref l' = launch_key ref l) \<Longrightarrow> keeps_launch ref (on_ledger f)"
  by (auto simp: keeps_launch_def on_ledger_def split: sum.splits)

lemma keeps_flush [keeps]: "keeps_launch ref (flush_action A r)"
  by (auto simp: keeps_launch_def flush_action_def split: sum.splits dest: key_flush_run)

lemma keeps_queue [keeps]: "keeps_launch ref (on_ledger (queue_update row p now))"
  by (rule keeps_on_ledger) (rule key_queue)

lemma keeps_state [keeps]: "keeps_launch ref (on_ledger (update_run_state r st now))"
  by (rule keeps_on_ledger) (rule key_state)

lemma keeps_observe [keeps]: "keeps_launch ref (on_ledger (observe_supervisor os row now))"
  by (rule keeps_on_ledger) (rule key_observe)

lemma keeps_mark_started [keeps]: "keeps_launch ref (mark_started A req)"
  unfolding mark_started_def queue_launch_started_def by (intro keeps) (simp add: keeps)

lemma keeps_terminate [keeps]: "keeps_launch ref (terminate_supervisor pid state)"
  unfolding terminate_supervisor_def by (intro keeps) (simp_all split: option.split add: keeps)

lemma triple_keeps: "keeps_launch ref m \<Longrightarrow> triple (recorded ref) m (\<lambda>_. recorded ref) (recorded ref)"
  unfolding triple_def keeps_launch_def recorded_def by (auto split: prod.splits sum.splits)

lemma triple_effect: "triple (\<lambda>s. Q () (s\<lparr>as_effects := as_effects s @ [x]\<rparr>)) (effect x) Q R"
  by (simp add: triple_def effect_def)

text \<open>Before the commit: the row names the launch \<open>k\<close> and no decision was written.\<close>

definition before_commit :: "string \<Rightarrow> string option \<times> int option \<Rightarrow> action_state \<Rightarrow> bool" where
  "before_commit ref k s \<longleftrightarrow> uncommitted s \<and> ledger_ok (as_ledger s) \<and> launch_key ref (as_ledger s) = Some k"

lemma before_recorded: "before_commit ref k s \<Longrightarrow> recorded ref s"
  by (simp add: before_commit_def uncommitted_recorded)

lemma uncommitted_effect: "uncommitted s \<Longrightarrow> \<not> (\<exists>t d. x = WriteDecision t d) \<Longrightarrow> uncommitted (s\<lparr>as_effects := as_effects s @ [x]\<rparr>)"
  by (auto simp: uncommitted_def)

lemma triple_commit:
  "triple (before_commit ref (Some t, Some pid)) (write_decision A t ''commit'') (\<lambda>_. recorded ref) (recorded ref)"
  by (auto simp: triple_def write_decision_def effect_def sfail_def before_commit_def recorded_def uncommitted_def)

lemma triple_after: "keeps_launch ref m \<Longrightarrow> triple (before_commit ref k) m (\<lambda>_. recorded ref) (recorded ref)"
  by (rule triple_weaken[OF triple_keeps]) (auto dest: before_recorded)

lemma attach_key:
  assumes "attach_launch_supervisor ref pid marker digest now l = Inr l'" "launch_key ref l = Some (Some t, p)" "ledger_ok l"
  shows "launch_key ref l' = Some (Some t, Some pid)"
proof -
  from assms(2) obtain r where r: "get_run ref l = Some r" "w_launch_token r = Some t" by (auto simp: launch_key_def)
  let ?P = "\<lambda>r. w_run_ref r = ref \<and> w_state r = ''accepted''"
  let ?f = "\<lambda>r. r\<lparr>w_pid := Some pid, w_start_marker := marker, w_argv_digest := digest, w_updated_at := now\<rparr>"
  have l': "l' = l\<lparr>worker_runs := sql_update ?P ?f (worker_runs l)\<rparr>" and one: "rowcount ?P (worker_runs l) = 1"
    using assms(1) by (auto simp: attach_launch_supervisor_def Let_def split: if_splits)
  from one have "filter ?P (worker_runs l) \<noteq> []" by (auto simp: rowcount_def)
  then obtain q where "q \<in> set (worker_runs l)" "?P q" by (auto simp: filter_empty_conv)
  then have "?P r" using r get_run_iff[OF assms(3)] by (metis option.inject)
  then have "get_run ref l' = Some (?f r)"
    using r unfolding get_run_def l' by (simp add: fetchone_key_update[where k = w_run_ref])
  then show ?thesis using r by (simp add: launch_key_def)
qed

lemma triple_attach:
  "triple (before_commit ref (Some t, p)) (on_ledger (attach_launch_supervisor ref pid marker digest now))
     (\<lambda>_. before_commit ref (Some t, Some pid)) (recorded ref)"
  by (auto simp: triple_def on_ledger_def before_commit_def uncommitted_def recorded_def split: sum.splits
      dest: attach_key attach_launch_supervisor_ok)

lemma triple_attach_or_terminate:
  "triple (before_commit (sr_run_ref req) (Some t, p)) (attach_or_terminate A req pid state)
     (\<lambda>_. before_commit (sr_run_ref req) (Some t, Some pid)) (recorded (sr_run_ref req))"
proof -
  let ?ref = "sr_run_ref req" and ?t = "sbind (terminate_supervisor pid state) (\<lambda>_. sfail (ExecutionError ''training_ledger_write_failed'')) :: unit act"
  have "triple (before_commit ?ref (Some t, p)) ?t (\<lambda>_ :: unit. recorded ?ref) (recorded ?ref)"
    by (rule triple_after) (intro keeps)
  then have stop: "before_commit ?ref (Some t, p) s \<Longrightarrow> ?t s = (r, s') \<Longrightarrow> recorded ?ref s' \<and> (\<exists>e. r = Inl e)" for s s' and r :: "unit res"
    by (auto simp: triple_def sbind_def sfail_def split: prod.splits sum.splits)
  show ?thesis unfolding triple_def
  proof (intro allI impI)
    fix s assume s: "before_commit ?ref (Some t, p) s"
    let ?a = "attach_launch_supervisor ?ref pid (case ai_process A of None \<Rightarrow> None | Some p \<Rightarrow> fst p)
      (case ai_process A of None \<Rightarrow> Some (ai_command_digest A) | Some p \<Rightarrow> snd p) (ai_now A) (as_ledger s)"
    show "case attach_or_terminate A req pid state s of (Inl e, s') \<Rightarrow> recorded ?ref s'
        | (Inr x, s') \<Rightarrow> before_commit ?ref (Some t, Some pid) s'"
    proof (cases ?a)
      case (Inl e)
      obtain r s' where "?t s = (r, s')" by (cases "?t s")
      then show ?thesis using stop[OF s] Inl by (auto simp: attach_or_terminate_def)
    next
      case (Inr l)
      then show ?thesis using s attach_key[OF Inr] attach_launch_supervisor_ok[OF _ Inr]
        by (simp add: attach_or_terminate_def before_commit_def uncommitted_def)
    qed
  qed
qed

lemma triple_given_any: "triple P (slift r) (\<lambda>_. P) P"
  by (simp add: triple_def slift_def split: sum.split)

lemma before_effect:
  "\<not> (\<exists>t d. x = WriteDecision t d) \<Longrightarrow> triple (before_commit ref k) (effect x) (\<lambda>_. before_commit ref k) (recorded ref)"
  by (rule triple_weaken[OF triple_effect[where Q = "\<lambda>_. before_commit ref k"]])
    (simp_all add: before_commit_def uncommitted_effect)

lemma triple_read: "triple (before_commit ref k) (slift r) (\<lambda>_. before_commit ref k) (recorded ref)"
  by (simp add: triple_def slift_def before_recorded split: sum.split)

lemma triple_run_supervisor:
  "triple (before_commit (sr_run_ref req) (Some t, p)) (run_supervisor_launch A req t pid)
     (\<lambda>_. recorded (sr_run_ref req)) (recorded (sr_run_ref req))"
  unfolding run_supervisor_launch_def
proof (rule triple_seq[OF before_effect], simp, rule triple_seq[OF triple_read], rule triple_if)
  fix state :: dict
  show "triple (before_commit (sr_run_ref req) (Some t, p)) (sbind (terminate_supervisor pid state) (\<lambda>_. sfail start_failed))
      (\<lambda>_. recorded (sr_run_ref req)) (recorded (sr_run_ref req))"
    by (rule triple_after) (intro keeps)
  show "triple (before_commit (sr_run_ref req) (Some t, p))
      (sbind (attach_or_terminate A req pid state) (\<lambda>_. sbind (write_decision A t ''commit'') (\<lambda>_.
         sbind (slift (wait_for_training_start (stage_file req ''-supervisor.json'') t (ai_second_polls A))) (\<lambda>state2.
           if \<not> started_status state2 then sbind (terminate_supervisor pid state2) (\<lambda>_. sfail start_failed)
           else sbind (mark_started A req) (\<lambda>_. flush_action A (sr_run_ref req))))))
      (\<lambda>_. recorded (sr_run_ref req)) (recorded (sr_run_ref req))"
    by (rule triple_seq[OF triple_attach_or_terminate], rule triple_seq[OF triple_commit], rule triple_keeps, intro keeps)
      (simp add: keeps)
qed

text \<open>The intent in the ledger when the launch begins, and what the new one is.\<close>

lemma recorded_row:
  assumes "record_process_observation o' now l = Inr l'"
  shows "\<exists>r. get_run (w_run_ref o') l' = Some r \<and> w_launch_token r = w_launch_token o' \<and> w_pid r = w_pid o' \<and>
    w_state r = w_state o'"
proof -
  let ?row = "\<lambda>m. observation.extend (normalise_observation o') m" and ?ref = "w_run_ref o'"
  have row: "w_run_ref (?row m) = ?ref" "w_launch_token (?row m) = w_launch_token o'" "w_pid (?row m) = w_pid o'"
    "w_state (?row m) = w_state o'" for m
    by (simp_all add: normalise_observation_def observation.defs)
  show ?thesis
  proof (cases "\<exists>r \<in> set (worker_runs l). w_run_ref r = ?ref")
    case True
    then have "get_run ?ref l \<noteq> None" by (simp add: get_run_def filter_empty_conv)
    then obtain r where "get_run ?ref l = Some r" by (elim not_None_eq[THEN iffD1, THEN exE])
    then have r: "get_run ?ref l = Some r" "w_run_ref r = ?ref" using get_run_Some by simp_all
    have l': "worker_runs l' = sql_update (\<lambda>r. w_run_ref r = ?ref) (\<lambda>r. ?row \<lparr>w_last_reconciliation = w_last_reconciliation r,
        w_created_at = w_created_at r, w_updated_at = now, w_worker_seq = w_worker_seq r\<rparr>) (worker_runs l)"
      using assms[symmetric] True by (cases "check_observation o'") (simp_all add: record_process_observation_def Let_def)
    show ?thesis using r row unfolding get_run_def l' by (simp add: fetchone_key_update[where k = w_run_ref])
  next
    case False
    then have "worker_runs l' = worker_runs l @ [?row \<lparr>w_last_reconciliation = None, w_created_at = now, w_updated_at = now, w_worker_seq = 0\<rparr>]"
      using assms[symmetric] False by (cases "check_observation o'") (simp_all add: record_process_observation_def Let_def)
    moreover have "filter (\<lambda>q. w_run_ref q = ?ref) (worker_runs l) = []" using False by (simp add: filter_empty_conv)
    ultimately show ?thesis using row by (simp add: get_run_def fetchone_def)
  qed
qed

lemma observation_key:
  assumes "record_process_observation (launch_observation req t) now l = Inr l'"
  shows "launch_key (sr_run_ref req) l' = Some (Some t, None)"
proof -
  have o': "w_run_ref (launch_observation req t) = sr_run_ref req" "w_launch_token (launch_observation req t) = Some t"
    "w_pid (launch_observation req t) = None" by (simp_all add: launch_observation_def Let_def)
  from recorded_row[OF assms] obtain r where "get_run (sr_run_ref req) l' = Some r" "w_launch_token r = Some t" "w_pid r = None"
    unfolding o' by (elim exE conjE) (rule that)
  then show ?thesis by (simp add: launch_key_def)
qed

lemma triple_record:
  "triple (\<lambda>s. uncommitted s \<and> ledger_ok (as_ledger s))
     (on_ledger (record_process_observation (launch_observation req t) now))
     (\<lambda>_. before_commit (sr_run_ref req) (Some t, None)) (recorded (sr_run_ref req))"
  by (auto simp: triple_def on_ledger_def before_commit_def uncommitted_def recorded_def split: sum.splits
      dest: observation_key record_process_observation_ok)

text \<open>The preparation on the node's files touches neither the ledger nor the decisions.\<close>

definition may_launch :: "action_state \<Rightarrow> bool" where
  "may_launch s \<longleftrightarrow> uncommitted s \<and> ledger_ok (as_ledger s)"

lemma may_recorded: "may_launch s \<Longrightarrow> recorded ref s"
  by (simp add: may_launch_def uncommitted_recorded)

lemma triple_on_files:
  assumes "\<And>s files. P s \<Longrightarrow> P (s\<lparr>as_files := files\<rparr>)"
  shows "triple P (on_files m) (\<lambda>_. P) P"
  using assms by (simp add: triple_def on_files_def split: prod.split sum.split)

lemma triple_launch:
  "triple (\<lambda>s. uncommitted s \<and> ledger_ok (as_ledger s)) (launch_stage A req existing)
     (\<lambda>_. recorded (sr_run_ref req)) (recorded (sr_run_ref req))"
proof -
  define t where "t = (case existing of
      Some row \<Rightarrow> (if w_state row = ''accepted'' then (case w_launch_token row of Some t \<Rightarrow> t | None \<Rightarrow> ai_token A) else ai_token A)
    | None \<Rightarrow> ai_token A)"
  have go: "triple (before_commit (sr_run_ref req) (Some t, None))
      (case ai_pid A of None \<Rightarrow> sfail start_failed | Some pid \<Rightarrow> run_supervisor_launch A req t pid)
      (\<lambda>_. recorded (sr_run_ref req)) (recorded (sr_run_ref req))"
    by (cases "ai_pid A") (simp_all add: triple_run_supervisor triple_after keeps)
  show ?thesis
    unfolding launch_stage_def Let_def t_def[symmetric]
    apply (rule triple_seq[OF triple_weaken[OF triple_on_files[where P = may_launch]]])
        apply (simp add: may_launch_def uncommitted_def)
       apply (simp add: may_launch_def)
      apply assumption
     apply (erule may_recorded)
    apply (rule triple_seq[OF triple_weaken[OF triple_record]])
       apply (simp add: may_launch_def)
      apply assumption
     apply assumption
    apply (rule triple_if)
     apply (rule triple_after, rule keeps)
    apply (rule triple_seq[OF before_effect], simp)
    apply (rule go)
    done
qed

text \<open>A resumed intent is for the launch the row already names.\<close>

definition intent_for :: "start_request \<Rightarrow> ledger_run \<Rightarrow> action_state \<Rightarrow> bool" where
  "intent_for req row s \<longleftrightarrow> before_commit (sr_run_ref req) (w_launch_token row, w_pid row) s"

definition resumed_or_fresh :: "start_request \<Rightarrow> bool \<Rightarrow> action_state \<Rightarrow> bool" where
  "resumed_or_fresh req resumed s \<longleftrightarrow> (if resumed then recorded (sr_run_ref req) s else may_launch s)"

lemma before_may: "before_commit ref k s \<Longrightarrow> may_launch s"
  by (simp add: before_commit_def may_launch_def)

definition taken_over :: "bool act \<Rightarrow> bool" where
  "taken_over m \<longleftrightarrow> (\<forall>s x s'. m s = (Inr x, s') \<longrightarrow> x)"

lemma taken_over: "taken_over (sret True)" "(\<And>x. taken_over (f x)) \<Longrightarrow> taken_over (sbind m f)" "taken_over (sfail e)"
  by (auto simp: taken_over_def sret_def sfail_def sbind_def split: prod.splits sum.splits)

lemma triple_taken_over:
  "triple P m (\<lambda>_. recorded (sr_run_ref req)) R \<Longrightarrow> taken_over m \<Longrightarrow> triple P m (resumed_or_fresh req) R"
  unfolding triple_def taken_over_def resumed_or_fresh_def by (fastforce split: prod.splits sum.splits)

lemma triple_resume_commit:
  "triple (before_commit (sr_run_ref req) (Some t, p)) (resume_commit A req path t pid) (resumed_or_fresh req) (recorded (sr_run_ref req))"
proof (rule triple_taken_over)
  show "triple (before_commit (sr_run_ref req) (Some t, p)) (resume_commit A req path t pid)
     (\<lambda>_. recorded (sr_run_ref req)) (recorded (sr_run_ref req))"
    unfolding resume_commit_def
    by (rule triple_seq[OF triple_attach], rule triple_seq[OF triple_commit], rule triple_keeps, intro keeps) (simp add: keeps)
  show "taken_over (resume_commit A req path t pid)"
    unfolding resume_commit_def by (intro taken_over) (simp add: taken_over)
qed

lemma triple_not_resumed:
  "triple (before_commit ref k) (sret False) (resumed_or_fresh req) (recorded ref)"
  "triple (before_commit ref k) (sbind (effect (RemoveState path)) (\<lambda>_. sret False)) (resumed_or_fresh req) (recorded ref)"
  "triple (before_commit ref k) (sfail e) Q (recorded ref)"
  by (auto simp: triple_def sret_def sfail_def effect_def sbind_def resumed_or_fresh_def before_commit_def may_launch_def uncommitted_def recorded_def)

lemma triple_resume:
  "triple (before_commit (sr_run_ref req) (w_launch_token row, w_pid row)) (resume_launch_intent A req row)
     (resumed_or_fresh req) (recorded (sr_run_ref req))"
proof (cases "w_launch_token row")
  case None
  then show ?thesis by (simp add: resume_launch_intent_def triple_not_resumed)
next
  case token: (Some t)
  show ?thesis
  proof (cases "w_supervisor_state_path row")
    case None
    then show ?thesis by (simp add: resume_launch_intent_def token triple_not_resumed)
  next
    case path: (Some path)
    have exited: "triple (before_commit (sr_run_ref req) (Some t, w_pid row))
        (sbind (mark_started A req) (\<lambda>row. sbind (on_ledger (observe_supervisor (ai_os A) row (ai_now A)))
           (\<lambda>_. sbind (flush_action A (sr_run_ref req)) (\<lambda>_. sret True))))
        (resumed_or_fresh req) (recorded (sr_run_ref req))"
      by (rule triple_taken_over, rule triple_after, intro keeps) (intro taken_over)
    show ?thesis
      unfolding resume_launch_intent_def token path prod.case option.case supervisor_state_def
      by (intro triple_if triple_not_resumed triple_seq[OF triple_read])
        (simp_all add: exited triple_resume_commit triple_not_resumed split: option.split)
  qed
qed

definition start_known :: "action_io \<Rightarrow> start_request \<Rightarrow> ledger_run option \<Rightarrow> unit act" where
  "start_known A req existing =
     (case existing of
        None \<Rightarrow> launch_stage A req None
      | Some row \<Rightarrow>
          (if same_launch req row \<and> w_state row = ''running'' then sret ()
           else
             sbind (if same_launch req row \<and> w_state row = ''accepted'' then resume_launch_intent A req row else sret False) (\<lambda>resumed.
               if resumed then sret ()
               else if w_state row \<in> {''running'', ''stopping''} then sfail (ExecutionError ''training_run_already_active'')
               else launch_stage A req (Some row))))"

lemma start_stage_known: "start_stage A req s = start_known A req (get_run (sr_run_ref req) (as_ledger s)) s"
  by (simp add: start_stage_def start_known_def sbind_def row_of_def)

lemma triple_start:
  "triple (\<lambda>s. may_launch s \<and> get_run (sr_run_ref req) (as_ledger s) = existing) (start_known A req existing)
     (\<lambda>_. recorded (sr_run_ref req)) (recorded (sr_run_ref req))"
proof (cases existing)
  case None
  then show ?thesis
    by (simp add: start_known_def) (rule triple_weaken[OF triple_launch], simp_all add: may_launch_def)
next
  case (Some row)
  let ?ref = "sr_run_ref req"
  have key: "may_launch s \<and> get_run ?ref (as_ledger s) = Some row \<Longrightarrow> before_commit ?ref (w_launch_token row, w_pid row) s" for s
    by (simp add: may_launch_def before_commit_def launch_key_def)
  have rest: "triple (resumed_or_fresh req resumed)
      (if resumed then sret () else if w_state row \<in> {''running'', ''stopping''} then sfail (ExecutionError ''training_run_already_active'')
       else launch_stage A req (Some row)) (\<lambda>_. recorded ?ref) (recorded ?ref)" for resumed
    by (intro triple_if; rule triple_weaken[OF triple_launch] triple_weaken[OF triple_fail] triple_weaken[OF triple_ret])
      (simp_all add: resumed_or_fresh_def may_launch_def uncommitted_recorded)
  have "triple (before_commit ?ref (w_launch_token row, w_pid row)) (start_known A req (Some row)) (\<lambda>_. recorded ?ref) (recorded ?ref)"
    unfolding start_known_def option.case
  proof (rule triple_if)
    show "triple (before_commit ?ref (w_launch_token row, w_pid row)) (sret ()) (\<lambda>_. recorded ?ref) (recorded ?ref)"
      by (rule triple_after) (rule keeps_pure)
    have "triple (before_commit ?ref (w_launch_token row, w_pid row))
        (if same_launch req row \<and> w_state row = ''accepted'' then resume_launch_intent A req row else sret False)
        (resumed_or_fresh req) (recorded ?ref)"
      by (intro triple_if triple_resume triple_not_resumed)
    then show "triple (before_commit ?ref (w_launch_token row, w_pid row))
        (sbind (if same_launch req row \<and> w_state row = ''accepted'' then resume_launch_intent A req row else sret False) (\<lambda>resumed.
           if resumed then sret ()
           else if w_state row \<in> {''running'', ''stopping''} then sfail (ExecutionError ''training_run_already_active'')
           else launch_stage A req (Some row))) (\<lambda>_. recorded ?ref) (recorded ?ref)"
      by (rule triple_seq) (rule rest)
  qed
  then show ?thesis unfolding Some by (rule triple_weaken) (simp_all add: key)
qed

section \<open>Parsed start actions\<close>

lemma absolute_path_Inr:
  assumes "absolute_path v = Inr p"
  shows "path_is_absolute p" "''..'' \<notin> set (snd p)"
proof -
  from assms obtain s where v: "v = JStr s" by (cases v) (simp_all add: absolute_path_def)
  have p: "take 1 s = ''/''" "''..'' \<notin> set (snd (parse_path s))" "p = parse_path s"
    using assms unfolding v by (simp_all add: absolute_path_def split: if_split_asm)
  then show "''..'' \<notin> set (snd p)" by simp
  show "path_is_absolute p" unfolding p(3) path_is_absolute_def parse_path_def path_root_def p(1) by simp
qed

lemma argv_of_Inr: "argv_of v = Inr xs \<Longrightarrow> xs \<noteq> [] \<and> [] \<notin> set xs \<and> (\<forall>x \<in> set xs. control_free x)"
  by (auto simp: argv_of_def list_all_iff image_iff eq_commute[of "[]" "text_of x" for x] split: json.splits if_splits)

lemma gpu_uuids_of_Inr: "gpu_uuids_of v = Inr xs \<Longrightarrow> 1 \<le> length xs \<and> length xs \<le> 8 \<and> distinct xs"
  by (auto simp: gpu_uuids_of_def split: json.splits if_splits)

lemma epoch_of_Inr: "epoch_of v = Inr i \<Longrightarrow> 1 \<le> i"
  by (auto simp: epoch_of_def split: option.splits if_splits)

lemma stage_number_of_Inr: "stage_number_of v = Inr i \<Longrightarrow> 1 \<le> i \<and> i \<le> 10"
  by (auto simp: stage_number_of_def split: option.splits if_splits)

lemma entrypoint_of_Inr: "entrypoint_of P wd v = Inr (raw, p) \<Longrightarrow> is_within p wd \<and> relative_inside raw"
  by (auto simp: entrypoint_of_def rbind_eq_Inr split: json.splits if_splits)

lemma rbindE: "rbind m f = Inr b \<Longrightarrow> (\<And>a. m = Inr a \<Longrightarrow> f a = Inr b \<Longrightarrow> Q) \<Longrightarrow> Q"
  by (auto simp: rbind_eq_Inr)

lemma pairE: "(case p of (x, y) \<Rightarrow> f x y) = Inr b \<Longrightarrow> (\<And>x y. p = (x, y) \<Longrightarrow> f x y = Inr b \<Longrightarrow> Q) \<Longrightarrow> Q"
  by (cases p) simp

lemmas parsed = absolute_path_Inr argv_of_Inr gpu_uuids_of_Inr epoch_of_Inr stage_number_of_Inr entrypoint_of_Inr

section \<open>Properties\<close>


text \<open>
  A start action for a run that is running or stopping changes nothing, neither in the
  ledger nor on the node: a repeated one for the running stage succeeds, any other is refused.
\<close>

theorem active_run_left_alone:
  assumes "get_run (sr_run_ref req) (as_ledger s) = Some row" "w_state row \<in> {''running'', ''stopping''}"
  shows "start_stage A req s = (if same_launch req row \<and> w_state row = ''running'' then Inr ()
    else Inl (ExecutionError ''training_run_already_active''), s)"
  using assms by (auto simp: start_stage_known start_known_def sret_def sfail_def sbind_def)

text \<open>
  C22: A repeated start action for a stage that has ended meets the state file the old supervisor
  left: the new supervisor is terminated, the process group of the old training process id is
  killed, whoever has that id now, and the row of the ended run goes back to an accepted launch
  without a process.
\<close>

theorem stale_state_kills_group:
  assumes "get_run (sr_run_ref req) (as_ledger s) = Some row" "w_state row \<notin> {''accepted'', ''running'', ''stopping''}"
    and "prepare_launch (ai_env A) (ai_host A) (os_resources (ai_os A)) req (as_files s) = (Inr x, files)" "ai_spec_written A" "ai_pid A = Some pid"
    and "record_process_observation (launch_observation req (ai_token A)) (ai_now A) (as_ledger s) = Inr l"
    and "ai_first_polls A = (os, code) # polls" "os_exists os (stage_file req ''-supervisor.json'')"
    and "os_json os (stage_file req ''-supervisor.json'') = Some state"
    and "dict_get state ''launch_token'' \<noteq> JStr (ai_token A)" "as_int (dict_get state ''child_pid'') = Some c" "0 < c"
  shows "start_stage A req s = (Inl start_failed, s\<lparr>as_files := files, as_ledger := l, as_effects := as_effects s @
      [WriteSpec (ai_token A), StartSupervisor pid, KillGroup c, TerminateSupervisor pid]\<rparr>) \<and>
    (\<exists>row'. get_run (sr_run_ref req) l = Some row' \<and> w_state row' = ''accepted'' \<and> w_pid row' = None)"
proof -
  have o': "w_run_ref (launch_observation req (ai_token A)) = sr_run_ref req" "w_pid (launch_observation req (ai_token A)) = None"
    "w_state (launch_observation req (ai_token A)) = ''accepted''" by (simp_all add: launch_observation_def Let_def)
  have state: "wait_for_supervisor (stage_file req ''-supervisor.json'') (ai_first_polls A) = Inr state" "\<not> first_state_ok (ai_token A) pid state"
    using assms by (simp_all add: read_marker_def first_state_ok_def own_state_def)
  have "start_stage A req s = launch_stage A req (Some row) s"
    using assms(1,2) by (simp add: start_stage_known start_known_def sbind_def sret_def)
  also have "\<dots> = run_supervisor_launch A req (ai_token A) pid (s\<lparr>as_files := files, as_ledger := l, as_effects := as_effects s @ [WriteSpec (ai_token A)]\<rparr>)"
    using assms(2-6) by (simp add: launch_stage_def Let_def sbind_def on_files_def on_ledger_def effect_def)
  also have "\<dots> = (Inl start_failed, s\<lparr>as_files := files, as_ledger := l, as_effects := as_effects s @
      [WriteSpec (ai_token A), StartSupervisor pid, KillGroup c, TerminateSupervisor pid]\<rparr>)"
    using assms(11,12) state
    by (simp add: run_supervisor_launch_def sbind_def effect_def slift_def terminate_supervisor_def sfail_def)
  finally show ?thesis using recorded_row[OF assms(6)] unfolding o' by simp blast
qed

text \<open>
  A supervisor that ends after the commit without having started anything counts as a
  started training: the Worker goes on to mark the run as running and to report the start.
\<close>

theorem dead_supervisor_counts_as_started:
  assumes "wait_for_supervisor (stage_file req ''-supervisor.json'') (ai_first_polls A) = Inr state" "first_state_ok token pid state"
    and "attach_or_terminate A req pid state (s\<lparr>as_effects := as_effects s @ [StartSupervisor pid]\<rparr>) =
      (Inr (), s\<lparr>as_ledger := l, as_effects := as_effects s @ [StartSupervisor pid]\<rparr>)"
    and "ai_decision_written A" "ai_second_polls A = (os, Some code) # polls"
    and "os_exists os (stage_file req ''-supervisor.json'')" "os_json os (stage_file req ''-supervisor.json'') = Some waiting"
    and "dict_get waiting ''status'' = JStr ''waiting''"
  shows "run_supervisor_launch A req token pid s = sbind (mark_started A req) (\<lambda>_. flush_action A (sr_run_ref req))
    (s\<lparr>as_ledger := l, as_effects := as_effects s @ [StartSupervisor pid, WriteDecision token ''commit'']\<rparr>)"
proof -
  have wait: "wait_for_training_start (stage_file req ''-supervisor.json'') token (ai_second_polls A) = Inr (poll_exited code)"
    using assms(5-8) by (simp add: read_marker_def started_status_def)
  have started: "started_status (poll_exited code)" by (simp add: started_status_def poll_exited_def dict_get_def)
  show ?thesis
    using assms(1-4) wait started
    by (simp add: run_supervisor_launch_def sbind_def effect_def slift_def write_decision_def)
qed

text \<open>
  C20: A start action the Worker accepts is confined: the output directory is the stage directory
  below the family and version of the output root, a real descendant of it without parent
  references; the entry point lies below the working directory and is an argument of the
  command; the command is not empty; between one and eight different GPUs are named.
\<close>

theorem parsed_start_confined:
  assumes "parse_start P action = Inr req"
  shows "is_within (sr_output_directory req) (sr_output_root req) \<and> path_is_absolute (sr_output_root req) \<and>
    ''..'' \<notin> set (snd (sr_output_directory req)) \<and>
    sr_output_directory req = path_join (sr_output_root req)
      [sr_family_ref req, sr_version_label req, ''stage-'' @ two_digits (sr_stage_number req)] \<and>
    is_within (sr_entrypoint req) (sr_working_directory req) \<and>
    sr_argv req \<noteq> [] \<and> [] \<notin> set (sr_argv req) \<and> (\<forall>x \<in> set (sr_argv req). control_free x) \<and>
    1 \<le> length (sr_gpu_uuids req) \<and> length (sr_gpu_uuids req) \<le> 8 \<and> distinct (sr_gpu_uuids req) \<and>
    1 \<le> sr_stage_number req \<and> sr_stage_number req \<le> 10 \<and> 1 \<le> sr_owner_epoch req"
proof -
  obtain payload where payload: "dict_get action ''payload'' = JObj payload"
    using assms by (cases "dict_get action ''payload''") (simp_all add: parse_start_def)
  show ?thesis
    using assms unfolding parse_start_def payload json.case Let_def
  proof (elim rbindE pairE, goal_cases)
    case (1 run_ref stage_ref epoch number label family wd raw_wd both raw entry root out u1 u2 argv u3 gpus)
    have out: "out = path_join root [family, label, ''stage-'' @ two_digits number]" "is_within out root"
      using 1(13,14) by (simp_all add: path_join_def)
    have entry: "is_within entry wd" using 1(9) unfolding 1(10) by (rule entrypoint_of_Inr[THEN conjunct1])
    show ?case
      using 1(24)[THEN sum.inject(2)[THEN iffD1], symmetric] out entry absolute_path_Inr[OF 1(11)] absolute_path_Inr[OF 1(12)]
        argv_of_Inr[OF 1(15)] gpu_uuids_of_Inr[OF 1(17)] epoch_of_Inr[OF 1(3)] stage_number_of_Inr[OF 1(4)]
      by simp
  qed
qed

section \<open>A crash between the start and its record\<close>

text \<open>The stage when the supervisor died after it started the process and before it wrote so.\<close>

definition crashed :: "string \<Rightarrow> int \<Rightarrow> int \<Rightarrow> stage" where
  "crashed token pid c = advance (leave Died (in_phase pid token (Recording c)) (sg_files (launched token pid c))) (launched token pid c)"

lemma crashed_simps:
  "crashed token pid c = \<lparr>sg_supervisors = [in_phase pid token Died],
     sg_files = (sg_files (launched token pid c))\<lparr>sf_lock := None\<rparr>, sg_decisions = [commit_of token]\<rparr>"
  by (simp add: crashed_def advance_def leave_def launched_def put_supervisor_def)

lemma crashed_reachable: "c \<noteq> pid \<Longrightarrow> stage_reaches True new_stage (crashed token pid c)"
  using stage_step.crash[of True "in_phase pid token (Recording c)" "launched token pid c"]
  by (auto simp: crashed_def intro!: rtranclp.rtrancl_into_rtrancl[OF launched_reachable]) (simp add: launched_def)


section \<open>Instances\<close>

definition ex_start :: start_request where
  "ex_start = \<lparr>sr_run_ref = ''r1'', sr_stage_ref = ''s1'', sr_stage_number = 1, sr_owner_epoch = 1, sr_version_label = ''v1'',
     sr_family_ref = ''fam'', sr_working_directory = (''/'', [''w'']), sr_entrypoint = (''/'', [''w'', ''train.py'']),
     sr_output_root = (''/'', [''out'']), sr_output_directory = (''/'', [''out'', ''fam'', ''v1'', ''stage-01'']),
     sr_argv = [''python'', ''train.py''], sr_gpu_uuids = [''g1''], sr_runtime = [(''kind'', JStr ''system'')],
     sr_monitoring_format = ''plain'', sr_manifest_path = None, sr_manifest = None, sr_replicas = [], sr_redactions = []\<rparr>"

definition ex_start_action :: dict where
  "ex_start_action = [(''run_ref'', JStr ''r1''), (''owner_epoch'', JInt 1), (''payload'', JObj [
     (''stage_ref'', JStr ''s1''), (''stage_number'', JInt 1), (''version_label'', JStr ''v1''), (''family_ref'', JStr ''fam''),
     (''working_directory'', JStr ''/w''), (''entrypoint'', JStr ''train.py''), (''output_root'', JStr ''/out''),
     (''output_directory'', JStr ''/out/fam/v1/stage-01''), (''argv'', JList [JStr ''python'', JStr ''train.py'']),
     (''gpu_uuids'', JList [JStr ''g1''])])]"

definition ex_paths :: path_env where
  "ex_paths = \<lparr>pe_directory = Inr, pe_entrypoint = (\<lambda>wd s. Inr (path_join wd [s]))\<rparr>"

theorem parsed_start_confined_witness:
  "parse_start ex_paths ex_start_action = Inr ex_start \<and> is_within (sr_output_directory ex_start) (sr_output_root ex_start)"
proof -
  have p: "parse_start ex_paths ex_start_action = Inr ex_start" by code_simp
  then show ?thesis using parsed_start_confined[OF p] by (intro conjI) (rule p, elim conjE, assumption)
qed

text \<open>A node on which every state file holds the given record and the given processes exist.\<close>

definition node_with :: "dict \<Rightarrow> int list \<Rightarrow> node_os" where
  "node_with state alive = \<lparr>os_json = (\<lambda>_. Some state), os_exists = (\<lambda>_. True), os_alive = (\<lambda>p. p \<in> set alive),
     os_log = (\<lambda>_. None),
     os_resources = [(''gpus'', JList [JObj [(''uuid'', JStr ''g1''), (''index'', JInt 0)]])]\<rparr>"

definition ex_host :: host_env where
  "ex_host = \<lparr>he_which = (\<lambda>_. Some ''/bin/python''), he_runnable = (\<lambda>_. True), he_conda = None, he_conda_ok = (\<lambda>_. False)\<rparr>"

definition ex_files :: node_files where
  "ex_files = \<lparr>nf_entries = [], nf_writable = (\<lambda>_. True)\<rparr>"

definition ex_io :: "dict \<Rightarrow> dict \<Rightarrow> int option \<Rightarrow> action_io" where
  "ex_io state1 state2 code = \<lparr>ai_now = 7, ai_os = node_with state1 [], ai_log_env = ex_log_env, ai_env = ex_env,
     ai_identity = ex_identity, ai_channels = [], ai_host = ex_host, ai_token = ''t'', ai_spec_written = True,
     ai_pid = Some 5, ai_first_polls = [(node_with state1 [5], None)], ai_process = Some (Some ''m'', Some ''d''),
     ai_command_digest = ''d'', ai_decision_written = True, ai_second_polls = [(node_with state2 [5], code)],
     ai_os_after = node_with state2 [5], ai_survives = False\<rparr>"

definition ex_waiting :: dict where "ex_waiting = supervisor_record ''waiting'' ''t'' 5 JNull JNull"
definition ex_running :: dict where "ex_running = supervisor_record ''running'' ''t'' 5 (JInt 6) JNull"

definition ex_idle :: "ledger_run list \<Rightarrow> action_state" where
  "ex_idle rows = \<lparr>as_ledger = \<lparr>worker_runs = rows, worker_run_updates = []\<rparr>, as_center = ex_db, as_files = ex_files, as_effects = []\<rparr>"

definition ex_intent_row :: "string \<Rightarrow> int option \<Rightarrow> ledger_run" where
  "ex_intent_row st pid = (observation.extend (launch_observation ex_start ''t'')
     \<lparr>w_last_reconciliation = None, w_created_at = 0, w_updated_at = 0, w_worker_seq = 0\<rparr>)\<lparr>w_state := st, w_pid := pid\<rparr>"


theorem active_run_left_alone_witness:
  "start_stage (ex_io [] [] None) ex_start (ex_idle [ex_row ''running'' (Some 5) 0]) = (Inr (), ex_idle [ex_row ''running'' (Some 5) 0])"
  using active_run_left_alone[of ex_start "ex_idle [ex_row ''running'' (Some 5) 0]" "ex_row ''running'' (Some 5) 0"]
  by (simp add: ex_start_def ex_idle_def ex_row_def get_run_def same_launch_def)

definition ex_stale :: dict where
  "ex_stale = supervisor_record ''exited'' ''old'' 4 (JInt 4242) (JInt 0)"

theorem stale_state_kills_group_witness:
  "fst (start_stage (ex_io ex_stale [] None) ex_start (ex_idle [ex_row ''succeeded'' (Some 4) 3])) = Inl start_failed \<and>
   KillGroup 4242 \<in> set (as_effects (snd (start_stage (ex_io ex_stale [] None) ex_start (ex_idle [ex_row ''succeeded'' (Some 4) 3]))))"
proof -
  let ?A = "ex_io ex_stale [] None" and ?s = "ex_idle [ex_row ''succeeded'' (Some 4) 3]"
  have row: "get_run (sr_run_ref ex_start) (as_ledger ?s) = Some (ex_row ''succeeded'' (Some 4) 3)"
    "w_state (ex_row ''succeeded'' (Some 4) 3) \<notin> {''accepted'', ''running'', ''stopping''}"
    by (simp_all add: ex_idle_def ex_row_def ex_start_def get_run_def)
  have "is_ok (record_process_observation (launch_observation ex_start (ai_token ?A)) (ai_now ?A) (as_ledger ?s))" by code_simp
  then obtain l where l: "record_process_observation (launch_observation ex_start (ai_token ?A)) (ai_now ?A) (as_ledger ?s) = Inr l"
    by (auto simp: is_ok_def split: sum.splits)
  have "is_ok (fst (prepare_launch (ai_env ?A) (ai_host ?A) (os_resources (ai_os ?A)) ex_start (as_files ?s)))" by code_simp
  then obtain x files where prepared:
    "prepare_launch (ai_env ?A) (ai_host ?A) (os_resources (ai_os ?A)) ex_start (as_files ?s) = (Inr x, files)"
    by (cases "prepare_launch (ai_env ?A) (ai_host ?A) (os_resources (ai_os ?A)) ex_start (as_files ?s)")
      (auto simp: is_ok_def split: sum.splits)
  have io: "ai_spec_written ?A" "ai_pid ?A = Some 5" "ai_first_polls ?A = (node_with ex_stale [5], None) # []"
    by (simp_all add: ex_io_def)
  have state: "os_exists (node_with ex_stale [5]) (stage_file ex_start ''-supervisor.json'')"
    "os_json (node_with ex_stale [5]) (stage_file ex_start ''-supervisor.json'') = Some ex_stale"
    "dict_get ex_stale ''launch_token'' \<noteq> JStr (ai_token ?A)" "as_int (dict_get ex_stale ''child_pid'') = Some 4242" "(0 :: int) < 4242"
    by (simp_all add: node_with_def ex_stale_def ex_io_def supervisor_record_def dict_get_def)
  show ?thesis using stale_state_kills_group[OF row prepared io(1,2) l io(3) state] by simp
qed

theorem dead_supervisor_counts_as_started_witness:
  "\<exists>l. run_supervisor_launch (ex_io ex_waiting ex_waiting (Some 73)) ex_start ''t'' 5 (ex_idle [ex_intent_row ''accepted'' None]) =
     sbind (mark_started (ex_io ex_waiting ex_waiting (Some 73)) ex_start)
       (\<lambda>_. flush_action (ex_io ex_waiting ex_waiting (Some 73)) ''r1'')
       ((ex_idle [])\<lparr>as_ledger := l, as_effects := [StartSupervisor 5, WriteDecision ''t'' ''commit'']\<rparr>)"
proof -
  let ?A = "ex_io ex_waiting ex_waiting (Some 73)" and ?s = "ex_idle [ex_intent_row ''accepted'' None]"
  have first: "wait_for_supervisor (stage_file ex_start ''-supervisor.json'') (ai_first_polls ?A) = Inr ex_waiting"
    "first_state_ok ''t'' 5 ex_waiting"
    by (simp_all add: ex_io_def read_marker_def node_with_def first_state_ok_def own_state_def ex_waiting_def supervisor_record_def dict_get_def)
  have "is_ok (attach_launch_supervisor (sr_run_ref ex_start) 5 (Some ''m'') (Some ''d'') 7 (as_ledger ?s))" by code_simp
  then obtain l where l: "attach_launch_supervisor (sr_run_ref ex_start) 5 (Some ''m'') (Some ''d'') 7 (as_ledger ?s) = Inr l"
    by (auto simp: is_ok_def split: sum.splits)
  have attach: "attach_or_terminate ?A ex_start 5 ex_waiting (?s\<lparr>as_effects := as_effects ?s @ [StartSupervisor 5]\<rparr>) =
      (Inr (), ?s\<lparr>as_ledger := l, as_effects := as_effects ?s @ [StartSupervisor 5]\<rparr>)"
    using l by (simp add: attach_or_terminate_def ex_io_def)
  have rest: "ai_decision_written ?A" "ai_second_polls ?A = (node_with ex_waiting [5], Some 73) # []"
    "os_exists (node_with ex_waiting [5]) (stage_file ex_start ''-supervisor.json'')"
    "os_json (node_with ex_waiting [5]) (stage_file ex_start ''-supervisor.json'') = Some ex_waiting"
    "dict_get ex_waiting ''status'' = JStr ''waiting''"
    by (simp_all add: ex_io_def node_with_def ex_waiting_def supervisor_record_def dict_get_def)
  show ?thesis
    using dead_supervisor_counts_as_started[OF first attach rest] by (intro exI[of _ l]) (simp add: ex_idle_def ex_start_def)
qed


end
