(* ===== verification/Worker_Files.thy ===== *)
theory Worker_Files
  imports Worker_Prepare
begin

text \<open>
  How the preparation of a launch changes the files of a node: directories are only added, a file
  is never replaced by another one under the names the Worker manages, and a path without
  symbolic links leads where it says.
\<close>

section \<open>Following paths\<close>

text \<open>One tree extends another when it keeps every entry.\<close>

definition extends :: "fs_entries \<Rightarrow> fs_entries \<Rightarrow> bool" where
  "extends t u \<longleftrightarrow> (\<forall>p x. fs_at t p = Some x \<longrightarrow> fs_at u p = Some x)"

lemma extends_refl [simp]: "extends t t"
  by (simp add: extends_def)

lemma extendsD: "extends t u \<Longrightarrow> fs_at t p = Some x \<Longrightarrow> fs_at u p = Some x"
  by (simp add: extends_def)

lemma extends_trans: "extends t u \<Longrightarrow> extends u v \<Longrightarrow> extends t v"
  by (simp add: extends_def)

lemma fs_at_root [simp]: "fs_at t [] = Some FDir"
  by (simp add: fs_at_def)

lemma fs_at_put: "fs_at (nf_entries (put_node q x F)) p = (if p \<noteq> [] \<and> p = q then Some x else fs_at (nf_entries F) p)"
  by (auto simp: fs_at_def put_node_def update_conv)

lemma put_writable [simp]: "nf_writable (put_node q x F) = nf_writable F"
  by (simp add: put_node_def)

lemma extends_put: "fs_at (nf_entries F) q = None \<Longrightarrow> extends (nf_entries F) (nf_entries (put_node q x F))"
  by (auto simp: extends_def fs_at_put)

lemma walk_extends: "walk t n d ps = Some e \<Longrightarrow> extends t u \<Longrightarrow> walk u n d ps = Some e"
proof (induction t n d ps rule: walk.induct)
  case (2 t n here p ps)
  show ?case
  proof (cases "p = ''..''")
    case True
    then show ?thesis using 2 by simp
  next
    case False
    then obtain x where x: "fs_at t (here @ [p]) = Some x" using 2(4) by (auto split: option.splits)
    have x': "fs_at u (here @ [p]) = Some x" using extendsD[OF 2(5) x] .
    show ?thesis
    proof (cases x)
      case FDir
      then show ?thesis using 2(2)[OF False x FDir] 2(4,5) False x x' by simp
    next
      case (FLink to)
      then show ?thesis using 2(3)[OF False x FLink] 2(4,5) False x x' by (simp split: if_splits)
    next
      case (FFile c)
      then show ?thesis using 2(4) False x x' by (simp split: if_splits)
    qed
  qed
qed simp

text \<open>A walk passes through the directory its first part leads to.\<close>

lemma walk_append:
  "walk t n d (ps @ qs) = Some e \<Longrightarrow> \<exists>m d'. walk t n d ps = Some d' \<and> walk t m d' qs = Some e"
proof (induction t n d ps rule: walk.induct)
  case (2 t n here p ps)
  show ?case
  proof (cases "p = ''..''")
    case True
    then show ?thesis using 2(1)[OF True] 2(4) by simp
  next
    case False
    then obtain x where x: "fs_at t (here @ [p]) = Some x" using 2(4) by (auto split: option.splits)
    show ?thesis
    proof (cases x)
      case FDir
      then show ?thesis using 2(2)[OF False x FDir] 2(4) False x by simp
    next
      case (FLink to)
      then show ?thesis using 2(3)[OF False x FLink] 2(4) False x by (simp split: if_splits)
    next
      case (FFile c)
      then have "ps = []" "qs = []" "e = here @ [p]" using 2(4) False x by (auto split: if_splits)
      then show ?thesis using FFile False x by simp
    qed
  qed
qed auto

lemma walk_append_dir:
  "walk t n d ps = Some d' \<Longrightarrow> fs_at t d' = Some FDir \<Longrightarrow> \<exists>m. \<forall>qs. walk t n d (ps @ qs) = walk t m d' qs"
proof (induction t n d ps rule: walk.induct)
  case (2 t n here p ps)
  show ?case
  proof (cases "p = ''..''")
    case True
    then show ?thesis using 2(1)[OF True] 2(4,5) by simp
  next
    case False
    then obtain x where x: "fs_at t (here @ [p]) = Some x" using 2(4) by (auto split: option.splits)
    show ?thesis
    proof (cases x)
      case FDir
      then show ?thesis using 2(2)[OF False x FDir] 2(4,5) False x by simp
    next
      case (FLink to)
      then show ?thesis using 2(3)[OF False x FLink] 2(4,5) False x by (simp split: if_splits)
    next
      case (FFile c)
      then have "d' = here @ [p]" using 2(4) False x by (auto split: if_splits)
      then show ?thesis using FFile x 2(5) by simp
    qed
  qed
qed auto

text \<open>A path whose prefixes are directories.\<close>

definition dirs :: "fs_entries \<Rightarrow> string list \<Rightarrow> bool" where
  "dirs t ps \<longleftrightarrow> ''..'' \<notin> set ps \<and> (\<forall>qs. prefix qs ps \<longrightarrow> fs_at t qs = Some FDir)"

lemma dirs_prefix: "dirs t ps \<Longrightarrow> prefix qs ps \<Longrightarrow> dirs t qs"
  unfolding dirs_def using set_mono_prefix prefix_order.trans by blast

lemma dirs_extends: "dirs t ps \<Longrightarrow> extends t u \<Longrightarrow> dirs u ps"
  by (simp add: dirs_def extends_def)

lemma dirs_snoc: "dirs t (ps @ [p]) \<longleftrightarrow> dirs t ps \<and> p \<noteq> ''..'' \<and> fs_at t (ps @ [p]) = Some FDir"
  by (auto simp: dirs_def)

lemma walk_dirs: "dirs t ps \<Longrightarrow> walk t n [] ps = Some ps"
proof (induction ps rule: rev_induct)
  case (snoc p ps)
  then have d: "dirs t ps" "p \<noteq> ''..''" "fs_at t (ps @ [p]) = Some FDir" by (simp_all add: dirs_snoc)
  then have "fs_at t ps = Some FDir" by (simp add: dirs_def)
  then obtain m where "walk t n [] (ps @ [p]) = walk t m ps [p]" using walk_append_dir snoc.IH[OF d(1)] by blast
  then show ?case using d by simp
qed simp

lemma plain_walk:
  assumes "walk t n d ps = Some e" "''..'' \<notin> set ps" "\<And>i to. i < length ps \<Longrightarrow> fs_at t (d @ take (Suc i) ps) \<noteq> Some (FLink to)"
  shows "e = d @ ps \<and> (\<forall>i. Suc i < length ps \<longrightarrow> fs_at t (d @ take (Suc i) ps) = Some FDir)"
  using assms
proof (induction ps arbitrary: d)
  case (Cons p ps)
  from Cons.prems(3)[of 0] have "fs_at t (d @ [p]) \<noteq> Some (FLink to)" for to by simp
  then have x: "fs_at t (d @ [p]) = Some FDir \<or> (\<exists>c. fs_at t (d @ [p]) = Some (FFile c) \<and> ps = [])"
    using Cons.prems(1,2) by (auto split: option.splits fs_node.splits if_splits)
  show ?case
  proof (cases "ps = []")
    case True
    then show ?thesis using Cons.prems(1,2) x by (auto split: fs_node.splits)
  next
    case False
    then have here: "fs_at t (d @ [p]) = Some FDir" using x by blast
    moreover have "p \<noteq> ''..''" using Cons.prems(2) by auto
    ultimately have w: "walk t n (d @ [p]) ps = Some e" using Cons.prems(1) by simp
    have parts: "''..'' \<notin> set ps" using Cons.prems(2) by simp
    have "fs_at t ((d @ [p]) @ take (Suc i) ps) \<noteq> Some (FLink to)" if "i < length ps" for i to
      using Cons.prems(3)[of "Suc i" to] that by simp
    note ih = Cons.IH[OF w parts this]
    have "fs_at t (d @ take (Suc i) (p # ps)) = Some FDir" if "Suc i < length (p # ps)" for i
      using ih here that by (cases i) simp_all
    then show ?thesis using ih by simp
  qed
qed simp

lemma dirs_of_plain_walk:
  assumes "walk t n [] ps = Some e" "''..'' \<notin> set ps" "\<And>i to. i < length ps \<Longrightarrow> fs_at t (take (Suc i) ps) \<noteq> Some (FLink to)"
  shows "e = ps" "dirs t (butlast ps)"
proof -
  from plain_walk[of t n "[]" ps e] assms
  have walk: "e = ps" "\<And>i. Suc i < length ps \<Longrightarrow> fs_at t (take (Suc i) ps) = Some FDir" by auto
  show "e = ps" by (rule walk(1))
  have "fs_at t qs = Some FDir" if qs: "prefix qs (butlast ps)" for qs
  proof (cases "length qs")
    case (Suc i)
    have "length qs < length ps" using qs prefix_length_le[OF qs] Suc by (cases ps rule: rev_cases) auto
    moreover have "qs = take (length qs) ps"
      using qs by (metis append_eq_conv_conj butlast_conv_take prefixE prefixI take_is_prefix prefix_order.trans)
    ultimately show ?thesis using walk(2)[of i] Suc by simp
  qed simp
  then show "dirs t (butlast ps)" using assms(2) by (auto simp: dirs_def dest: in_set_butlastD)
qed

text \<open>No prefix of a path is a symbolic link.\<close>

definition no_links :: "node_files \<Rightarrow> ppath \<Rightarrow> bool" where
  "no_links F p \<longleftrightarrow> \<not> list_ex (path_is_symlink F) (path_prefixes p)"

lemma no_links_resolve:
  assumes "no_links F p" "''..'' \<notin> set (snd p)" "resolve_path F p = Some e"
  shows "e = snd p" "dirs (nf_entries F) (butlast (snd p))"
proof -
  let ?t = "nf_entries F"
  have links: "fs_at ?t (take (Suc i) ps) \<noteq> Some (FLink to)"
    if "i < length ps" "prefix ps (snd p)" for i to ps
    using that
  proof (induction i arbitrary: to rule: less_induct)
    case (less i)
    have pre: "prefix (take (Suc i) ps) (snd p)" using less.prems(2) take_is_prefix prefix_order.trans by blast
    then obtain rest where rest: "snd p = take (Suc i) ps @ rest" by (auto simp: prefix_def)
    have "take (Suc i) (snd p) = take (Suc i) ps" "i < length (snd p)" using rest less.prems(1) by simp_all
    then have "(fst p, take (Suc i) ps) \<in> set (path_prefixes p)" by (force simp: path_prefixes_def)
    then have plain: "\<not> path_is_symlink F (fst p, take (Suc i) ps)"
      using assms(1) unfolding no_links_def list_ex_iff by blast
    have split: "take (Suc i) ps = take i ps @ [ps ! i]" using less.prems(1) by (rule take_Suc_conv_app_nth)
    obtain m d where d: "walk ?t MAX_LINKS [] (take i ps) = Some d"
      using assms(3) walk_append[of ?t MAX_LINKS "[]" "take i ps" "ps ! i # rest"] rest split by (auto simp: resolve_path_def)
    have "''..'' \<notin> set (take i ps)" using assms(2) rest split by auto
    moreover have "fs_at ?t (take (Suc j) (take i ps)) \<noteq> Some (FLink to)" if "j < length (take i ps)" for j to
      using less.IH[of j to] that less.prems by (simp add: min_def)
    ultimately have "d = take i ps" using dirs_of_plain_walk(1)[OF d] by blast
    then have "entry_place F (fst p, take (Suc i) ps) = Some (take (Suc i) ps)"
      using d split by (simp add: entry_place_def resolve_path_def path_parent_def path_name_def)
    then show ?case using plain by (auto simp: path_is_symlink_def)
  qed
  note walked = dirs_of_plain_walk[OF assms(3)[unfolded resolve_path_def] assms(2)]
  show "e = snd p" "dirs ?t (butlast (snd p))" using walked links by blast+
qed

section \<open>Operations on the files\<close>

text \<open>Every entry lies in a directory.\<close>

definition tree_ok :: "node_files \<Rightarrow> bool" where
  "tree_ok F \<longleftrightarrow> (\<forall>d p. fs_at (nf_entries F) (d @ [p]) \<noteq> None \<longrightarrow> fs_at (nf_entries F) d = Some FDir)"

lemma tree_okD: "tree_ok F \<Longrightarrow> fs_at (nf_entries F) d \<noteq> Some FDir \<Longrightarrow> fs_at (nf_entries F) (d @ [p]) = None"
  unfolding tree_ok_def by blast

lemma tree_ok_put:
  assumes "tree_ok F" "fs_at (nf_entries F) d = Some FDir" "fs_at (nf_entries F) (d @ [p]) \<noteq> Some FDir"
  shows "tree_ok (put_node (d @ [p]) x F)"
proof -
  have "fs_at (nf_entries F) ((d @ [p]) @ [c]) = None" for c using tree_okD[OF assms(1,3)] .
  moreover have "fs_at (nf_entries F) e = Some FDir" if "fs_at (nf_entries F) (e @ [c]) \<noteq> None" for e c
    using assms(1) that unfolding tree_ok_def by blast
  ultimately show ?thesis using assms(2) unfolding tree_ok_def fs_at_put by (simp split: if_splits) fastforce
qed

lemma make_dir_step:
  assumes "make_dir ok p F = (r, F')"
  shows "F' = F \<or> (\<exists>d c. entry_place F p = Some (d @ [c]) \<and> fs_at (nf_entries F) (d @ [c]) = None \<and>
     fs_at (nf_entries F) d = Some FDir \<and> F' = put_node (d @ [c]) FDir F)"
proof -
  have "F' = F \<or> (\<exists>q. entry_place F p = Some q \<and> fs_at (nf_entries F) q = None \<and>
     fs_at (nf_entries F) (butlast q) = Some FDir \<and> F' = put_node q FDir F)"
    using assms unfolding make_dir_def by (simp split: if_splits option.splits)
  then show ?thesis
  proof (elim disjE exE conjE)
    fix q assume q: "entry_place F p = Some q" "fs_at (nf_entries F) q = None"
      "fs_at (nf_entries F) (butlast q) = Some FDir" "F' = put_node q FDir F"
    have "butlast q @ [last q] = q" using q(2) by (cases q rule: rev_cases) auto
    then show ?thesis using q by (intro disjI2 exI[of _ "butlast q"] exI[of _ "last q"]) simp
  qed simp
qed

text \<open>What the operations keep: the tree stays one, and every entry stays.\<close>

definition grown :: "node_files \<Rightarrow> node_files \<Rightarrow> bool" where
  "grown F F' \<longleftrightarrow> extends (nf_entries F) (nf_entries F') \<and> (tree_ok F \<longrightarrow> tree_ok F')"

lemma grown_refl [simp]: "grown F F"
  by (simp add: grown_def)

lemma grown_trans: "grown F G \<Longrightarrow> grown G H \<Longrightarrow> grown F H"
  by (auto simp: grown_def intro: extends_trans)

lemma make_dir_grown: "make_dir ok p F = (r, F') \<Longrightarrow> grown F F'"
  using make_dir_step[of ok p F r F'] extends_put tree_ok_put unfolding grown_def by fastforce

lemma make_dirs_grown: "make_dirs a d ps F = (r, F') \<Longrightarrow> grown F F'"
proof (induction ps arbitrary: d F)
  case (Cons p ps)
  obtain x G where G: "make_dir True (a, d @ [p]) F = (x, G)" by force
  have "grown G F'"
  proof (cases x)
    case (Inr u)
    then show ?thesis using Cons.IH[of "d @ [p]" G] Cons.prems G by (simp add: sbind_def)
  qed (use Cons.prems G in \<open>simp add: sbind_def\<close>)
  then show ?case using make_dir_grown[OF G] grown_trans by blast
qed (simp add: sret_def)

lemma make_path_grown: "make_path p F = (r, F') \<Longrightarrow> grown F F'"
  unfolding make_path_def by (rule make_dirs_grown)

lemma resolve_dirs: "dirs (nf_entries F) (snd p) \<Longrightarrow> resolve_path F p = Some (snd p)"
  unfolding resolve_path_def by (rule walk_dirs)

lemma dirs_is_dir: "dirs (nf_entries F) (snd p) \<Longrightarrow> path_is_dir F p"
  by (simp add: path_is_dir_def stat_path_def resolve_dirs) (simp add: dirs_def)

lemma make_dirs_present: "dirs (nf_entries F) (d @ ps) \<Longrightarrow> make_dirs a d ps F = (Inr (), F)"
proof (induction ps arbitrary: d)
  case (Cons p ps)
  have "dirs (nf_entries F) (snd (a, d @ [p]))" using dirs_prefix[OF Cons.prems, of "d @ [p]"] by simp
  then have "make_dir True (a, d @ [p]) F = (Inr (), F)" using dirs_is_dir unfolding make_dir_def by simp
  then show ?case using Cons.IH[of "d @ [p]"] Cons.prems by (simp add: sbind_def)
qed (simp add: sret_def)

lemma make_path_present: "dirs (nf_entries F) (snd p) \<Longrightarrow> make_path p F = (Inr (), F)"
  unfolding make_path_def by (rule make_dirs_present) simp

text \<open>A written file lands in the resolved parent, on no directory.\<close>

lemma write_json_step:
  assumes "write_json p v F = (r, F')"
  shows "\<exists>G. grown F G \<and> (F' = G \<or> (\<exists>d. resolve_path G (path_parent p) = Some d \<and> fs_at (nf_entries G) d = Some FDir \<and>
     fs_at (nf_entries G) (d @ [path_name p]) \<noteq> Some FDir \<and> F' = put_node (d @ [path_name p]) (FFile (Some v)) G))"
proof -
  obtain x G where G: "make_path (path_parent p) F = (x, G)" by force
  note grown = make_path_grown[OF G]
  show ?thesis
  proof (cases x)
    case Inl
    then show ?thesis using assms G grown by (auto simp: write_json_def sbind_def)
  next
    case Inr
    then have "F' = G \<or> (\<exists>q. entry_place G p = Some q \<and> fs_at (nf_entries G) q \<noteq> Some FDir \<and>
        fs_at (nf_entries G) (butlast q) = Some FDir \<and> F' = put_node q (FFile (Some v)) G)"
      using assms G by (auto simp: write_json_def sbind_def split: option.splits if_splits)
    then show ?thesis using grown unfolding entry_place_def by (auto split: if_splits)
  qed
qed

section \<open>Who owns a version directory\<close>

text \<open>The directory \<open>v\<close> is there without links and its marker holds the object \<open>m\<close>.\<close>

definition marked :: "string list \<Rightarrow> dict \<Rightarrow> node_files \<Rightarrow> bool" where
  "marked v m F \<longleftrightarrow> tree_ok F \<and> dirs (nf_entries F) v \<and>
     fs_at (nf_entries F) (v @ [VERSION_MARKER]) = Some (FFile (Some (JObj m)))"

lemma marked_grown: "marked v m F \<Longrightarrow> grown F G \<Longrightarrow> marked v m G"
  unfolding marked_def grown_def by (auto dest: extendsD dirs_extends)

text \<open>Steps that keep the tree, and every marked directory with it.\<close>

definition keeps_marks :: "('a, node_files) stateful \<Rightarrow> bool" where
  "keeps_marks m \<longleftrightarrow> (\<forall>F r F'. m F = (r, F') \<longrightarrow> (tree_ok F \<longrightarrow> tree_ok F') \<and> (\<forall>v d. marked v d F \<longrightarrow> marked v d F'))"

named_theorems keeping

lemma keeps_marksI: "(\<And>F r F'. m F = (r, F') \<Longrightarrow> grown F F') \<Longrightarrow> keeps_marks m"
  unfolding keeps_marks_def using marked_grown by (auto simp: grown_def)

lemma keeps_marks_seq [keeping]: "keeps_marks m \<Longrightarrow> (\<And>x. keeps_marks (f x)) \<Longrightarrow> keeps_marks (sbind m f)"
  unfolding keeps_marks_def sbind_def by (simp split: prod.splits sum.splits)

lemma keeps_marks_pure [keeping]: "keeps_marks (sret x)" "keeps_marks (sfail e)" "keeps_marks (slift r)"
  "keeps_marks (refuse b e)" "keeps_marks (looked_up f)"
  by (simp_all add: keeps_marks_def sret_def sfail_def slift_def refuse_def looked_up_def)

lemma keeps_marks_make [keeping]: "keeps_marks (make_dir ok p)" "keeps_marks (make_path p)"
  by (rule keeps_marksI, erule make_dir_grown) (rule keeps_marksI, erule make_path_grown)

lemma keeps_marks_read [keeping]: "keeps_marks (read_json_file p)"
  by (auto simp: keeps_marks_def read_json_file_def split: option.splits fs_node.splits json.splits if_splits)

lemma keeps_marks_mapped [keeping]: "keeps_marks m \<Longrightarrow> keeps_marks (mapped_error e m)"
  unfolding keeps_marks_def mapped_error_def by (auto split: prod.splits sum.splits py_error.splits)

lemma keeps_marks_asserts [keeping]: "keeps_marks (assert_no_symlink_components p)" "keeps_marks (resolve_strict e p)"
  unfolding assert_no_symlink_components_def resolve_strict_def by (rule keeping)+

lemma keeps_marks_root [keeping]: "keeps_marks (prepare_output_root p)"
  unfolding prepare_output_root_def by (intro keeping) (simp add: keeps_marks_def)

lemma keeps_marks_directory [keeping]: "keeps_marks (existing_directory v)"
  unfolding existing_directory_def by (intro keeping) (simp add: keeps_marks_def)

lemma keeps_marks_markers [keeping]: "keeps_marks (verify_markers items)"
  by (induction items rule: verify_markers.induct) (simp_all, (intro keeping | assumption)+)

lemma keeps_marks_verify [keeping]: "keeps_marks (verify_replicas E rs manifest)"
  unfolding verify_replicas_def by (intro keeping)

lemma keeps_marks_stage [keeping]: "keeps_marks (stage_directory_ok p q r)"
  by (simp add: keeps_marks_def stage_directory_ok_def)

lemma keeps_marks_check [keeping]: "keeps_marks (check_version_root req v)"
proof -
  have make: "keeps_marks (sbind (make_path (path_parent v)) (\<lambda>_. make_dir False v))" by (intro keeping)
  have read: "keeps_marks (sbind (read_json_file (path_join v [VERSION_MARKER])) (\<lambda>marker.
      refuse (\<not> marker_matches req marker) (ExecutionError ''training_output_marker_mismatch'')))" by (intro keeping)
  show ?thesis using make read unfolding keeps_marks_def check_version_root_def Let_def by (simp split: option.splits)
qed

text \<open>A written file of another name leaves every marker alone.\<close>

lemma keeps_marks_write:
  assumes "path_name p \<noteq> VERSION_MARKER"
  shows "keeps_marks (write_json p v)"
  unfolding keeps_marks_def
proof (intro allI impI)
  fix F r F' assume "write_json p v F = (r, F')"
  from write_json_step[OF this] obtain G where G: "grown F G" "F' = G \<or> (\<exists>d. fs_at (nf_entries G) d = Some FDir \<and>
     fs_at (nf_entries G) (d @ [path_name p]) \<noteq> Some FDir \<and> F' = put_node (d @ [path_name p]) (FFile (Some v)) G)" by blast
  from G(2) show "(tree_ok F \<longrightarrow> tree_ok F') \<and> (\<forall>v d. marked v d F \<longrightarrow> marked v d F')"
  proof (elim disjE exE conjE)
    assume "F' = G"
    then show ?thesis using G(1) marked_grown by (auto simp: grown_def)
  next
    fix d assume d: "fs_at (nf_entries G) d = Some FDir" "fs_at (nf_entries G) (d @ [path_name p]) \<noteq> Some FDir"
      "F' = put_node (d @ [path_name p]) (FFile (Some v)) G"
    have ok: "tree_ok G \<Longrightarrow> tree_ok F'" using tree_ok_put[OF _ d(1,2)] d(3) by simp
    have "marked u m F'" if "marked u m G" for u m
    proof -
      have "dirs (nf_entries F') u" using that d(2) unfolding marked_def dirs_def d(3) fs_at_put by auto
      moreover have "fs_at (nf_entries F') (u @ [VERSION_MARKER]) = Some (FFile (Some (JObj m)))"
        using that assms unfolding marked_def d(3) fs_at_put by simp
      ultimately show ?thesis using ok that by (simp add: marked_def)
    qed
    then show ?thesis using ok G(1) marked_grown by (auto simp: grown_def)
  qed
qed

lemma triple_keeping: "keeps_marks m \<Longrightarrow> triple tree_ok m (\<lambda>_. tree_ok) tree_ok"
  "keeps_marks m \<Longrightarrow> triple (marked v d) m (\<lambda>_. marked v d) (marked v d)"
  by (auto simp: triple_def keeps_marks_def split: prod.splits sum.splits)

section \<open>A checked version directory\<close>

abbreviation marker_of :: "ppath \<Rightarrow> ppath" where
  "marker_of v \<equiv> path_join v [VERSION_MARKER]"

lemma marker_parts: "snd (marker_of v) = snd v @ [VERSION_MARKER]" "VERSION_MARKER \<noteq> ''..''"
  by (simp_all add: path_join_def VERSION_MARKER_def)

lemma marker_place:
  assumes "resolve_path F v = Some e"
  shows "entry_place F (marker_of v) = Some (e @ [VERSION_MARKER])"
  using assms by (simp add: entry_place_def path_parent_def path_name_def marker_parts resolve_path_def)

lemma marker_stat:
  assumes "resolve_path F v = Some e" "fs_at (nf_entries F) e = Some FDir"
  shows "fs_at (nf_entries F) (e @ [VERSION_MARKER]) = None \<Longrightarrow> stat_path F (marker_of v) = None"
    and "fs_at (nf_entries F) (e @ [VERSION_MARKER]) = Some (FFile c) \<Longrightarrow> stat_path F (marker_of v) = Some (FFile c)"
    and "stat_path F (marker_of v) = Some x \<Longrightarrow> \<not> path_is_symlink F (marker_of v) \<Longrightarrow>
      fs_at (nf_entries F) (e @ [VERSION_MARKER]) = Some x"
proof -
  obtain k where k: "walk (nf_entries F) MAX_LINKS [] (snd v @ qs) = walk (nf_entries F) k e qs" for qs
    using walk_append_dir[OF assms(1)[unfolded resolve_path_def] assms(2)] by blast
  have stat: "stat_path F (marker_of v) = Option.bind (walk (nf_entries F) k e [VERSION_MARKER]) (fs_at (nf_entries F))"
    by (simp add: stat_path_def resolve_path_def marker_parts k del: walk.simps)
  note place = marker_place[OF assms(1)] and ne = marker_parts(2)
  show "fs_at (nf_entries F) (e @ [VERSION_MARKER]) = None \<Longrightarrow> stat_path F (marker_of v) = None"
    "fs_at (nf_entries F) (e @ [VERSION_MARKER]) = Some (FFile c) \<Longrightarrow> stat_path F (marker_of v) = Some (FFile c)"
    using stat ne by simp_all
  show "fs_at (nf_entries F) (e @ [VERSION_MARKER]) = Some x"
    if "stat_path F (marker_of v) = Some x" "\<not> path_is_symlink F (marker_of v)"
    using that stat ne place by (auto simp: path_is_symlink_def split: option.splits fs_node.splits)
qed

text \<open>The directory a path leads to has no marker, or one of the request's own run and version.\<close>

definition checked :: "start_request \<Rightarrow> ppath \<Rightarrow> node_files \<Rightarrow> bool" where
  "checked req v F \<longleftrightarrow> (\<exists>e. resolve_path F v = Some e \<and> fs_at (nf_entries F) e = Some FDir \<and>
     (fs_at (nf_entries F) (e @ [VERSION_MARKER]) = None \<or>
      (\<exists>m. fs_at (nf_entries F) (e @ [VERSION_MARKER]) = Some (FFile (Some (JObj m))) \<and> marker_matches req m)))"

lemma is_dir_resolved: "path_is_dir F p \<Longrightarrow> \<exists>e. resolve_path F p = Some e \<and> fs_at (nf_entries F) e = Some FDir"
  by (auto simp: path_is_dir_def stat_path_def bind_eq_Some_conv)

lemma no_entries: "\<not> has_entries F e \<Longrightarrow> fs_at (nf_entries F) (e @ [c]) = None"
proof (rule ccontr)
  assume "\<not> has_entries F e" "fs_at (nf_entries F) (e @ [c]) \<noteq> None"
  then obtain x where "(e @ [c], x) \<in> set (nf_entries F)" by (auto simp: fs_at_def dest: map_of_SomeD)
  then have "has_entries F e" unfolding has_entries_def list_ex_iff by (rule bexI[rotated]) simp
  then show False using \<open>\<not> has_entries F e\<close> by simp
qed

lemma new_dir_checked:
  assumes "tree_ok F" "make_dir False v F = (Inr (), F')" "snd v \<noteq> []" "''..'' \<notin> set (snd v)"
  shows "checked req v F'"
proof -
  obtain q where q: "entry_place F v = Some q" "fs_at (nf_entries F) q = None"
    "fs_at (nf_entries F) (butlast q) = Some FDir" "F' = put_node q FDir F"
    using assms(2) by (auto simp: make_dir_def split: option.splits if_splits)
  then obtain d where d: "resolve_path F (path_parent v) = Some d" "q = d @ [path_name v]"
    using assms(3) by (auto simp: entry_place_def)
  have grown: "extends (nf_entries F) (nf_entries F')" using q extends_put by simp
  have v: "snd v = butlast (snd v) @ [path_name v]" "path_name v \<noteq> ''..''"
    using assms(3,4) last_in_set[OF assms(3)] by (auto simp: path_name_def simp del: last_in_set)
  have dir: "fs_at (nf_entries F') d = Some FDir" using extendsD[OF grown] q(3) d(2) by simp
  have here: "fs_at (nf_entries F') q = Some FDir" using q d by (simp add: fs_at_put)
  have "walk (nf_entries F') MAX_LINKS [] (butlast (snd v)) = Some d"
    using walk_extends[OF _ grown] d(1) by (simp add: resolve_path_def path_parent_def)
  then obtain k where "walk (nf_entries F') MAX_LINKS [] (butlast (snd v) @ [path_name v]) = walk (nf_entries F') k d [path_name v]"
    using walk_append_dir dir by blast
  then have "resolve_path F' v = Some q" using v here d(2) by (simp add: resolve_path_def)
  moreover have "fs_at (nf_entries F') (q @ [VERSION_MARKER]) = None"
    using tree_okD[OF assms(1), of q VERSION_MARKER] q by (simp add: fs_at_put)
  ultimately show ?thesis using here by (auto simp: checked_def)
qed

lemma check_version_root_checked:
  assumes "tree_ok F" "check_version_root req v F = (Inr (), F')" "''..'' \<notin> set (snd v)"
  shows "checked req v F'"
proof (cases "path_exists F v")
  case False
  then have "snd v \<noteq> []" by (auto simp: path_exists_def stat_path_def resolve_path_def)
  moreover from False obtain G where G: "make_path (path_parent v) F = (Inr (), G)" "make_dir False v G = (Inr (), F')"
    using assms(2) by (auto simp: check_version_root_def Let_def sbind_def split: prod.splits sum.splits)
  moreover have "tree_ok G" using make_path_grown[OF G(1)] assms(1) by (simp add: grown_def)
  ultimately show ?thesis using new_dir_checked G(2) assms(3) by blast
next
  case True
  then have dir: "path_is_dir F v" using assms(2) by (auto simp: check_version_root_def Let_def split: if_splits)
  then obtain e where e: "resolve_path F v = Some e" "fs_at (nf_entries F) e = Some FDir" using is_dir_resolved by blast
  have notlink: "\<not> path_is_symlink F v" using assms(2) True by (auto simp: check_version_root_def Let_def split: if_splits)
  show ?thesis
  proof (cases "path_exists F (marker_of v)")
    case exists: True
    then have "sbind (read_json_file (marker_of v)) (\<lambda>marker.
        refuse (\<not> marker_matches req marker) (ExecutionError ''training_output_marker_mismatch'')) F = (Inr (), F')"
      using assms(2) True dir notlink by (simp add: check_version_root_def Let_def)
    then obtain m where m: "stat_path F (marker_of v) = Some (FFile (Some (JObj m)))" "\<not> path_is_symlink F (marker_of v)"
      "marker_matches req m" "F' = F"
      by (auto simp: sbind_def read_json_file_def refuse_def sret_def sfail_def slift_def raise_if_def
          split: if_splits option.splits fs_node.splits json.splits)
    then show ?thesis using marker_stat(3)[OF e m(1,2)] e by (auto simp: checked_def)
  next
    case False
    then have "F' = F" "\<not> has_entries F e"
      using assms(2) True dir notlink e by (auto simp: check_version_root_def Let_def split: if_splits)
    then show ?thesis using no_entries e by (auto simp: checked_def)
  qed
qed

section \<open>Marking and keeping a version directory\<close>

lemma sbind_assoc: "sbind (sbind m f) g = sbind m (\<lambda>x. sbind (f x) g)"
  by (rule ext) (simp add: sbind_def split: prod.splits sum.splits)

lemma checked_dirs:
  assumes "checked req v F" "no_links F v" "''..'' \<notin> set (snd v)"
  shows "dirs (nf_entries F) (snd v)" "fs_at (nf_entries F) (snd v @ [VERSION_MARKER]) = None \<or>
      (\<exists>m. fs_at (nf_entries F) (snd v @ [VERSION_MARKER]) = Some (FFile (Some (JObj m))) \<and> marker_matches req m)"
proof -
  obtain e where e: "resolve_path F v = Some e" "fs_at (nf_entries F) e = Some FDir"
    "fs_at (nf_entries F) (e @ [VERSION_MARKER]) = None \<or>
      (\<exists>m. fs_at (nf_entries F) (e @ [VERSION_MARKER]) = Some (FFile (Some (JObj m))) \<and> marker_matches req m)"
    using assms(1) unfolding checked_def by blast
  have "e = snd v" "dirs (nf_entries F) (butlast (snd v))"
    using no_links_resolve[OF assms(2,3) e(1)] by simp_all
  moreover from this e(2) have "dirs (nf_entries F) (snd v)"
    using assms(3) by (cases "snd v" rule: rev_cases) (auto simp: dirs_snoc dirs_def)
  ultimately show "dirs (nf_entries F) (snd v)" "fs_at (nf_entries F) (snd v @ [VERSION_MARKER]) = None \<or>
      (\<exists>m. fs_at (nf_entries F) (snd v @ [VERSION_MARKER]) = Some (FFile (Some (JObj m))) \<and> marker_matches req m)"
    using e(3) by simp_all
qed

lemma write_marker_marks:
  assumes "checked req v F" "no_links F v" "''..'' \<notin> set (snd v)" "tree_ok F" "write_marker req v F = (r, F')"
  shows "grown F F'" "r = Inr () \<Longrightarrow> \<exists>m. marker_matches req m \<and> marked (snd v) m F'"
proof -
  let ?t = "nf_entries F" and ?q = "snd v @ [VERSION_MARKER]"
  note dirs = checked_dirs(1)[OF assms(1-3)]
  have e: "resolve_path F v = Some (snd v)" "fs_at ?t (snd v) = Some FDir" using dirs resolve_dirs by (auto simp: dirs_def)
  show "grown F F'" "r = Inr () \<Longrightarrow> \<exists>m. marker_matches req m \<and> marked (snd v) m F'"
  proof (atomize (full), cases "fs_at ?t ?q = None")
    case True
    have "path_parent (marker_of v) = v" by (simp add: path_parent_def prod_eq_iff marker_parts) (simp add: path_join_def)
    then have made: "make_path (path_parent (marker_of v)) F = (Inr (), F)" using make_path_present dirs by simp
    have "\<not> path_exists F (marker_of v)" using marker_stat(1)[OF e True] by (simp add: path_exists_def)
    then have "write_json (marker_of v) (JObj (version_marker req)) F = (r, F')"
      using assms(5) by (simp add: write_marker_def Let_def)
    then have F': "F' = F \<and> r \<noteq> Inr () \<or> F' = put_node ?q (FFile (Some (JObj (version_marker req)))) F"
      using made marker_place[OF e(1)] by (auto simp: write_json_def sbind_def split: if_splits)
    have grown: "grown F (put_node ?q (FFile (Some (JObj (version_marker req)))) F)"
      using extends_put[OF True] tree_ok_put[OF _ e(2)] True by (simp add: grown_def)
    have "marker_matches req (version_marker req)" by (simp add: marker_matches_def version_marker_def dict_get_def)
    moreover have "marked (snd v) (version_marker req) (put_node ?q (FFile (Some (JObj (version_marker req)))) F)"
      using grown assms(4) dirs dirs_extends by (auto simp: marked_def grown_def fs_at_put)
    ultimately show "grown F F' \<and> (r = Inr () \<longrightarrow> (\<exists>m. marker_matches req m \<and> marked (snd v) m F'))"
      using F' grown by auto
  next
    case False
    then obtain m where m: "fs_at ?t ?q = Some (FFile (Some (JObj m)))" "marker_matches req m"
      using checked_dirs(2)[OF assms(1-3)] by (elim disjE) (simp, blast)
    then have "path_exists F (marker_of v)" using marker_stat(2)[OF e m(1)] by (simp add: path_exists_def)
    then have "F' = F" using assms(5) by (simp add: write_marker_def Let_def)
    then show "grown F F' \<and> (r = Inr () \<longrightarrow> (\<exists>m. marker_matches req m \<and> marked (snd v) m F'))"
      using m dirs assms(4) by (auto simp: marked_def)
  qed
qed

lemma asserted: "assert_no_symlink_components p F = (r, F') \<Longrightarrow> F' = F \<and> (r = Inr () \<longrightarrow> no_links F p)"
  by (auto simp: assert_no_symlink_components_def looked_up_def no_links_def)

definition mark_version :: "start_request \<Rightarrow> ppath \<Rightarrow> (unit, node_files) stateful" where
  "mark_version req v = sbind (check_version_root req v) (\<lambda>_. sbind (assert_no_symlink_components v) (\<lambda>_. write_marker req v))"

lemma prepare_version_marks:
  "prepare_version_root E req v = sbind (assert_no_symlink_components v) (\<lambda>_. sbind (mark_version req v) (\<lambda>_. prepare_manifest E req))"
  by (simp add: prepare_version_root_def mark_version_def sbind_assoc)

lemma mark_version_keeps:
  assumes "''..'' \<notin> set (snd v)"
  shows "keeps_marks (mark_version req v)"
    and "triple tree_ok (mark_version req v) (\<lambda>_ F. \<exists>m. marker_matches req m \<and> marked (snd v) m F) (\<lambda>_. True)"
proof -
  have main: "(tree_ok F \<longrightarrow> tree_ok F') \<and> (\<forall>u d. marked u d F \<longrightarrow> marked u d F') \<and>
      (tree_ok F \<longrightarrow> r = Inr () \<longrightarrow> (\<exists>m. marker_matches req m \<and> marked (snd v) m F'))"
    if run: "mark_version req v F = (r, F')" for F r F'
  proof -
    obtain x G where G: "check_version_root req v F = (x, G)" by force
    have keeps: "tree_ok F \<Longrightarrow> tree_ok G" "\<And>u d. marked u d F \<Longrightarrow> marked u d G"
      using keeps_marks_check[of req v] G unfolding keeps_marks_def by blast+
    show ?thesis
    proof (cases "x = Inr () \<and> tree_ok F")
      case True
      then have c: "checked req v G" using check_version_root_checked[of F req v G] G assms by simp
      obtain y K where K: "assert_no_symlink_components v G = (y, K)" by force
      show ?thesis
      proof (cases "y = Inr ()")
        case True
        then have "write_marker req v G = (r, F')" "no_links G v"
          using run G K \<open>x = Inr () \<and> tree_ok F\<close> asserted[OF K] by (simp_all add: mark_version_def sbind_def)
        then have wrote: "grown G F'" "r = Inr () \<Longrightarrow> \<exists>m. marker_matches req m \<and> marked (snd v) m F'"
          using write_marker_marks[OF c _ assms, of r F'] keeps(1) \<open>x = Inr () \<and> tree_ok F\<close> by blast+
        have "marked u d F'" if "marked u d F" for u d using marked_grown[OF keeps(2)[OF that] wrote(1)] .
        moreover have "tree_ok F \<longrightarrow> tree_ok F'" using wrote(1) keeps(1) by (simp add: grown_def)
        ultimately show ?thesis using wrote(2) by blast
      next
        case False
        then have "F' = G" "r \<noteq> Inr ()" using run G K \<open>x = Inr () \<and> tree_ok F\<close> asserted[OF K]
          by (auto simp: mark_version_def sbind_def split: sum.splits)
        then show ?thesis using keeps by auto
      qed
    next
      case False
      then consider e where "x = Inl e" | "\<not> tree_ok F" by (cases x) auto
      then show ?thesis
      proof cases
        case 1
        then have "F' = G" "r \<noteq> Inr ()" using run G by (auto simp: mark_version_def sbind_def)
        then show ?thesis using keeps by auto
      qed (simp add: marked_def)
    qed
  qed
  show "keeps_marks (mark_version req v)" unfolding keeps_marks_def using main by blast
  show "triple tree_ok (mark_version req v) (\<lambda>_ F. \<exists>m. marker_matches req m \<and> marked (snd v) m F) (\<lambda>_. True)"
    unfolding triple_def using main by (fastforce split: prod.splits sum.splits)
qed

section \<open>Preparing a launch keeps what other runs marked\<close>

text \<open>What parsing ensures of a request: no parent references, and a manifest beside the marker.\<close>

definition placed :: "start_request \<Rightarrow> bool" where
  "placed req \<longleftrightarrow> ''..'' \<notin> set (snd (sr_output_directory req)) \<and>
     (case sr_manifest_path req of None \<Rightarrow> True | Some p \<Rightarrow> path_name p \<noteq> VERSION_MARKER)"

definition version_root_of :: "start_request \<Rightarrow> ppath" where
  "version_root_of req = path_parent (sr_output_directory req)"

lemma placed_version: "placed req \<Longrightarrow> ''..'' \<notin> set (snd (version_root_of req))"
  by (auto simp: placed_def version_root_of_def path_parent_def dest: in_set_butlastD)

lemma keeps_marks_manifest:
  assumes "placed req"
  shows "keeps_marks (prepare_manifest E req)"
proof (cases "sr_manifest req")
  case (Some manifest)
  show ?thesis
  proof (cases "sr_manifest_path req")
    case path: (Some p)
    have "keeps_marks (write_json p (JObj manifest))"
      using assms path by (intro keeps_marks_write) (simp add: placed_def)
    moreover have "keeps_marks (sbind (read_json_file p) (\<lambda>current.
        refuse (\<not> json_same (JObj current) (JObj manifest)) (ExecutionError ''training_manifest_changed'')))"
      by (intro keeping)
    ultimately have "keeps_marks (store_manifest p manifest)"
      unfolding keeps_marks_def store_manifest_def by (simp split: if_split)
    then show ?thesis unfolding prepare_manifest_def Some path by simp (intro keeping)
  qed (simp add: prepare_manifest_def Some keeping)
qed (simp add: prepare_manifest_def keeping)

lemma keeps_marks_version: "placed req \<Longrightarrow> keeps_marks (prepare_version_root E req (version_root_of req))"
  unfolding prepare_version_marks by (intro keeping keeps_marks_manifest mark_version_keeps(1) placed_version)

text \<open>What follows the version directory.\<close>

definition finish_prepare :: "host_env \<Rightarrow> start_request \<Rightarrow> int list \<Rightarrow> ppath \<Rightarrow> (int list \<times> string list, node_files) stateful" where
  "finish_prepare H req indexes resolved_root =
     sbind (make_dir True (sr_output_directory req)) (\<lambda>_.
     sbind (assert_no_symlink_components (sr_output_directory req)) (\<lambda>_.
     sbind (resolve_strict OSError (sr_output_directory req)) (\<lambda>resolved.
     sbind (stage_directory_ok (sr_output_directory req) resolved resolved_root) (\<lambda>_.
     sbind (looked_up (runtime_argv H (sr_runtime req) (sr_argv req) (sr_working_directory req))) (\<lambda>argv.
     sbind (make_dir True (path_join (version_root_of req) [''.datapilot''])) (\<lambda>_.
       sret (indexes, argv)))))))"

lemma prepare_launch_parts:
  "prepare_launch E H resources req =
     sbind (slift (gpu_indexes E resources (sr_gpu_uuids req))) (\<lambda>indexes.
     sbind (prepare_output_root (sr_output_root req)) (\<lambda>resolved_root.
     sbind (prepare_version_root E req (version_root_of req)) (\<lambda>_. finish_prepare H req indexes resolved_root)))"
  by (simp add: prepare_launch_def finish_prepare_def version_root_of_def Let_def)

lemma keeps_marks_finish: "keeps_marks (finish_prepare H req indexes resolved_root)"
  unfolding finish_prepare_def by (intro keeping)

lemma prepare_launch_keeps: "placed req \<Longrightarrow> keeps_marks (prepare_launch E H resources req)"
  unfolding prepare_launch_parts by (intro keeping keeps_marks_version keeps_marks_finish)

text \<open>A prepared version directory is marked for its run and version.\<close>

lemma triple_keeps_marked:
  "keeps_marks m \<Longrightarrow> triple (\<lambda>F. \<exists>d. P d \<and> marked v d F) m (\<lambda>_ F. \<exists>d. P d \<and> marked v d F) (\<lambda>_. True)"
  unfolding triple_def keeps_marks_def by (fastforce split: prod.splits sum.splits)

lemma triple_tree: "keeps_marks m \<Longrightarrow> triple tree_ok m (\<lambda>_. tree_ok) (\<lambda>_. True)"
  by (rule triple_weaken[OF triple_keeping(1)]) simp_all

lemma triple_marked: "keeps_marks m \<Longrightarrow> triple (marked v d) m (\<lambda>_. marked v d) (\<lambda>_. True)"
  by (rule triple_weaken[OF triple_keeping(2)]) simp_all

lemma prepare_launch_marks:
  assumes "placed req"
  shows "triple tree_ok (prepare_launch E H resources req)
    (\<lambda>_ F. \<exists>d. marker_matches req d \<and> marked (snd (version_root_of req)) d F) (\<lambda>_. True)"
  unfolding prepare_launch_parts prepare_version_marks sbind_assoc
  by (intro triple_seq[OF triple_tree] triple_seq[OF mark_version_keeps(2)] triple_keeps_marked keeping
      keeps_marks_manifest keeps_marks_finish placed_version assms)

text \<open>A directory marked for another run is refused.\<close>

lemma marked_refused:
  assumes "marked (snd v) d F" "\<not> marker_matches req d"
  shows "check_version_root req v F = (Inl (ExecutionError ''training_output_marker_mismatch''), F)"
proof -
  let ?q = "snd v @ [VERSION_MARKER]"
  have m: "dirs (nf_entries F) (snd v)" "fs_at (nf_entries F) ?q = Some (FFile (Some (JObj d)))"
    using assms(1) by (simp_all add: marked_def)
  have e: "resolve_path F v = Some (snd v)" "fs_at (nf_entries F) (snd v) = Some FDir"
    using m(1) resolve_dirs by (auto simp: dirs_def)
  have here: "path_exists F v" "path_is_dir F v" using e by (simp_all add: path_exists_def path_is_dir_def stat_path_def)
  have "entry_place F v = Some (snd v)"
  proof (cases "snd v" rule: rev_cases)
    case (snoc ps p)
    then have "dirs (nf_entries F) ps" using m(1) by (simp add: dirs_snoc)
    then show ?thesis using snoc by (simp add: entry_place_def path_parent_def path_name_def resolve_dirs)
  qed (simp add: entry_place_def)
  then have plain: "\<not> path_is_symlink F v" using e(2) by (simp add: path_is_symlink_def)
  have stat: "stat_path F (marker_of v) = Some (FFile (Some (JObj d)))" by (rule marker_stat(2)[OF e m(2)])
  have "\<not> path_is_symlink F (marker_of v)" using marker_place[OF e(1)] m(2) by (simp add: path_is_symlink_def)
  then have "read_json_file (marker_of v) F = (Inr d, F)" using stat by (simp add: read_json_file_def)
  then show ?thesis using here plain stat assms(2)
    by (simp add: check_version_root_def Let_def path_exists_def sbind_def refuse_def sfail_def)
qed

lemma triple_refused:
  assumes "\<not> marker_matches req d"
  shows "triple (marked (snd (version_root_of req)) d) (prepare_launch E H resources req) (\<lambda>_ _. False) (\<lambda>_. True)"
proof -
  let ?v = "version_root_of req"
  have "triple (marked (snd ?v) d) (check_version_root req ?v) (\<lambda>_ _. False) (\<lambda>_. True)"
    using marked_refused[OF _ assms, of ?v] by (simp add: triple_def)
  then have mark: "triple (marked (snd ?v) d) (mark_version req ?v) (\<lambda>_ _. False) (\<lambda>_. True)"
    unfolding mark_version_def by (rule triple_seq) (simp add: triple_def)
  show ?thesis
    unfolding prepare_launch_parts prepare_version_marks sbind_assoc
    by (rule triple_seq[OF triple_marked], rule keeping, rule triple_seq[OF triple_marked], rule keeping,
      rule triple_seq[OF triple_marked], rule keeping, rule triple_seq[OF mark]) (simp add: triple_def)
qed

end
