(* ===== verification/Prepare_Properties.thy ===== *)
theory Prepare_Properties
  imports Launch_Properties Worker_Files
begin

text \<open>
  What the preparation of a launch guarantees: a version directory belongs to one run for good,
  and a launch with managed data sets verified every one of them.
\<close>

section \<open>Version directories\<close>

lemma manifest_of_Inr:
  assumes "manifest_of v payload = Inr (p, m)"
  shows "case p of None \<Rightarrow> True | Some q \<Rightarrow> path_name q \<noteq> VERSION_MARKER"
proof -
  have "path_name (path_join v [''dataset-manifest.json'']) \<noteq> VERSION_MARKER"
    by (simp add: path_name_def path_join_def VERSION_MARKER_def)
  then show ?thesis using assms
    by (cases "dict_get payload ''dataset_manifest''") (auto simp: manifest_of_def rbind_eq_Inr split: if_splits)
qed

lemma parsed_placed:
  assumes "parse_start P action = Inr req"
  shows "placed req"
proof -
  obtain payload where payload: "dict_get action ''payload'' = JObj payload"
    using assms by (cases "dict_get action ''payload''") (simp_all add: parse_start_def)
  show ?thesis
    using assms unfolding parse_start_def payload json.case Let_def
  proof (elim rbindE pairE, goal_cases)
    case (1 run_ref stage_ref epoch number label family wd raw_wd both raw entry root out u1 u2 argv u3 gpus runtime fmt both2 path manifest)
    then show ?case by (auto simp: placed_def absolute_path_Inr manifest_of_Inr)
  qed
qed

text \<open>Further start actions a node prepares, each with the resources and the host it meets.\<close>

type_synonym prepared = "env \<times> host_env \<times> dict \<times> start_request"

fun prepare_all :: "prepared list \<Rightarrow> node_files \<Rightarrow> node_files" where
  "prepare_all [] F = F"
| "prepare_all ((E, H, resources, req) # ls) F = prepare_all ls (snd (prepare_launch E H resources req F))"

lemma prepare_all_marked:
  "\<forall>(E, H, resources, req) \<in> set ls. placed req \<Longrightarrow> marked v d F \<Longrightarrow> marked v d (prepare_all ls F)"
proof (induction ls F rule: prepare_all.induct)
  case (2 E H resources req ls F)
  obtain r G where G: "prepare_launch E H resources req F = (r, G)" by force
  have "keeps_marks (prepare_launch E H resources req)" using 2(2) by (intro prepare_launch_keeps) simp
  then have "marked v d G" using 2(3) G unfolding keeps_marks_def by blast
  then show ?case using 2(1,2) G by simp
qed simp



section \<open>Managed data sets\<close>

text \<open>What the replicas of a manifest look like on the node.\<close>

definition replica_present :: "node_files \<Rightarrow> replica_key \<Rightarrow> bool" where
  "replica_present F item = (case item of (raw, key) \<Rightarrow>
     (case absolute_path (JStr raw) of
        Inl _ \<Rightarrow> False
      | Inr p \<Rightarrow>
          (case resolve_path F p of
             None \<Rightarrow> False
           | Some q \<Rightarrow>
               (case stat_path F (path_join (''/'', q) [DATASET_MARKER_NAME]) of
                  Some (FFile (Some (JObj marker))) \<Rightarrow> replica_marker_ok key marker
                | _ \<Rightarrow> False))))"

lemma read_only: "read_json_file p F = (r, F') \<Longrightarrow> F' = F \<and> (\<forall>d. r = Inr d \<longrightarrow> stat_path F p = Some (FFile (Some (JObj d))))"
  by (auto simp: read_json_file_def split: if_splits option.splits fs_node.splits json.splits)

lemma existing_read:
  assumes "existing_directory v F = (r, F')"
  shows "F' = F \<and> (\<forall>q. r = Inr q \<longrightarrow> (\<exists>p d. absolute_path v = Inr p \<and> resolve_path F p = Some d \<and> q = (''/'', d)))"
proof (cases "absolute_path v")
  case (Inr p)
  then show ?thesis using assms
    by (cases "resolve_path F p") (auto simp: existing_directory_def sbind_def slift_def resolve_strict_def looked_up_def split: if_splits)
qed (use assms in \<open>auto simp: existing_directory_def sbind_def slift_def\<close>)

lemma verify_markers_present:
  "verify_markers items F = (r, F') \<Longrightarrow> F' = F \<and> (r = Inr () \<longrightarrow> list_all (replica_present F) items)"
proof (induction items arbitrary: r F' rule: verify_markers.induct)
  case (2 raw key items)
  obtain x G where x: "existing_directory (JStr raw) F = (x, G)" by force
  note G = existing_read[OF x]
  show ?case
  proof (cases x)
    case Inl
    then show ?thesis using 2(2) x G by (auto simp: sbind_def)
  next
    case (Inr q)
    obtain y K where y: "read_json_file (path_join q [DATASET_MARKER_NAME]) F = (y, K)" by force
    note K = read_only[OF y]
    show ?thesis
    proof (cases y)
      case Inl
      then show ?thesis using 2(2) x y G K Inr by (auto simp: sbind_def)
    next
      case marker: (Inr m)
      show ?thesis
      proof (cases "replica_marker_ok key m")
        case True
        then have rest: "verify_markers items F = (r, F')"
          using 2(2) x y G K Inr marker by (simp add: sbind_def refuse_def sret_def)
        obtain p d where "absolute_path (JStr raw) = Inr p" "resolve_path F p = Some d" "q = (''/'', d)" using G Inr by blast
        then have "replica_present F (raw, key)" using K marker True by (simp add: replica_present_def)
        then show ?thesis using 2(1)[OF rest] by simp
      qed (use 2(2) x y G K Inr marker in \<open>auto simp: sbind_def refuse_def sfail_def\<close>)
    qed
  qed
qed (simp add: sret_def)

lemma verify_replicas_present:
  assumes "verify_replicas E rs manifest F = (Inr (), F')"
  shows "\<exists>items. F' = F \<and> expected_replicas manifest = Inr items \<and> set (supplied_replicas E rs) = set items \<and> list_all (replica_present F) items"
proof -
  obtain items where items: "expected_replicas manifest = Inr items"
    using assms by (cases "expected_replicas manifest") (simp_all add: verify_replicas_def sbind_def slift_def)
  then have "set (supplied_replicas E rs) = set items" "verify_markers items F = (Inr (), F')"
    using assms by (auto simp: verify_replicas_def sbind_def slift_def refuse_def sret_def sfail_def split: if_splits)
  then show ?thesis using items verify_markers_present by blast
qed

text \<open>A run with a manifest passes through its verification.\<close>

lemma sbind_Inr: "sbind m f F = (Inr b, F') \<longleftrightarrow> (\<exists>a G. m F = (Inr a, G) \<and> f a G = (Inr b, F'))"
  by (auto simp: sbind_def split: prod.splits sum.splits)

lemma prepared_manifest:
  assumes "prepare_launch E H resources req F = (Inr x, F')"
  shows "\<exists>G G' indexes base. prepare_manifest E req G = (Inr (), G') \<and> finish_prepare H req indexes base G' = (Inr x, F')"
  using assms unfolding prepare_launch_parts prepare_version_marks sbind_Inr by simp blast

text \<open>
  C10: A launch that names a data set manifest is only prepared when the manifest is that of its
  run and family, the replicas listed with the action are exactly those of the manifest, and each
  of them is a directory of the node whose marker names the release, date and digest the manifest
  gives.
\<close>

theorem launched_data_verified:
  assumes "prepare_launch E H resources req F = (Inr x, F')"
    and "sr_manifest req = Some manifest" "sr_manifest_path req = Some path"
  shows "manifest_identity_ok req manifest \<and> (\<exists>G G' indexes base items.
    expected_replicas manifest = Inr items \<and> set (supplied_replicas E (sr_replicas req)) = set items \<and>
    list_all (replica_present G) items \<and> store_manifest path manifest G = (Inr (), G') \<and>
    finish_prepare H req indexes base G' = (Inr x, F'))"
proof -
  obtain G G' indexes base where manifest: "prepare_manifest E req G = (Inr (), G')"
    and finish: "finish_prepare H req indexes base G' = (Inr x, F')" using prepared_manifest[OF assms(1)] by blast
  then have ok: "manifest_identity_ok req manifest"
    using assms(2,3) by (auto simp: prepare_manifest_def sbind_def refuse_def sret_def sfail_def split: if_splits)
  then obtain K where K: "verify_replicas E (sr_replicas req) manifest G = (Inr (), K)" "store_manifest path manifest K = (Inr (), G')"
    using manifest assms(2,3) by (simp add: prepare_manifest_def sbind_Inr refuse_def sret_def) blast
  obtain items where items: "K = G" "expected_replicas manifest = Inr items" "set (supplied_replicas E (sr_replicas req)) = set items"
    "list_all (replica_present G) items" using verify_replicas_present[OF K(1)] by blast
  show ?thesis using ok items K(2) finish by (intro conjI exI) simp_all
qed

definition ex_manifest :: dict where
  "ex_manifest = [(''contract'', JStr ''datapilot_dataset_manifest_v1''), (''run_ref'', JStr ''r1''), (''family_ref'', JStr ''fam''),
     (''splits'', JObj [(''train'', JList [JObj [(''local_root'', JStr ''/d''), (''release_ref'', JStr ''rel''),
       (''dataset_date'', JStr ''day''), (''inventory_sha256'', JStr (replicate 64 (CHR ''a'')))]])])]"

definition ex_data_start :: start_request where
  "ex_data_start = ex_start\<lparr>sr_manifest_path := Some (''/'', [''out'', ''fam'', ''v1'', ''dataset-manifest.json'']),
     sr_manifest := Some ex_manifest, sr_replicas := [[(''local_root'', JStr ''/d''), (''release_ref'', JStr ''rel''),
       (''dataset_date'', JStr ''day''), (''inventory_sha256'', JStr (replicate 64 (CHR ''a'')))]]\<rparr>"

definition ex_data_files :: node_files where
  "ex_data_files = \<lparr>nf_entries = [([''d''], FDir), ([''d'', DATASET_MARKER_NAME], FFile (Some (JObj
     [(''contract'', JStr DATASET_MARKER_CONTRACT), (''release_ref'', JStr ''rel''), (''dataset_date'', JStr ''day''),
      (''inventory_sha256'', JStr (replicate 64 (CHR ''a'')))])))], nf_writable = (\<lambda>_. True)\<rparr>"

theorem launched_data_verified_witness:
  "\<exists>x F'. manifest_identity_ok ex_data_start ex_manifest \<and> (\<exists>G G' indexes base items.
    expected_replicas ex_manifest = Inr items \<and> set (supplied_replicas ex_env (sr_replicas ex_data_start)) = set items \<and>
    list_all (replica_present G) items \<and>
    store_manifest (''/'', [''out'', ''fam'', ''v1'', ''dataset-manifest.json'']) ex_manifest G = (Inr (), G') \<and>
    finish_prepare ex_host ex_data_start indexes base G' = (Inr x, F'))"
proof -
  let ?gpus = "[(''gpus'', JList [JObj [(''uuid'', JStr ''g1''), (''index'', JInt 0)]])]"
  have "is_ok (fst (prepare_launch ex_env ex_host ?gpus ex_data_start ex_data_files))" by code_simp
  then obtain x F' where run: "prepare_launch ex_env ex_host ?gpus ex_data_start ex_data_files = (Inr x, F')"
    by (cases "prepare_launch ex_env ex_host ?gpus ex_data_start ex_data_files") (auto simp: is_ok_def split: sum.splits)
  have "sr_manifest ex_data_start = Some ex_manifest"
    "sr_manifest_path ex_data_start = Some (''/'', [''out'', ''fam'', ''v1'', ''dataset-manifest.json''])"
    by (simp_all add: ex_data_start_def)
  from launched_data_verified[OF run this] show ?thesis by (intro exI[of _ x] exI[of _ F'])
qed

end
