(* ===== verification/Run_Parameters.thy ===== *)
theory Run_Parameters
  imports Run_Creation Update_Requests "HOL-Library.Monad_Syntax"
begin

text \<open>
  The training parameters of a model family and their values in a stage: the definitions
  (\<open>models.py\<close>, \<open>ParameterDefinition\<close>), the value a definition accepts
  (\<open>normalize_parameter_value\<close>), and the parameters of one stage with those that are hidden
  behind another one (\<open>normalize_stage\<close> in \<open>service.py\<close>).
\<close>

section \<open>Numbers and text\<close>

text \<open>Comparison and equality of Python numbers: integers, floats and booleans mix.\<close>

fun float_less :: "pyfloat \<Rightarrow> pyfloat \<Rightarrow> bool" where
  "float_less (Fin a) (Fin b) = (a < b)"
| "float_less NegInf (Fin b) = True"
| "float_less NegInf PosInf = True"
| "float_less (Fin a) PosInf = True"
| "float_less _ _ = False"

fun number_of :: "json \<Rightarrow> pyfloat" where
  "number_of (JInt i) = Fin (of_int i)"
| "number_of (JFloat f) = f"
| "number_of (JBool b) = Fin (if b then 1 else 0)"
| "number_of _ = NaN"

fun is_numeric :: "json \<Rightarrow> bool" where
  "is_numeric (JInt i) = True"
| "is_numeric (JFloat f) = True"
| "is_numeric (JBool b) = True"
| "is_numeric _ = False"

definition scalar_eq :: "json \<Rightarrow> json \<Rightarrow> bool" where
  "scalar_eq v w \<longleftrightarrow> (if is_numeric v \<and> is_numeric w then number_of v = number_of w \<and> number_of v \<noteq> NaN else v = w)"

definition single_line :: "string \<Rightarrow> bool" where
  "single_line s \<longleftrightarrow> char_of (0 :: nat) \<notin> set s \<and> char_of (10 :: nat) \<notin> set s \<and> char_of (13 :: nat) \<notin> set s"

definition MAX_SAFE_INTEGER :: int where "MAX_SAFE_INTEGER = 9007199254740991"

section \<open>Parameter definitions\<close>

datatype param_kind = IntegerKind | FloatKind | BooleanKind | EnumKind | StringKind
datatype param_role = Hyperparameter | StageInput
datatype argument_style = ValueStyle | ExplicitBoolean | FlagWhenTrue

record param_def =
  pd_name :: string
  pd_kind :: param_kind
  pd_role :: param_role
  pd_flag :: string
  pd_style :: "argument_style option"
  pd_default :: json
  pd_sensitive :: bool
  pd_minimum :: "pyfloat option"
  pd_maximum :: "pyfloat option"
  pd_choices :: "string list option"
  pd_pattern :: "string option"
  pd_min_length :: "nat option"
  pd_max_length :: "nat option"
  pd_visible_when :: "(string \<times> json) option"
  pd_group :: "string option"
  pd_group_label :: "string option"
  pd_group_order :: "nat option"

text \<open>
  What the parameters use of other libraries: \<open>float\<close> and \<open>str\<close> of the environment, and
  \<open>re.fullmatch\<close> of a pattern that compiles.
\<close>

record param_env =
  pv_env :: env
  pv_pattern :: "string \<Rightarrow> (string \<Rightarrow> bool) option"

definition bad_value :: "string \<Rightarrow> 'a res" where
  "bad_value m = Inl (ValueError m)"

definition below :: "pyfloat option \<Rightarrow> pyfloat \<Rightarrow> bool" where
  "below bound x = (case bound of None \<Rightarrow> False | Some b \<Rightarrow> float_less x b)"

definition above :: "pyfloat option \<Rightarrow> pyfloat \<Rightarrow> bool" where
  "above bound x = (case bound of None \<Rightarrow> False | Some b \<Rightarrow> float_less b x)"

definition in_bounds :: "param_def \<Rightarrow> json \<Rightarrow> json res" where
  "in_bounds d v =
     (if below (pd_minimum d) (number_of v) then bad_value ''below minimum''
      else if above (pd_maximum d) (number_of v) then bad_value ''exceeds maximum'' else Inr v)"

definition is_finite_float :: "pyfloat \<Rightarrow> bool" where
  "is_finite_float f = (case f of Fin _ \<Rightarrow> True | _ \<Rightarrow> False)"

definition normalize_text :: "param_env \<Rightarrow> param_def \<Rightarrow> string \<Rightarrow> json res" where
  "normalize_text P d s =
     (if 512 < py_len s \<or> \<not> single_line s then bad_value ''safe string''
      else if pd_kind d = EnumKind \<and> s \<notin> set (case pd_choices d of None \<Rightarrow> [] | Some cs \<Rightarrow> cs) then bad_value ''choice''
      else if (case pd_pattern d of None \<Rightarrow> False
               | Some p \<Rightarrow> (case pv_pattern P p of None \<Rightarrow> True | Some matches \<Rightarrow> \<not> matches s)) then bad_value ''pattern''
      else if pd_kind d = StringKind \<and> (case pd_min_length d of None \<Rightarrow> False | Some n \<Rightarrow> py_len s < n) then bad_value ''too short''
      else if pd_kind d = StringKind \<and> (case pd_max_length d of None \<Rightarrow> False | Some n \<Rightarrow> n < py_len s) then bad_value ''too long''
      else Inr (JStr s))"

definition normalize_parameter_value :: "param_env \<Rightarrow> param_def \<Rightarrow> json \<Rightarrow> json res" where
  "normalize_parameter_value P d v =
     (case pd_kind d of
        BooleanKind \<Rightarrow> (case v of JBool b \<Rightarrow> Inr v | _ \<Rightarrow> bad_value ''boolean'')
      | IntegerKind \<Rightarrow>
          (case v of
             JInt i \<Rightarrow> (if MAX_SAFE_INTEGER < \<bar>i\<bar> then bad_value ''safe integer'' else in_bounds d v)
           | _ \<Rightarrow> bad_value ''integer'')
      | FloatKind \<Rightarrow>
          (if is_number v
           then rbind (float_of (pv_env P) v) (\<lambda>x.
             if \<not> is_finite_float (number_of x) then bad_value ''finite'' else in_bounds d x)
           else bad_value ''number'')
      | _ \<Rightarrow> (case v of JStr s \<Rightarrow> normalize_text P d s | _ \<Rightarrow> bad_value ''safe string''))"

text \<open>\<open>ParameterDefinition.validate_definition\<close>: a missing style is filled in.\<close>

definition is_integer_float :: "pyfloat \<Rightarrow> bool" where
  "is_integer_float f = (case f of Fin q \<Rightarrow> of_int \<lfloor>q\<rfloor> = q | _ \<Rightarrow> False)"

definition default_style :: "param_kind \<Rightarrow> argument_style" where
  "default_style k = (if k = BooleanKind then FlagWhenTrue else ValueStyle)"

definition style_of :: "param_def \<Rightarrow> argument_style" where
  "style_of d = (case pd_style d of None \<Rightarrow> default_style (pd_kind d) | Some s \<Rightarrow> s)"

definition bounds_of :: "param_def \<Rightarrow> pyfloat list" where
  "bounds_of d = (case pd_minimum d of None \<Rightarrow> [] | Some x \<Rightarrow> [x]) @ (case pd_maximum d of None \<Rightarrow> [] | Some x \<Rightarrow> [x])"

definition bounds_ok :: "param_def \<Rightarrow> bool" where
  "bounds_ok d \<longleftrightarrow>
     \<not> (case pd_minimum d of None \<Rightarrow> False | Some a \<Rightarrow> above (pd_maximum d) a) \<and>
     list_all is_finite_float (bounds_of d) \<and>
     (if pd_kind d = IntegerKind
      then list_all is_integer_float (bounds_of d) \<and>
           list_all (\<lambda>x. \<not> float_less (Fin (of_int MAX_SAFE_INTEGER)) x \<and> \<not> float_less x (Fin (- of_int MAX_SAFE_INTEGER))) (bounds_of d)
      else pd_kind d = FloatKind \<or> bounds_of d = [])"

definition choices_ok :: "param_def \<Rightarrow> bool" where
  "choices_ok d \<longleftrightarrow>
     (if pd_kind d = EnumKind then (case pd_choices d of None \<Rightarrow> False | Some cs \<Rightarrow> cs \<noteq> [] \<and> distinct cs) else pd_choices d = None)"

definition lengths_ok :: "param_def \<Rightarrow> bool" where
  "lengths_ok d \<longleftrightarrow>
     (pd_kind d \<noteq> StringKind \<longrightarrow> pd_min_length d = None \<and> pd_max_length d = None) \<and>
     (case (pd_min_length d, pd_max_length d) of (Some a, Some b) \<Rightarrow> a \<le> b | _ \<Rightarrow> True)"

definition group_ok :: "param_def \<Rightarrow> bool" where
  "group_ok d \<longleftrightarrow>
     (if pd_group d = None then pd_group_label d = None \<and> pd_group_order d = None
      else pd_group_label d \<noteq> None \<and> pd_group_order d \<noteq> None)"

definition validate_definition :: "param_env \<Rightarrow> param_def \<Rightarrow> param_def res" where
  "validate_definition P d0 =
     (let d = d0\<lparr>pd_style := Some (style_of d0)\<rparr> in
      if pd_role d = StageInput \<and> (pd_kind d \<noteq> StringKind \<or> pd_visible_when d \<noteq> None) then bad_value ''stage input''
      else if (pd_kind d = BooleanKind) = (style_of d = ValueStyle) then bad_value ''argument style''
      else if \<not> bounds_ok d then bad_value ''bounds''
      else if \<not> choices_ok d then bad_value ''choices''
      else if pd_pattern d \<noteq> None \<and> (pd_kind d \<noteq> StringKind \<or> pv_pattern P (the (pd_pattern d)) = None) then bad_value ''pattern''
      else if \<not> lengths_ok d then bad_value ''lengths''
      else if \<not> group_ok d then bad_value ''display group''
      else rbind (normalize_parameter_value P d (pd_default d)) (\<lambda>_. Inr d))"

section \<open>The parameters of a stage\<close>

record stage_request =
  st_parameters :: dict
  st_source :: string

record normalized_stage =
  ns_parameters :: dict
  ns_sensitive :: "string list"
  ns_source :: string
  ns_total_steps :: int

text \<open>
  Resolving the parameters of one stage: the values and their sensitive names, which
  definitions were decided, and those whose decision is under way.
\<close>

record resolution =
  rz_normalized :: dict
  rz_sensitive :: "string list"
  rz_active :: "(string \<times> bool) list"
  rz_resolving :: "string list"

record stage_context =
  sx_definitions :: "param_def list"
  sx_supplied :: dict
  sx_previous :: bool

definition find_definition :: "param_def list \<Rightarrow> string \<Rightarrow> param_def option" where
  "find_definition ds name = map_of (rev (map (\<lambda>d. (pd_name d, d)) ds)) name"

definition stage_input_of :: "param_def list \<Rightarrow> param_def option" where
  "stage_input_of ds = find (\<lambda>d. pd_role d = StageInput) ds"

definition dependency_error :: py_error where
  "dependency_error = Validation ''invalid_parameter_dependency''"

definition decided :: "bool \<Rightarrow> param_def \<Rightarrow> resolution \<Rightarrow> resolution" where
  "decided b d z = z\<lparr>rz_resolving := removeAll (pd_name d) (rz_resolving z), rz_active := (pd_name d, b) # rz_active z,
     rz_sensitive := rz_sensitive z @ (if b \<and> pd_sensitive d then [pd_name d] else [])\<rparr>"

text \<open>The stage input of a stage that takes the output of the previous one.\<close>

definition is_automatic :: "stage_context \<Rightarrow> param_def \<Rightarrow> bool" where
  "is_automatic C d \<longleftrightarrow> sx_previous C \<and>
     (case stage_input_of (sx_definitions C) of None \<Rightarrow> False | Some i \<Rightarrow> pd_name d = pd_name i)"

definition supplied_value :: "stage_context \<Rightarrow> param_def \<Rightarrow> json" where
  "supplied_value C d = dict_get_default (sx_supplied C) (pd_name d) (pd_default d)"

text \<open>A \<open>ValueError\<close> becomes a request error; every other exception passes.\<close>

definition parameter_error :: "'a res \<Rightarrow> 'a res" where
  "parameter_error r = (case r of Inl (ValueError _) \<Rightarrow> Inl (Validation ''invalid_parameter'') | _ \<Rightarrow> r)"

definition take_value :: "param_env \<Rightarrow> stage_context \<Rightarrow> param_def \<Rightarrow> resolution \<Rightarrow> (bool \<times> resolution) res" where
  "take_value P C d z =
     rbind (parameter_error (normalize_parameter_value P d (supplied_value C d))) (\<lambda>v.
       Inr (True, decided True d (z\<lparr>rz_normalized := dict_set (pd_name d) v (rz_normalized z)\<rparr>)))"

partial_function (option) resolve_parameter ::
  "param_env \<Rightarrow> stage_context \<Rightarrow> param_def \<Rightarrow> resolution \<Rightarrow> (bool \<times> resolution) res option" where
  "resolve_parameter P C d z =
     (case map_of (rz_active z) (pd_name d) of
        Some b \<Rightarrow> Some (Inr (b, z))
      | None \<Rightarrow>
          (if pd_name d \<in> set (rz_resolving z) then Some (Inl dependency_error)
           else
             let z1 = z\<lparr>rz_resolving := pd_name d # rz_resolving z\<rparr> in
             if is_automatic C d then Some (Inr (True, decided True d z1))
             else case pd_visible_when d of
               None \<Rightarrow> Some (take_value P C d z1)
             | Some (name, expected) \<Rightarrow>
                 (case find_definition (sx_definitions C) name of
                    None \<Rightarrow> Some (Inl dependency_error)
                  | Some c \<Rightarrow>
                      Option.bind (resolve_parameter P C c z1) (\<lambda>r. Some (rbind r (\<lambda>(shown, z2).
                        if \<not> shown \<or> \<not> scalar_eq (dict_get (rz_normalized z2) (pd_name c)) expected
                        then Inr (False, decided False d z2) else take_value P C d z2))))))"

declare resolve_parameter.simps [code]

fun resolve_all :: "param_env \<Rightarrow> stage_context \<Rightarrow> param_def list \<Rightarrow> resolution \<Rightarrow> resolution res option" where
  "resolve_all P C [] z = Some (Inr z)"
| "resolve_all P C (d # ds) z =
     Option.bind (resolve_parameter P C d z) (\<lambda>r.
       case r of Inl e \<Rightarrow> Some (Inl e) | Inr (_, z') \<Rightarrow> resolve_all P C ds z')"

definition no_resolution :: resolution where
  "no_resolution = \<lparr>rz_normalized = [], rz_sensitive = [], rz_active = [], rz_resolving = []\<rparr>"

definition unknown_supplied :: "param_def list \<Rightarrow> dict \<Rightarrow> bool" where
  "unknown_supplied ds supplied \<longleftrightarrow> \<not> list_all (\<lambda>(k, _). k \<in> pd_name ` set ds) supplied"

definition maximum_steps :: "bool \<Rightarrow> int" where
  "maximum_steps is_real = (if is_real then 10000000 else 10000)"

definition stage_result :: "bool \<Rightarrow> stage_request \<Rightarrow> resolution \<Rightarrow> normalized_stage res" where
  "stage_result is_real st z =
     rbind (py_int (dict_get_default (rz_normalized z) ''max_steps'' (JInt 20))) (\<lambda>steps.
       if steps < 1 \<or> maximum_steps is_real < steps then Inl (Validation ''invalid_max_steps'')
       else Inr \<lparr>ns_parameters = rz_normalized z, ns_sensitive = rz_sensitive z, ns_source = st_source st,
                 ns_total_steps = steps\<rparr>)"

definition stage_context_of :: "param_def list \<Rightarrow> stage_request \<Rightarrow> stage_context" where
  "stage_context_of ds st = \<lparr>sx_definitions = ds, sx_supplied = st_parameters st,
     sx_previous = (st_source st = ''previous_stage_output'')\<rparr>"

definition normalize_stage ::
  "param_env \<Rightarrow> param_def list \<Rightarrow> bool \<Rightarrow> nat \<Rightarrow> stage_request \<Rightarrow> normalized_stage res option" where
  "normalize_stage P ds is_real number st =
     (if number = 1 \<and> st_source st \<noteq> ''manual'' then Some (Inl (Validation ''invalid_stage_input_source''))
      else if st_source st = ''previous_stage_output'' \<and> stage_input_of ds = None
        then Some (Inl (Validation ''stage_input_not_registered''))
      else if unknown_supplied ds (st_parameters st) then Some (Inl (Validation ''unknown_parameter''))
      else Option.bind (resolve_all P (stage_context_of ds st) ds no_resolution)
             (\<lambda>r. Some (rbind r (stage_result is_real st))))"

end
