(* ===== verification/Parameter_Resolution.thy ===== *)
theory Parameter_Resolution
  imports Run_Parameters
begin

text \<open>
  Resolving the parameters of a stage: it always ends, whatever the definitions depend on, and
  its result is the one the visibility conditions ask for.
\<close>

section \<open>Termination\<close>

lemma find_definition_in: "find_definition ds name = Some c \<Longrightarrow> c \<in> set ds \<and> pd_name c = name"
  unfolding find_definition_def by (auto dest!: map_of_SomeD)

text \<open>The definitions that are not under way get fewer with every nested call.\<close>

lemma resolve_returns:
  "d \<in> set (sx_definitions C) \<Longrightarrow> \<exists>r. resolve_parameter P C d z = Some r"
proof (induction "card (pd_name ` set (sx_definitions C) - set (rz_resolving z))" arbitrary: d z rule: less_induct)
  case less
  let ?names = "pd_name ` set (sx_definitions C)" and ?z = "z\<lparr>rz_resolving := pd_name d # rz_resolving z\<rparr>"
  have nested: "\<exists>r. resolve_parameter P C c ?z = Some r"
    if "pd_name d \<notin> set (rz_resolving z)" "find_definition (sx_definitions C) name = Some c" for c name
  proof (rule less.hyps)
    show "c \<in> set (sx_definitions C)" using find_definition_in[OF that(2)] by simp
    have "?names - set (rz_resolving ?z) \<subset> ?names - set (rz_resolving z)" using that(1) less.prems by auto
    then show "card (?names - set (rz_resolving ?z)) < card (?names - set (rz_resolving z))"
      by (intro psubset_card_mono) simp_all
  qed
  show ?case
    by (subst resolve_parameter.simps) (use nested in \<open>auto simp: Let_def bind_eq_Some_conv split: option.splits\<close>)
qed

lemma resolve_all_returns: "set ds \<subseteq> set (sx_definitions C) \<Longrightarrow> \<exists>r. resolve_all P C ds z = Some r"
proof (induction ds arbitrary: z)
  case (Cons d ds)
  then obtain r where "resolve_parameter P C d z = Some r" using resolve_returns by fastforce
  then show ?case using Cons by (auto split: sum.splits)
qed simp

lemma normalize_stage_returns: "\<exists>r. normalize_stage P ds is_real number st = Some r"
  using resolve_all_returns[of ds "stage_context_of ds st" P no_resolution]
  by (auto simp: normalize_stage_def stage_context_of_def)

text \<open>
  C33: Resolving the parameters of a stage ends for every list of definitions, whatever they
  depend on, cycles and unknown controllers included.
\<close>

theorem parameter_resolution_terminates:
  "\<exists>r. normalize_stage P ds is_real number st = Some r"
  by (rule normalize_stage_returns)

section \<open>The values of a stage\<close>

text \<open>When a definition is shown, given the values of the stage.\<close>

definition condition_met :: "stage_context \<Rightarrow> dict \<Rightarrow> param_def \<Rightarrow> bool" where
  "condition_met C N d \<longleftrightarrow> is_automatic C d \<or>
     (case pd_visible_when d of
        None \<Rightarrow> True
      | Some (name, expected) \<Rightarrow>
          (case find_definition (sx_definitions C) name of
             None \<Rightarrow> False
           | Some c \<Rightarrow> (is_automatic C c \<or> pd_name c \<in> fst ` set N) \<and> scalar_eq (dict_get N (pd_name c)) expected))"

text \<open>The value a stage has for a definition.\<close>

definition value_right :: "param_env \<Rightarrow> stage_context \<Rightarrow> dict \<Rightarrow> param_def \<Rightarrow> bool" where
  "value_right P C N d \<longleftrightarrow>
     (if condition_met C N d \<and> \<not> is_automatic C d
      then \<exists>v. normalize_parameter_value P d (supplied_value C d) = Inr v \<and> map_of N (pd_name d) = Some v
      else map_of N (pd_name d) = None)"

definition controller_decided :: "stage_context \<Rightarrow> (string \<times> bool) list \<Rightarrow> param_def \<Rightarrow> bool" where
  "controller_decided C A d \<longleftrightarrow> is_automatic C d \<or>
     (case pd_visible_when d of
        None \<Rightarrow> True
      | Some (name, _) \<Rightarrow> (case find_definition (sx_definitions C) name of None \<Rightarrow> False | Some c \<Rightarrow> map_of A (pd_name c) \<noteq> None))"

text \<open>What holds of every decided definition, and of the undecided ones.\<close>

definition resolution_ok :: "param_env \<Rightarrow> stage_context \<Rightarrow> resolution \<Rightarrow> bool" where
  "resolution_ok P C z \<longleftrightarrow> (\<forall>d \<in> set (sx_definitions C). case map_of (rz_active z) (pd_name d) of
       None \<Rightarrow> map_of (rz_normalized z) (pd_name d) = None
     | Some b \<Rightarrow> b = condition_met C (rz_normalized z) d \<and> value_right P C (rz_normalized z) d \<and>
         controller_decided C (rz_active z) d)"

text \<open>One step of a resolution.\<close>

lemma resolve_cases:
  assumes "resolve_parameter P C d z = Some (Inr (b, z'))"
  obtains (known) "map_of (rz_active z) (pd_name d) = Some b" "z' = z"
  | (automatic) "map_of (rz_active z) (pd_name d) = None" "pd_name d \<notin> set (rz_resolving z)" "is_automatic C d" "b"
      "z' = decided True d (z\<lparr>rz_resolving := pd_name d # rz_resolving z\<rparr>)"
  | (plain) "map_of (rz_active z) (pd_name d) = None" "pd_name d \<notin> set (rz_resolving z)" "\<not> is_automatic C d" "b"
      "pd_visible_when d = None" "take_value P C d (z\<lparr>rz_resolving := pd_name d # rz_resolving z\<rparr>) = Inr (b, z')"
  | (depends) name expected c shown z2 where "map_of (rz_active z) (pd_name d) = None" "pd_name d \<notin> set (rz_resolving z)"
      "\<not> is_automatic C d" "pd_visible_when d = Some (name, expected)" "find_definition (sx_definitions C) name = Some c"
      "resolve_parameter P C c (z\<lparr>rz_resolving := pd_name d # rz_resolving z\<rparr>) = Some (Inr (shown, z2))"
      "if \<not> shown \<or> \<not> scalar_eq (dict_get (rz_normalized z2) (pd_name c)) expected
       then \<not> b \<and> z' = decided False d z2 else b \<and> take_value P C d z2 = Inr (b, z')"
proof (cases "map_of (rz_active z) (pd_name d)")
  case (Some a)
  then show ?thesis using assms by (subst (asm) resolve_parameter.simps) (auto intro: known)
next
  case None
  note unfolded = assms[unfolded resolve_parameter.simps[of P C d z] None option.case Let_def]
  have fresh: "pd_name d \<notin> set (rz_resolving z)" using unfolded by (auto split: if_splits)
  have took: "b'" if "take_value P C d y = Inr (b', z'')" for b' y z''
    using that by (auto simp: take_value_def rbind_eq_Inr)
  show ?thesis
  proof (cases "is_automatic C d")
    case True
    then show ?thesis using unfolded fresh None by (intro automatic) auto
  next
    case False
    show ?thesis
    proof (cases "pd_visible_when d")
      case plain': None
      then have "take_value P C d (z\<lparr>rz_resolving := pd_name d # rz_resolving z\<rparr>) = Inr (b, z')" using unfolded fresh False by simp
      then show ?thesis using plain[OF None fresh False took plain'] by blast
    next
      case (Some ne)
      obtain name expected where ne: "ne = (name, expected)" by force
      then obtain c where c: "find_definition (sx_definitions C) name = Some c" using unfolded fresh False Some by (auto split: option.splits)
      then obtain shown z2 where z2: "resolve_parameter P C c (z\<lparr>rz_resolving := pd_name d # rz_resolving z\<rparr>) = Some (Inr (shown, z2))"
        "(if \<not> shown \<or> \<not> scalar_eq (dict_get (rz_normalized z2) (pd_name c)) expected
          then Inr (False, decided False d z2) else take_value P C d z2) = Inr (b, z')"
        using unfolded fresh False Some ne by (auto simp: bind_eq_Some_conv rbind_eq_Inr split: prod.splits)
      have "if \<not> shown \<or> \<not> scalar_eq (dict_get (rz_normalized z2) (pd_name c)) expected
         then \<not> b \<and> z' = decided False d z2 else b \<and> take_value P C d z2 = Inr (b, z')"
        using z2(2) took by (auto split: if_splits)
      then show ?thesis using depends[OF None fresh False Some[unfolded ne] c z2(1)] by blast
    qed
  qed
qed

lemma resolving_fewer:
  assumes "d \<in> set ds" "pd_name d \<notin> set (rz_resolving z)"
  shows "card (pd_name ` set ds - set (pd_name d # rz_resolving z)) < card (pd_name ` set ds - set (rz_resolving z))"
proof -
  have "pd_name ` set ds - set (pd_name d # rz_resolving z) \<subset> pd_name ` set ds - set (rz_resolving z)" using assms by auto
  then show ?thesis by (intro psubset_card_mono) simp_all
qed

lemma resolve_induct [consumes 2, case_names known automatic plain depends]:
  assumes "resolve_parameter P C d z = Some (Inr (b, z'))" "d \<in> set (sx_definitions C)"
    and known: "\<And>d z b. map_of (rz_active z) (pd_name d) = Some b \<Longrightarrow> Q d z b z"
    and automatic: "\<And>d z. d \<in> set (sx_definitions C) \<Longrightarrow> map_of (rz_active z) (pd_name d) = None \<Longrightarrow>
      pd_name d \<notin> set (rz_resolving z) \<Longrightarrow> is_automatic C d \<Longrightarrow>
      Q d z True (decided True d (z\<lparr>rz_resolving := pd_name d # rz_resolving z\<rparr>))"
    and plain: "\<And>d z z'. d \<in> set (sx_definitions C) \<Longrightarrow> map_of (rz_active z) (pd_name d) = None \<Longrightarrow>
      pd_name d \<notin> set (rz_resolving z) \<Longrightarrow> \<not> is_automatic C d \<Longrightarrow>
      pd_visible_when d = None \<Longrightarrow> take_value P C d (z\<lparr>rz_resolving := pd_name d # rz_resolving z\<rparr>) = Inr (True, z') \<Longrightarrow> Q d z True z'"
    and depends: "\<And>d z b z' name expected c shown z2. d \<in> set (sx_definitions C) \<Longrightarrow>
      map_of (rz_active z) (pd_name d) = None \<Longrightarrow> pd_name d \<notin> set (rz_resolving z) \<Longrightarrow>
      \<not> is_automatic C d \<Longrightarrow> pd_visible_when d = Some (name, expected) \<Longrightarrow> find_definition (sx_definitions C) name = Some c \<Longrightarrow>
      Q c (z\<lparr>rz_resolving := pd_name d # rz_resolving z\<rparr>) shown z2 \<Longrightarrow>
      (if \<not> shown \<or> \<not> scalar_eq (dict_get (rz_normalized z2) (pd_name c)) expected
       then \<not> b \<and> z' = decided False d z2 else b \<and> take_value P C d z2 = Inr (b, z')) \<Longrightarrow> Q d z b z'"
  shows "Q d z b z'"
  using assms(1,2)
proof (induction "card (pd_name ` set (sx_definitions C) - set (rz_resolving z))" arbitrary: d z b z' rule: less_induct)
  case less
  from less.prems(1) show ?case
  proof (cases rule: resolve_cases)
    case known
    then show ?thesis using assms(3) by simp
  next
    case automatic
    then show ?thesis using assms(4) less.prems(2) by simp
  next
    case plain
    then show ?thesis using assms(5) less.prems(2) by simp
  next
    case (depends name expected c shown z2)
    have "Q c (z\<lparr>rz_resolving := pd_name d # rz_resolving z\<rparr>) shown z2"
      using less.hyps[OF _ depends(6)] resolving_fewer[OF less.prems(2) depends(2)] find_definition_in[OF depends(5)] by simp
    then show ?thesis by (rule assms(6)[OF less.prems(2) depends(1-5) _ depends(7)])
  qed
qed

section \<open>What a resolution keeps\<close>

lemma decided_simps [simp]:
  "rz_normalized (decided b d z) = rz_normalized z" "rz_active (decided b d z) = (pd_name d, b) # rz_active z"
  "rz_resolving (decided b d z) = removeAll (pd_name d) (rz_resolving z)"
  by (simp_all add: decided_def)

lemma take_value_Inr:
  assumes "take_value P C d z = Inr (b, z')"
  obtains v where "normalize_parameter_value P d (supplied_value C d) = Inr v" "b"
    "z' = decided True d (z\<lparr>rz_normalized := dict_set (pd_name d) v (rz_normalized z)\<rparr>)"
  using assms by (auto simp: take_value_def rbind_eq_Inr parameter_error_def split: sum.splits py_error.splits)

text \<open>Names under way stay undecided; decided names keep their decision.\<close>

lemma resolve_frame:
  assumes "resolve_parameter P C d z = Some (Inr (b, z'))" "d \<in> set (sx_definitions C)"
  shows "map_of (rz_active z') (pd_name d) = Some b \<and>
    set (rz_resolving z') = set (rz_resolving z) \<and>
    (\<forall>x. x \<in> set (rz_resolving z) \<longrightarrow> map_of (rz_active z) x = None \<longrightarrow> map_of (rz_active z') x = None) \<and>
    (\<forall>x a. map_of (rz_active z) x = Some a \<longrightarrow> map_of (rz_active z') x = Some a)"
  using assms
proof (induction rule: resolve_induct)
  case (plain d z z')
  show ?case using plain(6) by (rule take_value_Inr) (use plain(2,3) in auto)
next
  case (depends d z b z' name expected c shown z2)
  have d: "map_of (rz_active z2) (pd_name d) = None" using depends.IH depends.hyps(2) by simp
  from depends.hyps(7) consider "\<not> b" "z' = decided False d z2" | v where "b"
    "z' = decided True d (z2\<lparr>rz_normalized := dict_set (pd_name d) v (rz_normalized z2)\<rparr>)"
    by (auto split: if_splits elim: take_value_Inr)
  then show ?case using depends.hyps(2,3) depends.IH d by cases auto
qed auto

lemma map_of_dict_set: "map_of (dict_set k v d) x = (if x = k then Some v else map_of d x)"
  by (induction d) auto

lemma keys_map_of: "k \<in> fst ` set d \<longleftrightarrow> map_of d k \<noteq> None"
  by (induction d) auto

text \<open>Values of other names do not matter to a decided definition.\<close>

lemma condition_stable:
  assumes "controller_decided C A d" "map_of A x = None" "\<And>y. y \<noteq> x \<Longrightarrow> map_of N' y = map_of N y"
  shows "condition_met C N' d = condition_met C N d"
proof (cases "is_automatic C d \<or> pd_visible_when d = None")
  case False
  then obtain name expected where v: "pd_visible_when d = Some (name, expected)" "\<not> is_automatic C d" by auto
  then obtain c where c: "find_definition (sx_definitions C) name = Some c" "map_of A (pd_name c) \<noteq> None"
    using assms(1) by (auto simp: controller_decided_def split: option.splits)
  then have "pd_name c \<noteq> x" using assms(2) by auto
  then have "map_of N' (pd_name c) = map_of N (pd_name c)" by (rule assms(3))
  then show ?thesis using v c by (simp add: condition_met_def keys_map_of dict_get_def)
qed (auto simp: condition_met_def)

lemma controller_decided_more:
  "controller_decided C A d \<Longrightarrow> (\<And>x. map_of A x \<noteq> None \<Longrightarrow> map_of B x \<noteq> None) \<Longrightarrow> controller_decided C B d"
  by (auto simp: controller_decided_def split: option.splits)

lemma resolution_ok_add:
  assumes "resolution_ok P C z" "map_of (rz_active z) (pd_name d) = None" "d \<in> set (sx_definitions C)"
    and "distinct (map pd_name (sx_definitions C))"
    and N: "\<And>y. y \<noteq> pd_name d \<Longrightarrow> map_of (rz_normalized z') y = map_of (rz_normalized z) y"
    and A: "rz_active z' = (pd_name d, condition_met C (rz_normalized z') d) # rz_active z"
    and "value_right P C (rz_normalized z') d" "controller_decided C (rz_active z) d"
  shows "resolution_ok P C z'"
  unfolding resolution_ok_def
proof
  fix e assume e: "e \<in> set (sx_definitions C)"
  show "case map_of (rz_active z') (pd_name e) of None \<Rightarrow> map_of (rz_normalized z') (pd_name e) = None
    | Some b \<Rightarrow> b = condition_met C (rz_normalized z') e \<and> value_right P C (rz_normalized z') e \<and> controller_decided C (rz_active z') e"
  proof (cases "pd_name e = pd_name d")
    case True
    then have "e = d" using e assms(3,4) by (auto simp: distinct_map inj_on_def)
    moreover have "controller_decided C (rz_active z') d" by (rule controller_decided_more[OF assms(8)]) (simp add: A)
    ultimately show ?thesis using assms(7) A by simp
  next
    case False
    have ok: "case map_of (rz_active z) (pd_name e) of None \<Rightarrow> map_of (rz_normalized z) (pd_name e) = None
      | Some b \<Rightarrow> b = condition_met C (rz_normalized z) e \<and> value_right P C (rz_normalized z) e \<and> controller_decided C (rz_active z) e"
      using assms(1) e unfolding resolution_ok_def by blast
    show ?thesis
    proof (cases "map_of (rz_active z) (pd_name e)")
      case None
      then show ?thesis using ok N[of "pd_name e"] False A by simp
    next
      case (Some b)
      then have old: "b = condition_met C (rz_normalized z) e" "value_right P C (rz_normalized z) e" "controller_decided C (rz_active z) e"
        using ok by simp_all
      have same: "condition_met C (rz_normalized z') e = condition_met C (rz_normalized z) e"
        by (rule condition_stable[OF old(3) assms(2) N])
      have "controller_decided C (rz_active z') e" by (rule controller_decided_more[OF old(3)]) (simp add: A)
      then show ?thesis using old same N[of "pd_name e"] False A Some by (simp add: value_right_def)
    qed
  qed
qed

lemma resolve_ok:
  assumes "resolve_parameter P C d z = Some (Inr (b, z'))" "d \<in> set (sx_definitions C)"
    and "distinct (map pd_name (sx_definitions C))" "resolution_ok P C z"
  shows "resolution_ok P C z'"
proof -
  let ?N = "\<lambda>z. rz_normalized z"
  have put: "resolution_ok P C y'"
    if ok: "resolution_ok P C y" and d: "map_of (rz_active y) (pd_name d) = None" "d \<in> set (sx_definitions C)"
      and plain: "\<not> is_automatic C d" and met: "condition_met C (?N y) d"
      and dec: "controller_decided C (rz_active y) d" and took: "take_value P C d y = Inr (b, y')" for y y' d b
    using took
  proof (rule take_value_Inr)
    fix v assume v: "normalize_parameter_value P d (supplied_value C d) = Inr v" "b"
      "y' = decided True d (y\<lparr>rz_normalized := dict_set (pd_name d) v (?N y)\<rparr>)"
    have "condition_met C (?N y') d = condition_met C (?N y) d"
      by (rule condition_stable[OF dec d(1)]) (simp add: v(3) map_of_dict_set)
    then have met': "condition_met C (?N y') d" using met by simp
    show "resolution_ok P C y'"
      by (rule resolution_ok_add[OF ok d assms(3)]) (use v met' plain dec in \<open>simp_all add: map_of_dict_set value_right_def\<close>)
  qed
  have undecided: "map_of (?N y) (pd_name d) = None"
    if "resolution_ok P C y" "map_of (rz_active y) (pd_name d) = None" "d \<in> set (sx_definitions C)" for y d
    using that unfolding resolution_ok_def by (auto split: option.splits)
  have frame: "resolution_ok P C (y\<lparr>rz_resolving := xs\<rparr>) = resolution_ok P C y" for y xs
    by (simp add: resolution_ok_def cong: option.case_cong)
  have "resolution_ok P C z \<longrightarrow> resolution_ok P C z' \<and> map_of (rz_active z') (pd_name d) = Some b \<and>
    (\<forall>x. x \<in> set (rz_resolving z) \<longrightarrow> map_of (rz_active z) x = None \<longrightarrow> map_of (rz_active z') x = None)"
    using assms(1,2)
  proof (induction rule: resolve_induct)
    case (automatic d z)
    have "resolution_ok P C z \<Longrightarrow> resolution_ok P C (decided True d (z\<lparr>rz_resolving := pd_name d # rz_resolving z\<rparr>))"
      by (rule resolution_ok_add[of P C z d])
        (use automatic undecided[of z d] assms(3) in \<open>simp_all add: condition_met_def value_right_def controller_decided_def\<close>)
    then show ?case using automatic by auto
  next
    case (plain d z z')
    have "resolution_ok P C z \<Longrightarrow> resolution_ok P C z'"
      by (rule put[OF _ _ plain(1,4) _ _ plain(6)])
        (use plain frame in \<open>simp_all add: condition_met_def controller_decided_def\<close>)
    moreover have "map_of (rz_active z') (pd_name d) = Some True"
      "\<forall>x. x \<in> set (rz_resolving z) \<longrightarrow> map_of (rz_active z) x = None \<longrightarrow> map_of (rz_active z') x = None"
      using plain(6,3) by (auto elim!: take_value_Inr)
    ultimately show ?case by simp
  next
    case (depends d z b z' name expected c shown z2)
    note d = depends.hyps(1-6)
    have c: "c \<in> set (sx_definitions C)" using find_definition_in[OF d(6)] by simp
    have active: "map_of (rz_active z2) (pd_name c) = Some shown" "map_of (rz_active z2) (pd_name d) = None"
      if "resolution_ok P C z" using depends.IH d(2) that frame by simp_all
    have "resolution_ok P C z' \<and> map_of (rz_active z') (pd_name d) = Some b" if ok: "resolution_ok P C z"
    proof -
      have z2: "resolution_ok P C z2" using depends.IH ok frame by simp
      note act = active[OF ok]
      have dec: "controller_decided C (rz_active z2) d" using d(5,6) act(1) by (simp add: controller_decided_def)
      have "shown = condition_met C (?N z2) c" "value_right P C (?N z2) c"
        using z2 c act(1) unfolding resolution_ok_def by fastforce+
      then have "(is_automatic C c \<or> pd_name c \<in> fst ` set (?N z2)) = shown"
        by (auto simp: value_right_def keys_map_of condition_met_def split: if_splits)
      then have met: "condition_met C (?N z2) d = (shown \<and> scalar_eq (dict_get (?N z2) (pd_name c)) expected)"
        using d(4-6) by (simp add: condition_met_def)
      show ?thesis
      proof (cases "shown \<and> scalar_eq (dict_get (?N z2) (pd_name c)) expected")
        case True
        then have "take_value P C d z2 = Inr (b, z')" using depends.hyps(7) by simp
        moreover from this have "map_of (rz_active z') (pd_name d) = Some b" by (auto elim!: take_value_Inr)
        ultimately show ?thesis using put[OF z2 act(2) d(1,4) _ dec] met True by blast
      next
        case False
        then have z': "\<not> b" "z' = decided False d z2" using depends.hyps(7) by (auto split: if_splits)
        have "resolution_ok P C z'"
          by (rule resolution_ok_add[OF z2 act(2) d(1) assms(3)])
            (use z' False met undecided[OF z2 act(2) d(1)] dec d(4) in \<open>simp_all add: value_right_def\<close>)
        then show ?thesis using z' by simp
      qed
    qed
    moreover have "map_of (rz_active z') x = None"
      if "resolution_ok P C z" "x \<in> set (rz_resolving z)" "map_of (rz_active z) x = None" for x
    proof -
      have "map_of (rz_active z2) x = None" using depends.IH that frame by simp
      moreover have "x \<noteq> pd_name d" using that(2) d(3) by auto
      ultimately show ?thesis using depends.hyps(7) by (auto split: if_splits elim!: take_value_Inr)
    qed
    ultimately show ?case by simp
  qed simp
  then show ?thesis using assms(4) by simp
qed

text \<open>The sensitive names are those of the shown sensitive definitions.\<close>

definition sensitive_ok :: "stage_context \<Rightarrow> resolution \<Rightarrow> bool" where
  "sensitive_ok C z \<longleftrightarrow> set (rz_sensitive z) =
     {pd_name d | d. d \<in> set (sx_definitions C) \<and> pd_sensitive d \<and> map_of (rz_active z) (pd_name d) = Some True}"

lemma sensitive_ok_add:
  assumes "sensitive_ok C z" "map_of (rz_active z) (pd_name d) = None" "d \<in> set (sx_definitions C)"
    and "distinct (map pd_name (sx_definitions C))"
    and "rz_active z' = (pd_name d, b) # rz_active z"
    and "rz_sensitive z' = rz_sensitive z @ (if b \<and> pd_sensitive d then [pd_name d] else [])"
  shows "sensitive_ok C z'"
proof -
  have "e = d" if "e \<in> set (sx_definitions C)" "pd_name e = pd_name d" for e
    using that assms(3,4) by (auto simp: distinct_map inj_on_def)
  then show ?thesis using assms(1-3,5,6) unfolding sensitive_ok_def by (auto split: if_splits)
qed

lemma resolve_sensitive:
  assumes "resolve_parameter P C d z = Some (Inr (b, z'))" "d \<in> set (sx_definitions C)"
    and "distinct (map pd_name (sx_definitions C))"
  shows "sensitive_ok C z \<longrightarrow> sensitive_ok C z' \<and> map_of (rz_active z') (pd_name d) = Some b \<and>
    (\<forall>x. x \<in> set (rz_resolving z) \<longrightarrow> map_of (rz_active z) x = None \<longrightarrow> map_of (rz_active z') x = None)"
  using assms(1,2)
proof (induction rule: resolve_induct)
  case (automatic d z)
  have "sensitive_ok C z \<Longrightarrow> sensitive_ok C (decided True d (z\<lparr>rz_resolving := pd_name d # rz_resolving z\<rparr>))"
    by (rule sensitive_ok_add[of C z d _ True]) (use automatic assms(3) in \<open>simp_all add: decided_def\<close>)
  then show ?case using automatic by auto
next
  case (plain d z z')
  have "sensitive_ok C z \<Longrightarrow> sensitive_ok C z'"
    by (rule sensitive_ok_add[of C z d _ True]) (use plain assms(3) in \<open>auto simp: decided_def elim!: take_value_Inr\<close>)
  moreover have "map_of (rz_active z') (pd_name d) = Some True"
    "\<forall>x. x \<in> set (rz_resolving z) \<longrightarrow> map_of (rz_active z) x = None \<longrightarrow> map_of (rz_active z') x = None"
    using plain(6,3) by (auto elim!: take_value_Inr)
  ultimately show ?case by simp
next
  case (depends d z b z' name expected c shown z2)
  note d = depends.hyps(1-6)
  have "sensitive_ok C z' \<and> map_of (rz_active z') (pd_name d) = Some b" if "sensitive_ok C z"
  proof -
    have z2: "sensitive_ok C z2" "map_of (rz_active z2) (pd_name d) = None"
      using depends.IH d(2) that by (simp_all add: sensitive_ok_def)
    have add: "rz_active z' = (pd_name d, b) # rz_active z2"
      "rz_sensitive z' = rz_sensitive z2 @ (if b \<and> pd_sensitive d then [pd_name d] else [])"
      using depends.hyps(7) by (auto simp: decided_def split: if_splits elim!: take_value_Inr)
    show ?thesis using sensitive_ok_add[OF z2 d(1) assms(3) add] add by simp
  qed
  moreover have "map_of (rz_active z') x = None"
    if "sensitive_ok C z" "x \<in> set (rz_resolving z)" "map_of (rz_active z) x = None" for x
  proof -
    have "map_of (rz_active z2) x = None" using depends.IH that by (simp add: sensitive_ok_def)
    moreover have "x \<noteq> pd_name d" using that(2) d(3) by auto
    ultimately show ?thesis using depends.hyps(7) by (auto split: if_splits elim!: take_value_Inr)
  qed
  ultimately show ?case by simp
qed simp

lemma resolve_all_ok:
  assumes "resolve_all P C ds z = Some (Inr z')" "set ds \<subseteq> set (sx_definitions C)"
    and "distinct (map pd_name (sx_definitions C))" "resolution_ok P C z" "sensitive_ok C z"
  shows "resolution_ok P C z' \<and> sensitive_ok C z' \<and> (\<forall>d \<in> set ds. map_of (rz_active z') (pd_name d) \<noteq> None) \<and>
    (\<forall>x a. map_of (rz_active z) x = Some a \<longrightarrow> map_of (rz_active z') x = Some a)"
  using assms
proof (induction ds arbitrary: z)
  case (Cons d ds)
  then obtain r where r: "resolve_parameter P C d z = Some r"
    "(case r of Inl e \<Rightarrow> Some (Inl e) | Inr (_, y) \<Rightarrow> resolve_all P C ds y) = Some (Inr z')"
    by (auto simp: bind_eq_Some_conv)
  then obtain b y where y: "resolve_parameter P C d z = Some (Inr (b, y))" "resolve_all P C ds y = Some (Inr z')"
    by (cases r) (auto split: prod.splits)
  have d: "d \<in> set (sx_definitions C)" using Cons.prems(2) by simp
  have ok: "resolution_ok P C y" "sensitive_ok C y"
    using resolve_ok[OF y(1) d] resolve_sensitive[OF y(1) d] Cons.prems(3-5) by simp_all
  note frame = resolve_frame[OF y(1) d]
  have rest: "resolution_ok P C z' \<and> sensitive_ok C z' \<and> (\<forall>d \<in> set ds. map_of (rz_active z') (pd_name d) \<noteq> None) \<and>
    (\<forall>x a. map_of (rz_active y) x = Some a \<longrightarrow> map_of (rz_active z') x = Some a)"
    using Cons.IH[OF y(2) _ Cons.prems(3) ok] Cons.prems(2) by simp
  have "map_of (rz_active z') (pd_name d) = Some b" using rest frame by blast
  then show ?case using rest frame by simp
qed simp

lemma normalize_stage_values:
  assumes "normalize_stage P ds is_real number st = Some (Inr ns)" "distinct (map pd_name ds)"
  shows "list_all (value_right P (stage_context_of ds st) (ns_parameters ns)) ds"
    and "set (ns_sensitive ns) = {pd_name d | d. d \<in> set ds \<and> pd_sensitive d \<and>
      condition_met (stage_context_of ds st) (ns_parameters ns) d}"
proof -
  let ?C = "stage_context_of ds st"
  have C: "sx_definitions ?C = ds" by (simp add: stage_context_of_def)
  obtain z where z: "resolve_all P ?C ds no_resolution = Some (Inr z)" "stage_result is_real st z = Inr ns"
    using assms(1) by (auto simp: normalize_stage_def bind_eq_Some_conv rbind_eq_Inr split: if_splits)
  have fields: "ns_parameters ns = rz_normalized z" "ns_sensitive ns = rz_sensitive z"
    using z(2) by (auto simp: stage_result_def rbind_eq_Inr split: if_splits)
  have start: "resolution_ok P ?C no_resolution" "sensitive_ok ?C no_resolution"
    by (simp_all add: resolution_ok_def sensitive_ok_def no_resolution_def)
  have ok: "resolution_ok P ?C z" "sensitive_ok ?C z" "\<forall>d \<in> set ds. map_of (rz_active z) (pd_name d) \<noteq> None"
    using resolve_all_ok[OF z(1) _ _ start] assms(2) by (simp_all add: C)
  have all: "map_of (rz_active z) (pd_name d) = Some (condition_met ?C (rz_normalized z) d) \<and> value_right P ?C (rz_normalized z) d"
    if "d \<in> set ds" for d
  proof -
    obtain b where "map_of (rz_active z) (pd_name d) = Some b" using ok(3) \<open>d \<in> set ds\<close> by blast
    then show ?thesis using ok(1) \<open>d \<in> set ds\<close> unfolding resolution_ok_def C by fastforce
  qed
  show "list_all (value_right P ?C (ns_parameters ns)) ds" using all by (simp add: fields list_all_iff)
  show "set (ns_sensitive ns) = {pd_name d | d. d \<in> set ds \<and> pd_sensitive d \<and> condition_met ?C (ns_parameters ns) d}"
    using ok(2) all unfolding sensitive_ok_def fields C by auto
qed


lemma normalize_stage_cases:
  assumes "normalize_stage P ds is_real number st = Some (Inr ns)"
  obtains z where "resolve_all P (stage_context_of ds st) ds no_resolution = Some (Inr z)"
    "ns_parameters ns = rz_normalized z" "ns_sensitive ns = rz_sensitive z" "ns_source ns = st_source st"
    "1 \<le> ns_total_steps ns" "ns_total_steps ns \<le> maximum_steps is_real"
proof -
  obtain z where z: "resolve_all P (stage_context_of ds st) ds no_resolution = Some (Inr z)" "stage_result is_real st z = Inr ns"
    using assms by (auto simp: normalize_stage_def bind_eq_Some_conv rbind_eq_Inr split: if_splits)
  show ?thesis by (rule that[OF z(1)]) (use z(2) in \<open>auto simp: stage_result_def rbind_eq_Inr split: if_splits\<close>)
qed

end
