(* ===== verification/Model_Configuration.thy ===== *)
theory Model_Configuration
  imports Parameter_Resolution
begin

text \<open>
  Registering the configuration of a model family: the launch template, the parameter
  definitions and what they depend on, as the request models of \<open>training/api.py\<close> check them
  (\<open>LaunchTemplate\<close>, \<open>ParameterDefinition\<close>, \<open>ModelConfigurationRequest\<close>), and their
  translation into the stored form (\<open>_adapt_model\<close> in \<open>service.py\<close>).
\<close>

section \<open>The launch template\<close>

record launch_template =
  lt_server_ref :: string
  lt_working_directory :: string
  lt_launcher_kind :: "string option"
  lt_executable :: string
  lt_entrypoint :: string
  lt_fixed_argv :: "string list"
  lt_output_root :: string
  lt_output_flag :: string
  lt_runtime :: dict
  lt_monitoring :: dict

text \<open>\<open>s.rsplit("/", 1)[-1]\<close>.\<close>

definition last_part :: "string \<Rightarrow> string" where
  "last_part s = last (split_on CHR ''/'' s)"

definition inferred_kind :: "string \<Rightarrow> string" where
  "inferred_kind executable = (if last_part executable = ''torchrun'' then ''torchrun'' else ''direct'')"

definition infer_launcher_kind :: "launch_template \<Rightarrow> launch_template" where
  "infer_launcher_kind t = (case lt_launcher_kind t of
     None \<Rightarrow> t\<lparr>lt_launcher_kind := Some (inferred_kind (lt_executable t))\<rparr> | Some _ \<Rightarrow> t)"

definition shell_meta :: "string \<Rightarrow> bool" where
  "shell_meta s \<longleftrightarrow> list_ex (\<lambda>c. c \<in> set '';&|`$<>'') s"

definition single_token :: "string \<Rightarrow> bool" where
  "single_token s \<longleftrightarrow> single_line s \<and> \<not> shell_meta s"

definition text_within :: "nat \<Rightarrow> string \<Rightarrow> bool" where
  "text_within n s \<longleftrightarrow> s \<noteq> [] \<and> py_len s \<le> n"

text \<open>\<open>^--[A-Za-z0-9][A-Za-z0-9_-]{0,99}$\<close> and \<open>^[A-Za-z][A-Za-z0-9_]{0,99}$\<close>.\<close>

definition flag_pattern :: "string \<Rightarrow> bool" where
  "flag_pattern s \<longleftrightarrow> take 2 s = ''--'' \<and> (case drop 2 s of [] \<Rightarrow> False
     | c # cs \<Rightarrow> is_alnum c \<and> length cs \<le> 99 \<and> list_all (\<lambda>c. is_alnum c \<or> c \<in> set ''_-'') cs)"

definition key_pattern :: "string \<Rightarrow> bool" where
  "key_pattern s \<longleftrightarrow> (case s of [] \<Rightarrow> False
     | c # cs \<Rightarrow> is_alnum c \<and> \<not> is_digit c \<and> length cs \<le> 99 \<and> list_all (\<lambda>c. is_alnum c \<or> c = CHR ''_'') cs)"

definition template_ok :: "launch_template \<Rightarrow> bool" where
  "template_ok t \<longleftrightarrow> api_safe_ref (lt_server_ref t) \<and>
     text_within 1000 (lt_working_directory t) \<and> single_token (lt_working_directory t) \<and>
     text_within 500 (lt_executable t) \<and> single_token (lt_executable t) \<and>
     text_within 1000 (lt_entrypoint t) \<and> single_token (lt_entrypoint t) \<and>
     text_within 1000 (lt_output_root t) \<and> single_token (lt_output_root t) \<and>
     flag_pattern (lt_output_flag t) \<and> length (lt_fixed_argv t) \<le> 200 \<and>
     list_all (\<lambda>x. text_within 1000 x \<and> single_token x) (lt_fixed_argv t) \<and>
     (case lt_launcher_kind t of None \<Rightarrow> True | Some k \<Rightarrow> k \<in> {''torchrun'', ''direct''})"

section \<open>One parameter definition\<close>

record api_definition =
  ad_key :: string
  ad_type :: param_kind
  ad_role :: param_role
  ad_default :: json
  ad_minimum :: "json option"
  ad_maximum :: "json option"
  ad_choices :: "string list"
  ad_min_length :: "nat option"
  ad_max_length :: "nat option"
  ad_visible_when :: "(string \<times> json) option"
  ad_group :: "string option"
  ad_group_label :: "string option"
  ad_group_order :: "nat option"
  ad_sensitive :: bool
  ad_flag :: "string option"
  ad_style :: "argument_style option"

definition type_matches :: "param_kind \<Rightarrow> json \<Rightarrow> bool" where
  "type_matches k v = (case k of
     IntegerKind \<Rightarrow> (case v of JInt _ \<Rightarrow> True | _ \<Rightarrow> False)
   | FloatKind \<Rightarrow> is_number v
   | BooleanKind \<Rightarrow> (case v of JBool _ \<Rightarrow> True | _ \<Rightarrow> False)
   | _ \<Rightarrow> is_text v)"

definition ad_style_of :: "api_definition \<Rightarrow> argument_style" where
  "ad_style_of d = (case ad_style d of None \<Rightarrow> default_style (ad_type d) | Some s \<Rightarrow> s)"

definition ad_bounds :: "api_definition \<Rightarrow> json list" where
  "ad_bounds d = (case ad_minimum d of None \<Rightarrow> [] | Some x \<Rightarrow> [x]) @ (case ad_maximum d of None \<Rightarrow> [] | Some x \<Rightarrow> [x])"

definition num_below :: "json option \<Rightarrow> json \<Rightarrow> bool" where
  "num_below bound v = (case bound of None \<Rightarrow> False | Some b \<Rightarrow> float_less (number_of v) (number_of b))"

definition num_above :: "json option \<Rightarrow> json \<Rightarrow> bool" where
  "num_above bound v = (case bound of None \<Rightarrow> False | Some b \<Rightarrow> float_less (number_of b) (number_of v))"

definition safe_integer :: "json \<Rightarrow> bool" where
  "safe_integer v = (case v of JInt i \<Rightarrow> \<bar>i\<bar> \<le> MAX_SAFE_INTEGER | _ \<Rightarrow> False)"

text \<open>\<open>math.isfinite\<close> converts an integer to a float first.\<close>

definition math_isfinite :: "env \<Rightarrow> json \<Rightarrow> bool res" where
  "math_isfinite E v = (case v of JFloat f \<Rightarrow> Inr (is_finite_float f) | _ \<Rightarrow> rbind (float_of E v) (\<lambda>_. Inr True))"

definition all_finite :: "env \<Rightarrow> json list \<Rightarrow> bool res" where
  "all_finite E vs = rbind (rmap (math_isfinite E) vs) (\<lambda>bs. Inr (list_all (\<lambda>b. b) bs))"

definition string_default_ok :: "api_definition \<Rightarrow> bool" where
  "string_default_ok d \<longleftrightarrow>
     (let s = text_of (ad_default d) in
      py_len s \<le> 512 \<and> single_line s \<and> \<not> (case ad_min_length d of None \<Rightarrow> False | Some n \<Rightarrow> py_len s < n) \<and>
      \<not> (case ad_max_length d of None \<Rightarrow> False | Some n \<Rightarrow> n < py_len s))"

definition validate_api_definition :: "env \<Rightarrow> api_definition \<Rightarrow> unit res" where
  "validate_api_definition E d =
     (if ad_role d = StageInput \<and> (ad_type d \<noteq> StringKind \<or> ad_visible_when d \<noteq> None) then bad_value ''stage input''
      else if \<not> type_matches (ad_type d) (ad_default d) then bad_value ''default type''
      else if (ad_type d = BooleanKind) = (ad_style_of d = ValueStyle) then bad_value ''argument style''
      else if (case ad_minimum d of None \<Rightarrow> False | Some a \<Rightarrow> num_above (ad_maximum d) a) then bad_value ''minimum exceeds maximum''
      else rbind (all_finite E (ad_bounds d)) (\<lambda>finite.
        if \<not> finite then bad_value ''finite bounds''
        else if ad_type d = IntegerKind \<and> (\<not> list_all safe_integer (ad_bounds d) \<or> \<not> safe_integer (ad_default d))
          then bad_value ''integer bounds''
        else if ad_type d \<notin> {IntegerKind, FloatKind} \<and> ad_bounds d \<noteq> [] then bad_value ''bounds''
        else rbind (if ad_type d \<in> {IntegerKind, FloatKind} then math_isfinite E (ad_default d) else Inr True) (\<lambda>finite_default.
          if \<not> finite_default then bad_value ''finite default''
          else if ad_type d \<in> {IntegerKind, FloatKind} \<and> (num_below (ad_minimum d) (ad_default d) \<or> num_above (ad_maximum d) (ad_default d))
            then bad_value ''default bounds''
          else if (if ad_type d = EnumKind
                   then ad_choices d = [] \<or> \<not> distinct (ad_choices d) \<or> text_of (ad_default d) \<notin> set (ad_choices d)
                   else ad_choices d \<noteq> []) then bad_value ''choices''
          else if ad_type d \<noteq> StringKind \<and> (ad_min_length d \<noteq> None \<or> ad_max_length d \<noteq> None) then bad_value ''length limits''
          else if (case (ad_min_length d, ad_max_length d) of (Some a, Some b) \<Rightarrow> b < a | _ \<Rightarrow> False) then bad_value ''length limits''
          else if ad_type d = StringKind \<and> \<not> string_default_ok d then bad_value ''string default''
          else if (if ad_group d = None then ad_group_label d \<noteq> None \<or> ad_group_order d \<noteq> None
                   else ad_group_label d = None \<or> ad_group_order d = None) then bad_value ''display group''
          else Inr ())))"

section \<open>A whole configuration\<close>

record model_configuration =
  cf_template :: launch_template
  cf_managed :: bool
  cf_definitions :: "api_definition list"

definition flag_of :: "api_definition \<Rightarrow> string" where
  "flag_of d = (case ad_flag d of None \<Rightarrow> ''--'' @ ad_key d | Some f \<Rightarrow> (if f = [] then ''--'' @ ad_key d else f))"

text \<open>Definitions of one display group share label and order; labels of groups differ up to case.\<close>

type_synonym group_table = "(string \<times> (string \<times> nat)) list \<times> (string \<times> string) list"

definition add_group :: "(string \<Rightarrow> string) \<Rightarrow> api_definition \<Rightarrow> group_table \<Rightarrow> group_table res" where
  "add_group casefold d = (\<lambda>(groups, labels).
     case ad_group d of
       None \<Rightarrow> Inr (groups, labels)
     | Some g \<Rightarrow>
         (let metadata = (text_or (ad_group_label d) '''', case ad_group_order d of None \<Rightarrow> 0 | Some n \<Rightarrow> n);
              label = casefold (fst metadata) in
          if (case map_of groups g of None \<Rightarrow> False | Some m \<Rightarrow> m \<noteq> metadata) then bad_value ''display group''
          else if (case map_of labels label of None \<Rightarrow> False | Some g' \<Rightarrow> g' \<noteq> g) then bad_value ''display group label''
          else Inr ((g, metadata) # groups, (label, g) # labels)))"

definition fixed_flag :: "string \<Rightarrow> string" where
  "fixed_flag token = (if take 2 token = ''--'' then hd (split_on CHR ''='' token) else token)"

definition manifest_flag :: string where "manifest_flag = ''--dataset_manifest''"

definition find_key :: "api_definition list \<Rightarrow> string \<Rightarrow> api_definition option" where
  "find_key ds key = map_of (rev (map (\<lambda>d. (ad_key d, d)) ds)) key"

definition expected_ok :: "api_definition \<Rightarrow> json \<Rightarrow> bool" where
  "expected_ok c v \<longleftrightarrow> type_matches (ad_type c) v \<and>
     (ad_type c = EnumKind \<longrightarrow> text_of v \<in> set (ad_choices c)) \<and>
     (is_number v \<longrightarrow> \<not> num_below (ad_minimum c) v \<and> \<not> num_above (ad_maximum c) v) \<and>
     (ad_type c = StringKind \<longrightarrow> single_line (text_of v) \<and>
        \<not> (case ad_min_length c of None \<Rightarrow> False | Some n \<Rightarrow> py_len (text_of v) < n) \<and>
        \<not> (case ad_max_length c of None \<Rightarrow> False | Some n \<Rightarrow> n < py_len (text_of v)))"

text \<open>What each definition depends on.\<close>

fun dependencies_of :: "api_definition list \<Rightarrow> api_definition list \<Rightarrow> (string \<times> string) list res" where
  "dependencies_of all [] = Inr []"
| "dependencies_of all (d # ds) =
     (case ad_visible_when d of
        None \<Rightarrow> dependencies_of all ds
      | Some (key, expected) \<Rightarrow>
          (case find_key all key of
             None \<Rightarrow> bad_value ''unknown parameter''
           | Some c \<Rightarrow>
               (if ad_key c = ad_key d then bad_value ''itself''
                else if \<not> expected_ok c expected then bad_value ''dependency value''
                else rbind (dependencies_of all ds) (\<lambda>rest. Inr ((ad_key d, ad_key c) # rest)))))"

text \<open>Following the dependencies from one parameter: false when it comes back to one it visited.\<close>

partial_function (option) follow_dependencies :: "(string \<times> string) list \<Rightarrow> string list \<Rightarrow> string \<Rightarrow> bool option" where
  "follow_dependencies deps visited current =
     (case map_of deps current of
        None \<Rightarrow> Some True
      | Some controller \<Rightarrow>
          (if current \<in> set visited then Some False else follow_dependencies deps (current # visited) controller))"

declare follow_dependencies.simps [code]

definition acyclic_dependencies :: "(string \<times> string) list \<Rightarrow> bool" where
  "acyclic_dependencies deps \<longleftrightarrow> list_all (\<lambda>start. follow_dependencies deps [] start = Some True) (map fst deps)"

definition validate_configuration :: "env \<Rightarrow> (string \<Rightarrow> string) \<Rightarrow> model_configuration \<Rightarrow> unit res" where
  "validate_configuration E casefold cf =
     (let ds = cf_definitions cf; template = infer_launcher_kind (cf_template cf);
          flags = map flag_of ds; fixed = map fixed_flag (lt_fixed_argv template) in
      if \<not> template_ok template then bad_value ''launch template''
      else if ds = [] \<or> 200 < length ds \<or> \<not> list_all (\<lambda>d. key_pattern (ad_key d)) ds then bad_value ''parameter definitions''
      else
        rbind (rmap (validate_api_definition E) ds) (\<lambda>_.
        if \<not> distinct (map ad_key ds) then bad_value ''parameter keys''
        else if 1 < length (filter (\<lambda>d. ad_role d = StageInput) ds) then bad_value ''stage input''
        else
          rbind (rfold (add_group casefold) ds ([], [])) (\<lambda>_.
          if lt_output_flag template \<in> set flags then bad_value ''output flag''
          else if set flags \<inter> set fixed \<noteq> {} then bad_value ''fixed_argv''
          else if cf_managed cf \<and> (manifest_flag \<in> set flags \<or> manifest_flag \<in> set fixed \<or> lt_output_flag template = manifest_flag)
            then bad_value ''dataset manifest flag''
          else
            rbind (dependencies_of ds ds) (\<lambda>deps.
            if \<not> acyclic_dependencies deps then bad_value ''cycle'' else Inr ()))))"

section \<open>The stored form\<close>

text \<open>Bounds are read back as floats.\<close>

definition stored_bound :: "json option \<Rightarrow> pyfloat option" where
  "stored_bound b = map_option number_of b"

definition adapt_definition :: "api_definition \<Rightarrow> param_def" where
  "adapt_definition d =
     \<lparr>pd_name = ad_key d, pd_kind = ad_type d, pd_role = ad_role d, pd_flag = flag_of d, pd_style = Some (ad_style_of d),
      pd_default = ad_default d, pd_sensitive = ad_sensitive d, pd_minimum = stored_bound (ad_minimum d),
      pd_maximum = stored_bound (ad_maximum d), pd_choices = (if ad_choices d = [] then None else Some (ad_choices d)),
      pd_pattern = None, pd_min_length = ad_min_length d, pd_max_length = ad_max_length d,
      pd_visible_when = ad_visible_when d, pd_group = ad_group d, pd_group_label = ad_group_label d,
      pd_group_order = ad_group_order d\<rparr>"

definition adapt_definitions :: "model_configuration \<Rightarrow> param_def list" where
  "adapt_definitions cf = map adapt_definition (cf_definitions cf)"

section \<open>The dependency check\<close>

text \<open>Following dependencies ends: every step visits another parameter that has a dependency.\<close>

lemma follow_returns: "\<exists>b. follow_dependencies deps visited current = Some b"
proof (induction "card (fst ` set deps - set visited)" arbitrary: visited current rule: less_induct)
  case less
  show ?case
  proof (cases "map_of deps current")
    case (Some c)
    then have "current \<in> fst ` set deps" by (force dest: map_of_SomeD)
    then have "fst ` set deps - set (current # visited) \<subset> fst ` set deps - set visited" if "current \<notin> set visited"
      using that by auto
    then have "card (fst ` set deps - set (current # visited)) < card (fst ` set deps - set visited)" if "current \<notin> set visited"
      using that by (intro psubset_card_mono) simp_all
    then show ?thesis using less Some by (subst follow_dependencies.simps) auto
  qed (subst follow_dependencies.simps, auto)
qed

definition dependency_rel :: "(string \<times> string) list \<Rightarrow> (string \<times> string) set" where
  "dependency_rel deps = {(x, y). map_of deps x = Some y}"

text \<open>From a parameter on a cycle the check comes back to it.\<close>

lemma follow_on_cycle:
  "follow_dependencies deps visited x = Some b \<Longrightarrow> (x, x) \<in> (dependency_rel deps)\<^sup>+ \<Longrightarrow> \<not> b"
proof (induction "card (fst ` set deps - set visited)" arbitrary: visited x rule: less_induct)
  case less
  from less.prems(2) obtain y where y: "(x, y) \<in> dependency_rel deps" "(y, x) \<in> (dependency_rel deps)\<^sup>*"
    by (meson tranclD)
  then have some: "map_of deps x = Some y" by (simp add: dependency_rel_def)
  have cycle: "(y, y) \<in> (dependency_rel deps)\<^sup>+" using y by (rule rtrancl_into_trancl1[rotated])
  show ?case
  proof (cases "x \<in> set visited")
    case True
    then show ?thesis using less.prems(1) some by (subst (asm) follow_dependencies.simps) simp
  next
    case False
    then have next': "follow_dependencies deps (x # visited) y = Some b"
      using less.prems(1) some by (subst (asm) follow_dependencies.simps) simp
    have "x \<in> fst ` set deps" using some by (force dest: map_of_SomeD)
    then have "fst ` set deps - set (x # visited) \<subset> fst ` set deps - set visited" using False by auto
    then have "card (fst ` set deps - set (x # visited)) < card (fst ` set deps - set visited)"
      by (intro psubset_card_mono) simp_all
    from less.hyps[OF this next' cycle] show ?thesis .
  qed
qed

lemma acyclic_dependencies_sound:
  assumes "acyclic_dependencies deps"
  shows "acyclic (dependency_rel deps)"
  unfolding acyclic_def
proof (intro allI notI)
  fix x assume cycle: "(x, x) \<in> (dependency_rel deps)\<^sup>+"
  then obtain y where "map_of deps x = Some y" by (auto simp: dependency_rel_def dest: tranclD)
  then have "x \<in> set (map fst deps)" by (force dest: map_of_SomeD)
  then have "follow_dependencies deps [] x = Some True" using assms by (auto simp: acyclic_dependencies_def list_all_iff)
  from follow_on_cycle[OF this cycle] show False by simp
qed

text \<open>What a checked list of dependencies contains.\<close>

lemma find_key_in: "find_key ds key = Some c \<Longrightarrow> c \<in> set ds \<and> ad_key c = key"
  unfolding find_key_def by (auto dest!: map_of_SomeD)

lemma dependencies_of_right:
  assumes "dependencies_of all ds = Inr deps" "distinct (map ad_key ds)" "d \<in> set ds" "ad_visible_when d = Some (key, expected)"
  shows "\<exists>c. find_key all key = Some c \<and> map_of deps (ad_key d) = Some key"
  using assms
proof (induction ds arbitrary: deps)
  case (Cons e ds)
  show ?case
  proof (cases "e = d")
    case True
    then obtain c rest where "find_key all key = Some c" "deps = (ad_key d, ad_key c) # rest"
      using Cons.prems by (auto simp: rbind_eq_Inr bad_value_def split: option.splits if_splits)
    then show ?thesis using find_key_in by fastforce
  next
    case False
    then have d_in: "d \<in> set ds" using Cons.prems(3) by simp
    moreover have "ad_key e \<notin> ad_key ` set ds" using Cons.prems(2) by simp
    ultimately have d: "d \<in> set ds" "ad_key d \<noteq> ad_key e" by (simp, metis image_eqI)
    obtain rest where rest: "dependencies_of all ds = Inr rest" "deps = rest \<or> (\<exists>y. deps = (ad_key e, y) # rest)"
      using Cons.prems(1) by (auto simp: rbind_eq_Inr bad_value_def split: option.splits prod.splits if_splits)
    obtain c where "find_key all key = Some c" "map_of rest (ad_key d) = Some key"
      using Cons.IH[OF rest(1) _ d(1) Cons.prems(4)] Cons.prems(2) by auto
    then show ?thesis using rest(2) d(2) by auto
  qed
qed simp

section \<open>Registered configurations resolve\<close>

lemma find_definition_adapted: "find_definition (map adapt_definition ds) key = map_option adapt_definition (find_key ds key)"
proof -
  have "map_of (map (\<lambda>d. (pd_name (adapt_definition d), adapt_definition d)) xs) key =
      map_option adapt_definition (map_of (map (\<lambda>d. (ad_key d, d)) xs) key)" for xs
    by (induction xs) (simp_all add: adapt_definition_def)
  from this[of "rev ds"] show ?thesis by (simp add: find_definition_def find_key_def rev_map comp_def)
qed

text \<open>The controllers of the definitions exist and none of them depends on itself.\<close>

definition dependencies_sound :: "param_def list \<Rightarrow> (string \<times> string) set \<Rightarrow> bool" where
  "dependencies_sound ds R \<longleftrightarrow> acyclic R \<and> (\<forall>d \<in> set ds. \<forall>name expected. pd_visible_when d = Some (name, expected) \<longrightarrow>
     find_definition ds name \<noteq> None \<and> (pd_name d, name) \<in> R)"

lemma validated_sound:
  assumes "validate_configuration E casefold cf = Inr ()"
  shows "\<exists>R. dependencies_sound (adapt_definitions cf) R"
proof -
  obtain deps where deps: "dependencies_of (cf_definitions cf) (cf_definitions cf) = Inr deps" "acyclic_dependencies deps"
    "distinct (map ad_key (cf_definitions cf))"
    using assms by (auto simp: validate_configuration_def Let_def rbind_eq_Inr bad_value_def split: if_splits)
  have "find_definition (adapt_definitions cf) name \<noteq> None \<and> (pd_name d, name) \<in> dependency_rel deps"
    if d: "d \<in> set (adapt_definitions cf)" and v: "pd_visible_when d = Some (name, expected)" for d name expected
  proof -
    obtain a where a: "a \<in> set (cf_definitions cf)" "d = adapt_definition a" using d by (auto simp: adapt_definitions_def)
    then have "ad_visible_when a = Some (name, expected)" using v by (simp add: adapt_definition_def)
    from dependencies_of_right[OF deps(1,3) a(1) this] obtain c where
      "find_key (cf_definitions cf) name = Some c" "map_of deps (ad_key a) = Some name" by blast
    then show ?thesis using a by (simp add: adapt_definitions_def find_definition_adapted dependency_rel_def adapt_definition_def)
  qed
  then show ?thesis using acyclic_dependencies_sound[OF deps(2)] unfolding dependencies_sound_def by blast
qed

text \<open>The errors of a value are never those of a dependency, whatever \<open>float\<close> raises besides.\<close>

lemma normalize_error:
  assumes "\<And>v. float_of (pv_env P) v \<noteq> Inl dependency_error"
  shows "normalize_parameter_value P d v \<noteq> Inl dependency_error"
proof -
  have bounds: "in_bounds d w \<noteq> Inl dependency_error" for w
    by (simp add: in_bounds_def bad_value_def dependency_error_def)
  have string: "normalize_text P d s \<noteq> Inl dependency_error" for s
    by (simp add: normalize_text_def bad_value_def dependency_error_def)
  have number: "rbind (float_of (pv_env P) v) (\<lambda>x. if \<not> is_finite_float (number_of x) then bad_value ''finite'' else in_bounds d x)
      \<noteq> Inl dependency_error"
    using assms[of v] bounds by (cases "float_of (pv_env P) v") (auto simp: bad_value_def dependency_error_def)
  show ?thesis unfolding normalize_parameter_value_def
    using bounds string number by (simp add: bad_value_def dependency_error_def split: param_kind.split json.split)
qed

lemma take_value_error:
  assumes "\<And>v. float_of (pv_env P) v \<noteq> Inl dependency_error"
  shows "take_value P C d z \<noteq> Inl dependency_error"
proof -
  have "parameter_error (normalize_parameter_value P d w) \<noteq> Inl dependency_error" for w
    using normalize_error[OF assms, of d w]
    by (auto simp: parameter_error_def dependency_error_def split: sum.splits py_error.splits)
  then show ?thesis unfolding take_value_def
    by (cases "parameter_error (normalize_parameter_value P d (supplied_value C d))") auto
qed

lemma resolve_no_dependency_error:
  assumes "dependencies_sound (sx_definitions C) R" "\<And>v. float_of (pv_env P) v \<noteq> Inl dependency_error"
    and "resolve_parameter P C d z = Some r" "d \<in> set (sx_definitions C)" "\<And>x. x \<in> set (rz_resolving z) \<Longrightarrow> (x, pd_name d) \<in> R\<^sup>+"
  shows "r \<noteq> Inl dependency_error"
  using assms(3-5)
proof (induction "card (pd_name ` set (sx_definitions C) - set (rz_resolving z))" arbitrary: d z r rule: less_induct)
  case less
  let ?z = "z\<lparr>rz_resolving := pd_name d # rz_resolving z\<rparr>"
  have sound: "acyclic R" "\<And>name expected. pd_visible_when d = Some (name, expected) \<Longrightarrow>
      find_definition (sx_definitions C) name \<noteq> None \<and> (pd_name d, name) \<in> R"
    using assms(1) less.prems(2) by (auto simp: dependencies_sound_def)
  have fresh: "pd_name d \<notin> set (rz_resolving z)"
    using less.prems(3)[of "pd_name d"] sound(1) by (auto simp: acyclic_def)
  note took = take_value_error[OF assms(2)]
  show ?case
  proof (cases "map_of (rz_active z) (pd_name d) = None \<and> \<not> is_automatic C d \<and> pd_visible_when d \<noteq> None")
    case False
    then show ?thesis using less.prems(1) fresh took
      by (subst (asm) resolve_parameter.simps) (auto simp: Let_def split: option.splits if_splits)
  next
    case True
    then obtain name expected where v: "pd_visible_when d = Some (name, expected)" by auto
    then obtain c where c: "find_definition (sx_definitions C) name = Some c" "(pd_name d, name) \<in> R" using sound(2) by blast
    have c_in: "c \<in> set (sx_definitions C)" "pd_name c = name" using find_definition_in[OF c(1)] by auto
    have chain: "(x, pd_name c) \<in> R\<^sup>+" if "x \<in> set (rz_resolving ?z)" for x
      using that c(2) c_in(2) less.prems(3)[of x] by (auto intro: trancl_into_trancl)
    obtain r' where r': "resolve_parameter P C c ?z = Some r'" using resolve_returns[OF c_in(1)] by blast
    have "r' \<noteq> Inl dependency_error"
      using less.hyps[OF _ r' c_in(1) chain] resolving_fewer[OF less.prems(2) fresh] by simp
    moreover have "r = rbind r' (\<lambda>(shown, z2). if \<not> shown \<or> \<not> scalar_eq (dict_get (rz_normalized z2) (pd_name c)) expected
        then Inr (False, decided False d z2) else take_value P C d z2)"
      using less.prems(1) True fresh v c(1) r' by (subst (asm) resolve_parameter.simps) (simp add: Let_def)
    ultimately show ?thesis using took by (cases r') (auto split: prod.split)
  qed
qed

lemma resolve_all_no_dependency_error:
  assumes "dependencies_sound (sx_definitions C) R" "\<And>v. float_of (pv_env P) v \<noteq> Inl dependency_error"
  shows "resolve_all P C ds z = Some r \<Longrightarrow> set ds \<subseteq> set (sx_definitions C) \<Longrightarrow> rz_resolving z = [] \<Longrightarrow> r \<noteq> Inl dependency_error"
proof (induction ds arbitrary: z r)
  case (Cons d ds)
  then obtain q where q: "resolve_parameter P C d z = Some q"
    "(case q of Inl e \<Rightarrow> Some (Inl e) | Inr (_, y) \<Rightarrow> resolve_all P C ds y) = Some r"
    by (auto simp: bind_eq_Some_conv)
  have d: "d \<in> set (sx_definitions C)" using Cons.prems(2) by simp
  have "q \<noteq> Inl dependency_error"
    by (rule resolve_no_dependency_error[OF assms q(1) d]) (simp add: Cons.prems(3))
  moreover have "r \<noteq> Inl dependency_error" if "q = Inr (b, y)" for b y
  proof -
    have "set (rz_resolving y) = set (rz_resolving z)" using resolve_frame q(1) that d by blast
    then show ?thesis using Cons.IH[of y r] q(2) that Cons.prems(2,3) by simp
  qed
  ultimately show ?case using q(2) by (cases q) auto
qed simp

lemma adapted_validated:
  assumes "rmap (validate_definition P) (map adapt_definition xs) = Inr ds"
  shows "ds = map adapt_definition xs"
  using assms
proof (induction xs arbitrary: ds)
  case (Cons a xs)
  then obtain d rest where d: "validate_definition P (adapt_definition a) = Inr d"
    "rmap (validate_definition P) (map adapt_definition xs) = Inr rest" "ds = d # rest"
    by (auto simp: rbind_eq_Inr)
  then have "d = (adapt_definition a)\<lparr>pd_style := Some (style_of (adapt_definition a))\<rparr>"
    by (auto simp: validate_definition_def Let_def rbind_eq_Inr bad_value_def split: if_splits)
  then have "d = adapt_definition a" by (simp add: style_of_def adapt_definition_def)
  then show ?case using Cons.IH[OF d(2)] d(3) by simp
qed simp

lemma finish_error: "stage_result is_real st z \<noteq> Inl dependency_error"
proof -
  have "py_int v \<noteq> Inl dependency_error" for v
    by (induction v rule: py_int.induct) (auto simp: dependency_error_def split: option.split)
  then show ?thesis unfolding stage_result_def
    by (cases "py_int (dict_get_default (rz_normalized z) ''max_steps'' (JInt 20))") (auto simp: dependency_error_def)
qed

end
