(* ===== verification/Node_Resources.thy ===== *)
theory Node_Resources
  imports Run_Creation Real_Engine
begin

text \<open>
  The inventory of GPUs a run can ask for (\<open>training/resources.py\<close>): the provider over the nodes
  and their resource snapshots (\<open>TrainingResourceProvider\<close>, \<open>get_node_resources\<close> in
  \<open>store.py\<close>) and the one for local simulation (\<open>FakeResourceProvider\<close>), behind the interface
  the service uses.
\<close>

section \<open>The interface\<close>

record server =
  sv_server_ref :: string
  sv_kind :: string
  sv_online :: bool
  sv_available :: bool
  sv_stale :: bool
  sv_gpu_count :: nat

record gpu_info =
  gi_uuid :: json
  gi_index :: int
  gi_total_mib :: int
  gi_used_mib :: int
  gi_utilization :: json
  gi_temperature :: json
  gi_external :: bool
  gi_lease :: "string option"
  gi_available :: bool

text \<open>\<open>list_servers()\<close> and \<open>require_available(server_ref, gpu_uuids, ignore_platform_leases)\<close>.\<close>

record provider =
  po_servers :: "int \<Rightarrow> tdb \<Rightarrow> server list res"
  po_available :: "string \<Rightarrow> string list \<Rightarrow> bool \<Rightarrow> int \<Rightarrow> tdb \<Rightarrow> gpu_info list res"

text \<open>A dictionary comprehension over the GPUs: the last one of a name stays.\<close>

definition gpu_by_uuid :: "gpu_info list \<Rightarrow> string \<Rightarrow> gpu_info option" where
  "gpu_by_uuid gpus uuid = map_of (rev (map (\<lambda>g. (gi_uuid g, g)) gpus)) (JStr uuid)"

section \<open>Registered nodes\<close>

record node_resources =
  nr_captured_at :: "int option"
  nr_stale :: bool
  nr_resources :: json

definition get_node_resources :: "string \<Rightarrow> int \<Rightarrow> tdb \<Rightarrow> node_resources res" where
  "get_node_resources ref now db =
     (case node_by_ref db ref of
        None \<Rightarrow> Inl (NotFound ''training_node_not_found'')
      | Some node \<Rightarrow>
          (case fetchone (rev (sort_key ns_id (filter (\<lambda>s. ns_node_id s = n_id node) (t_node_snapshots db)))) of
             None \<Rightarrow> Inr \<lparr>nr_captured_at = None, nr_stale = True, nr_resources = JNull\<rparr>
           | Some s \<Rightarrow> Inr \<lparr>nr_captured_at = Some (ns_captured_at s),
               nr_stale = (effective_node_status node 45000 now \<notin> {Online, Degraded} \<or> 90000 < now - ns_captured_at s),
               nr_resources = ns_resources s\<rparr>))"

definition is_dict :: "json \<Rightarrow> bool" where
  "is_dict v = (case v of JObj _ \<Rightarrow> True | _ \<Rightarrow> False)"

definition bytes_to_mib :: "json \<Rightarrow> int res" where
  "bytes_to_mib v = rbind (py_int v) (\<lambda>n. Inr (max 0 n div (1024 * 1024)))"

definition node_gpu_projection :: "env \<Rightarrow> bool \<Rightarrow> dict \<Rightarrow> gpu_info res" where
  "node_gpu_projection E available gpu =
     (let temperature = dict_get gpu ''temperature_celsius'' in
      rbind (dict_item gpu ''uuid'') (\<lambda>uuid.
      rbind (dict_item gpu ''index'') (\<lambda>raw_index.
      rbind (py_int raw_index) (\<lambda>index.
      rbind (bytes_to_mib (dict_get_default gpu ''memory_total_bytes'' (JInt 0))) (\<lambda>memory.
      rbind (bytes_to_mib (dict_get_default gpu ''memory_used_bytes'' (JInt 0))) (\<lambda>used.
      rbind (float_of E (dict_get_default gpu ''utilization_percent'' (JInt 0))) (\<lambda>utilization.
      rbind (if temperature = JNull then Inr (JFloat (Fin 0)) else float_of E temperature) (\<lambda>degrees.
        Inr \<lparr>gi_uuid = uuid, gi_index = index, gi_total_mib = memory, gi_used_mib = used, gi_utilization = utilization,
          gi_temperature = degrees, gi_external = False, gi_lease = None, gi_available = available\<rparr>))))))))"

text \<open>The entries of \<open>resources.get("gpus", [])\<close> that are dictionaries.\<close>

definition gpu_entries :: "dict \<Rightarrow> dict list res" where
  "gpu_entries resources =
     rbind (py_list (dict_get_default resources ''gpus'' (JList []))) (\<lambda>xs.
     rbind (rmap as_dict (filter is_dict xs)) Inr)"

definition node_server :: "int \<Rightarrow> tdb \<Rightarrow> node_row \<Rightarrow> server res" where
  "node_server now db node =
     rbind (get_node_resources (n_node_ref node) now db) (\<lambda>snapshot.
     rbind (case nr_resources snapshot of
              JObj d \<Rightarrow> rbind (py_list (dict_get_default d ''gpus'' (JList []))) (\<lambda>xs. Inr (length xs))
            | _ \<Rightarrow> Inr 0) (\<lambda>count.
     let connected = (effective_node_status node 45000 now = Online) in
       Inr \<lparr>sv_server_ref = n_node_ref node, sv_kind = ''training_node'', sv_online = connected,
         sv_available = (connected \<and> \<not> nr_stale snapshot), sv_stale = nr_stale snapshot, sv_gpu_count = count\<rparr>))"

definition node_servers :: "int \<Rightarrow> tdb \<Rightarrow> server list res" where
  "node_servers now db = rmap (node_server now db) (rev (sort_key n_id (t_nodes db)))"

text \<open>\<open>resources\<close>: whether the inventory is stale, and its GPUs.\<close>

definition node_inventory :: "env \<Rightarrow> string \<Rightarrow> int \<Rightarrow> tdb \<Rightarrow> (bool \<times> gpu_info list) res" where
  "node_inventory E ref now db =
     (case node_by_ref db ref of
        None \<Rightarrow> Inl (NotFound ''server_not_found'')
      | Some node \<Rightarrow>
          rbind (get_node_resources ref now db) (\<lambda>snapshot.
            let connected = (effective_node_status node 45000 now = Online);
                stale = (nr_stale snapshot \<or> \<not> connected \<or> \<not> is_dict (nr_resources snapshot)) in
            case nr_resources snapshot of
              JObj d \<Rightarrow>
                rbind (gpu_entries d) (\<lambda>entries.
                rbind (rmap (node_gpu_projection E (connected \<and> \<not> stale)) entries) (\<lambda>gpus. Inr (stale, gpus)))
            | _ \<Rightarrow> Inr (True, [])))"

definition node_available :: "env \<Rightarrow> string \<Rightarrow> string list \<Rightarrow> bool \<Rightarrow> int \<Rightarrow> tdb \<Rightarrow> gpu_info list res" where
  "node_available E ref gpu_uuids ignore_leases now db =
     (case node_by_ref db ref of
        None \<Rightarrow> Inl (NotFound ''server_not_found'')
      | Some node \<Rightarrow>
          rbind (node_inventory E ref now db) (\<lambda>(stale, gpus).
            if effective_node_status node 45000 now \<noteq> Online \<or> stale then Inl (Conflict ''training_node_unavailable'')
            else if list_ex (\<lambda>u. gpu_by_uuid gpus u = None) gpu_uuids then Inl (Validation ''unknown_gpu'')
            else Inr (map (\<lambda>u. the (gpu_by_uuid gpus u)) gpu_uuids)))"

definition node_provider :: "env \<Rightarrow> provider" where
  "node_provider E = \<lparr>po_servers = node_servers, po_available = node_available E\<rparr>"

section \<open>The local simulation\<close>

text \<open>
  Eight GPUs, the last one occupied from outside; the displayed load, temperature and memory follow a
  clock and are left at zero.
\<close>

definition fake_gpu :: "tdb \<Rightarrow> nat \<Rightarrow> gpu_info" where
  "fake_gpu db i =
     (let uuid = ''fake-a100-0'' @ nat_str i; lease = map_of (rev (active_gpu_leases db)) uuid in
      \<lparr>gi_uuid = JStr uuid, gi_index = int i, gi_total_mib = 81920, gi_used_mib = 0, gi_utilization = JInt 0,
       gi_temperature = JInt 0, gi_external = (i = 7), gi_lease = lease, gi_available = (i \<noteq> 7 \<and> lease = None)\<rparr>)"

definition fake_servers :: "int \<Rightarrow> tdb \<Rightarrow> server list res" where
  "fake_servers now db = Inr [\<lparr>sv_server_ref = ''fake-local'', sv_kind = ''simulation'', sv_online = True, sv_available = True,
     sv_stale = False, sv_gpu_count = 8\<rparr>]"

definition fake_available :: "string \<Rightarrow> string list \<Rightarrow> bool \<Rightarrow> int \<Rightarrow> tdb \<Rightarrow> gpu_info list res" where
  "fake_available ref gpu_uuids ignore_leases now db =
     (let gpus = map (fake_gpu db) [0..<8] in
      if ref \<notin> {''fake-a100'', ''fake-local''} then Inl (NotFound ''server_not_found'')
      else if list_ex (\<lambda>u. gpu_by_uuid gpus u = None) gpu_uuids then Inl (Validation ''unknown_gpu'')
      else
        let found = map (\<lambda>u. the (gpu_by_uuid gpus u)) gpu_uuids in
        if list_ex (\<lambda>g. gi_external g \<or> gi_lease g \<noteq> None \<and> \<not> ignore_leases) found then Inl (Conflict ''gpu_unavailable'')
        else Inr found)"

definition fake_provider :: provider where
  "fake_provider = \<lparr>po_servers = fake_servers, po_available = fake_available\<rparr>"

section \<open>What the service relies on\<close>

text \<open>An answer lists exactly the requested GPUs, in their order.\<close>

locale resource_provider =
  fixes available :: "string \<Rightarrow> string list \<Rightarrow> bool \<Rightarrow> int \<Rightarrow> tdb \<Rightarrow> gpu_info list res"
  assumes requested: "available ref us ign now db = Inr gpus \<Longrightarrow> map gi_uuid gpus = map JStr us"
begin

lemma one_per_request: "available ref us ign now db = Inr gpus \<Longrightarrow> length gpus = length us"
  using requested by (metis length_map)

lemma distinct_request: "available ref us ign now db = Inr gpus \<Longrightarrow> distinct us \<Longrightarrow> distinct (map gi_uuid gpus)"
  by (simp add: requested distinct_map inj_on_def)

end

lemma gpu_by_uuid_Some: "gpu_by_uuid gpus u = Some g \<Longrightarrow> gi_uuid g = JStr u \<and> g \<in> set gpus"
  by (auto simp: gpu_by_uuid_def dest!: map_of_SomeD)

lemma found_uuids:
  "\<not> list_ex (\<lambda>u. gpu_by_uuid gpus u = None) us \<Longrightarrow> map gi_uuid (map (\<lambda>u. the (gpu_by_uuid gpus u)) us) = map JStr us"
  by (induction us) (auto dest: gpu_by_uuid_Some)

interpretation nodes: resource_provider "node_available E" for E
proof
  fix ref us ign now db gpus assume "node_available E ref us ign now db = Inr gpus"
  then obtain all where "\<not> list_ex (\<lambda>u. gpu_by_uuid all u = None) us" "gpus = map (\<lambda>u. the (gpu_by_uuid all u)) us"
    by (auto simp: node_available_def rbind_eq_Inr split: option.splits if_splits)
  then show "map gi_uuid gpus = map JStr us" using found_uuids by blast
qed

interpretation simulated: resource_provider fake_available
proof
  fix ref us ign now db gpus assume "fake_available ref us ign now db = Inr gpus"
  then have "\<not> list_ex (\<lambda>u. gpu_by_uuid (map (fake_gpu db) [0..<8]) u = None) us"
    "gpus = map (\<lambda>u. the (gpu_by_uuid (map (fake_gpu db) [0..<8]) u)) us"
    by (auto simp: fake_available_def Let_def split: if_splits)
  then show "map gi_uuid gpus = map JStr us" using found_uuids by blast
qed

text \<open>A node whose GPUs are given out is online, and its newest snapshot is recent and names them.\<close>

lemma node_available_live:
  assumes "node_available E ref us ign now db = Inr gpus"
  obtains node s where "node_by_ref db ref = Some node" "effective_node_status node 45000 now = Online"
    "s \<in> set (t_node_snapshots db)" "ns_node_id s = n_id node" "now - ns_captured_at s \<le> 90000"
    "list_all (\<lambda>t. ns_node_id t = n_id node \<longrightarrow> ns_id t \<le> ns_id s) (t_node_snapshots db)"
proof -
  obtain node where node: "node_by_ref db ref = Some node" "effective_node_status node 45000 now = Online"
    and inventory: "\<exists>all. node_inventory E ref now db = Inr (False, all)"
    using assms by (auto simp: node_available_def rbind_eq_Inr split: option.splits if_splits)
  let ?snaps = "sort_key ns_id (filter (\<lambda>s. ns_node_id s = n_id node) (t_node_snapshots db))"
  have "\<exists>r. get_node_resources ref now db = Inr r \<and> \<not> nr_stale r"
  proof (cases "get_node_resources ref now db")
    case (Inr r)
    then show ?thesis using inventory node by (cases "nr_resources r") (auto simp: node_inventory_def rbind_eq_Inr Let_def)
  qed (use inventory node in \<open>simp add: node_inventory_def\<close>)
  then obtain r where "get_node_resources ref now db = Inr r" "\<not> nr_stale r" by blast
  then obtain s where s: "fetchone (rev ?snaps) = Some s" "now - ns_captured_at s \<le> 90000"
    using node by (auto simp: get_node_resources_def split: option.splits)
  have last: "?snaps \<noteq> []" "s = last ?snaps"
    using s(1) by (auto simp: fetchone_def hd_rev[symmetric] split: list.splits)
  have in_snaps: "s \<in> set ?snaps" using last by (metis last_in_set)
  have "ns_id t \<le> ns_id s" if "t \<in> set ?snaps" for t
  proof -
    have "sorted (map ns_id ?snaps)" by simp
    moreover have "?snaps = butlast ?snaps @ [s]" using last by simp
    ultimately have "sorted (map ns_id (butlast ?snaps @ [s]))" by metis
    moreover have "t \<in> set (butlast ?snaps @ [s])" using that last by (metis append_butlast_last_id)
    ultimately show ?thesis by (auto simp: sorted_append)
  qed
  then have "list_all (\<lambda>t. ns_node_id t = n_id node \<longrightarrow> ns_id t \<le> ns_id s) (t_node_snapshots db)" by (simp add: list_all_iff)
  then show ?thesis using that[OF node _ _ s(2)] in_snaps by auto
qed

end
