(* ===== verification/Run_Builder.thy ===== *)
theory Run_Builder
  imports Model_Configuration Model_Registry Dataset_Transfer Node_Resources Worker_Logs
begin

text \<open>
  Preparing a run in the service (\<open>TrainingService._prepare\<close>, \<open>preview_run\<close> and \<open>create_run\<close> in
  \<open>training/service.py\<close>): the checks on mode, node, model and data, the normalized stages, and
  the builder that turns them into the specification of every stage: its command, its public
  and its private description.
\<close>

section \<open>What the service works with\<close>

text \<open>
  The resource provider is one of \<open>Node_Resources\<close>.  Reading a stored configuration is JSON and the
  request models' parsing; quoting a command line is \<open>shlex\<close>.
\<close>

record service_env =
  se_params :: param_env
  se_provider :: provider
  se_decode :: "revision_row \<Rightarrow> (launch_template \<times> param_def list) res"
  se_shlex_join :: "string list \<Rightarrow> string"
  se_simulation_enabled :: bool
  se_real_enabled :: bool

record run_input =
  ri_execution_mode :: string
  ri_family_ref :: string
  ri_server_ref :: string
  ri_gpu_uuids :: "string list"
  ri_stages :: "stage_request list"
  ri_version_description :: string
  ri_train_refs :: "string list"
  ri_test_refs :: "string list"

record model_record =
  mr_family_ref :: string
  mr_family_name :: string
  mr_model_ref :: string
  mr_revision_ref :: string
  mr_internal_revision :: nat
  mr_status :: model_status
  mr_managed :: bool
  mr_template :: launch_template
  mr_definitions :: "param_def list"

definition get_model_record :: "service_env \<Rightarrow> string \<Rightarrow> tdb \<Rightarrow> model_record res" where
  "get_model_record S family_ref db =
     (case (family_model db family_ref, fetchone (filter (\<lambda>f. fam_ref f = family_ref) (t_families db))) of
        (Some m, Some f) \<Rightarrow>
          (case fetchone (filter (\<lambda>r. rv_model_id r = md_id m \<and> rv_number r = md_current_revision m) (t_revisions db)) of
             None \<Rightarrow> Inl (NotFound ''model_revision_not_found'')
           | Some rv \<Rightarrow> rbind (se_decode S rv) (\<lambda>(template, definitions).
               Inr \<lparr>mr_family_ref = family_ref, mr_family_name = fam_name f, mr_model_ref = md_model_ref m,
                 mr_revision_ref = rv_revision_ref rv, mr_internal_revision = md_current_revision m,
                 mr_status = md_status m, mr_managed = (rv_data_access_mode rv = ''datapilot_managed''),
                 mr_template = template, mr_definitions = definitions\<rparr>))
      | _ \<Rightarrow> Inl (NotFound ''model_not_found''))"

section \<open>The checks\<close>

text \<open>The kind of the first server with the requested reference, if there is one.\<close>

definition server_kind :: "service_env \<Rightarrow> string \<Rightarrow> int \<Rightarrow> tdb \<Rightarrow> string option res" where
  "server_kind S ref now db =
     rbind (po_servers (se_provider S) now db) (\<lambda>servers. Inr (map_option sv_kind (find (\<lambda>s. sv_server_ref s = ref) servers)))"

definition check_mode :: "service_env \<Rightarrow> run_input \<Rightarrow> bool \<Rightarrow> int \<Rightarrow> tdb \<Rightarrow> unit res" where
  "check_mode S q preview now db =
     (if ri_execution_mode q \<notin> {''simulation'', ''real''} then Inl (Validation ''unsupported_execution_mode'')
      else rbind (server_kind S (ri_server_ref q) now db) (\<lambda>kind.
        if ri_execution_mode q = ''simulation'' then
          (if \<not> se_simulation_enabled S then Inl (Forbidden ''simulation_disabled'')
           else if kind \<noteq> None \<and> kind \<noteq> Some ''simulation'' then Inl (Validation ''real_execution_disabled'') else Inr ())
        else if \<not> preview \<and> \<not> se_real_enabled S then Inl (Validation ''real_execution_disabled'')
        else if kind \<noteq> None \<and> kind \<noteq> Some ''training_node'' then Inl (Validation ''invalid_real_preview_target'') else Inr ()))"

definition check_service_target :: "run_input \<Rightarrow> model_record \<Rightarrow> int \<Rightarrow> tdb \<Rightarrow> unit res" where
  "check_service_target q m now db =
     (if mr_status m \<noteq> Verified then Inl (Validation ''real_training_model_not_verified'')
      else case node_by_ref db (ri_server_ref q) of
        None \<Rightarrow> Inl (NotFound ''training_node_not_found'')
      | Some node \<Rightarrow>
          rbind (has_feature (n_capabilities node) ''training_execution_v1'') (\<lambda>ok.
            if effective_node_status node 45000 now \<noteq> Online then Inl (Validation ''real_training_node_unavailable'')
            else if ok then Inr () else Inl (Validation ''real_training_worker_upgrade_required'')))"

definition resolve_data ::
  "run_input \<Rightarrow> model_record \<Rightarrow> tdb \<Rightarrow> (split_entry list \<times> split_entry list) option res" where
  "resolve_data q m db =
     (if mr_managed m then
        (if ri_train_refs q = [] then Inl (Validation ''managed_dataset_training_set_required'')
         else rbind (resolve_dataset_selection (ri_server_ref q) (ri_train_refs q) (ri_test_refs q) db) (\<lambda>splits. Inr (Some splits)))
      else if ri_train_refs q \<noteq> [] \<or> ri_test_refs q \<noteq> [] then Inl (Validation ''self_managed_dataset_selection_not_allowed'')
      else Inr None)"

text \<open>Resolving the parameters of a stage always ends (\<open>normalize_stage_returns\<close>).\<close>

definition stage_values :: "param_env \<Rightarrow> param_def list \<Rightarrow> bool \<Rightarrow> nat \<times> stage_request \<Rightarrow> normalized_stage res" where
  "stage_values P ds is_real = (\<lambda>(number, st). the (normalize_stage P ds is_real number st))"

record prepared_run =
  pr_is_real :: bool
  pr_model :: model_record
  pr_server_ref :: string
  pr_gpu_uuids :: "string list"
  pr_indexes :: "int list"
  pr_splits :: "(split_entry list \<times> split_entry list) option"
  pr_definitions :: "param_def list"
  pr_stages :: "normalized_stage list"

definition launcher_kind :: "launch_template \<Rightarrow> string" where
  "launcher_kind t = (case lt_launcher_kind t of None \<Rightarrow> inferred_kind (lt_executable t)
     | Some k \<Rightarrow> (if k = [] then inferred_kind (lt_executable t) else k))"

definition uses_torchrun :: "prepared_run \<Rightarrow> bool" where
  "uses_torchrun pr \<longleftrightarrow> launcher_kind (mr_template (pr_model pr)) = ''torchrun''"

definition prepare_run :: "service_env \<Rightarrow> run_input \<Rightarrow> bool \<Rightarrow> bool \<Rightarrow> int \<Rightarrow> tdb \<Rightarrow> prepared_run res" where
  "prepare_run S q ignore_leases preview now db =
     rbind (check_mode S q preview now db) (\<lambda>_.
     rbind (po_available (se_provider S) (ri_server_ref q) (ri_gpu_uuids q) ignore_leases now db) (\<lambda>gpus.
     rbind (get_model_record S (ri_family_ref q) db) (\<lambda>m.
     if mr_status m = Disabled then Inl (Validation ''model_unavailable'')
     else if lt_server_ref (mr_template m) \<noteq> ri_server_ref q then Inl (Validation ''server_mismatch'')
     else
       rbind (if ri_execution_mode q = ''real'' \<and> \<not> preview then check_service_target q m now db else Inr ()) (\<lambda>_.
       rbind (resolve_data q m db) (\<lambda>splits.
       rbind (rmap (validate_definition (se_params S)) (mr_definitions m)) (\<lambda>ds.
       rbind (rmap (stage_values (se_params S) ds (ri_execution_mode q = ''real'')) (zip [1..<Suc (length (ri_stages q))] (ri_stages q))) (\<lambda>stages.
         Inr \<lparr>pr_is_real = (ri_execution_mode q = ''real''), pr_model = m, pr_server_ref = ri_server_ref q,
           pr_gpu_uuids = ri_gpu_uuids q, pr_indexes = map gi_index gpus, pr_splits = splits, pr_definitions = ds, pr_stages = stages\<rparr>)))))))"

definition run_request_of :: "run_input \<Rightarrow> prepared_run \<Rightarrow> run_request" where
  "run_request_of q pr =
     \<lparr>q_execution_mode = ri_execution_mode q, q_gpu_uuids = ri_gpu_uuids q, q_model_ref = mr_model_ref (pr_model pr),
      q_revision_ref = mr_revision_ref (pr_model pr), q_server_ref = ri_server_ref q, q_dataset_splits = pr_splits pr,
      q_requires_master_port = uses_torchrun pr, q_version_description = Some (strip_text (ri_version_description q))\<rparr>"

section \<open>Building the specification of a stage\<close>

definition padded :: "nat \<Rightarrow> string" where
  "padded n = (if n < 10 then CHR ''0'' # nat_str n else nat_str n)"

definition version_root :: "model_record \<Rightarrow> string \<Rightarrow> string" where
  "version_root m segment =
     rstrip_char CHR ''/'' (lt_output_root (mr_template m)) @ ''/'' @ mr_family_ref m @ ''/'' @ segment"

definition stage_output_directory :: "model_record \<Rightarrow> string \<Rightarrow> nat \<Rightarrow> string" where
  "stage_output_directory m segment number = version_root m segment @ ''/stage-'' @ padded number"

definition manifest_path :: "prepared_run \<Rightarrow> string \<Rightarrow> string option" where
  "manifest_path pr segment =
     (if pr_splits pr = None then None else Some (version_root (pr_model pr) segment @ ''/dataset-manifest.json''))"

text \<open>The stage input of a later stage is the output of the previous one, when the stage asks for it.\<close>

definition stage_parameters :: "param_env \<Rightarrow> prepared_run \<Rightarrow> normalized_stage \<Rightarrow> string option \<Rightarrow> dict res" where
  "stage_parameters P pr ns previous =
     (if ns_source ns = ''previous_stage_output'' then
        (case stage_input_of (pr_definitions pr) of
           None \<Rightarrow> Inr (ns_parameters ns)
         | Some d \<Rightarrow>
             (case previous of
                None \<Rightarrow> Inl (Validation ''invalid_stage_input_source'')
              | Some out \<Rightarrow> rbind (parameter_error (normalize_parameter_value P d (JStr out)))
                  (\<lambda>v. Inr (dict_set (pd_name d) v (ns_parameters ns)))))
      else Inr (ns_parameters ns))"

definition base_argv :: "prepared_run \<Rightarrow> nat option \<Rightarrow> string list" where
  "base_argv pr port =
     (let t = mr_template (pr_model pr) in
      if uses_torchrun pr
      then [lt_executable t, ''--nnodes=1'', ''--nproc_per_node='' @ nat_str (length (pr_indexes pr)), ''--master_addr=127.0.0.1'',
            ''--master_port='' @ (case port of None \<Rightarrow> ''None'' | Some p \<Rightarrow> nat_str p), ''--node_rank=0'', lt_entrypoint t] @ lt_fixed_argv t
      else [lt_executable t, lt_entrypoint t] @ lt_fixed_argv t)"

definition masked :: string where "masked = ''********''"

text \<open>The arguments of one parameter: the command's, and the ones that may be shown.\<close>

definition rendered_value :: "env \<Rightarrow> param_def \<Rightarrow> json \<Rightarrow> string" where
  "rendered_value E d v =
     (if pd_style d = Some ExplicitBoolean then (if truthy v then ''True'' else ''False'') else py_str E v)"

definition parameter_args :: "env \<Rightarrow> bool \<Rightarrow> dict \<Rightarrow> param_def \<Rightarrow> string list" where
  "parameter_args E hide parameters d =
     (case map_of parameters (pd_name d) of
        None \<Rightarrow> []
      | Some v \<Rightarrow>
          (if pd_style d = Some FlagWhenTrue then (if truthy v then [pd_flag d] else [])
           else [pd_flag d, if hide \<and> pd_sensitive d then masked else rendered_value E d v]))"

definition stage_argv :: "env \<Rightarrow> bool \<Rightarrow> prepared_run \<Rightarrow> nat option \<Rightarrow> string option \<Rightarrow> dict \<Rightarrow> string \<Rightarrow> string list" where
  "stage_argv E hide pr port manifest parameters out =
     base_argv pr port @ (case manifest of None \<Rightarrow> [] | Some p \<Rightarrow> [manifest_flag, p]) @
     concat (map (parameter_args E hide parameters) (pr_definitions pr)) @ [lt_output_flag (mr_template (pr_model pr)), out]"

definition public_parameters :: "normalized_stage \<Rightarrow> dict \<Rightarrow> dict" where
  "public_parameters ns parameters = map (\<lambda>(k, v). (k, if k \<in> set (ns_sensitive ns) then JStr masked else v)) parameters"

definition text_json :: "string option \<Rightarrow> json" where
  "text_json t = (case t of None \<Rightarrow> JNull | Some s \<Rightarrow> JStr s)"

definition mode_name :: "bool \<Rightarrow> string" where
  "mode_name is_real = (if is_real then ''real'' else ''simulation'')"

definition public_spec ::
  "env \<Rightarrow> prepared_run \<Rightarrow> nat option \<Rightarrow> string \<Rightarrow> string \<Rightarrow> nat \<Rightarrow> normalized_stage \<Rightarrow> dict \<Rightarrow> dict" where
  "public_spec E pr port label segment number ns parameters =
     (let m = pr_model pr; t = mr_template m; torch = uses_torchrun pr; out = stage_output_directory m segment number;
          manifest = manifest_path pr segment in
      [(''contract_version'', JInt 2), (''execution_mode'', JStr (mode_name (pr_is_real pr))),
       (''family_ref'', JStr (mr_family_ref m)), (''family_name'', JStr (mr_family_name m)), (''version_label'', JStr label),
       (''stage_number'', JInt (int number)), (''stage_name'', JStr (stage_name number)), (''server_ref'', JStr (pr_server_ref pr)),
       (''gpu_uuids'', JList (map JStr (pr_gpu_uuids pr))), (''launcher_kind'', JStr (launcher_kind t)), (''nnodes'', JInt 1),
       (''master_addr'', if torch then JStr ''127.0.0.1'' else JNull),
       (''master_port'', if torch then (case port of None \<Rightarrow> JNull | Some p \<Rightarrow> JInt (int p)) else JNull),
       (''node_rank'', if torch then JInt 0 else JNull),
       (''nproc_per_node'', JInt (if torch then int (length (pr_indexes pr)) else 1)),
       (''environment'', JObj [(''CUDA_VISIBLE_DEVICES'', JStr (join_with '','' (map int_str (pr_indexes pr))))]),
       (''runtime_environment'', JObj (lt_runtime t)), (''monitoring'', JObj (lt_monitoring t)),
       (''parameters'', JObj (public_parameters ns parameters)), (''entrypoint'', JStr (lt_entrypoint t)),
       (''argv'', JList (map JStr (stage_argv E True pr port manifest parameters out))), (''output_preview'', JStr out),
       (''dataset_manifest'', text_json manifest)])"

definition private_spec ::
  "service_env \<Rightarrow> env \<Rightarrow> prepared_run \<Rightarrow> nat option \<Rightarrow> string \<Rightarrow> string \<Rightarrow> nat \<Rightarrow> normalized_stage \<Rightarrow> dict \<Rightarrow> dict" where
  "private_spec S E pr port label segment number ns parameters =
     (let m = pr_model pr; t = mr_template m; out = stage_output_directory m segment number;
          manifest = manifest_path pr segment;
          public = public_spec E pr port label segment number ns parameters in
      dict_merge public
       [(''version'', JInt 2), (''mode'', JStr (mode_name (pr_is_real pr))), (''model_ref'', JStr (mr_model_ref m)),
        (''internal_model_revision'', JInt (int (mr_internal_revision m))), (''revision_ref'', JStr (mr_revision_ref m)),
        (''gpu_indexes'', JList (map JInt (pr_indexes pr))), (''parameters'', JObj parameters),
        (''sensitive_parameters'', JList (map JStr (ns_sensitive ns))), (''working_directory'', JStr (lt_working_directory t)),
        (''entrypoint'', JStr (lt_entrypoint t)), (''output_root'', JStr (lt_output_root t)), (''output_directory'', JStr out),
        (''argv'', JList (map JStr (stage_argv E False pr port manifest parameters out))),
        (''preflight'', JObj [(''ok'', JBool True), (''checks'', JList (map JStr
           [if pr_is_real pr then ''real_preview_only'' else ''simulation_only'', ''gpu_available'', ''parameters_valid'']))]),
        (''safe_command_preview'', JStr (se_shlex_join S (stage_argv E True pr port manifest parameters out))),
        (''public_spec'', JObj public)])"

definition build_stage ::
  "service_env \<Rightarrow> env \<Rightarrow> prepared_run \<Rightarrow> nat option \<Rightarrow> string \<Rightarrow> string \<Rightarrow> nat \<Rightarrow> normalized_stage \<Rightarrow> string option \<Rightarrow> stage_spec res" where
  "build_stage S E pr port label segment number ns previous =
     rbind (stage_parameters (se_params S) pr ns previous) (\<lambda>parameters.
       let out = stage_output_directory (pr_model pr) segment number in
       Inr \<lparr>sp_stage_ref = None, sp_stage_name = Some (stage_name number), sp_input_source = ns_source ns,
         sp_parameters = JObj parameters, sp_private_spec = JObj (private_spec S E pr port label segment number ns parameters),
         sp_command_preview = se_shlex_join S (stage_argv E True pr port (manifest_path pr segment) parameters out),
         sp_output_directory = Some out, sp_total_steps = ns_total_steps ns\<rparr>)"

fun build_stages ::
  "service_env \<Rightarrow> env \<Rightarrow> prepared_run \<Rightarrow> nat option \<Rightarrow> string \<Rightarrow> string \<Rightarrow> nat \<Rightarrow> string option \<Rightarrow> normalized_stage list \<Rightarrow> stage_spec list res" where
  "build_stages S E pr port label segment number previous [] = Inr []"
| "build_stages S E pr port label segment number previous (ns # rest) =
     rbind (build_stage S E pr port label segment number ns previous) (\<lambda>sp.
     rbind (build_stages S E pr port label segment (Suc number) (Some (stage_output_directory (pr_model pr) segment number)) rest)
       (\<lambda>sps. Inr (sp # sps)))"

definition entry_json :: "split_entry \<Rightarrow> json" where
  "entry_json e = JObj [(''dataset_date'', JStr (se_dataset_date e)), (''release_ref'', JStr (se_release_ref e)),
     (''replica_ref'', JStr (se_replica_ref e)), (''local_root'', JStr (se_local_root e)),
     (''inventory_sha256'', JStr (se_inventory_sha256 e))]"

definition dataset_manifest :: "prepared_run \<Rightarrow> string \<Rightarrow> string option \<Rightarrow> json" where
  "dataset_manifest pr run_ref snapshot_ref =
     (case pr_splits pr of
        None \<Rightarrow> JNull
      | Some (train, test) \<Rightarrow> JObj [(''contract'', JStr ''datapilot_dataset_manifest_v1''),
          (''snapshot_ref'', JStr (case snapshot_ref of None \<Rightarrow> ''preview'' | Some s \<Rightarrow> (if s = [] then ''preview'' else s))),
          (''run_ref'', if run_ref = ''preview'' then JNull else JStr run_ref),
          (''family_ref'', JStr (mr_family_ref (pr_model pr))),
          (''splits'', JObj [(''train'', JList (map entry_json train)), (''test'', JList (map entry_json test))])])"

definition build_with :: "service_env \<Rightarrow> env \<Rightarrow> prepared_run \<Rightarrow> string \<Rightarrow> nat option \<Rightarrow> string \<Rightarrow> string option \<Rightarrow> run_spec res" where
  "build_with S E pr run_ref port label snapshot_ref =
     (let segment = (if run_ref = ''preview'' then ''preview'' else label) in
      if uses_torchrun pr \<and> port = None then Inl (Validation ''master_port_required'')
      else rbind (build_stages S E pr port label segment 1 None (pr_stages pr)) (\<lambda>stages.
        Inr \<lparr>rs_stages = stages, rs_dataset_manifest = dataset_manifest pr run_ref snapshot_ref\<rparr>))"

definition build_run :: "service_env \<Rightarrow> env \<Rightarrow> prepared_run \<Rightarrow> run_spec_builder" where
  "build_run S E pr = (\<lambda>run_ref port vm. build_with S E pr run_ref port (vm_label vm) (vm_snapshot_ref vm))"

section \<open>The two requests\<close>

definition preview_run :: "service_env \<Rightarrow> env \<Rightarrow> bool \<Rightarrow> run_input \<Rightarrow> int \<Rightarrow> tdb \<Rightarrow> run_spec res" where
  "preview_run S E allowed q now db =
     (if \<not> allowed then Inl (Forbidden ''training_write_forbidden'')
      else
        rbind (prepare_run S q False True now db) (\<lambda>pr.
        rbind (if uses_torchrun pr then rbind (find_available_port (ri_server_ref q) 29500 29600 db) (\<lambda>p. Inr (Some p)) else Inr None)
          (\<lambda>port. build_with S E pr ''preview'' port ''preview'' None)))"

definition service_create_run ::
  "service_env \<Rightarrow> env \<Rightarrow> bool \<Rightarrow> run_input \<Rightarrow> json \<Rightarrow> string \<Rightarrow> string \<Rightarrow> string \<Rightarrow> int \<Rightarrow> tdb \<Rightarrow> (run_row \<times> tdb) res" where
  "service_create_run S E allowed q payload key actor today now db =
     (if \<not> allowed then Inl (Forbidden ''training_write_forbidden'')
      else
        rbind (find_create_run_by_idempotency E key payload db) (\<lambda>existing.
          case existing of
            Some r \<Rightarrow> Inr (r, db)
          | None \<Rightarrow>
              (if strip_text (ri_version_description q) = [] then Inl (Validation ''version_description_required'')
               else rbind (prepare_run S q True False now db) (\<lambda>pr.
                 create_run E (run_request_of q pr) (build_run S E pr) key actor payload today now db))))"

end
