(* ===== verification/Run_Example.thy ===== *)
theory Run_Example
  imports Run_Builder Center_Example
begin

text \<open>
  A model family with four parameters, one of them sensitive, one shown for one value of another
  and one that takes the output of the previous stage, and requests for runs of two stages: the
  concrete inputs of the theorems on parameters and on building runs.
\<close>

definition ex_api :: "string \<Rightarrow> param_kind \<Rightarrow> json \<Rightarrow> api_definition" where
  "ex_api key kind v = \<lparr>ad_key = key, ad_type = kind, ad_role = Hyperparameter, ad_default = v, ad_minimum = None, ad_maximum = None,
     ad_choices = [], ad_min_length = None, ad_max_length = None, ad_visible_when = None, ad_group = None,
     ad_group_label = None, ad_group_order = None, ad_sensitive = False, ad_flag = None, ad_style = None\<rparr>"

definition ex_template :: launch_template where
  "ex_template = \<lparr>lt_server_ref = ''node'', lt_working_directory = ''/w'', lt_launcher_kind = Some ''direct'',
     lt_executable = ''python'', lt_entrypoint = ''train.py'', lt_fixed_argv = [''--bf16''], lt_output_root = ''/out/'',
     lt_output_flag = ''--output_dir'', lt_runtime = [(''kind'', JStr ''system'')],
     lt_monitoring = [(''source'', JStr ''stdout''), (''format'', JStr ''plain'')]\<rparr>"

definition ex_configuration :: model_configuration where
  "ex_configuration = \<lparr>cf_template = ex_template, cf_managed = False, cf_definitions =
     [(ex_api ''method'' EnumKind (JStr ''full''))\<lparr>ad_choices := [''full'', ''lora'']\<rparr>,
      (ex_api ''rank'' IntegerKind (JInt 8))\<lparr>ad_minimum := Some (JInt 1), ad_maximum := Some (JInt 64),
         ad_visible_when := Some (''method'', JStr ''lora'')\<rparr>,
      (ex_api ''token'' StringKind (JStr ''''))\<lparr>ad_sensitive := True\<rparr>,
      (ex_api ''checkpoint'' StringKind (JStr ''base''))\<lparr>ad_role := StageInput\<rparr>]\<rparr>"

definition ex_params :: param_env where
  "ex_params = \<lparr>pv_env = ex_env, pv_pattern = (\<lambda>_. None)\<rparr>"

definition ex_service :: service_env where
  "ex_service = \<lparr>se_params = ex_params, se_provider = node_provider ex_env,
     se_decode = (\<lambda>_. Inr (ex_template, adapt_definitions ex_configuration)), se_shlex_join = join_with '' '',
     se_simulation_enabled = True, se_real_enabled = True\<rparr>"

text \<open>The node has reported its GPU.\<close>

definition ex_center :: tdb where
  "ex_center = ex_db\<lparr>t_node_snapshots := [\<lparr>ns_id = 1, ns_node_id = 1, ns_captured_at = 0,
     ns_resources = JObj [(''gpus'', JList [JObj [(''uuid'', JStr ''gpu0''), (''index'', JInt 0)]])]\<rparr>]\<rparr>"

definition ex_stages :: "string \<Rightarrow> stage_request list" where
  "ex_stages token =
     [\<lparr>st_parameters = [(''token'', JStr token), (''method'', JStr ''lora'')], st_source = ''manual''\<rparr>,
      \<lparr>st_parameters = [(''token'', JStr token)], st_source = ''previous_stage_output''\<rparr>]"

definition ex_input :: "string \<Rightarrow> run_input" where
  "ex_input token = \<lparr>ri_execution_mode = ''real'', ri_family_ref = ''family'', ri_server_ref = ''node'', ri_gpu_uuids = [''gpu0''],
     ri_stages = ex_stages token, ri_version_description = ''first run'', ri_train_refs = [], ri_test_refs = []\<rparr>"

definition ex_version :: version_meta where
  "ex_version = \<lparr>vm_version_ref = ''version_0'', vm_number = 1, vm_date = ''20250101'', vm_label = ''v20250101-001'', vm_snapshot_ref = None\<rparr>"

text \<open>Preparing and building a request.\<close>

definition ex_prepare :: "string \<Rightarrow> prepared_run res" where
  "ex_prepare token = prepare_run ex_service (ex_input token) True False 10 ex_center"

definition ex_builds :: "prepared_run \<Rightarrow> bool" where
  "ex_builds pr \<longleftrightarrow> pr_definitions pr = adapt_definitions ex_configuration \<and> is_ok (build_run ex_service ex_env pr ''run_0'' None ex_version)"

lemma ex_prepare_secret: "case ex_prepare ''secret'' of Inl _ \<Rightarrow> False | Inr pr \<Rightarrow> ex_builds pr"
  by code_simp

lemma ex_prepare_other: "case ex_prepare ''other'' of Inl _ \<Rightarrow> False | Inr pr \<Rightarrow> ex_builds pr"
  by code_simp

end
