(* ===== verification/Parameter_Properties.thy ===== *)
theory Parameter_Properties
  imports Run_Example
begin

text \<open>
  The parameters of a run as the user meets them: a registered configuration always resolves, and
  a stage has exactly the parameters its conditions show, each with its supplied or default value.
\<close>

text \<open>
  C32: A configuration that was accepted at registration never makes the creation of a run fail
  with an invalid parameter dependency: its controllers exist and none depends on itself, so no
  stage request can lead the resolution of its parameters into a cycle.
\<close>

theorem registered_dependencies_resolve:
  assumes "validate_configuration E casefold cf = Inr ()"
    and "rmap (validate_definition P) (adapt_definitions cf) = Inr ds"
    and "\<And>v. float_of (pv_env P) v \<noteq> Inl (Validation ''invalid_parameter_dependency'')"
  shows "normalize_stage P ds is_real number st \<noteq> Some (Inl (Validation ''invalid_parameter_dependency''))"
proof -
  have float: "\<And>v. float_of (pv_env P) v \<noteq> Inl dependency_error" using assms(3) by (simp add: dependency_error_def)
  have ds: "ds = adapt_definitions cf" using adapted_validated assms(2) by (simp add: adapt_definitions_def)
  obtain R where R: "dependencies_sound ds R" using validated_sound[OF assms(1)] ds by blast
  let ?C = "stage_context_of ds st"
  have C: "sx_definitions ?C = ds" by (simp add: stage_context_of_def)
  obtain r where r: "resolve_all P ?C ds no_resolution = Some r" using resolve_all_returns[of ds ?C P no_resolution] C by auto
  have "r \<noteq> Inl dependency_error"
    by (rule resolve_all_no_dependency_error[OF _ float r]) (use R C in \<open>simp_all add: no_resolution_def\<close>)
  then have "rbind r (stage_result is_real st) \<noteq> Inl dependency_error" using finish_error by (cases r) auto
  then show ?thesis using r by (auto simp: normalize_stage_def dependency_error_def)
qed

theorem registered_dependencies_resolve_witness:
  "normalize_stage ex_params (adapt_definitions ex_configuration) True 1 (ex_stages ''secret'' ! 0) \<noteq>
     Some (Inl (Validation ''invalid_parameter_dependency''))"
proof -
  have ok: "validate_configuration ex_env id ex_configuration = Inr ()" by code_simp
  have ds: "rmap (validate_definition ex_params) (adapt_definitions ex_configuration) = Inr (adapt_definitions ex_configuration)"
    by code_simp
  have float: "float_of (pv_env ex_params) v \<noteq> Inl (Validation ''invalid_parameter_dependency'')" for v
    by (simp add: ex_params_def ex_env_def)
  show ?thesis by (rule registered_dependencies_resolve[OF ok ds float])
qed

text \<open>
  C31: The parameters of a stage are the ones its visibility conditions show, given the values
  of the stage itself: a shown definition has the normalized supplied value, or its default, a hidden
  one has no value, the sensitive names are those of the shown sensitive definitions, and the
  number of steps lies within the limits of the mode.
\<close>

theorem stage_parameters_visible:
  assumes "normalize_stage P ds is_real number st = Some (Inr ns)" "distinct (map pd_name ds)"
  shows "list_all (value_right P (stage_context_of ds st) (ns_parameters ns)) ds \<and>
    set (ns_sensitive ns) = {pd_name d | d. d \<in> set ds \<and> pd_sensitive d \<and> condition_met (stage_context_of ds st) (ns_parameters ns) d} \<and>
    1 \<le> ns_total_steps ns \<and> ns_total_steps ns \<le> maximum_steps is_real"
proof -
  have "1 \<le> ns_total_steps ns \<and> ns_total_steps ns \<le> maximum_steps is_real"
    using assms(1) by (rule normalize_stage_cases) simp
  then show ?thesis using normalize_stage_values[OF assms] by simp
qed

theorem stage_parameters_visible_witness:
  "\<exists>ns. normalize_stage ex_params (adapt_definitions ex_configuration) True 1 (ex_stages ''secret'' ! 0) = Some (Inr ns) \<and>
     set (ns_sensitive ns) = {pd_name d | d. d \<in> set (adapt_definitions ex_configuration) \<and> pd_sensitive d \<and>
       condition_met (stage_context_of (adapt_definitions ex_configuration) (ex_stages ''secret'' ! 0)) (ns_parameters ns) d} \<and>
     1 \<le> ns_total_steps ns"
proof -
  let ?stage = "normalize_stage ex_params (adapt_definitions ex_configuration) True 1 (ex_stages ''secret'' ! 0)"
  have "case ?stage of None \<Rightarrow> False | Some r \<Rightarrow> is_ok r" by code_simp
  then obtain ns where ns: "?stage = Some (Inr ns)" by (auto simp: is_ok_def split: option.splits sum.splits)
  have names: "distinct (map pd_name (adapt_definitions ex_configuration))" by code_simp
  show ?thesis using stage_parameters_visible[OF ns names] ns by blast
qed

end
