(* ===== verification/Parameter_Secrecy.thy ===== *)
theory Parameter_Secrecy
  imports Run_Example
begin

text \<open>
  What a run shows of its sensitive parameters: two requests that differ in nothing but the values
  of sensitive parameters are resolved alike, and the builder shows the same for both.
\<close>

section \<open>Values that agree outside the sensitive names\<close>

definition secret_names :: "param_def list \<Rightarrow> string set" where
  "secret_names ds = pd_name ` set (filter pd_sensitive ds)"

definition alike :: "string set \<Rightarrow> dict \<Rightarrow> dict \<Rightarrow> bool" where
  "alike S = list_all2 (\<lambda>(k, v) (k', v'). k = k' \<and> (k \<in> S \<or> v = v'))"

lemma secret_iff:
  "distinct (map pd_name ds) \<Longrightarrow> d \<in> set ds \<Longrightarrow> pd_name d \<in> secret_names ds \<longleftrightarrow> pd_sensitive d"
  by (auto simp: secret_names_def distinct_map inj_on_def)

lemma alike_Nil [simp]: "alike S [] []"
  by (simp add: alike_def)

lemma alike_induct [consumes 1, case_names Nil Cons]:
  assumes "alike S N N'" "Q [] []"
    and "\<And>k v v' N N'. k \<in> S \<or> v = v' \<Longrightarrow> alike S N N' \<Longrightarrow> Q N N' \<Longrightarrow> Q ((k, v) # N) ((k, v') # N')"
  shows "Q N N'"
  using assms(1) unfolding alike_def
proof (induction rule: list_all2_induct)
  case (Cons x xs y ys)
  obtain k v k' v' where xy: "x = (k, v)" "y = (k', v')" by force
  then have key: "k' = k" and val: "k \<in> S \<or> v = v'" using Cons.hyps(1) by auto
  show ?case unfolding xy key by (rule assms(3)[OF val _ Cons.IH]) (use Cons.hyps(2) in \<open>simp add: alike_def\<close>)
qed (rule assms(2))

lemma alike_Cons [simp]:
  "alike S ((k, v) # N) ((k', v') # N') \<longleftrightarrow> k = k' \<and> (k \<in> S \<or> v = v') \<and> alike S N N'"
  by (simp add: alike_def)

lemma alike_set: "alike S N N' \<Longrightarrow> k \<in> S \<or> v = v' \<Longrightarrow> alike S (dict_set k v N) (dict_set k v' N')"
  by (induction rule: alike_induct) (auto simp: alike_def)

lemma alike_keys: "alike S N N' \<Longrightarrow> (map_of N k = None) = (map_of N' k = None)"
  by (induction rule: alike_induct) auto

lemma alike_value: "alike S N N' \<Longrightarrow> k \<notin> S \<Longrightarrow> map_of N k = map_of N' k"
  by (induction rule: alike_induct) auto

section \<open>Resolving two requests\<close>

text \<open>No definition is shown or hidden by the value of a sensitive one.\<close>

definition public_controllers :: "param_def list \<Rightarrow> bool" where
  "public_controllers ds \<longleftrightarrow>
     list_all (\<lambda>d. case pd_visible_when d of None \<Rightarrow> True | Some (name, _) \<Rightarrow> name \<notin> secret_names ds) ds"

definition same_context :: "stage_context \<Rightarrow> stage_context \<Rightarrow> bool" where
  "same_context C C' \<longleftrightarrow> sx_definitions C' = sx_definitions C \<and> sx_previous C' = sx_previous C \<and>
     list_all (\<lambda>d. pd_sensitive d \<or> supplied_value C d = supplied_value C' d) (sx_definitions C)"

definition same_resolution :: "string set \<Rightarrow> resolution \<Rightarrow> resolution \<Rightarrow> bool" where
  "same_resolution S z z' \<longleftrightarrow> alike S (rz_normalized z) (rz_normalized z') \<and> rz_sensitive z' = rz_sensitive z \<and>
     rz_active z' = rz_active z \<and> rz_resolving z' = rz_resolving z"

lemma same_decided: "same_resolution S z z' \<Longrightarrow> same_resolution S (decided b d z) (decided b d z')"
  by (simp add: same_resolution_def decided_def)

lemma same_resolving:
  "same_resolution S z z' \<Longrightarrow> same_resolution S (z\<lparr>rz_resolving := x # rz_resolving z\<rparr>) (z'\<lparr>rz_resolving := x # rz_resolving z'\<rparr>)"
  by (simp add: same_resolution_def)

lemma same_taken:
  assumes "take_value P C d z = Inr (b, y)" "take_value P C' d z' = Inr (b', y')" "same_resolution (secret_names ds) z z'"
    and "same_context C C'" "ds = sx_definitions C" "d \<in> set ds" "distinct (map pd_name ds)"
  shows "b' = b \<and> same_resolution (secret_names ds) y y'"
proof -
  obtain v where v: "normalize_parameter_value P d (supplied_value C d) = Inr v" "b"
    "y = decided True d (z\<lparr>rz_normalized := dict_set (pd_name d) v (rz_normalized z)\<rparr>)"
    using assms(1) by (rule take_value_Inr)
  obtain v' where v': "normalize_parameter_value P d (supplied_value C' d) = Inr v'" "b'"
    "y' = decided True d (z'\<lparr>rz_normalized := dict_set (pd_name d) v' (rz_normalized z')\<rparr>)"
    using assms(2) by (rule take_value_Inr)
  have "pd_sensitive d \<or> supplied_value C d = supplied_value C' d"
    using assms(4-6) by (auto simp: same_context_def list_all_iff)
  then have "pd_name d \<in> secret_names ds \<or> v = v'" using v(1) v'(1) secret_iff[OF assms(7,6)] by auto
  then have "alike (secret_names ds) (dict_set (pd_name d) v (rz_normalized z)) (dict_set (pd_name d) v' (rz_normalized z'))"
    using assms(3) by (intro alike_set) (simp_all add: same_resolution_def)
  then have "same_resolution (secret_names ds) y y'"
    using assms(3) unfolding v(3) v'(3) by (intro same_decided) (simp add: same_resolution_def)
  then show ?thesis using v(2) v'(2) by simp
qed

lemma same_automatic: "same_context C C' \<Longrightarrow> is_automatic C' d = is_automatic C d"
  by (simp add: same_context_def is_automatic_def)

lemma resolve_alike:
  assumes "resolve_parameter P C d z = Some (Inr (b, y))" "d \<in> set (sx_definitions C)"
    and "resolve_parameter P C' d z' = Some (Inr (b', y'))" "same_resolution (secret_names (sx_definitions C)) z z'"
    and same: "same_context C C'" and names: "distinct (map pd_name (sx_definitions C))"
    and controllers: "public_controllers (sx_definitions C)"
  shows "b' = b \<and> same_resolution (secret_names (sx_definitions C)) y y'"
proof -
  let ?S = "secret_names (sx_definitions C)"
  have "\<forall>z' b' y'. resolve_parameter P C' d z' = Some (Inr (b', y')) \<longrightarrow> same_resolution ?S z z' \<longrightarrow>
    b' = b \<and> same_resolution ?S y y'"
    using assms(1,2)
  proof (induction rule: resolve_induct)
    case (known d z b)
    have "b' = b \<and> y' = z'" if "resolve_parameter P C' d z' = Some (Inr (b', y'))" "same_resolution ?S z z'" for z' b' y'
      using that(1) by (rule resolve_cases) (use that(2) known in \<open>simp_all add: same_resolution_def\<close>)
    then show ?case by blast
  next
    case (automatic d z)
    have "b' \<and> y' = decided True d (z'\<lparr>rz_resolving := pd_name d # rz_resolving z'\<rparr>)"
      if "resolve_parameter P C' d z' = Some (Inr (b', y'))" "same_resolution ?S z z'" for z' b' y'
      using that(1) by (rule resolve_cases)
        (use that(2) automatic same_automatic[OF same, of d] in \<open>simp_all add: same_resolution_def\<close>)
    then show ?case using same_decided same_resolving by blast
  next
    case (plain d z y)
    have "take_value P C' d (z'\<lparr>rz_resolving := pd_name d # rz_resolving z'\<rparr>) = Inr (b', y')"
      if "resolve_parameter P C' d z' = Some (Inr (b', y'))" "same_resolution ?S z z'" for z' b' y'
      using that(1) by (rule resolve_cases)
        (use that(2) plain.hyps(2-5) same_automatic[OF same, of d] in \<open>simp_all add: same_resolution_def\<close>)
    then show ?case using same_taken[OF plain.hyps(6) _ same_resolving same refl plain.hyps(1) names] by blast
  next
    case (depends d z b y name expected c shown z2)
    note first = depends.hyps(7)
    have c: "c \<in> set (sx_definitions C)" "pd_name c = name" using find_definition_in[OF depends.hyps(6)] by auto
    have public: "name \<notin> ?S" using controllers depends.hyps(1,5) by (auto simp: public_controllers_def list_all_iff)
    show ?case
    proof (intro allI impI)
      fix z' b' y' assume run: "resolve_parameter P C' d z' = Some (Inr (b', y'))" and z: "same_resolution ?S z z'"
      from run show "b' = b \<and> same_resolution ?S y y'"
      proof (cases rule: resolve_cases)
        case (depends name' expected' c' shown' z2')
        have "find_definition (sx_definitions C') = find_definition (sx_definitions C)" using same by (simp add: same_context_def)
        then have eq: "name' = name" "expected' = expected" "c' = c"
          using depends(4,5) \<open>pd_visible_when d = Some (name, expected)\<close> \<open>find_definition (sx_definitions C) name = Some c\<close> by auto
        have inner: "shown' = shown" "same_resolution ?S z2 z2'"
          using \<open>\<forall>z' b' y'. _ z' b' y'\<close> depends(6) same_resolving[OF z] unfolding eq by blast+
        have "map_of (rz_normalized z2) (pd_name c) = map_of (rz_normalized z2') (pd_name c)"
          by (rule alike_value) (use inner(2) public c in \<open>simp_all add: same_resolution_def\<close>)
        then have cond: "dict_get (rz_normalized z2') (pd_name c) = dict_get (rz_normalized z2) (pd_name c)"
          by (simp add: dict_get_def)
        show ?thesis
        proof (cases "\<not> shown \<or> \<not> scalar_eq (dict_get (rz_normalized z2) (pd_name c)) expected")
          case True
          then show ?thesis using depends(7) first same_decided[OF inner(2)] unfolding eq inner cond by simp
        next
          case False
          then have "take_value P C d z2 = Inr (b, y)" "take_value P C' d z2' = Inr (b', y')"
            using depends(7) first unfolding eq inner cond by simp_all
          then show ?thesis by (rule same_taken[OF _ _ inner(2) same refl \<open>d \<in> set (sx_definitions C)\<close> names])
        qed
      qed (use z depends same_automatic[OF same, of d] in \<open>simp_all add: same_resolution_def\<close>)
    qed
  qed
  then show ?thesis using assms(3,4) by blast
qed


section \<open>Normalizing two stages\<close>

text \<open>Two stage requests that differ in the values of sensitive parameters only.\<close>

definition same_public_stage :: "param_def list \<Rightarrow> stage_request \<Rightarrow> stage_request \<Rightarrow> bool" where
  "same_public_stage ds st st' \<longleftrightarrow> st_source st = st_source st' \<and>
     list_all (\<lambda>d. pd_sensitive d \<or> map_of (st_parameters st) (pd_name d) = map_of (st_parameters st') (pd_name d)) ds"

definition same_stage :: "param_def list \<Rightarrow> normalized_stage \<Rightarrow> normalized_stage \<Rightarrow> bool" where
  "same_stage ds ns ns' \<longleftrightarrow> alike (set (ns_sensitive ns)) (ns_parameters ns) (ns_parameters ns') \<and>
     ns_sensitive ns' = ns_sensitive ns \<and> ns_source ns' = ns_source ns \<and> set (ns_sensitive ns) \<subseteq> secret_names ds"

lemma same_stage_context: "same_public_stage ds st st' \<Longrightarrow> same_context (stage_context_of ds st) (stage_context_of ds st')"
  by (auto simp: same_public_stage_def same_context_def stage_context_of_def supplied_value_def dict_get_default_def list_all_iff)

lemma resolve_all_Cons:
  assumes "resolve_all P C (d # ds) z = Some (Inr y)"
  obtains b x where "resolve_parameter P C d z = Some (Inr (b, x))" "resolve_all P C ds x = Some (Inr y)"
proof -
  obtain r where r: "resolve_parameter P C d z = Some r"
    "(case r of Inl e \<Rightarrow> Some (Inl e) | Inr (_, x) \<Rightarrow> resolve_all P C ds x) = Some (Inr y)"
    using assms by (auto simp: bind_eq_Some_conv)
  then show ?thesis using that by (cases r) (auto split: prod.splits)
qed

lemma resolve_all_alike:
  assumes "same_context C C'" "distinct (map pd_name (sx_definitions C))" "public_controllers (sx_definitions C)"
  shows "resolve_all P C ds z = Some (Inr y) \<Longrightarrow> resolve_all P C' ds z' = Some (Inr y') \<Longrightarrow>
    set ds \<subseteq> set (sx_definitions C) \<Longrightarrow> same_resolution (secret_names (sx_definitions C)) z z' \<Longrightarrow>
    same_resolution (secret_names (sx_definitions C)) y y'"
proof (induction ds arbitrary: z z')
  case (Cons d ds)
  obtain b x where x: "resolve_parameter P C d z = Some (Inr (b, x))" "resolve_all P C ds x = Some (Inr y)"
    using Cons.prems(1) by (rule resolve_all_Cons)
  obtain b' x' where x': "resolve_parameter P C' d z' = Some (Inr (b', x'))" "resolve_all P C' ds x' = Some (Inr y')"
    using Cons.prems(2) by (rule resolve_all_Cons)
  have d: "d \<in> set (sx_definitions C)" using Cons.prems(3) by simp
  have "same_resolution (secret_names (sx_definitions C)) x x'"
    using resolve_alike[OF x(1) d x'(1) Cons.prems(4) assms] by blast
  then show ?case using Cons.IH[OF x(2) x'(2)] Cons.prems(3) by simp
qed simp

lemma alike_shrink:
  assumes "alike S N N'" "\<And>k. k \<in> S \<Longrightarrow> map_of N k \<noteq> None \<Longrightarrow> k \<in> T"
  shows "alike T N N'"
proof -
  have "(\<forall>k \<in> S. map_of N k \<noteq> None \<longrightarrow> k \<in> T) \<longrightarrow> alike T N N'"
    using assms(1)
  proof (induction rule: alike_induct)
    case (Cons k v v' N N')
    then show ?case by (auto split: if_splits)
  qed simp
  then show ?thesis using assms(2) by blast
qed

lemma normalize_alike:
  assumes "normalize_stage P ds is_real number st = Some (Inr ns)" "normalize_stage P ds is_real number st' = Some (Inr ns')"
    and "same_public_stage ds st st'" "distinct (map pd_name ds)" "public_controllers ds"
  shows "same_stage ds ns ns'"
proof -
  let ?C = "stage_context_of ds st"
  have C: "sx_definitions ?C = ds" by (simp add: stage_context_of_def)
  obtain z where z: "resolve_all P ?C ds no_resolution = Some (Inr z)"
    "ns_parameters ns = rz_normalized z" "ns_sensitive ns = rz_sensitive z" "ns_source ns = st_source st"
    using assms(1) by (rule normalize_stage_cases)
  obtain z' where z': "resolve_all P (stage_context_of ds st') ds no_resolution = Some (Inr z')"
    "ns_parameters ns' = rz_normalized z'" "ns_sensitive ns' = rz_sensitive z'" "ns_source ns' = st_source st'"
    using assms(2) by (rule normalize_stage_cases)
  have z_alike: "same_resolution (secret_names ds) z z'"
    using resolve_all_alike[OF same_stage_context[OF assms(3)] _ _ z(1) z'(1)] assms(4,5)
    by (simp add: C same_resolution_def no_resolution_def)
  note vals = normalize_stage_values[OF assms(1,4)]
  have keys: "k \<in> set (ns_sensitive ns)" if k: "k \<in> secret_names ds" "map_of (ns_parameters ns) k \<noteq> None" for k
  proof -
    obtain d where d: "d \<in> set ds" "pd_sensitive d" "k = pd_name d"
      using k(1) unfolding secret_names_def set_filter by blast
    then have "condition_met ?C (ns_parameters ns) d"
      using vals(1) k(2) by (auto simp: list_all_iff value_right_def split: if_splits)
    then show ?thesis using vals(2) d by blast
  qed
  have "alike (secret_names ds) (ns_parameters ns) (ns_parameters ns')" using z_alike z z' by (simp add: same_resolution_def)
  then have "alike (set (ns_sensitive ns)) (ns_parameters ns) (ns_parameters ns')" using keys by (rule alike_shrink)
  moreover have "set (ns_sensitive ns) \<subseteq> secret_names ds" using vals(2) by (auto simp: secret_names_def)
  ultimately show ?thesis
    using z_alike z z' assms(3) by (simp add: same_stage_def same_resolution_def same_public_stage_def)
qed

section \<open>Building two stages\<close>

definition no_secret_flags :: "param_def list \<Rightarrow> bool" where
  "no_secret_flags ds \<longleftrightarrow> list_all (\<lambda>d. pd_sensitive d \<longrightarrow> pd_style d \<noteq> Some FlagWhenTrue) ds"

lemma parameter_args_alike:
  assumes "alike T N N'" "T \<subseteq> secret_names ds" "d \<in> set ds" "distinct (map pd_name ds)" "no_secret_flags ds"
  shows "parameter_args E True N d = parameter_args E True N' d"
proof (cases "pd_name d \<in> T")
  case True
  then have "pd_sensitive d" using secret_iff[OF assms(4,3)] assms(2) by blast
  moreover from this have "pd_style d \<noteq> Some FlagWhenTrue" using assms(3,5) by (auto simp: no_secret_flags_def list_all_iff)
  ultimately show ?thesis using alike_keys[OF assms(1), of "pd_name d"] by (auto simp: parameter_args_def split: option.splits)
qed (simp add: parameter_args_def alike_value[OF assms(1)])

lemma stage_argv_alike:
  assumes "alike T N N'" "T \<subseteq> secret_names (pr_definitions pr)" "distinct (map pd_name (pr_definitions pr))"
    "no_secret_flags (pr_definitions pr)"
  shows "stage_argv E True pr port manifest N out = stage_argv E True pr port manifest N' out"
proof -
  have "map (parameter_args E True N) (pr_definitions pr) = map (parameter_args E True N') (pr_definitions pr)"
    by (rule map_cong[OF refl]) (rule parameter_args_alike[OF assms(1,2) _ assms(3,4)])
  then show ?thesis by (simp only: stage_argv_def)
qed

lemma public_parameters_alike:
  "alike (set (ns_sensitive ns)) N N' \<Longrightarrow> ns_sensitive ns' = ns_sensitive ns \<Longrightarrow> public_parameters ns N = public_parameters ns' N'"
proof (induction rule: alike_induct)
  case (Cons k v v' N N')
  then show ?case by (auto simp: public_parameters_def)
qed (simp add: public_parameters_def)

text \<open>What a built stage shows: its public specification and its command preview.\<close>

definition stage_view :: "stage_spec \<Rightarrow> json \<times> string" where
  "stage_view sp = (case sp_private_spec sp of JObj d \<Rightarrow> dict_get d ''public_spec'' | _ \<Rightarrow> JNull, sp_command_preview sp)"

lemma stage_parameters_alike:
  assumes "stage_parameters P pr ns previous = Inr N" "stage_parameters P pr ns' previous = Inr N'" "same_stage ds ns ns'"
  shows "alike (set (ns_sensitive ns)) N N'"
proof -
  have same: "alike (set (ns_sensitive ns)) (ns_parameters ns) (ns_parameters ns')" "ns_source ns' = ns_source ns"
    using assms(3) by (simp_all add: same_stage_def)
  have "N = ns_parameters ns \<and> N' = ns_parameters ns' \<or>
    (\<exists>k v. N = dict_set k v (ns_parameters ns) \<and> N' = dict_set k v (ns_parameters ns'))"
  proof (cases "ns_source ns = ''previous_stage_output'' \<and> stage_input_of (pr_definitions pr) \<noteq> None")
    case False
    then show ?thesis using assms(1,2) same(2)
      by (cases "stage_input_of (pr_definitions pr)") (simp_all add: stage_parameters_def split: if_splits)
  next
    case True
    then obtain d out where "stage_input_of (pr_definitions pr) = Some d" "previous = Some out"
      using assms(1) by (auto simp: stage_parameters_def split: option.splits)
    then obtain v where "N = dict_set (pd_name d) v (ns_parameters ns)" "N' = dict_set (pd_name d) v (ns_parameters ns')"
      using assms(1,2) same(2) True by (auto simp: stage_parameters_def rbind_eq_Inr)
    then show ?thesis by blast
  qed
  then show ?thesis using same(1) alike_set by blast
qed

lemma stage_view_built:
  assumes "build_stage S E pr port label segment number ns previous = Inr sp"
  obtains N where "stage_parameters (se_params S) pr ns previous = Inr N"
    "stage_view sp = (JObj (public_spec E pr port label segment number ns N),
       se_shlex_join S (stage_argv E True pr port (manifest_path pr segment) N (stage_output_directory (pr_model pr) segment number)))"
proof -
  obtain N where N: "stage_parameters (se_params S) pr ns previous = Inr N" "sp_private_spec sp =
     JObj (private_spec S E pr port label segment number ns N)"
    "sp_command_preview sp = se_shlex_join S (stage_argv E True pr port (manifest_path pr segment) N (stage_output_directory (pr_model pr) segment number))"
    using assms by (auto simp: build_stage_def Let_def rbind_eq_Inr)
  have "dict_get (private_spec S E pr port label segment number ns N) ''public_spec'' =
      JObj (public_spec E pr port label segment number ns N)"
    unfolding private_spec_def public_spec_def Let_def dict_merge_def dict_get_def by simp
  then show ?thesis using that[OF N(1)] N(2,3) by (simp add: stage_view_def)
qed

lemma build_stage_alike:
  assumes "build_stage S E pr port label segment number ns previous = Inr sp"
    and "build_stage S E pr port label segment number ns' previous = Inr sp'" "same_stage (pr_definitions pr) ns ns'"
    and "distinct (map pd_name (pr_definitions pr))" "no_secret_flags (pr_definitions pr)"
  shows "stage_view sp = stage_view sp'"
proof -
  obtain N where N: "stage_parameters (se_params S) pr ns previous = Inr N"
    "stage_view sp = (JObj (public_spec E pr port label segment number ns N),
       se_shlex_join S (stage_argv E True pr port (manifest_path pr segment) N (stage_output_directory (pr_model pr) segment number)))"
    using assms(1) by (rule stage_view_built)
  obtain N' where N': "stage_parameters (se_params S) pr ns' previous = Inr N'"
    "stage_view sp' = (JObj (public_spec E pr port label segment number ns' N'),
       se_shlex_join S (stage_argv E True pr port (manifest_path pr segment) N' (stage_output_directory (pr_model pr) segment number)))"
    using assms(2) by (rule stage_view_built)
  note same = stage_parameters_alike[OF N(1) N'(1) assms(3)]
  have subset: "set (ns_sensitive ns) \<subseteq> secret_names (pr_definitions pr)" "ns_sensitive ns' = ns_sensitive ns"
    using assms(3) by (simp_all add: same_stage_def)
  have "public_spec E pr port label segment number ns N = public_spec E pr port label segment number ns' N'"
    unfolding public_spec_def Let_def stage_argv_alike[OF same subset(1) assms(4,5)] public_parameters_alike[OF same subset(2)] ..
  then show ?thesis unfolding N(2) N'(2) stage_argv_alike[OF same subset(1) assms(4,5)] by simp
qed


section \<open>Two requests\<close>

lemma prepare_run_cases:
  assumes "prepare_run S q ignore_leases preview now db = Inr pr"
  obtains m ds where "get_model_record S (ri_family_ref q) db = Inr m" "pr_model pr = m"
    "rmap (validate_definition (se_params S)) (mr_definitions m) = Inr ds" "pr_definitions pr = ds"
    "rmap (stage_values (se_params S) ds (ri_execution_mode q = ''real'')) (zip [1..<Suc (length (ri_stages q))] (ri_stages q)) =
      Inr (pr_stages pr)"
  using assms by (auto simp: prepare_run_def rbind_eq_Inr split: if_splits)

text \<open>The stages of a request do not matter to the rest of what is prepared.\<close>

lemma prepare_run_stages:
  assumes "prepare_run S q ignore_leases preview now db = Inr pr"
    and "prepare_run S (q\<lparr>ri_stages := ss\<rparr>) ignore_leases preview now db = Inr pr'"
  shows "pr' = pr\<lparr>pr_stages := pr_stages pr'\<rparr>"
  using assms by (auto simp: prepare_run_def rbind_eq_Inr check_mode_def check_service_target_def resolve_data_def split: if_splits)

lemma built_for_other_stages:
  "build_stage S E (pr\<lparr>pr_stages := ss\<rparr>) port label segment number ns previous =
     build_stage S E pr port label segment number ns previous"
  by (simp add: build_stage_def stage_parameters_def private_spec_def public_spec_def stage_argv_def base_argv_def
      manifest_path_def uses_torchrun_def Let_def)

lemma rmap_Inr_list_all2: "rmap f xs = Inr ys \<Longrightarrow> list_all2 (\<lambda>x y. f x = Inr y) xs ys"
  by (induction xs arbitrary: ys) (auto simp: rbind_eq_Inr)

lemma stage_values_alike:
  assumes "rmap (stage_values P ds is_real) (zip ns xs) = Inr ys" "rmap (stage_values P ds is_real) (zip ns xs') = Inr ys'"
    and "list_all2 (same_public_stage ds) xs xs'" "distinct (map pd_name ds)" "public_controllers ds"
  shows "list_all2 (same_stage ds) ys ys'"
  using assms(3,1,2)
proof (induction arbitrary: ns ys ys' rule: list_all2_induct)
  case Nil
  then show ?case by simp
next
  case (Cons x xs x' xs')
  show ?case
  proof (cases ns)
    case Nil
    then show ?thesis using Cons.prems by simp
  next
    case (Cons n ms)
    obtain y zs where y: "stage_values P ds is_real (n, x) = Inr y" "rmap (stage_values P ds is_real) (zip ms xs) = Inr zs" "ys = y # zs"
      using Cons.prems(1) Cons by (auto simp: rbind_eq_Inr)
    obtain y' zs' where y': "stage_values P ds is_real (n, x') = Inr y'" "rmap (stage_values P ds is_real) (zip ms xs') = Inr zs'" "ys' = y' # zs'"
      using Cons.prems(2) Cons by (auto simp: rbind_eq_Inr)
    have "normalize_stage P ds is_real n x = Some (Inr y)" "normalize_stage P ds is_real n x' = Some (Inr y')"
      using y(1) y'(1) normalize_stage_returns[of P ds is_real n] by (auto simp: stage_values_def) (metis option.sel)+
    from normalize_alike[OF this Cons.hyps(1) assms(4,5)] show ?thesis using Cons.IH[OF y(2) y'(2)] y(3) y'(3) by simp
  qed
qed

lemma build_stages_alike:
  assumes "list_all2 (same_stage (pr_definitions pr)) nss nss'"
    and "build_stages S E pr port label segment number previous nss = Inr sps"
    and "build_stages S E pr port label segment number previous nss' = Inr sps'"
    and "distinct (map pd_name (pr_definitions pr))" "no_secret_flags (pr_definitions pr)"
  shows "map stage_view sps = map stage_view sps'"
  using assms(1-3)
proof (induction arbitrary: number previous sps sps' rule: list_all2_induct)
  case (Cons ns nss ns' nss')
  let ?previous = "Some (stage_output_directory (pr_model pr) segment number)"
  obtain sp rest where sp: "build_stage S E pr port label segment number ns previous = Inr sp"
    "build_stages S E pr port label segment (Suc number) ?previous nss = Inr rest" "sps = sp # rest"
    using Cons.prems(1) by (auto simp: rbind_eq_Inr)
  obtain sp' rest' where sp': "build_stage S E pr port label segment number ns' previous = Inr sp'"
    "build_stages S E pr port label segment (Suc number) ?previous nss' = Inr rest'" "sps' = sp' # rest'"
    using Cons.prems(2) by (auto simp: rbind_eq_Inr)
  have "stage_view sp = stage_view sp'" by (rule build_stage_alike[OF sp(1) sp'(1) Cons.hyps(1) assms(4,5)])
  then show ?case using Cons.IH[OF sp(2) sp'(2)] sp(3) sp'(3) by simp
qed simp

lemma build_stages_other:
  "build_stages S E (pr\<lparr>pr_stages := ss\<rparr>) port label segment number previous nss =
     build_stages S E pr port label segment number previous nss"
  by (induction nss arbitrary: number previous) (simp_all add: built_for_other_stages)




end
