(* ===== verification/Service_Properties.thy ===== *)
theory Service_Properties
  imports Run_Example
begin

text \<open>
  What a prepared run says of the node it is meant for.
\<close>



end
