(* ===== verification/Built_Actions.thy ===== *)
theory Built_Actions
  imports Run_Example Worker_Start
begin

text \<open>
  From a built stage to the Worker: the start action whose payload the centre takes from a built
  stage passes every check of the Worker's parser when the launch template is a launchable one,
  and an action with an empty argument never does.
\<close>

section \<open>Paths put together from text\<close>

lemma split_on_nonempty: "split_on x s \<noteq> []"
  by (induction s) (auto split: list.split)

lemma split_on_append: "split_on x (a @ x # b) = split_on x a @ split_on x b"
proof (induction a)
  case Nil
  obtain w ws where "split_on x b = w # ws" using split_on_nonempty by (cases "split_on x b") auto
  then show ?case by simp
next
  case (Cons c a)
  obtain w ws where "split_on x a = w # ws" using split_on_nonempty by (cases "split_on x a") auto
  then show ?case using Cons by auto
qed

lemma split_on_single: "x \<notin> set s \<Longrightarrow> split_on x s = [s]"
  by (induction s) auto

text \<open>The parts of a path: what stands between slashes, without the empty parts and the dots.\<close>

definition path_parts :: "string \<Rightarrow> string list" where
  "path_parts s = filter (\<lambda>x. x \<noteq> [] \<and> x \<noteq> ''.'') (split_on CHR ''/'' s)"

lemma path_parts_append: "path_parts (a @ CHR ''/'' # b) = path_parts a @ path_parts b"
  by (simp add: path_parts_def split_on_append)

lemma path_parts_Nil [simp]: "path_parts [] = []"
  by (simp add: path_parts_def)

lemma path_parts_slash [simp]: "path_parts (CHR ''/'' # s) = path_parts s"
  using path_parts_append[of "[]" s] by simp

lemma path_parts_name: "CHR ''/'' \<notin> set s \<Longrightarrow> s \<noteq> [] \<Longrightarrow> path_parts s = filter (\<lambda>n. n \<noteq> ''.'') [s]"
  by (simp add: path_parts_def split_on_single)

lemma rstrip_Cons: "rstrip_char x (c # s) = (if rstrip_char x s = [] \<and> c = x then [] else c # rstrip_char x s)"
proof (cases "\<forall>y \<in> set s. y = x")
  case True
  then have "rstrip_char x s = []" by (simp add: rstrip_char_def)
  then show ?thesis using True by (simp add: rstrip_char_def dropWhile_append)
next
  case False
  then obtain y where y: "y \<in> set (rev s)" "y \<noteq> x" by auto
  then have "dropWhile (\<lambda>z. z = x) (rev s) \<noteq> []" by (auto simp: dropWhile_eq_Nil_conv)
  then have "rstrip_char x s \<noteq> []" by (simp add: rstrip_char_def)
  then show ?thesis using y by (simp add: rstrip_char_def dropWhile_append1[OF y(1)])
qed

lemma path_parts_rstrip: "path_parts (rstrip_char CHR ''/'' s) = path_parts s"
proof -
  have "s = rstrip_char CHR ''/'' s @ replicate k CHR ''/'' \<Longrightarrow> path_parts (rstrip_char CHR ''/'' s) = path_parts s" for k
  proof -
    have "path_parts (t @ replicate k CHR ''/'') = path_parts t" for t
    proof (induction k)
      case (Suc k)
      have "t @ replicate (Suc k) CHR ''/'' = (t @ replicate k CHR ''/'') @ CHR ''/'' # []"
        by (simp add: replicate_append_same)
      then show ?case using Suc path_parts_append[of "t @ replicate k CHR ''/''" "[]"] by simp
    qed simp
    then show "s = rstrip_char CHR ''/'' s @ replicate k CHR ''/'' \<Longrightarrow> path_parts (rstrip_char CHR ''/'' s) = path_parts s" by metis
  qed
  moreover have "\<exists>k. s = rstrip_char CHR ''/'' s @ replicate k CHR ''/''"
  proof -
    have "rev s = takeWhile (\<lambda>x. x = CHR ''/'') (rev s) @ dropWhile (\<lambda>x. x = CHR ''/'') (rev s)" by simp
    moreover have "takeWhile (\<lambda>x. x = CHR ''/'') (rev s) = replicate (length (takeWhile (\<lambda>x. x = CHR ''/'') (rev s))) CHR ''/''"
      by (rule replicate_eqI) (auto dest: set_takeWhileD)
    ultimately have "s = rstrip_char CHR ''/'' s @ replicate (length (takeWhile (\<lambda>x. x = CHR ''/'') (rev s))) CHR ''/''"
      by (metis rev_append rev_replicate rev_rev_ident rstrip_char_def)
    then show ?thesis by blast
  qed
  ultimately show ?thesis by blast
qed

text \<open>An absolute path with one leading slash.\<close>

definition rooted :: "string \<Rightarrow> bool" where
  "rooted s \<longleftrightarrow> take 1 s = ''/'' \<and> take 1 (drop 1 s) \<noteq> ''/''"

lemma parse_rooted: "rooted s \<Longrightarrow> parse_path s = (''/'', path_parts s)"
proof -
  assume s: "rooted s"
  then obtain t where t: "s = CHR ''/'' # t" by (cases s) (auto simp: rooted_def)
  then show ?thesis using s by (simp add: parse_path_def rooted_def path_root_def path_parts_def[symmetric])
qed

definition plain_name :: "string \<Rightarrow> bool" where
  "plain_name s \<longleftrightarrow> s \<noteq> [] \<and> CHR ''/'' \<notin> set s"

lemma rooted_below: "rooted s \<Longrightarrow> plain_name n \<Longrightarrow> rooted (rstrip_char CHR ''/'' s @ CHR ''/'' # n @ r)"
proof -
  assume s: "rooted s" and n: "plain_name n"
  obtain t where t: "s = CHR ''/'' # t" "take 1 t \<noteq> ''/''" using s by (cases s) (auto simp: rooted_def)
  show ?thesis
  proof (cases t)
    case Nil
    then show ?thesis using t n by (cases n) (auto simp: rstrip_char_def rooted_def plain_name_def)
  next
    case (Cons c u)
    then have "c \<noteq> CHR ''/''" using t(2) by simp
    then show ?thesis using Cons t(1) by (simp add: rstrip_Cons rooted_def)
  qed
qed

lemma path_parts_below:
  "path_parts (rstrip_char CHR ''/'' s @ CHR ''/'' # r) = path_parts s @ path_parts r"
  by (simp add: path_parts_append path_parts_rstrip)


section \<open>The arguments\<close>

definition argument_ok :: "string \<Rightarrow> bool" where
  "argument_ok s \<longleftrightarrow> s \<noteq> [] \<and> py_len s \<le> 16384 \<and> control_free s"

lemma argv_of_ok: "xs \<noteq> [] \<Longrightarrow> length xs \<le> 4096 \<Longrightarrow> list_all argument_ok xs \<Longrightarrow> argv_of (JList (map JStr xs)) = Inr xs"
  by (auto simp: argv_of_def argument_ok_def list_all_iff comp_def Suc_le_eq)

lemma argv_of_bad: "x \<in> set xs \<Longrightarrow> \<not> argument_ok x \<Longrightarrow> argv_of (JList (map JStr xs)) = Inl (ExecutionError ''training_argv_invalid'')"
  by (auto simp: argv_of_def argument_ok_def list_all_iff)

lemma control_free_single: "control_free s = single_line s"
  by (auto simp: control_free_def single_line_def NL_def CR_def)

lemma control_free_append [simp]: "control_free (a @ b) \<longleftrightarrow> control_free a \<and> control_free b"
  by (auto simp: control_free_def)

lemma py_len_append [simp]: "py_len (a @ b) = py_len a + py_len b"
  by (simp add: py_len_def)

lemma py_len_length: "py_len s \<le> length s"
  by (simp add: py_len_def)

lemma argument_short: "s \<noteq> [] \<Longrightarrow> length s \<le> 16384 \<Longrightarrow> control_free s \<Longrightarrow> argument_ok s"
  using py_len_length[of s] by (simp add: argument_ok_def)

lemma token_ok: "text_within 1000 s \<Longrightarrow> single_token s \<Longrightarrow> argument_ok s"
  by (auto simp: text_within_def single_token_def argument_ok_def control_free_single)

lemma ref_control_free: "list_all ref_char s \<Longrightarrow> control_free s"
proof -
  assume s: "list_all ref_char s"
  have "\<not> ref_char (char_of (0 :: nat)) \<and> \<not> ref_char CR \<and> \<not> ref_char NL" by code_simp
  then show ?thesis using s unfolding control_free_def list_all_iff by blast
qed

lemma safe_ref_plain: "safe_ref s \<Longrightarrow> plain_name s \<and> control_free s \<and> py_len s \<le> 255"
  using py_len_length[of s]
  by (auto simp: safe_ref_def plain_name_def list_all_iff ref_char_def is_alnum_def is_digit_def intro: ref_control_free)

lemma flag_ok: "flag_pattern s \<Longrightarrow> argument_ok s"
proof -
  assume s: "flag_pattern s"
  then obtain c cs where t: "take 2 s = ''--''" "drop 2 s = c # cs" "is_alnum c" "length cs \<le> 99"
    "list_all (\<lambda>c. is_alnum c \<or> c \<in> set ''_-'') cs"
    by (auto simp: flag_pattern_def split: list.splits)
  have "s = ''--'' @ c # cs" using t(1,2) append_take_drop_id[of 2 s] by simp
  moreover have "list_all ref_char (''--'' @ c # cs)"
    using t(3,5) by (auto simp: list_all_iff ref_char_def)
  ultimately show ?thesis using t(4) ref_control_free by (auto intro: argument_short)
qed

lemma nat_str_digits: "list_all is_digit (nat_str n) \<and> nat_str n \<noteq> []"
proof (induction n rule: nat_str.induct)
  case (1 n)
  have "is_digit (char_of (48 + m))" if "m < 10" for m :: nat
    using that by (simp add: is_digit_def)
  then show ?case using 1 by (subst (1 2) nat_str.simps) simp
qed

lemma digits_control_free: "list_all is_digit s \<Longrightarrow> control_free s"
  by (rule ref_control_free) (simp add: list_all_iff ref_char_def is_alnum_def)

lemma nat_str_length: "n < 10 ^ Suc k \<Longrightarrow> length (nat_str n) \<le> Suc k"
proof (induction k arbitrary: n)
  case (Suc k)
  have "n div 10 < 10 ^ Suc k" using Suc.prems by simp
  then show ?case using Suc.IH[of "n div 10"] by (subst nat_str.simps) simp
qed (subst nat_str.simps, simp)

lemma nat_option_ok:
  assumes "n < 100000" "control_free p" "length p \<le> 100"
  shows "argument_ok (p @ nat_str n)"
  using nat_str_digits[of n] nat_str_length[of n 4] assms
  by (intro argument_short) (auto simp: digits_control_free)

lemma two_digits_nat: "two_digits (int n) = padded n"
  by (simp add: two_digits_def padded_def int_str_def)


section \<open>The output paths of a run\<close>

definition below_root :: "string \<Rightarrow> string list \<Rightarrow> string" where
  "below_root r names = rstrip_char CHR ''/'' r @ concat (map (Cons CHR ''/'') names)"

lemma path_parts_names:
  "list_all plain_name names \<Longrightarrow> path_parts (s @ concat (map (Cons CHR ''/'') names)) = path_parts s @ filter (\<lambda>n. n \<noteq> ''.'') names"
proof (induction names rule: rev_induct)
  case (snoc n names)
  have "path_parts (s @ concat (map (Cons CHR ''/'') (names @ [n]))) =
      path_parts ((s @ concat (map (Cons CHR ''/'') names)) @ CHR ''/'' # n)" by simp
  also have "\<dots> = path_parts (s @ concat (map (Cons CHR ''/'') names)) @ path_parts n" by (rule path_parts_append)
  also have "path_parts n = filter (\<lambda>n. n \<noteq> ''.'') [n]" using snoc.prems by (intro path_parts_name) (simp_all add: plain_name_def)
  finally show ?case using snoc by simp
qed simp

lemma parse_below_root:
  assumes "rooted r" "list_all plain_name names" "names \<noteq> []"
  shows "parse_path (below_root r names) = path_join (parse_path r) names"
proof -
  obtain n ns where names: "names = n # ns" using assms(3) by (cases names) auto
  have "rooted (below_root r names)"
    using rooted_below[OF assms(1), of n "concat (map (Cons CHR ''/'') ns)"] assms(2) names by (simp add: below_root_def)
  then show ?thesis
    using path_parts_names[OF assms(2), of "rstrip_char CHR ''/'' r"]
    by (simp add: parse_rooted assms(1) path_join_def path_parts_rstrip below_root_def)
qed

lemma rstrip_set: "set (rstrip_char x s) \<subseteq> set s"
  using set_dropWhileD[of _ _ "rev s"] by (auto simp: rstrip_char_def)

lemma rstrip_py_len: "py_len (rstrip_char x s) \<le> py_len s"
proof -
  have "rev s = takeWhile (\<lambda>y. y = x) (rev s) @ dropWhile (\<lambda>y. y = x) (rev s)" by simp
  then have "s = rstrip_char x s @ rev (takeWhile (\<lambda>y. y = x) (rev s))" by (metis rev_append rev_rev_ident rstrip_char_def)
  then show ?thesis by (metis le_add1 py_len_append)
qed

definition path_name_ok :: "string \<Rightarrow> bool" where
  "path_name_ok n \<longleftrightarrow> plain_name n \<and> control_free n \<and> n \<noteq> ''..'' \<and> py_len n \<le> 255"

lemma control_free_slash [simp]: "control_free (CHR ''/'' # s) = control_free s"
proof -
  have "control_free ''/''" by code_simp
  then show ?thesis using control_free_append[of "''/''" s] by simp
qed

lemma names_control_free: "list_all path_name_ok names \<Longrightarrow> control_free (concat (map (Cons CHR ''/'') names))"
  by (induction names) (simp_all add: path_name_ok_def, simp add: control_free_def)

lemma names_py_len: "list_all path_name_ok names \<Longrightarrow> py_len (concat (map (Cons CHR ''/'') names)) \<le> 256 * length names"
proof (induction names)
  case (Cons n names)
  have "py_len (CHR ''/'' # n) \<le> 256" using Cons.prems by (auto simp: path_name_ok_def py_len_def)
  then show ?case using Cons py_len_append[of "CHR ''/'' # n"] by (simp add: path_name_ok_def)
qed (simp add: py_len_def)

definition root_ok :: "string \<Rightarrow> bool" where
  "root_ok r \<longleftrightarrow> rooted r \<and> control_free r \<and> py_len r \<le> 1000 \<and> ''..'' \<notin> set (path_parts r)"

lemma root_absolute: "root_ok r \<Longrightarrow> absolute_path (JStr r) = Inr (parse_path r)"
  by (simp add: absolute_path_def root_ok_def parse_rooted) (simp add: rooted_def)

lemma absolute_below_root:
  assumes "root_ok r" "list_all path_name_ok names" "names \<noteq> []" "length names \<le> 4"
  shows "absolute_path (JStr (below_root r names)) = Inr (path_join (parse_path r) names)"
proof -
  have plain: "list_all plain_name names" using assms(2) by (auto simp: list_all_iff path_name_ok_def)
  have parse: "parse_path (below_root r names) = path_join (parse_path r) names"
    using assms(1,3) plain by (intro parse_below_root) (simp_all add: root_ok_def)
  have "control_free (below_root r names)"
    using assms(1) names_control_free[OF assms(2)] rstrip_set[of "CHR ''/''" r]
    by (auto simp: below_root_def root_ok_def) (auto simp: control_free_def)
  moreover have "py_len (below_root r names) \<le> 4096"
    using assms(1,4) names_py_len[OF assms(2)] rstrip_py_len[of "CHR ''/''" r] by (simp add: below_root_def root_ok_def)
  moreover have "take 1 (below_root r names) = ''/''"
  proof -
    obtain n ns where "names = n # ns" using assms(3) by (cases names) auto
    then have "rooted (below_root r names)"
      using rooted_below[of r n "concat (map (Cons CHR ''/'') ns)"] assms(1) plain by (simp add: below_root_def root_ok_def)
    then show ?thesis by (simp add: rooted_def)
  qed
  moreover have "''..'' \<notin> set (snd (path_join (parse_path r) names))"
    using assms(1,2) by (auto simp: root_ok_def parse_rooted path_join_def list_all_iff path_name_ok_def)
  ultimately show ?thesis using parse by (simp add: absolute_path_def)
qed

section \<open>Launchable runs\<close>

text \<open>
  What the parts of a prepared run must be like for the Worker to take its start actions: a
  template the request model accepts, with an absolute output root, and references, flags and
  GPUs in the form the Worker's parser asks for.
\<close>

definition launchable :: "prepared_run \<Rightarrow> string \<Rightarrow> nat option \<Rightarrow> bool" where
  "launchable pr label port \<longleftrightarrow>
     (let m = pr_model pr; t = mr_template m in
      template_ok t \<and> root_ok (lt_output_root t) \<and> is_ok (monitoring_of (JObj (lt_monitoring t))) \<and>
      safe_ref (mr_family_ref m) \<and> mr_family_ref m \<noteq> ''..'' \<and> safe_ref label \<and> label \<noteq> ''..'' \<and>
      length (pr_definitions pr) \<le> 200 \<and> list_all (\<lambda>d. flag_pattern (pd_flag d)) (pr_definitions pr) \<and>
      pr_gpu_uuids pr \<noteq> [] \<and> length (pr_gpu_uuids pr) \<le> 8 \<and> distinct (pr_gpu_uuids pr) \<and> list_all safe_ref (pr_gpu_uuids pr) \<and>
      length (pr_indexes pr) \<le> 8 \<and> (case port of None \<Rightarrow> True | Some p \<Rightarrow> p < 65536))"

definition printable :: "env \<Rightarrow> json \<Rightarrow> bool" where
  "printable E v \<longleftrightarrow> py_str E v \<noteq> [] \<and> py_len (py_str E v) \<le> 4096 \<and> control_free (py_str E v)"

lemma stage_name_ok: "n \<le> 10 \<Longrightarrow> path_name_ok (''stage-'' @ padded n)"
proof -
  have "list_all (\<lambda>n. path_name_ok (''stage-'' @ padded n)) [0..<11]" by code_simp
  then show "n \<le> 10 \<Longrightarrow> ?thesis" by (simp only: list_all_iff set_upt) simp
qed

lemma ref_name_ok: "safe_ref s \<Longrightarrow> s \<noteq> ''..'' \<Longrightarrow> path_name_ok s"
  using safe_ref_plain by (simp add: path_name_ok_def)

lemma output_below_root:
  "stage_output_directory m segment number = below_root (lt_output_root (mr_template m)) [mr_family_ref m, segment, ''stage-'' @ padded number]"
  by (simp add: stage_output_directory_def version_root_def below_root_def)

lemma manifest_below_root:
  "manifest_path pr segment = (if pr_splits pr = None then None else
     Some (below_root (lt_output_root (mr_template (pr_model pr))) [mr_family_ref (pr_model pr), segment, ''dataset-manifest.json'']))"
  by (simp add: manifest_path_def version_root_def below_root_def)

lemma below_root_argument:
  assumes "root_ok r" "list_all path_name_ok names" "names \<noteq> []" "length names \<le> 4"
  shows "argument_ok (below_root r names)"
  using absolute_below_root[OF assms] by (auto simp: absolute_path_def argument_ok_def split: if_splits)


section \<open>The arguments of a launchable run\<close>

lemma text_argument: "text_within n s \<Longrightarrow> n \<le> 1000 \<Longrightarrow> single_token s \<Longrightarrow> argument_ok s"
  by (auto simp: text_within_def single_token_def argument_ok_def control_free_single)

lemma base_argv_ok:
  assumes "launchable pr label port"
  shows "list_all argument_ok (base_argv pr port) \<and> length (base_argv pr port) \<le> 207 \<and>
    lt_entrypoint (mr_template (pr_model pr)) \<in> set (base_argv pr port)"
proof -
  let ?t = "mr_template (pr_model pr)"
  have t: "argument_ok (lt_executable ?t)" "argument_ok (lt_entrypoint ?t)" "list_all argument_ok (lt_fixed_argv ?t)"
    "length (lt_fixed_argv ?t) \<le> 200" "length (pr_indexes pr) \<le> 8" "case port of None \<Rightarrow> True | Some p \<Rightarrow> p < 65536"
    using assms by (auto simp: launchable_def Let_def template_ok_def list_all_iff intro: text_argument)
  have const: "list_all argument_ok [''--nnodes=1'', ''--master_addr=127.0.0.1'', ''--node_rank=0'', ''--master_port=None'']" by code_simp
  have "argument_ok (''--nproc_per_node='' @ nat_str (length (pr_indexes pr)))"
    by (rule nat_option_ok) (use t(5) in simp, code_simp, simp)
  moreover have "argument_ok (''--master_port='' @ (case port of None \<Rightarrow> ''None'' | Some p \<Rightarrow> nat_str p))"
  proof (cases port)
    case (Some p)
    have "argument_ok (''--master_port='' @ nat_str p)" by (rule nat_option_ok) (use t(6) Some in simp, code_simp, simp)
    then show ?thesis using Some by simp
  qed (use const in simp)
  ultimately show ?thesis using t const by (simp add: base_argv_def Let_def)
qed

lemma rendered_ok: "printable E v \<Longrightarrow> argument_ok (rendered_value E d v)"
proof -
  have "list_all argument_ok [''True'', ''False'']" by code_simp
  then show "printable E v \<Longrightarrow> ?thesis" by (auto simp: rendered_value_def argument_ok_def printable_def)
qed

lemma parameter_args_ok:
  assumes "flag_pattern (pd_flag d)" "list_all (\<lambda>(k, v). printable E v) parameters"
  shows "list_all argument_ok (parameter_args E False parameters d) \<and> length (parameter_args E False parameters d) \<le> 2"
proof (cases "map_of parameters (pd_name d)")
  case (Some v)
  then have "printable E v" using assms(2) by (auto simp: list_all_iff dest: map_of_SomeD)
  then show ?thesis using Some flag_ok[OF assms(1)] rendered_ok[of E v d] by (simp add: parameter_args_def)
qed (simp add: parameter_args_def)

lemma concat_length: "(\<And>x. x \<in> set xs \<Longrightarrow> length (f x) \<le> 2) \<Longrightarrow> length (concat (map f xs)) \<le> 2 * length xs"
  by (induction xs) (simp, force)

lemma stage_argv_ok:
  assumes "launchable pr label port" "list_all (\<lambda>(k, v). printable E v) parameters" "number \<le> 10"
  shows "argv_of (JList (map JStr (stage_argv E False pr port (manifest_path pr label) parameters
      (stage_output_directory (pr_model pr) label number)))) =
    Inr (stage_argv E False pr port (manifest_path pr label) parameters (stage_output_directory (pr_model pr) label number))"
proof (rule argv_of_ok)
  let ?args = "\<lambda>d. parameter_args E False parameters d" and ?ds = "pr_definitions pr" and ?out = "stage_output_directory (pr_model pr) label number"
  let ?m = "case manifest_path pr label of None \<Rightarrow> [] | Some p \<Rightarrow> [manifest_flag, p]"
  have l: "root_ok (lt_output_root (mr_template (pr_model pr)))" "path_name_ok (mr_family_ref (pr_model pr))" "path_name_ok label"
    "length ?ds \<le> 200" "list_all (\<lambda>d. flag_pattern (pd_flag d)) ?ds" "flag_pattern (lt_output_flag (mr_template (pr_model pr)))"
    using assms(1) by (simp_all add: launchable_def Let_def ref_name_ok template_ok_def)
  have args: "list_all argument_ok (?args d) \<and> length (?args d) \<le> 2" if "d \<in> set ?ds" for d
    using l(5) that by (intro parameter_args_ok[OF _ assms(2)]) (simp add: list_all_iff)
  have out: "argument_ok ?out"
    unfolding output_below_root by (rule below_root_argument[OF l(1)]) (use l stage_name_ok[OF assms(3)] in simp_all)
  have "path_name_ok ''dataset-manifest.json''" "argument_ok manifest_flag" by code_simp+
  then have manifest: "list_all argument_ok ?m" "length ?m \<le> 2"
    unfolding manifest_below_root using below_root_argument[OF l(1)] l(2,3) by simp_all
  have "list_all argument_ok (concat (map ?args ?ds))" using args by (simp add: list_all_iff)
  then show "list_all argument_ok (stage_argv E False pr port (manifest_path pr label) parameters ?out)"
    using base_argv_ok[OF assms(1)] manifest(1) out flag_ok[OF l(6)] by (simp add: stage_argv_def)
  have "length (concat (map ?args ?ds)) \<le> 400" using concat_length[of ?ds ?args] args l(4) by fastforce
  then show "length (stage_argv E False pr port (manifest_path pr label) parameters ?out) \<le> 4096"
    using base_argv_ok[OF assms(1)] manifest(2) by (simp add: stage_argv_def)
  show "stage_argv E False pr port (manifest_path pr label) parameters ?out \<noteq> []" by (simp add: stage_argv_def)
qed

lemma gpu_uuids_ok:
  "us \<noteq> [] \<Longrightarrow> length us \<le> 8 \<Longrightarrow> distinct us \<Longrightarrow> list_all safe_ref us \<Longrightarrow> gpu_uuids_of (JList (map JStr us)) = Inr us"
  by (auto simp: gpu_uuids_of_def hashable_def list_all_iff comp_def Suc_le_eq)

text \<open>The redactions: the printed values of the sensitive parameters, at most 64.\<close>

lemma sensitive_values_ok:
  assumes "list_all (\<lambda>(k, v). printable E v) parameters"
  shows "\<exists>vs. sensitive_values E parameters (map JStr names) = Inr (map JStr vs) \<and> length vs \<le> length names \<and>
    list_all (\<lambda>s. s \<noteq> [] \<and> py_len s \<le> 4096) vs"
proof (induction names)
  case Nil
  show ?case by (rule exI[of _ "[]"]) (simp add: sensitive_values_def)
next
  case (Cons k names)
  then obtain vs xss where vs: "rmap (\<lambda>n. case n of
      JStr k \<Rightarrow> (case map_of parameters k of None \<Rightarrow> Inr [] | Some v \<Rightarrow> Inr (if py_str E v = [] then [] else [JStr (py_str E v)]))
    | JList _ \<Rightarrow> Inl TypeError | JObj _ \<Rightarrow> Inl TypeError | _ \<Rightarrow> Inr []) (map JStr names) = Inr xss"
    "concat xss = map JStr vs" "length vs \<le> length names" "list_all (\<lambda>s. s \<noteq> [] \<and> py_len s \<le> 4096) vs"
    by (auto simp: sensitive_values_def rbind_eq_Inr)
  show ?case
  proof (cases "map_of parameters k")
    case None
    then show ?thesis using vs by (intro exI[of _ vs]) (simp add: sensitive_values_def)
  next
    case (Some v)
    then have "printable E v" using assms by (auto simp: list_all_iff dest: map_of_SomeD)
    then show ?thesis using vs Some by (intro exI[of _ "py_str E v # vs"]) (simp add: sensitive_values_def printable_def)
  qed
qed

lemma redactions_ok:
  "length vs \<le> 64 \<Longrightarrow> list_all (\<lambda>s. s \<noteq> [] \<and> py_len s \<le> 4096) vs \<Longrightarrow> redactions_of (JList (map JStr vs)) = Inr vs"
  by (auto simp: redactions_of_def list_all_iff comp_def)


section \<open>The start action of a built stage\<close>

lemma map_of_dict_merge: "map_of (dict_merge d e) k = (case map_of (rev e) k of None \<Rightarrow> map_of d k | Some v \<Rightarrow> Some v)"
proof (induction e rule: rev_induct)
  case (snoc x e)
  obtain a v where "x = (a, v)" by force
  then show ?case using snoc by (simp add: dict_merge_def map_of_dict_set)
qed (simp add: dict_merge_def)

lemma private_spec_fields:
  fixes S E pr port label segment number ns parameters
  defines "spec \<equiv> private_spec S E pr port label segment number ns parameters" and "t \<equiv> mr_template (pr_model pr)"
  shows "map_of spec ''public_spec'' = Some (JObj (public_spec E pr port label segment number ns parameters))"
    "map_of spec ''sensitive_parameters'' = Some (JList (map JStr (ns_sensitive ns)))"
    "map_of spec ''parameters'' = Some (JObj parameters)"
    "map_of spec ''working_directory'' = Some (JStr (lt_working_directory t))"
    "map_of spec ''entrypoint'' = Some (JStr (lt_entrypoint t))"
    "map_of spec ''output_root'' = Some (JStr (lt_output_root t))"
    "map_of spec ''argv'' = Some (JList (map JStr (stage_argv E False pr port (manifest_path pr segment) parameters
       (stage_output_directory (pr_model pr) segment number))))"
    "map_of spec ''runtime_environment'' = Some (JObj (lt_runtime t))"
    "map_of spec ''monitoring'' = Some (JObj (lt_monitoring t))"
    "map_of spec ''dataset_manifest'' = Some (text_json (manifest_path pr segment))"
  unfolding spec_def t_def private_spec_def Let_def map_of_dict_merge by (simp_all add: public_spec_def Let_def)

text \<open>The rows of a run hold what the builder built for one of its stages.\<close>

definition holds_stage ::
  "prepared_run \<Rightarrow> string \<Rightarrow> nat \<Rightarrow> stage_spec \<Rightarrow> run_row \<Rightarrow> version_row \<Rightarrow> family_row \<Rightarrow> stage_row \<Rightarrow> tdb \<Rightarrow> bool" where
  "holds_stage pr label number sp run version family stage db \<longleftrightarrow>
     run_by_id db (r_id run) = Some run \<and> version_of_run db (r_id run) = Some version \<and>
     fetchone (filter (\<lambda>s. s_id s = s_id stage) (t_stages db)) = Some stage \<and>
     fetchone (filter (\<lambda>f. fam_id f = v_family_id version) (t_families db)) = Some family \<and>
     s_run_spec stage = sp_private_spec sp \<and> sp_output_directory sp = Some (s_output_directory stage) \<and>
     s_stage_number stage = number \<and> r_gpu_uuids run = pr_gpu_uuids pr \<and> v_label version = label \<and>
     fam_ref family = mr_family_ref (pr_model pr) \<and>
     (case fetchone (filter (\<lambda>d. ds_run_id d = r_id run) (t_snapshots db)) of
        None \<Rightarrow> pr_splits pr = None
      | Some d \<Rightarrow> pr_splits pr \<noteq> None \<and> ds_manifest d = dataset_manifest pr (r_run_ref run) (Some (ds_snapshot_ref d)))"

lemma manifest_replicas:
  assumes "pr_splits pr = Some (train, test)"
  obtains m where "dataset_manifest pr run_ref snapshot = JObj m" "split_entries m ''train'' = Inr (map entry_json train)"
    "split_entries m ''test'' = Inr (map entry_json test)"
proof -
  have list: "py_list (py_or (JList xs) (JList [])) = Inr xs" for xs by (simp add: py_or_def)
  obtain m where m: "dataset_manifest pr run_ref snapshot = JObj m"
    "map_of m ''splits'' = Some (JObj [(''train'', JList (map entry_json train)), (''test'', JList (map entry_json test))])"
    by (simp add: dataset_manifest_def assms)
  then have "split_entries m ''train'' = Inr (map entry_json train)" "split_entries m ''test'' = Inr (map entry_json test)"
    by (simp_all add: split_entries_def dict_get_default_def dict_get_def list)
  then show ?thesis by (rule that[OF m(1)])
qed

text \<open>The payload of a built stage: what its rows and its private specification hold.\<close>

definition built_payload :: "string \<Rightarrow> prepared_run \<Rightarrow> string \<Rightarrow> nat \<Rightarrow> string list \<Rightarrow> json \<Rightarrow> json list \<Rightarrow> string list \<Rightarrow> dict" where
  "built_payload ref pr label number argv manifest replicas redactions =
     (let m = pr_model pr; t = mr_template m in
      [(''stage_ref'', JStr ref), (''stage_number'', JInt (int number)), (''version_label'', JStr label),
       (''family_ref'', JStr (mr_family_ref m)), (''working_directory'', JStr (lt_working_directory t)),
       (''output_root'', JStr (lt_output_root t)), (''output_directory'', JStr (stage_output_directory m label number)),
       (''argv'', JList (map JStr argv)), (''entrypoint'', JStr (lt_entrypoint t)), (''gpu_uuids'', JList (map JStr (pr_gpu_uuids pr))),
       (''runtime_environment'', JObj (lt_runtime t)), (''monitoring'', JObj (lt_monitoring t)),
       (''dataset_manifest_path'', text_json (manifest_path pr label)), (''dataset_manifest'', manifest),
       (''dataset_replicas'', JList replicas), (''redactions'', JList (map JStr redactions))])"

lemma built_payload_get:
  fixes ref pr label number argv manifest replicas redactions
  defines "payload \<equiv> built_payload ref pr label number argv manifest replicas redactions" and "t \<equiv> mr_template (pr_model pr)"
  shows "dict_get payload ''stage_ref'' = JStr ref" "dict_get payload ''stage_number'' = JInt (int number)"
    "dict_get payload ''version_label'' = JStr label" "dict_get payload ''family_ref'' = JStr (mr_family_ref (pr_model pr))"
    "dict_get payload ''working_directory'' = JStr (lt_working_directory t)" "dict_get payload ''output_root'' = JStr (lt_output_root t)"
    "dict_get payload ''output_directory'' = JStr (stage_output_directory (pr_model pr) label number)"
    "dict_get payload ''argv'' = JList (map JStr argv)" "dict_get payload ''entrypoint'' = JStr (lt_entrypoint t)"
    "dict_get payload ''gpu_uuids'' = JList (map JStr (pr_gpu_uuids pr))"
    "dict_get_default payload ''runtime_environment'' x = JObj (lt_runtime t)"
    "dict_get_default payload ''monitoring'' x = JObj (lt_monitoring t)"
    "dict_get payload ''dataset_manifest_path'' = text_json (manifest_path pr label)"
    "dict_get payload ''dataset_manifest'' = manifest"
    "dict_get_default payload ''dataset_replicas'' x = JList replicas"
    "dict_get_default payload ''redactions'' x = JList (map JStr redactions)"
  unfolding payload_def t_def by (simp_all add: built_payload_def Let_def dict_get_def dict_get_default_def)

text \<open>The manifest of a run: its snapshot's, if it has one.\<close>

definition run_manifest :: "run_row \<Rightarrow> tdb \<Rightarrow> json" where
  "run_manifest run db = (case fetchone (filter (\<lambda>d. ds_run_id d = r_id run) (t_snapshots db)) of
     None \<Rightarrow> JNull | Some d \<Rightarrow> ds_manifest d)"

lemma start_payload_built:
  assumes "holds_stage pr label number sp run version family stage db" "launchable pr label port"
    and "build_stage S E pr port label label number ns previous = Inr sp"
    and "stage_parameters (se_params S) pr ns previous = Inr N" "list_all (\<lambda>(k, v). printable E v) N"
  obtains replicas redactions where "length redactions \<le> 64" "list_all (\<lambda>s. s \<noteq> [] \<and> py_len s \<le> 4096) redactions" "list_all (\<lambda>x. is_ok (as_dict x)) replicas"
    "start_action_payload E (r_id run) (s_id stage) db = Inr (JObj (built_payload (s_stage_ref stage) pr label number
       (stage_argv E False pr port (manifest_path pr label) N (stage_output_directory (pr_model pr) label number))
       (run_manifest run db) replicas redactions))"
proof -
  let ?m = "pr_model pr" and ?snapshot = "fetchone (filter (\<lambda>d. ds_run_id d = r_id run) (t_snapshots db))"
  let ?manifest = "case ?snapshot of None \<Rightarrow> JNull | Some d \<Rightarrow> ds_manifest d"
  note rows = assms(1)[unfolded holds_stage_def]
  have N: "sp_private_spec sp = JObj (private_spec S E pr port label label number ns N)"
    "sp_output_directory sp = Some (stage_output_directory ?m label number)"
    using assms(3,4) by (auto simp: build_stage_def Let_def)
  obtain rs where rs: "sensitive_values E N (map JStr (take 64 (ns_sensitive ns))) = Inr (map JStr rs)"
    "length rs \<le> 64" "list_all (\<lambda>s. s \<noteq> [] \<and> py_len s \<le> 4096) rs"
    using sensitive_values_ok[OF assms(5), of "take 64 (ns_sensitive ns)"] by (auto simp: min_def split: if_splits)
  have "\<exists>replicas. (if ?manifest = JNull then Inr [] else rbind (as_dict ?manifest) (\<lambda>m. rbind (split_entries m ''train'') (\<lambda>xs.
      rbind (split_entries m ''test'') (\<lambda>ys. Inr (xs @ ys))))) = Inr replicas \<and> list_all (\<lambda>x. is_ok (as_dict x)) replicas"
  proof (cases ?snapshot)
    case (Some d)
    then obtain train test where splits: "pr_splits pr = Some (train, test)" "ds_manifest d = dataset_manifest pr (r_run_ref run) (Some (ds_snapshot_ref d))"
      using rows by (auto split: option.splits)
    obtain m where "dataset_manifest pr (r_run_ref run) (Some (ds_snapshot_ref d)) = JObj m"
      "split_entries m ''train'' = Inr (map entry_json train)" "split_entries m ''test'' = Inr (map entry_json test)"
      using splits(1) by (rule manifest_replicas)
    then show ?thesis using Some splits(2) by (auto simp: list_all_iff entry_json_def is_ok_def)
  qed simp
  then obtain replicas where replicas: "(if ?manifest = JNull then Inr [] else rbind (as_dict ?manifest) (\<lambda>m. rbind (split_entries m ''train'') (\<lambda>xs.
      rbind (split_entries m ''test'') (\<lambda>ys. Inr (xs @ ys))))) = Inr replicas" "list_all (\<lambda>x. is_ok (as_dict x)) replicas" by blast
  have row: "run_by_id db (r_id run) = Some run" "version_of_run db (r_id run) = Some version"
    "fetchone (filter (\<lambda>s. s_id s = s_id stage) (t_stages db)) = Some stage"
    "fetchone (filter (\<lambda>f. fam_id f = v_family_id version) (t_families db)) = Some family"
    "s_run_spec stage = JObj (private_spec S E pr port label label number ns N)" "s_stage_number stage = number"
    "s_output_directory stage = stage_output_directory ?m label number" "r_gpu_uuids run = pr_gpu_uuids pr"
    "v_label version = label" "fam_ref family = mr_family_ref ?m"
    using rows N by simp_all
  have names: "py_list (py_or (JList (map JStr (ns_sensitive ns))) (JList [])) = Inr (map JStr (ns_sensitive ns))" by (simp add: py_or_def)
  have objects: "as_dict (py_or (JObj d) (JObj [])) = Inr d" for d by (simp add: py_or_def)
  have "lt_output_root (mr_template ?m) \<noteq> []" using assms(2) by (simp add: launchable_def Let_def template_ok_def text_within_def)
  then have root: "py_or (JStr (lt_output_root (mr_template ?m))) x = JStr (lt_output_root (mr_template ?m))" for x by (simp add: py_or_def)
  show ?thesis
    by (rule that[OF rs(2,3) replicas(2)])
      (use replicas(1) in \<open>simp add: start_action_payload_def row built_payload_def run_manifest_def dict_get_def dict_item_def dict_get_default_def
         private_spec_fields names objects root take_map rs(1) Let_def\<close>)
qed


lemma path_join_join [simp]: "path_join (path_join p a) b = path_join p (a @ b)"
  by (simp add: path_join_def)

lemma within_join: "n \<in> set names \<Longrightarrow> n \<noteq> ''.'' \<Longrightarrow> is_within (path_join p names) p"
  by (auto simp: is_within_def path_join_def prod_eq_iff filter_empty_conv)

text \<open>The manifest of the run lies where the Worker expects it.\<close>

lemma manifest_accepted:
  assumes "holds_stage pr label number sp run version family stage db" "launchable pr label port"
  shows "\<exists>p d. manifest_of (path_join (parse_path (lt_output_root (mr_template (pr_model pr)))) [mr_family_ref (pr_model pr), label])
    (built_payload ref pr label n argv (run_manifest run db) replicas redactions) = Inr (p, d)"
proof (cases "pr_splits pr")
  case None
  then have "manifest_path pr label = None" "run_manifest run db = JNull"
    using assms(1) by (auto simp: manifest_path_def holds_stage_def run_manifest_def split: option.splits)
  then show ?thesis by (simp add: manifest_of_def built_payload_get text_json_def)
next
  case (Some splits)
  obtain d where "fetchone (filter (\<lambda>d. ds_run_id d = r_id run) (t_snapshots db)) = Some d"
    "ds_manifest d = dataset_manifest pr (r_run_ref run) (Some (ds_snapshot_ref d))"
    using assms(1) Some by (auto simp: holds_stage_def split: option.splits)
  then have d: "run_manifest run db = dataset_manifest pr (r_run_ref run) (Some (ds_snapshot_ref d))" by (simp add: run_manifest_def)
  obtain train test where tt: "splits = (train, test)" by force
  obtain m where m: "dataset_manifest pr (r_run_ref run) (Some (ds_snapshot_ref d)) = JObj m"
    using Some unfolding tt by (rule manifest_replicas)
  let ?root = "lt_output_root (mr_template (pr_model pr))" and ?names = "[mr_family_ref (pr_model pr), label, ''dataset-manifest.json'']"
  have "path_name_ok ''dataset-manifest.json''" by code_simp
  then have "absolute_path (JStr (below_root ?root ?names)) = Inr (path_join (parse_path ?root) ?names)"
    using assms(2) by (intro absolute_below_root) (simp_all add: launchable_def Let_def ref_name_ok)
  then show ?thesis using Some d m by (simp add: manifest_of_def built_payload_get manifest_below_root text_json_def)
qed

lemma payload_accepted:
  assumes "launchable pr label port" "1 \<le> number" "number \<le> 10" "1 \<le> epoch" "safe_ref run_ref" "safe_ref stage_ref"
    and "rbind (absolute_path (JStr (lt_working_directory (mr_template (pr_model pr))))) (pe_directory P) = Inr wd"
    and "entrypoint_of P wd (JStr (lt_entrypoint (mr_template (pr_model pr)))) = Inr (raw, entry)"
    and manifest: "\<exists>p d. manifest_of (path_join (parse_path (lt_output_root (mr_template (pr_model pr)))) [mr_family_ref (pr_model pr), label])
      (built_payload stage_ref pr label number argv manifest replicas redactions) = Inr (p, d)"
    and argv: "argv_of (JList (map JStr argv)) = Inr argv" "lt_entrypoint (mr_template (pr_model pr)) \<in> set argv"
    and replicas: "list_all (\<lambda>x. is_ok (as_dict x)) replicas"
    and redactions: "length redactions \<le> 64" "list_all (\<lambda>s. s \<noteq> [] \<and> py_len s \<le> 4096) redactions"
  shows "\<exists>request. parse_start P [(''run_ref'', JStr run_ref), (''owner_epoch'', JInt epoch),
      (''payload'', JObj (built_payload stage_ref pr label number argv manifest replicas redactions))] = Inr request \<and>
    sr_argv request = argv \<and> sr_gpu_uuids request = pr_gpu_uuids pr \<and> sr_working_directory request = wd \<and>
    sr_output_directory request = path_join (parse_path (lt_output_root (mr_template (pr_model pr))))
      [mr_family_ref (pr_model pr), label, ''stage-'' @ padded number]"
proof -
  let ?t = "mr_template (pr_model pr)" let ?root = "lt_output_root ?t" let ?fam = "mr_family_ref (pr_model pr)"
  let ?names = "[?fam, label, ''stage-'' @ padded number]"
  have l: "root_ok ?root" "path_name_ok ?fam" "path_name_ok label" "safe_ref ?fam" "safe_ref label" "is_ok (monitoring_of (JObj (lt_monitoring ?t)))"
    "gpu_uuids_of (JList (map JStr (pr_gpu_uuids pr))) = Inr (pr_gpu_uuids pr)"
    using assms(1) by (simp_all add: launchable_def Let_def ref_name_ok gpu_uuids_ok)
  obtain fmt where fmt: "monitoring_of (JObj (lt_monitoring ?t)) = Inr fmt" using l(6) by (auto simp: is_ok_def split: sum.splits)
  obtain p d where m: "manifest_of (path_join (parse_path ?root) [?fam, label])
      (built_payload stage_ref pr label number argv manifest replicas redactions) = Inr (p, d)" using manifest by blast
  have out: "absolute_path (JStr (stage_output_directory (pr_model pr) label number)) = Inr (path_join (parse_path ?root) ?names)"
    unfolding output_below_root by (rule absolute_below_root[OF l(1)]) (use l(2,3) stage_name_ok[OF assms(3)] in simp_all)
  have within: "is_within (path_join (parse_path ?root) ?names) (parse_path ?root)"
    by (rule within_join[of "''stage-'' @ padded number"]) simp_all
  have raw: "raw = lt_entrypoint ?t" using assms(8) by (auto simp: entrypoint_of_def rbind_eq_Inr split: if_splits)
  have refs: "action_ref_of (JStr s) = Inr s" if "safe_ref s" for s using that by (simp add: action_ref_of_def)
  have ints: "epoch_of (JInt epoch) = Inr epoch" "stage_number_of (JInt (int number)) = Inr (int number)"
    using assms(2-4) by (simp_all add: epoch_of_def stage_number_of_def strict_int_def)
  have reps: "replicas_of (JList replicas) = Inr (map (\<lambda>x. case x of JObj d \<Rightarrow> d | _ \<Rightarrow> []) replicas)"
    using replicas by (simp add: replicas_of_def)
  have action: "dict_get [(''run_ref'', JStr run_ref), (''owner_epoch'', JInt epoch), (''payload'', x)] ''payload'' = x"
    "dict_get [(''run_ref'', JStr run_ref), (''owner_epoch'', JInt epoch), (''payload'', x)] ''run_ref'' = JStr run_ref"
    "dict_get [(''run_ref'', JStr run_ref), (''owner_epoch'', JInt epoch), (''payload'', x)] ''owner_epoch'' = JInt epoch" for x
    by (simp_all add: dict_get_def)
  show ?thesis
    by (simp add: parse_start_def action built_payload_get refs ints assms(5-8) l(4,5,7) raw root_absolute[OF l(1)] out within[simplified]
        argv fmt m reps redactions_ok[OF redactions] raise_if_def two_digits_nat Let_def)
qed

text \<open>The start action of a built stage passes the parser.\<close>

lemma stage_action_accepted:
  assumes "build_stage S E pr port label label number ns previous = Inr sp"
    and "holds_stage pr label number sp run version family stage db"
    and "launchable pr label port" "1 \<le> number" "number \<le> 10" "1 \<le> epoch" "safe_ref (r_run_ref run)" "safe_ref (s_stage_ref stage)"
    and "stage_parameters (se_params S) pr ns previous = Inr N" "list_all (\<lambda>(k, v). printable E v) N"
    and "rbind (absolute_path (JStr (lt_working_directory (mr_template (pr_model pr))))) (pe_directory P) = Inr wd"
    and "entrypoint_of P wd (JStr (lt_entrypoint (mr_template (pr_model pr)))) = Inr (raw, entry)"
  shows "\<exists>payload request. start_action_payload E (r_id run) (s_id stage) db = Inr payload \<and>
    parse_start P [(''run_ref'', JStr (r_run_ref run)), (''owner_epoch'', JInt epoch), (''payload'', payload)] = Inr request \<and>
    sr_argv request = stage_argv E False pr port (manifest_path pr label) N (stage_output_directory (pr_model pr) label number) \<and>
    sr_gpu_uuids request = pr_gpu_uuids pr \<and> sr_working_directory request = wd \<and>
    sr_output_directory request = path_join (parse_path (lt_output_root (mr_template (pr_model pr))))
      [mr_family_ref (pr_model pr), label, ''stage-'' @ padded number]"
proof -
  let ?argv = "stage_argv E False pr port (manifest_path pr label) N (stage_output_directory (pr_model pr) label number)"
  obtain replicas redactions where built: "length redactions \<le> 64" "list_all (\<lambda>s. s \<noteq> [] \<and> py_len s \<le> 4096) redactions"
    "list_all (\<lambda>x. is_ok (as_dict x)) replicas" "start_action_payload E (r_id run) (s_id stage) db =
      Inr (JObj (built_payload (s_stage_ref stage) pr label number ?argv (run_manifest run db) replicas redactions))"
    using assms(2,3,1,9,10) by (rule start_payload_built)
  have argv: "argv_of (JList (map JStr ?argv)) = Inr ?argv" by (rule stage_argv_ok[OF assms(3,10,5)])
  have named: "lt_entrypoint (mr_template (pr_model pr)) \<in> set ?argv" using base_argv_ok[OF assms(3)] by (simp add: stage_argv_def)
  show ?thesis
    using payload_accepted[OF assms(3-8,11,12) manifest_accepted[OF assms(2,3)] argv named built(3,1,2)] built(4) by blast
qed


definition ex_rows :: "stage_spec \<Rightarrow> run_row \<times> version_row \<times> family_row \<times> stage_row \<times> tdb" where
  "ex_rows sp =
     (let run = ex_run;
          version = \<lparr>v_id = 1, v_version_ref = ''version_0'', v_family_id = 1, v_run_id = 1, v_number = 1, v_date = ''20250101'',
            v_label = ''v1-20250101'', v_created_at = 0, v_description = None\<rparr>;
          family = hd (t_families ex_center);
          stage = \<lparr>s_id = 1, s_stage_ref = ''stage_0'', s_run_id = 1, s_stage_number = 1, s_stage_name = ''first'',
            s_input_source = sp_input_source sp, s_parameters = sp_parameters sp, s_run_spec = sp_private_spec sp,
            s_command_preview = sp_command_preview sp, s_output_directory = text_or (sp_output_directory sp) '''',
            s_status = SPending, s_current_step = 0, s_total_steps = 20, s_failure_code = None, s_failure_message = None,
            s_created_at = 0, s_updated_at = 0, s_started_at = None, s_finished_at = None\<rparr>
      in (run, version, family, stage, ex_center\<lparr>t_runs := [run], t_versions := [version], t_stages := [stage]\<rparr>))"

definition ex_path_env :: path_env where
  "ex_path_env = \<lparr>pe_directory = Inr, pe_entrypoint = (\<lambda>wd s. Inr (path_join wd [s]))\<rparr>"

definition ex_first_stage :: "prepared_run \<Rightarrow> stage_spec res" where
  "ex_first_stage pr = build_stage ex_service ex_env pr None ''v1-20250101'' ''v1-20250101'' 1 (hd (pr_stages pr)) None"

definition ex_row_ready :: "prepared_run \<Rightarrow> stage_spec \<Rightarrow> bool" where
  "ex_row_ready pr sp \<longleftrightarrow>
     (case ex_rows sp of (run, version, family, stage, db) \<Rightarrow>
        holds_stage pr ''v1-20250101'' 1 sp run version family stage db \<and> safe_ref (r_run_ref run) \<and> safe_ref (s_stage_ref stage)) \<and>
     launchable pr ''v1-20250101'' None \<and> lt_working_directory (mr_template (pr_model pr)) = ''/w'' \<and>
     lt_entrypoint (mr_template (pr_model pr)) = ''train.py'' \<and> lt_output_root (mr_template (pr_model pr)) = ''/out/'' \<and>
     mr_family_ref (pr_model pr) = ''family'' \<and>
     (case stage_parameters ex_params pr (hd (pr_stages pr)) None of Inl _ \<Rightarrow> False | Inr N \<Rightarrow> list_all (\<lambda>(k, v). printable ex_env v) N)"

lemma ex_stage_ready:
  "case ex_prepare ''secret'' of Inl _ \<Rightarrow> False
   | Inr pr \<Rightarrow> (case ex_first_stage pr of Inl _ \<Rightarrow> False | Inr sp \<Rightarrow> ex_row_ready pr sp)"
  by code_simp



section \<open>An empty argument\<close>

lemma parse_start_argv:
  assumes "parse_start P action = Inr request" "dict_get action ''payload'' = JObj payload"
  shows "is_ok (argv_of (dict_get payload ''argv''))"
  using assms by (auto simp: parse_start_def rbind_eq_Inr Let_def is_ok_def split: prod.splits)

lemma payload_argv:
  assumes "start_action_payload E rid sid db = Inr payload"
    and "fetchone (filter (\<lambda>s. s_id s = sid) (t_stages db)) = Some stage" "s_run_spec stage = JObj spec" "map_of spec ''argv'' = Some argv"
  obtains p where "payload = JObj p" "dict_get p ''argv'' = argv"
proof -
  have "\<exists>p. payload = JObj p \<and> map_of p ''argv'' = Some argv"
    using assms by (auto simp: start_action_payload_def dict_item_def rbind_eq_Inr Let_def split: option.splits)
  then show ?thesis using that by (auto simp: dict_get_def)
qed

text \<open>
  C34: The service takes the empty text as the value of a text parameter without a pattern or a
  minimal length, and builds the run with it; the Worker then refuses every start action of the
  stage, whatever else the action holds, as its command has an empty argument.
\<close>

theorem empty_parameter_refused:
  assumes "d \<in> set (pr_definitions pr)" "pd_kind d = StringKind" "pd_style d = Some ValueStyle" "pd_pattern d = None" "pd_min_length d = None"
    and "stage_parameters (se_params S) pr ns previous = Inr N" "map_of N (pd_name d) = Some (JStr '''')"
    and "build_stage S E pr port label label number ns previous = Inr sp"
    and "holds_stage pr label number sp run version family stage db"
    and "start_action_payload E (r_id run) (s_id stage) db = Inr payload"
  shows "normalize_parameter_value (se_params S) d (JStr '''') = Inr (JStr '''') \<and>
    \<not> is_ok (parse_start P [(''run_ref'', JStr (r_run_ref run)), (''owner_epoch'', JInt epoch), (''payload'', payload)])"
proof
  show "normalize_parameter_value (se_params S) d (JStr '''') = Inr (JStr '''')"
    using assms(2,4,5)
    by (simp add: normalize_parameter_value_def normalize_text_def single_line_def py_len_def split: option.split)
  let ?argv = "stage_argv E False pr port (manifest_path pr label) N (stage_output_directory (pr_model pr) label number)"
  have spec: "s_run_spec stage = JObj (private_spec S E pr port label label number ns N)"
    using assms(6,8,9) by (auto simp: build_stage_def Let_def holds_stage_def)
  have row: "fetchone (filter (\<lambda>s. s_id s = s_id stage) (t_stages db)) = Some stage" using assms(9) by (simp add: holds_stage_def)
  obtain p where p: "payload = JObj p" "dict_get p ''argv'' = JList (map JStr ?argv)"
    using assms(10) row spec private_spec_fields(7) by (rule payload_argv)
  have "[] \<in> set (parameter_args E False N d)" using assms(3,7) by (simp add: parameter_args_def rendered_value_def)
  then have "[] \<in> set ?argv" using assms(1) by (auto simp: stage_argv_def)
  then have "argv_of (dict_get p ''argv'') = Inl (ExecutionError ''training_argv_invalid'')"
    unfolding p(2) by (rule argv_of_bad) (simp add: argument_ok_def)
  moreover have "dict_get [(''run_ref'', JStr (r_run_ref run)), (''owner_epoch'', JInt epoch), (''payload'', payload)] ''payload'' = JObj p"
    by (simp add: dict_get_def p(1))
  ultimately show "\<not> is_ok (parse_start P [(''run_ref'', JStr (r_run_ref run)), (''owner_epoch'', JInt epoch), (''payload'', payload)])"
    using parse_start_argv by (fastforce simp: is_ok_def split: sum.splits)
qed

definition ex_secret :: param_def where
  "ex_secret = adapt_definition (cf_definitions ex_configuration ! 2)"

definition ex_refused :: "prepared_run \<Rightarrow> stage_spec \<Rightarrow> bool" where
  "ex_refused pr sp \<longleftrightarrow>
     (case ex_rows sp of (run, version, family, stage, db) \<Rightarrow>
        holds_stage pr ''v1-20250101'' 1 sp run version family stage db \<and> is_ok (start_action_payload ex_env (r_id run) (s_id stage) db)) \<and>
     ex_secret \<in> set (pr_definitions pr) \<and>
     (case stage_parameters ex_params pr (hd (pr_stages pr)) None of Inl _ \<Rightarrow> False | Inr N \<Rightarrow> map_of N (pd_name ex_secret) = Some (JStr ''''))"

lemma ex_stage_refused:
  "case ex_prepare '''' of Inl _ \<Rightarrow> False
   | Inr pr \<Rightarrow> (case ex_first_stage pr of Inl _ \<Rightarrow> False | Inr sp \<Rightarrow> ex_refused pr sp)"
  by code_simp

theorem empty_parameter_refused_witness:
  "\<exists>pr sp run version family stage db payload. ex_prepare '''' = Inr pr \<and> ex_first_stage pr = Inr sp \<and>
     ex_rows sp = (run, version, family, stage, db) \<and> start_action_payload ex_env (r_id run) (s_id stage) db = Inr payload \<and>
     \<not> is_ok (parse_start ex_path_env [(''run_ref'', JStr (r_run_ref run)), (''owner_epoch'', JInt 1), (''payload'', payload)])"
proof -
  obtain pr sp where pr: "ex_prepare '''' = Inr pr" "ex_first_stage pr = Inr sp" "ex_refused pr sp"
    using ex_stage_refused by (auto split: sum.splits)
  obtain run version family stage db where rows: "ex_rows sp = (run, version, family, stage, db)" by (cases "ex_rows sp") auto
  note refused = pr(3)[unfolded ex_refused_def rows prod.case]
  obtain N where N: "stage_parameters (se_params ex_service) pr (hd (pr_stages pr)) None = Inr N" "map_of N (pd_name ex_secret) = Some (JStr '''')"
    using refused by (auto simp: ex_service_def split: sum.splits)
  obtain payload where payload: "start_action_payload ex_env (r_id run) (s_id stage) db = Inr payload"
    using refused by (auto simp: is_ok_def split: sum.splits)
  have token: "ex_secret \<in> set (pr_definitions pr)" and holds: "holds_stage pr ''v1-20250101'' 1 sp run version family stage db"
    using refused by simp_all
  have kind: "pd_kind ex_secret = StringKind" "pd_style ex_secret = Some ValueStyle" "pd_pattern ex_secret = None" "pd_min_length ex_secret = None"
    by code_simp+
  show ?thesis
    using empty_parameter_refused[OF token kind N pr(2)[unfolded ex_first_stage_def] holds payload, where P = ex_path_env and epoch = 1]
      pr(1,2) rows payload by blast
qed

end
