(* ===== verification/Created_Actions.thy ===== *)
theory Created_Actions
  imports Built_Actions Training_Center
begin

text \<open>
  From a request for a real run to the Worker: the rows \<open>create_run\<close> writes, the start action it
  queues for the first stage, and the Worker's parser, composed for the service's own builder.
\<close>

section \<open>The rows of a new run\<close>

text \<open>Stages, versions and snapshots belong to runs of the database.\<close>

definition rows_owned :: "tdb \<Rightarrow> bool" where
  "rows_owned db \<longleftrightarrow> list_all (\<lambda>s. s_run_id s \<in> r_id ` set (t_runs db)) (t_stages db) \<and>
     list_all (\<lambda>v. v_run_id v \<in> r_id ` set (t_runs db)) (t_versions db) \<and>
     list_all (\<lambda>d. ds_run_id d \<in> r_id ` set (t_runs db)) (t_snapshots db)"

text \<open>The tables a stage's start action is made of, and what inserting stages does to them.\<close>

definition run_rows :: "tdb \<Rightarrow> run_row list \<times> version_row list \<times> family_row list \<times> dataset_snapshot_row list \<times> action_row list" where
  "run_rows db = (t_runs db, t_versions db, t_families db, t_snapshots db, t_actions db)"

lemma insert_stage_row:
  assumes "insert_stage E rid now (i, sp) db = Inr db'" "sp_stage_ref sp = None" "sp_output_directory sp = Some out" "out \<noteq> []"
    "sp_private_spec sp = JObj spec" "spec \<noteq> []"
  obtains row where "t_stages db' = t_stages db @ [row]" "run_rows db' = run_rows db" "s_run_id row = rid" "s_stage_number row = i"
    "s_run_spec row = sp_private_spec sp" "s_output_directory row = out" "s_id row = next_id (map s_id (t_stages db))"
    "s_stage_ref row = ''stage_'' @ uuid4_hex E (t_entropy db)"
  using assms by (auto simp: insert_stage_def Let_def rbind_eq_Inr text_or_def stage_output_def new_ref_def py_or_def run_rows_def
      split: if_splits)

lemma insert_stages_rows:
  "rfold (insert_stage E rid now) xs db = Inr db' \<Longrightarrow> \<exists>new. t_stages db' = t_stages db @ new \<and> run_rows db' = run_rows db"
proof (induction xs arbitrary: db)
  case (Cons x xs)
  obtain i sp where x: "x = (i, sp)" by force
  from Cons.prems obtain d where d: "insert_stage E rid now x db = Inr d" and rest: "rfold (insert_stage E rid now) xs d = Inr db'"
    by (auto simp: rbind_eq_Inr)
  have "\<exists>new. t_stages d = t_stages db @ new \<and> run_rows d = run_rows db"
    using d by (simp add: x insert_stage_def Let_def rbind_eq_Inr split: prod.splits if_splits)
      (elim exE conjE, hypsubst, auto simp: new_ref_def run_rows_def)
  then show ?case using Cons.IH[OF rest] by auto
qed simp

lemma fetchone_fresh:
  "list_all (\<lambda>x. \<not> P x) xs \<Longrightarrow> P y \<Longrightarrow> fetchone (filter P (xs @ y # ys)) = Some y"
  by (auto simp: fetchone_def list_all_iff filter_empty_conv)

lemma add_log_rows: "run_rows (snd (add_log rid level msg now stage db)) = run_rows db"
proof -
  have "run_rows (snd (store_log_line rid l m t now stage d)) = run_rows d" for l m t d
    by (simp add: store_log_line_def Let_def run_rows_def)
  moreover have "run_rows (ensure_log_storage rid now db) = run_rows db"
    by (simp add: ensure_log_storage_def Let_def run_rows_def)
  ultimately show ?thesis by (simp add: add_log_def Let_def split: option.splits)
qed

lemma create_checked_run_parts:
  assumes "create_checked_run E q builder key digest actor today now (m, f, rv) port db = Inr (r, db')"
  obtains ref db1 vm db2 spec db3 db4 db5 db6 where "new_ref E ''run'' db = (ref, db1)" "make_version_meta E q f today db1 = (vm, db2)"
    "builder ref port vm = Inr spec" "1 \<le> length (rs_stages spec)"
    "insert_snapshot E (next_id (map r_id (t_runs db2))) vm (rs_dataset_manifest spec) now
       (insert_run E q ref m f rv vm (rs_stages spec) now db2) = Inr db3"
    "rfold (insert_stage E (next_id (map r_id (t_runs db2))) now) (zip [1..<Suc (length (rs_stages spec))] (rs_stages spec)) db3 = Inr db4"
    "insert_leases q (next_id (map r_id (t_runs db2))) port now db4 = Inr db5"
    "queue_first_stage E q (next_id (map r_id (t_runs db2))) now (add_idempotency ''create_run'' key digest ref now db5) = Inr db6"
    "t_actions db' = t_actions db6"
proof -
  obtain ref db1 where ref: "new_ref E ''run'' db = (ref, db1)" by force
  obtain vm db2 where vm: "make_version_meta E q f today db1 = (vm, db2)" by force
  from assms ref vm obtain spec where spec: "builder ref port vm = Inr spec"
    by (cases "builder ref port vm") (simp_all add: create_checked_run_def)
  have count: "1 \<le> length (rs_stages spec) \<and> length (rs_stages spec) \<le> 10"
    by (rule ccontr) (use assms ref vm spec in \<open>simp add: create_checked_run_def Let_def\<close>)
  let ?rid = "next_id (map r_id (t_runs db2))"
  let ?fin = "\<lambda>d. add_audit actor ''run.created'' ref
      [(''mode'', JStr (q_execution_mode q)), (''stage_count'', JInt (int (length (rs_stages spec)))),
       (''version_label'', JStr (vm_label vm))] now
      (add_event ''run.updated'' ref [(''stage_count'', JInt (int (length (rs_stages spec))))] now
        (snd (add_log ?rid ''info'' (if q_execution_mode q = ''real'' then ''Real training workflow queued.''
           else ''Simulation workflow queued.'') now None d)))"
  have "\<exists>db3 db4 db5 db6. insert_snapshot E ?rid vm (rs_dataset_manifest spec) now
      (insert_run E q ref m f rv vm (rs_stages spec) now db2) = Inr db3 \<and>
    rfold (insert_stage E ?rid now) (zip [1..<Suc (length (rs_stages spec))] (rs_stages spec)) db3 = Inr db4 \<and>
    insert_leases q ?rid port now db4 = Inr db5 \<and>
    queue_first_stage E q ?rid now (add_idempotency ''create_run'' key digest ref now db5) = Inr db6 \<and> db' = ?fin db6"
    using assms ref vm spec count
    by (simp add: create_checked_run_def Let_def rbind_eq_Inr returning_eq_Inr del: upt_Suc split del: if_split)
      (elim exE conjE, (rule exI conjI | assumption)+)
  then obtain db3 db4 db5 db6 where steps: "insert_snapshot E ?rid vm (rs_dataset_manifest spec) now
      (insert_run E q ref m f rv vm (rs_stages spec) now db2) = Inr db3"
    "rfold (insert_stage E ?rid now) (zip [1..<Suc (length (rs_stages spec))] (rs_stages spec)) db3 = Inr db4"
    "insert_leases q ?rid port now db4 = Inr db5"
    "queue_first_stage E q ?rid now (add_idempotency ''create_run'' key digest ref now db5) = Inr db6" "db' = ?fin db6" by blast
  have "run_rows db' = run_rows db6" unfolding steps(5) using add_log_rows by (simp add: run_rows_def add_audit_def add_event_def)
  then show ?thesis using that[OF ref vm spec _ steps(1-4)] count by (simp add: run_rows_def)
qed


lemma queue_first_stage_action:
  assumes "queue_first_stage E q rid now d = Inr d'" "q_execution_mode q = ''real''"
    and "fetchone (filter (\<lambda>s. s_run_id s = rid) (t_stages d)) = Some s"
  obtains payload a where "start_action_payload E rid (s_id s) d = Inr payload" "a \<in> set (t_actions d')" "a_kind a = StartStage"
    "a_run_id a = rid" "a_node_ref a = q_server_ref q" "a_status a = AQueued" "a_request a = payload"
proof -
  obtain payload where p: "start_action_payload E rid (s_id s) d = Inr payload"
    "d' = snd (queue_training_action_in E rid (Some (s_id s)) (q_server_ref q) StartStage payload now d)"
    using assms by (auto simp: queue_first_stage_def rbind_eq_Inr)
  show ?thesis by (rule that[of payload "last (t_actions d')"]) (simp_all add: p queue_training_action_in_def new_ref_def)
qed

lemma snapshot_rows:
  assumes "insert_snapshot E rid vm manifest now db = Inr db'"
  shows "t_stages db' = t_stages db \<and> t_runs db' = t_runs db \<and> t_versions db' = t_versions db \<and> t_families db' = t_families db \<and>
    (case vm_snapshot_ref vm of None \<Rightarrow> t_snapshots db' = t_snapshots db
     | Some ref \<Rightarrow> \<exists>d. t_snapshots db' = t_snapshots db @ [d] \<and> ds_run_id d = rid \<and> ds_snapshot_ref d = ref \<and> ds_manifest d = manifest)"
  using assms by (auto simp: insert_snapshot_def split: option.splits json.splits)

lemma version_meta_parts:
  assumes "make_version_meta E q f today db = (vm, db')"
  shows "vm_label vm = ''v'' @ nat_str (version_number_for f db) @ ''-'' @ today \<and> (vm_snapshot_ref vm = None \<longleftrightarrow> q_dataset_splits q = None) \<and>
    t_stages db' = t_stages db \<and> run_rows db' = run_rows db"
  using assms by (cases "q_dataset_splits q = None") (auto simp: make_version_meta_def Let_def new_ref_def run_rows_def)

lemma zip_from_one: "xs \<noteq> [] \<Longrightarrow> zip [1..<Suc (length xs)] xs = (1, hd xs) # zip [2..<Suc (length xs)] (tl xs)"
  by (cases xs) (simp_all add: upt_conv_Cons numeral_2_eq_2 del: upt_Suc)

text \<open>What creating a real run leaves for its first stage, at the moment its start action is made.\<close>

lemma created_rows:
  assumes create: "create_checked_run E q builder key digest actor today now (m, f, rv) port db = Inr (r, db')"
    and real: "q_execution_mode q = ''real''" and owned: "rows_owned db"
    and families: "fetchone (filter (\<lambda>g. fam_id g = fam_id f) (t_families db)) = Some f"
    and built: "\<And>ref vm spec. builder ref port vm = Inr spec \<Longrightarrow> rs_stages spec \<noteq> [] \<Longrightarrow> sp_stage_ref (hd (rs_stages spec)) = None \<and>
      (\<exists>out. sp_output_directory (hd (rs_stages spec)) = Some out \<and> out \<noteq> []) \<and>
      (\<exists>p. sp_private_spec (hd (rs_stages spec)) = JObj p \<and> p \<noteq> [])"
  obtains vm spec run version stage d payload a where
    "builder (r_run_ref run) port vm = Inr spec" "rs_stages spec \<noteq> []" "r_run_ref run = ''run_'' @ uuid4_hex E (t_entropy db)"
    "vm_label vm = ''v'' @ nat_str (version_number_for f db) @ ''-'' @ today" "vm_snapshot_ref vm = None \<longleftrightarrow> q_dataset_splits q = None"
    "run_by_id d (r_id run) = Some run" "r_gpu_uuids run = q_gpu_uuids q"
    "version_of_run d (r_id run) = Some version" "v_label version = vm_label vm" "v_family_id version = fam_id f"
    "fetchone (filter (\<lambda>s. s_id s = s_id stage) (t_stages d)) = Some stage" "s_stage_number stage = 1"
    "s_run_spec stage = sp_private_spec (hd (rs_stages spec))" "sp_output_directory (hd (rs_stages spec)) = Some (s_output_directory stage)"
    "\<exists>n. s_stage_ref stage = ''stage_'' @ uuid4_hex E n" "t_families d = t_families db"
    "case fetchone (filter (\<lambda>x. ds_run_id x = r_id run) (t_snapshots d)) of None \<Rightarrow> vm_snapshot_ref vm = None
     | Some x \<Rightarrow> vm_snapshot_ref vm = Some (ds_snapshot_ref x) \<and> ds_manifest x = rs_dataset_manifest spec"
    "start_action_payload E (r_id run) (s_id stage) d = Inr payload" "a \<in> set (t_actions db')" "a_kind a = StartStage"
    "a_run_id a = r_id run" "a_node_ref a = q_server_ref q" "a_status a = AQueued" "a_request a = payload"
proof -
  obtain ref db1 vm db2 spec db3 db4 db5 db6 where steps: "new_ref E ''run'' db = (ref, db1)" "make_version_meta E q f today db1 = (vm, db2)"
    "builder ref port vm = Inr spec" "1 \<le> length (rs_stages spec)"
    "insert_snapshot E (next_id (map r_id (t_runs db2))) vm (rs_dataset_manifest spec) now
       (insert_run E q ref m f rv vm (rs_stages spec) now db2) = Inr db3"
    "rfold (insert_stage E (next_id (map r_id (t_runs db2))) now) (zip [1..<Suc (length (rs_stages spec))] (rs_stages spec)) db3 = Inr db4"
    "insert_leases q (next_id (map r_id (t_runs db2))) port now db4 = Inr db5"
    "queue_first_stage E q (next_id (map r_id (t_runs db2))) now (add_idempotency ''create_run'' key digest ref now db5) = Inr db6"
    "t_actions db' = t_actions db6"
    using create by (rule create_checked_run_parts)
  have db1: "t_stages db1 = t_stages db" "run_rows db1 = run_rows db" "ref = ''run_'' @ uuid4_hex E (t_entropy db)"
    using steps(1) by (auto simp: new_ref_def run_rows_def)
  note meta = version_meta_parts[OF steps(2)]
  have db2: "t_stages db2 = t_stages db" "t_runs db2 = t_runs db" "t_versions db2 = t_versions db" "t_families db2 = t_families db"
    "t_snapshots db2 = t_snapshots db" "version_number_for f db1 = version_number_for f db"
    using meta db1 by (simp_all add: run_rows_def version_number_for_def)
  let ?rid = "next_id (map r_id (t_runs db))" and ?specs = "rs_stages spec"
  note steps = steps[unfolded db2(2)]
  have fresh: "?rid \<notin> r_id ` set (t_runs db)" using next_id_fresh[of "map r_id (t_runs db)"] by simp
  let ?ins = "insert_run E q ref m f rv vm ?specs now db2"
  obtain run where run: "t_runs ?ins = t_runs db @ [run]" "r_id run = ?rid" "r_run_ref run = ref" "r_gpu_uuids run = q_gpu_uuids q"
    by (simp add: insert_run_def Let_def db2)
  obtain version where version: "t_versions ?ins = t_versions db @ [version]" "v_run_id version = ?rid" "v_label version = vm_label vm"
    "v_family_id version = fam_id f"
    by (simp add: insert_run_def Let_def db2)
  have kept: "t_stages ?ins = t_stages db" "t_families ?ins = t_families db" "t_snapshots ?ins = t_snapshots db"
    by (simp_all add: insert_run_def Let_def db2)
  note snap = snapshot_rows[OF steps(5), unfolded run(1) version(1) kept]
  have specs: "?specs \<noteq> []" using steps(4) by auto
  have stages: "rfold (insert_stage E ?rid now) ((1, hd ?specs) # zip [2..<Suc (length ?specs)] (tl ?specs)) db3 = Inr db4"
    using steps(6) unfolding zip_from_one[OF specs] .
  then obtain d1 where d1: "insert_stage E ?rid now (1, hd ?specs) db3 = Inr d1"
    "rfold (insert_stage E ?rid now) (zip [2..<Suc (length ?specs)] (tl ?specs)) d1 = Inr db4" by (auto simp: rbind_eq_Inr)
  obtain out p where sp: "sp_stage_ref (hd ?specs) = None" "sp_output_directory (hd ?specs) = Some out" "out \<noteq> []"
    "sp_private_spec (hd ?specs) = JObj p" "p \<noteq> []"
    using built[OF steps(3) specs] by blast
  obtain stage where stage: "t_stages d1 = t_stages db3 @ [stage]" "run_rows d1 = run_rows db3" "s_run_id stage = ?rid"
    "s_stage_number stage = 1" "s_run_spec stage = sp_private_spec (hd ?specs)" "s_output_directory stage = out"
    "s_id stage = next_id (map s_id (t_stages db3))" "s_stage_ref stage = ''stage_'' @ uuid4_hex E (t_entropy db3)"
    using d1(1) sp by (rule insert_stage_row)
  obtain new where new: "t_stages db4 = t_stages d1 @ new" "run_rows db4 = run_rows d1" using insert_stages_rows[OF d1(2)] by blast
  let ?d = "add_idempotency ''create_run'' key digest ref now db5"
  have d: "t_stages ?d = t_stages db @ stage # new" "run_rows ?d = run_rows db3"
    using steps(7) new stage(1,2) snap by (auto simp: insert_leases_def add_idempotency_def run_rows_def split: if_splits)
  have rows: "t_runs ?d = t_runs db @ [run]" "t_versions ?d = t_versions db @ [version]" "t_families ?d = t_families db"
    using d(2) snap by (simp_all add: run_rows_def)
  have old: "list_all (\<lambda>s. s_run_id s \<noteq> ?rid) (t_stages db)" "list_all (\<lambda>v. v_run_id v \<noteq> ?rid) (t_versions db)"
    "list_all (\<lambda>x. ds_run_id x \<noteq> ?rid) (t_snapshots db)" "list_all (\<lambda>x. r_id x \<noteq> ?rid) (t_runs db)"
    using owned fresh unfolding rows_owned_def list_all_iff by (metis, metis, metis, metis imageI)
  have first: "fetchone (filter (\<lambda>s. s_run_id s = ?rid) (t_stages ?d)) = Some stage"
    unfolding d(1) by (rule fetchone_fresh) (use old(1) stage(3) in simp_all)
  have "s_id stage \<notin> s_id ` set (t_stages db)" using stage(7) snap next_id_fresh[of "map s_id (t_stages db)"] by simp
  then have self: "fetchone (filter (\<lambda>s. s_id s = s_id stage) (t_stages ?d)) = Some stage"
    unfolding d(1) by (intro fetchone_fresh) (simp_all add: list_all_iff, metis imageI)
  have runs: "run_by_id ?d ?rid = Some run"
    unfolding run_by_id_def rows by (rule fetchone_fresh[OF old(4) run(2)])
  have versions: "version_of_run ?d ?rid = Some version"
    unfolding version_of_run_def rows by (rule fetchone_fresh[OF old(2) version(2)])
  have snapshots: "case fetchone (filter (\<lambda>x. ds_run_id x = ?rid) (t_snapshots ?d)) of None \<Rightarrow> vm_snapshot_ref vm = None
     | Some x \<Rightarrow> vm_snapshot_ref vm = Some (ds_snapshot_ref x) \<and> ds_manifest x = rs_dataset_manifest spec"
  proof (cases "vm_snapshot_ref vm")
    case None
    then have "t_snapshots ?d = t_snapshots db" using snap d(2) by (simp add: run_rows_def)
    then have "filter (\<lambda>x. ds_run_id x = ?rid) (t_snapshots ?d) = []" using old(3) by (simp add: filter_empty_conv list_all_iff)
    then show ?thesis using None by (simp add: fetchone_def)
  next
    case (Some s)
    then obtain x where x: "t_snapshots db3 = t_snapshots db @ [x]" "ds_run_id x = ?rid" "ds_snapshot_ref x = s" "ds_manifest x = rs_dataset_manifest spec"
      using snap by auto
    then have "fetchone (filter (\<lambda>x. ds_run_id x = ?rid) (t_snapshots ?d)) = Some x"
      using fetchone_fresh[OF old(3), of x "[]"] d(2) by (simp add: run_rows_def)
    then show ?thesis using Some x by simp
  qed
  obtain payload a where act: "start_action_payload E ?rid (s_id stage) ?d = Inr payload" "a \<in> set (t_actions db6)" "a_kind a = StartStage"
    "a_run_id a = ?rid" "a_node_ref a = q_server_ref q" "a_status a = AQueued" "a_request a = payload"
    using steps(8) real first by (rule queue_first_stage_action)
  show ?thesis
    by (rule that[of run vm spec ?d version stage payload a])
      (use steps(3,9) specs db1(3) meta db2(6) run version runs versions self stage sp rows snapshots act in \<open>simp_all add: exI\<close>)
qed


section \<open>From the request to the Worker\<close>

text \<open>Families and models are told apart by their keys, and a family's current model is its own.\<close>

definition families_ok :: "tdb \<Rightarrow> bool" where
  "families_ok db \<longleftrightarrow> distinct (map fam_id (t_families db)) \<and> distinct (map fam_ref (t_families db)) \<and>
     distinct (map md_model_ref (t_models db)) \<and>
     list_all (\<lambda>f. list_all (\<lambda>m. fam_current_model f = Some (md_id m) \<longrightarrow> md_family_id m = fam_id f) (t_models db)) (t_families db)"

lemma fetchone_in: "fetchone xs = Some x \<Longrightarrow> x \<in> set xs"
  by (auto simp: fetchone_def split: list.splits)

lemma fetchone_unique:
  assumes "x \<in> set xs" "P x" "\<And>y. y \<in> set xs \<Longrightarrow> P y \<Longrightarrow> y = x"
  shows "fetchone (filter P xs) = Some x"
proof (cases "filter P xs")
  case Nil
  then show ?thesis using assms(1,2) by (simp add: filter_empty_conv)
next
  case (Cons y ys)
  then have "y \<in> set (filter P xs)" by simp
  then have "y \<in> set xs" "P y" unfolding set_filter by blast+
  then have "y = x" by (rule assms(3))
  then show ?thesis using Cons by (simp add: fetchone_def)
qed

lemma distinct_key: "distinct (map k xs) \<Longrightarrow> x \<in> set xs \<Longrightarrow> y \<in> set xs \<Longrightarrow> k x = k y \<Longrightarrow> x = y"
  by (auto simp: distinct_map inj_on_def)

text \<open>The model the service looked up is the one the store finds, in the family of the request.\<close>

lemma same_family:
  assumes "get_model_record S family_ref db = Inr record'" "current_model q db = Inr (m, f, rv)"
    and "q_model_ref q = mr_model_ref record'" "families_ok db"
  shows "fam_ref f = family_ref \<and> fetchone (filter (\<lambda>g. fam_id g = fam_id f) (t_families db)) = Some f"
proof -
  obtain m' where m': "family_model db family_ref = Some m'" "mr_model_ref record' = md_model_ref m'"
    using assms(1) by (auto simp: get_model_record_def rbind_eq_Inr split: option.splits)
  obtain g where g: "g \<in> set (t_families db)" "fam_ref g = family_ref" "fam_current_model g = Some (md_id m')" "m' \<in> set (t_models db)"
    using fetchone_in[OF m'(1)[unfolded family_model_def]] by auto
  have "(m, f) \<in> set (concat (map (\<lambda>m. map (Pair m) (filter (\<lambda>f. fam_id f = md_family_id m) (t_families db)))
      (filter (\<lambda>m. md_model_ref m = q_model_ref q) (t_models db))))"
    using assms(2) by (intro fetchone_in) (auto simp: current_model_def split: option.splits prod.splits if_splits)
  then have m: "m \<in> set (t_models db)" "md_model_ref m = md_model_ref m'" "f \<in> set (t_families db)" "fam_id f = md_family_id m"
    using assms(3) m'(2) by auto
  have keys: "distinct (map fam_id (t_families db))" "distinct (map md_model_ref (t_models db))"
    using assms(4) by (simp_all add: families_ok_def)
  have "m = m'" by (rule distinct_key[OF keys(2) m(1) g(4) m(2)])
  moreover have "md_family_id m' = fam_id g" using assms(4) g by (auto simp: families_ok_def list_all_iff)
  ultimately have "f = g" using distinct_key[OF keys(1) m(3) g(1)] m(4) by simp
  then show ?thesis using g(2) m(3) distinct_key[OF keys(1)] by (auto intro!: fetchone_unique)
qed

lemma create_run_new:
  assumes "create_run E q builder key actor payload today now db = Inr (r, db')" "find_idempotency ''create_run'' key db = None"
  obtains m f rv port where "current_model q db = Inr (m, f, rv)"
    "case port of None \<Rightarrow> True | Some p \<Rightarrow> find_available_port (q_server_ref q) 29500 29600 db = Inr p"
    "create_checked_run E q builder key (payload_hash E payload) actor today now (m, f, rv) port db = Inr (r, db')"
proof -
  obtain t where t: "current_model q db = Inr t"
    using assms by (auto simp: create_run_def Let_def rbind_eq_Inr split: if_splits)
  obtain m f rv where mfr: "t = (m, f, rv)" by (cases t) auto
  obtain port where port: "(if q_requires_master_port q
      then rbind (find_available_port (q_server_ref q) 29500 29600 db) (\<lambda>p. Inr (Some p)) else Inr None) = Inr port"
    "create_checked_run E q builder key (payload_hash E payload) actor today now (m, f, rv) port db = Inr (r, db')"
    using assms t unfolding mfr by (auto simp: create_run_def Let_def rbind_eq_Inr split: if_splits)
  have "case port of None \<Rightarrow> True | Some p \<Rightarrow> find_available_port (q_server_ref q) 29500 29600 db = Inr p"
    using port(1) by (auto simp: rbind_eq_Inr split: if_splits)
  then show ?thesis using that t port(2) unfolding mfr by blast
qed

lemma port_within:
  assumes "find_available_port server lo hi db = Inr p"
  shows "p \<le> hi"
proof -
  let ?free = "filter (\<lambda>p. p \<notin> set (map p_port (filter (\<lambda>p. p_server_ref p = server) (t_port_leases db)))) [lo..<Suc hi]"
  obtain ps where "?free = p # ps" using assms unfolding find_available_port_def Let_def by (cases ?free) (simp_all del: upt_Suc)
  then have "p \<in> set ?free" by (simp only: list.set_intros)
  then have "p \<in> set [lo..<Suc hi]" by (simp only: set_filter mem_Collect_eq)
  then show ?thesis by auto
qed

lemma launchable_label:
  assumes "launchable pr l None" "safe_ref label" "label \<noteq> ''..''" "case port of None \<Rightarrow> True | Some p \<Rightarrow> p < 65536"
  shows "launchable pr label port"
  using assms by (simp add: launchable_def Let_def)

lemma build_with_first:
  assumes "build_run S E pr run_ref port vm = Inr spec" "run_ref \<noteq> ''preview''" "rs_stages spec \<noteq> []"
  shows "pr_stages pr \<noteq> [] \<and> build_stage S E pr port (vm_label vm) (vm_label vm) 1 (hd (pr_stages pr)) None = Inr (hd (rs_stages spec)) \<and>
    rs_dataset_manifest spec = dataset_manifest pr run_ref (vm_snapshot_ref vm)"
  using assms by (cases "pr_stages pr") (auto simp: build_run_def build_with_def Let_def rbind_eq_Inr split: if_splits)

lemma stage_output_nonempty: "stage_output_directory m segment number \<noteq> []"
  by (simp add: stage_output_directory_def version_root_def)

lemma built_stage_shape:
  assumes "build_stage S E pr port label segment number ns previous = Inr sp"
  shows "sp_stage_ref sp = None \<and> (\<exists>out. sp_output_directory sp = Some out \<and> out \<noteq> []) \<and> (\<exists>p. sp_private_spec sp = JObj p \<and> p \<noteq> [])"
proof -
  have "private_spec S E pr port label segment number ns N \<noteq> []" for N
    using private_spec_fields(7)[of S E pr port label segment number ns N] by auto
  then show ?thesis using assms stage_output_nonempty by (auto simp: build_stage_def Let_def rbind_eq_Inr)
qed


lemma model_record_family: "get_model_record S family_ref db = Inr record' \<Longrightarrow> mr_family_ref record' = family_ref"
  by (auto simp: get_model_record_def rbind_eq_Inr split: option.splits prod.splits)

lemma prepare_run_parts:
  assumes "prepare_run S q ignore_leases preview now db = Inr pr"
  shows "get_model_record S (ri_family_ref q) db = Inr (pr_model pr) \<and> mr_family_ref (pr_model pr) = ri_family_ref q \<and>
    pr_gpu_uuids pr = ri_gpu_uuids q"
proof -
  have "get_model_record S (ri_family_ref q) db = Inr (pr_model pr) \<and> pr_gpu_uuids pr = ri_gpu_uuids q"
    using assms by (auto simp: prepare_run_def rbind_eq_Inr split: if_splits)
  then show ?thesis using model_record_family by blast
qed

lemma version_number_bound: "list_all (\<lambda>v. v_number v < B) (t_versions db) \<Longrightarrow> 0 < B \<Longrightarrow> version_number_for f db \<le> B"
proof -
  have "0 < B \<Longrightarrow> list_all (\<lambda>n. n < B) ns \<Longrightarrow> max0 ns < B" for ns by (induction ns) simp_all
  then show "list_all (\<lambda>v. v_number v < B) (t_versions db) \<Longrightarrow> 0 < B \<Longrightarrow> ?thesis"
    by (simp add: version_number_for_def next_id_def list_all_iff Suc_le_eq)
qed

lemma version_label_ok:
  assumes "list_all is_digit today" "length today \<le> 8" "list_all (\<lambda>v. v_number v < 10 ^ 100) (t_versions db)"
  shows "safe_ref (''v'' @ nat_str (version_number_for f db) @ ''-'' @ today) \<and> ''v'' @ nat_str n @ ''-'' @ today \<noteq> ''..''"
proof -
  have "version_number_for f db \<le> 10 ^ 100" by (rule version_number_bound[OF assms(3)]) simp
  also have "(10 :: nat) ^ 100 < 10 ^ Suc 100" by (rule power_strict_increasing) simp_all
  finally have "length (nat_str (version_number_for f db)) \<le> Suc 100" by (rule nat_str_length)
  moreover have "list_all ref_char (''v'' @ nat_str (version_number_for f db) @ ''-'' @ today)"
  proof -
    have "list_all ref_char ''v-''" by code_simp
    moreover have "list_all ref_char s" if "list_all is_digit s" for s
      using that by (simp add: list_all_iff ref_char_def is_alnum_def)
    ultimately show ?thesis using assms(1) nat_str_digits by simp
  qed
  ultimately show ?thesis using assms(2) by (simp add: safe_ref_def)
qed

lemma build_run_shape:
  assumes "build_run S E pr run_ref port vm = Inr spec" "rs_stages spec \<noteq> []"
  shows "sp_stage_ref (hd (rs_stages spec)) = None \<and> (\<exists>out. sp_output_directory (hd (rs_stages spec)) = Some out \<and> out \<noteq> []) \<and>
    (\<exists>p. sp_private_spec (hd (rs_stages spec)) = JObj p \<and> p \<noteq> [])"
proof -
  obtain segment where stages: "build_stages S E pr port (vm_label vm) segment 1 None (pr_stages pr) = Inr (rs_stages spec)"
    using assms by (auto simp: build_run_def build_with_def Let_def rbind_eq_Inr split: if_splits)
  show ?thesis
  proof (cases "pr_stages pr")
    case Nil
    then show ?thesis using stages assms(2) by simp
  next
    case (Cons ns rest)
    then obtain sp sps where sp: "build_stage S E pr port (vm_label vm) segment 1 ns None = Inr sp" "sp # sps = rs_stages spec"
      using stages by (auto simp: rbind_eq_Inr)
    have "hd (rs_stages spec) = sp" by (simp flip: sp(2))
    show ?thesis using built_stage_shape[OF sp(1)] \<open>hd (rs_stages spec) = sp\<close> by simp
  qed
qed

lemma service_creates:
  assumes "service_create_run S E allowed q payload key actor today now db = Inr (r, db')"
    and "find_create_run_by_idempotency E key payload db = Inr None" "prepare_run S q True False now db = Inr pr"
  shows "create_run E (run_request_of q pr) (build_run S E pr) key actor payload today now db = Inr (r, db') \<and>
    find_idempotency ''create_run'' key db = None"
  using assms by (auto simp: service_create_run_def find_create_run_by_idempotency_def rbind_eq_Inr split: if_splits option.splits)

lemma holds_created:
  assumes "run_by_id d (r_id run) = Some run" "r_gpu_uuids run = pr_gpu_uuids pr"
    and "version_of_run d (r_id run) = Some version" "v_label version = vm_label vm" "v_family_id version = fam_id f"
    and "fetchone (filter (\<lambda>s. s_id s = s_id stage) (t_stages d)) = Some stage" "s_stage_number stage = 1"
    and "s_run_spec stage = sp_private_spec sp" "sp_output_directory sp = Some (s_output_directory stage)"
    and "fetchone (filter (\<lambda>g. fam_id g = fam_id f) (t_families d)) = Some f" "fam_ref f = mr_family_ref (pr_model pr)"
    and "vm_snapshot_ref vm = None \<longleftrightarrow> pr_splits pr = None"
    and "case fetchone (filter (\<lambda>x. ds_run_id x = r_id run) (t_snapshots d)) of None \<Rightarrow> vm_snapshot_ref vm = None
     | Some x \<Rightarrow> vm_snapshot_ref vm = Some (ds_snapshot_ref x) \<and> ds_manifest x = dataset_manifest pr (r_run_ref run) (vm_snapshot_ref vm)"
  shows "holds_stage pr (vm_label vm) 1 sp run version f stage d"
proof (cases "fetchone (filter (\<lambda>x. ds_run_id x = r_id run) (t_snapshots d))")
  case None
  then have "pr_splits pr = None" using assms(12,13) by simp
  then show ?thesis using assms(1-11) None unfolding holds_stage_def by simp
next
  case (Some x)
  then have "pr_splits pr \<noteq> None" "ds_manifest x = dataset_manifest pr (r_run_ref run) (Some (ds_snapshot_ref x))"
    using assms(12,13) by auto
  then show ?thesis using assms(1-11) Some unfolding holds_stage_def by simp
qed


text \<open>The request of the examples at a centre whose references have at most 32 characters.\<close>

definition ex_refs_env :: env where
  "ex_refs_env = ex_env\<lparr>uuid4_hex := (\<lambda>n. take 32 (nat_str n))\<rparr>"

definition ex_created :: "(run_row \<times> tdb) res" where
  "ex_created = service_create_run ex_service ex_refs_env True (ex_input ''secret'') (JObj []) ''key'' ''actor'' ''20250101'' 10 ex_center"

definition ex_request_ready :: "prepared_run \<Rightarrow> bool" where
  "ex_request_ready pr \<longleftrightarrow> launchable pr ''v1'' None \<and> lt_working_directory (mr_template (pr_model pr)) = ''/w'' \<and>
     lt_entrypoint (mr_template (pr_model pr)) = ''train.py'' \<and>
     (case stage_parameters ex_params pr (hd (pr_stages pr)) None of
        Inl _ \<Rightarrow> False | Inr N \<Rightarrow> list_all (\<lambda>(k, v). printable ex_refs_env v) N)"

lemma ex_request_prepared: "case ex_prepare ''secret'' of Inl _ \<Rightarrow> False | Inr pr \<Rightarrow> ex_request_ready pr"
  by code_simp

lemma ex_created_ok: "is_ok ex_created"
  by code_simp

lemma ex_refs_safe: "\<forall>n. safe_ref (''run_'' @ uuid4_hex ex_refs_env n) \<and> safe_ref (''stage_'' @ uuid4_hex ex_refs_env n)"
proof
  fix n
  have "list_all is_digit (take 32 (nat_str n))" using nat_str_digits[of n] by (auto simp: list_all_iff dest: in_set_takeD)
  then have "list_all ref_char (take 32 (nat_str n))" by (simp add: list_all_iff ref_char_def is_alnum_def)
  moreover have "list_all ref_char (''run_'' @ ''stage_'')" by code_simp
  ultimately show "safe_ref (''run_'' @ uuid4_hex ex_refs_env n) \<and> safe_ref (''stage_'' @ uuid4_hex ex_refs_env n)"
    by (simp add: safe_ref_def ex_refs_env_def min_le_iff_disj)
qed

lemma ex_center_ok: "rows_owned ex_center \<and> families_ok ex_center \<and> t_versions ex_center = []"
  by code_simp


end
