(* ===== verification/Spec2Isabelle.thy ===== *)
theory Spec2Isabelle
  imports Center_Properties Center_Updates Model_Properties Dataset_Properties Delivery Log_Properties
    Monitor_Properties Launch_Properties Prepare_Properties Parameter_Properties Parameter_Secrecy
    Service_Properties Built_Actions Created_Actions
begin

text \<open>
  A verification development for the training platform of DataPilot
  (\<open>src/vla_data_juicer_agents/training\<close> and \<open>training_worker\<close>).

  \<^bold>\<open>The program.\<close>  A training centre keeps runs, stages, leases of GPUs and ports, model
  configurations, nodes, released data sets and commands in one SQLite database
  (\<open>training/store.py\<close>), behind an HTTP API (\<open>training/api.py\<close>).  On every GPU node a
  Training Worker polls the centre for actions, starts each stage of a run under a supervisor
  process (\<open>training_worker/supervisor.py\<close>), follows its log and its state file
  (\<open>training_worker/execution.py\<close>), copies data sets (\<open>training_worker/datasets.py\<close>), and
  reports through numbered updates it keeps in a ledger of its own
  (\<open>training_worker/ledger.py\<close>) until the centre has taken them.

  \<^bold>\<open>How code becomes definitions.\<close>  A table is a list of records in primary-key order, a
  transaction a function from the database to \<open>py_error + result \<times> database\<close>: an exception
  gives \<open>Inl\<close> and leaves the database as it was, as the rollback does.  Python values that
  come from JSON are the datatype \<open>json\<close>; integers are unbounded as in Python.  Clocks, random
  tokens, hashes and JSON encoding are fields of the record \<open>env\<close>; nothing is assumed of them
  unless a theorem says so.  Text is a list of bytes (UTF-8), so that limits in bytes and limits
  in code points (\<open>py_len\<close>) differ as they do in the program.

  \<^bold>\<open>Prelude\<close> holds the Python and SQLite vocabulary and the locales \<open>transition_system\<close>
  (an invariant of the steps holds in every reachable state) and \<open>functional_refinement\<close>.
  Code that keeps what it did before an exception (the Worker's actions, its files) has the type
  \<open>stateful\<close>; \<open>triple\<close> is the Hoare triple over it.

  \<^bold>\<open>The centre.\<close>
  \<^item> \<open>Training_Db\<close>: the tables (\<open>migrations.py\<close>), statuses (\<open>models.py\<close>), audit, events, log
    storage.
  \<^item> \<open>Run_Engine\<close>: finishing, simulating, recovering and stopping runs; \<open>Run_Creation\<close>: creating
    a run; \<open>Real_Engine\<close>: handing out actions, their results, the numbered updates of a Worker.
  \<^item> \<open>Run_Allocation\<close> is the abstract machine of leases; \<open>Run_Refinement\<close> and
    \<open>Real_Refinement\<close> show that every operation is a sequence of its steps;
    \<open>Training_Center\<close> closes the operations into one step relation, on which
    \<open>Center_Properties\<close> (exclusive GPUs, leases, idempotent creation) and \<open>Center_Updates\<close>
    (updates applied once and in order, bounded logs, stop requests) rest.
  \<^item> \<open>Model_Registry\<close>, \<open>Model_Properties\<close>: model families and the verification of their
    configurations.
  \<^item> \<open>Node_Registry\<close>, \<open>Node_Properties\<close>: nodes, enrollment, heartbeats, removal.
  \<^item> \<open>Dataset_Transfer\<close>, \<open>Node_Commands\<close>, \<open>Command_Properties\<close>, \<open>Dataset_Properties\<close>: released
    data sets, the command queue of a node, transfers.
  \<^item> \<open>Update_Requests\<close>: the request model of the route that receives updates
    (\<open>api.py\<close>, \<open>TrainingRunUpdateRequest\<close>).

  \<^bold>\<open>The service.\<close>
  \<^item> \<open>Run_Parameters\<close>: parameter definitions, the values they accept (\<open>models.py\<close>) and the
    parameters of one stage (\<open>normalize_stage\<close> in \<open>service.py\<close>); \<open>Parameter_Resolution\<close>: the
    resolution ends and gives what the visibility conditions ask for; \<open>Model_Configuration\<close>: the
    request model of a configuration (\<open>api.py\<close>) with its check of dependencies, and the stored form;
    \<open>Parameter_Properties\<close>: what follows for a user's configuration and stages.
  \<^item> \<open>Node_Resources\<close>: the two providers of GPUs (\<open>resources.py\<close>) behind the locale
    \<open>resource_provider\<close>; \<open>Run_Builder\<close>: \<open>_prepare\<close>, \<open>preview_run\<close> and \<open>create_run\<close> of
    \<open>service.py\<close> with the builder that gives \<open>Run_Creation\<close> the specification of every stage;
    \<open>Run_Example\<close>: a family with four parameters and requests for it; \<open>Service_Properties\<close>: the
    node a prepared run is meant for.
  \<^item> \<open>Parameter_Secrecy\<close>: two requests that differ in sensitive values only are shown alike.
  \<^item> \<open>Built_Actions\<close> composes service, store and Worker: a built stage, its start action
    (\<open>start_action_payload\<close>) and the Worker's parser (\<open>parse_start\<close>); \<open>Created_Actions\<close>
    follows a request through \<open>create_run\<close>, the rows it writes and the action it queues, to that
    parser.

  \<^bold>\<open>The Worker.\<close>
  \<^item> \<open>Worker_Ledger\<close>: the ledger, its outbox and the process probe.
  \<^item> \<open>Worker_Datasets\<close>: the inventory reader and the transfer of a data set with its partial
    files, checksums, cancellation and publication.
  \<^item> \<open>Delivery\<close>: flushing the outbox through the route; the locales \<open>outbox\<close>,
    \<open>numbered_receiver\<close> and \<open>numbered_delivery\<close> state the protocol, interpreted on the ledger
    and on the centre, and give exactly-once delivery.
  \<^item> \<open>Worker_Logs\<close>, \<open>Log_Properties\<close>: reading, decoding, redacting and parsing the log, what is
    queued for it and what the centre accepts of that.
  \<^item> \<open>Worker_Execution\<close>, \<open>Monitor_Properties\<close>: the rounds of the monitoring thread and
    the reconciliation after a restart.
  \<^item> \<open>Worker_Start\<close>: the fields of a start action; \<open>Worker_Prepare\<close>: what the Worker does to the
    files of the node before a launch (output root, version marker, data set manifest and
    replicas), the GPUs and the command; \<open>Worker_Files\<close> and \<open>Prepare_Properties\<close>: what that
    leaves on the disk, and that a version directory belongs to one run.
  \<^item> \<open>Worker_Launch\<close>, \<open>Launch_Properties\<close>: start and stop actions, the durable launch intent
    and its resumption.
  \<^item> \<open>Supervisor\<close>, \<open>Supervisor_Properties\<close>: \<open>run_supervisor\<close> as a step function and a stage with
    any number of supervisors, signals, crashes and decisions as a step relation.

  \<^bold>\<open>Bounds and loops.\<close>  Loops over rows, lines and pages are structural recursion.  The log
  reader takes the limits of the code (200 lines, 262144 bytes, 16385 bytes a line);
  \<open>log_chunks\<close> terminates because each chunk takes at least one byte.  The polling loops of a
  launch run over the list of what the node shows at each poll, whose end is the deadline.
  Resolving parameters (\<open>resolve_parameter\<close>) and following dependencies
  (\<open>follow_dependencies\<close>) may go round in circles for all the code's types say; they are partial
  functions to an option, and lemmas show that both return for every input.
  The page loop of the inventory and the download loop of a file take the answers of the
  centre as a list in the same way, or a source whose pages end.

  \<^bold>\<open>Not modelled.\<close>  Remote deployment over SSH, the file-system walks of the service, the
  projections of the API and its other routes (they translate rows to JSON), the polling loops
  of the Worker's daemon.  The other products of the repository (annotation, navigation, web
  sessions, evaluation, the agent runtime and the user interfaces) do not touch this database
  and are outside this development.
\<close>

end
